(* ===== verification/Prelude.thy ===== *)
theory Prelude
  imports Main "HOL-Library.Char_ord"
begin

text \<open>
  Shared vocabulary of the development: the JavaScript string operations the program uses
  (\<^verbatim>\<open>split\<close>, \<^verbatim>\<open>trim\<close>, \<^verbatim>\<open>startsWith\<close>, \<^verbatim>\<open>includes\<close>, \<^verbatim>\<open>toLowerCase\<close>, \<^verbatim>\<open>join\<close>, number to string),
  plain JavaScript objects used as string dictionaries, and the theorem collections the
  component theories feed.  A program string is a HOL \<^typ>\<open>string\<close>, that is a list of code units
  restricted to Latin-1 (0 to 255); the routines that look at UTF-8 bytes have a wider model
  of their own in the theory on byte-bounded text.
\<close>

named_theorems js_simps \<open>evaluation of the JavaScript string helpers\<close>
named_theorems frame \<open>what an operation on the store leaves alone\<close>
named_theorems inv_intros \<open>preservation of the store invariant\<close>

section \<open>Characters\<close>

definition code_of :: "char \<Rightarrow> nat" where
  "code_of c = of_char c"

definition in_range :: "char \<Rightarrow> nat \<Rightarrow> nat \<Rightarrow> bool" where
  "in_range c lo hi \<longleftrightarrow> lo \<le> code_of c \<and> code_of c \<le> hi"

text \<open>The white space of \<^verbatim>\<open>\s\<close> and of \<^verbatim>\<open>trim\<close> within Latin-1: tab, line feed, vertical tab, form feed,
  carriage return, space and no-break space.\<close>

definition is_ws :: "char \<Rightarrow> bool" where
  "is_ws c \<longleftrightarrow> in_range c 9 13 \<or> code_of c = 32 \<or> code_of c = 160"

text \<open>The line terminators that \<^verbatim>\<open>.\<close> does not match, within Latin-1.\<close>

definition is_line_term :: "char \<Rightarrow> bool" where
  "is_line_term c \<longleftrightarrow> code_of c = 10 \<or> code_of c = 13"

definition is_digit :: "char \<Rightarrow> bool" where
  "is_digit c \<longleftrightarrow> in_range c 48 57"

definition is_upper :: "char \<Rightarrow> bool" where
  "is_upper c \<longleftrightarrow> in_range c 65 90"

definition is_lower :: "char \<Rightarrow> bool" where
  "is_lower c \<longleftrightarrow> in_range c 97 122"

text \<open>The class \<^verbatim>\<open>\w\<close>.\<close>

definition is_word :: "char \<Rightarrow> bool" where
  "is_word c \<longleftrightarrow> is_digit c \<or> is_upper c \<or> is_lower c \<or> code_of c = 95"

text \<open>The class \<^verbatim>\<open>[A-Z_]\<close> of output keys.\<close>

definition is_key_char :: "char \<Rightarrow> bool" where
  "is_key_char c \<longleftrightarrow> is_upper c \<or> code_of c = 95"

definition to_lower :: "char \<Rightarrow> char" where
  "to_lower c = (if in_range c 65 90 \<or> (in_range c 192 222 \<and> code_of c \<noteq> 215)
                 then char_of (code_of c + 32) else c)"

definition lower :: "string \<Rightarrow> string" where
  "lower s = map to_lower s"

definition newline :: char where
  "newline = CHR 0x0A"

lemmas char_class_defs =
  code_of_def in_range_def is_ws_def is_line_term_def is_digit_def is_upper_def is_lower_def
  is_word_def is_key_char_def newline_def

lemmas char_eval [js_simps] =
  char_class_defs lower_def to_lower_def char_of_def bit_0

lemma to_lower_idem [simp]: "to_lower (to_lower c) = to_lower c"
proof -
  have "code_of c < 256" by (simp add: code_of_def)
  then show ?thesis
    by (auto simp: to_lower_def in_range_def code_of_def)
qed

lemma lower_idem [simp]: "lower (lower s) = lower s"
  by (simp add: lower_def)

lemma lower_append [simp]: "lower (a @ b) = lower a @ lower b"
  by (simp add: lower_def)

lemma length_lower [simp]: "length (lower s) = length s"
  by (simp add: lower_def)

lemma newline_not_word [simp]: "\<not> is_word newline"
  by (simp add: char_class_defs)

lemma newline_not_key_char [simp]: "\<not> is_key_char newline"
  by (simp add: char_class_defs)

lemma newline_is_line_term [simp]: "is_line_term newline"
  by (simp add: char_class_defs)

lemma line_term_is_ws: "is_line_term c \<Longrightarrow> is_ws c"
  by (auto simp: char_class_defs)

lemma key_char_not_ws: "is_key_char c \<Longrightarrow> \<not> is_ws c"
  by (auto simp: char_class_defs)

section \<open>Strings\<close>

text \<open>\<^verbatim>\<open>s.split(sep)\<close> for a separator of one character: always at least one piece.\<close>

fun split_on :: "char \<Rightarrow> string \<Rightarrow> string list" where
  "split_on d [] = [[]]"
| "split_on d (c # cs) =
     (if c = d then [] # split_on d cs
      else (case split_on d cs of [] \<Rightarrow> [[c]] | l # ls \<Rightarrow> (c # l) # ls))"

text \<open>\<^verbatim>\<open>xs.join(sep)\<close>.\<close>

fun join :: "string \<Rightarrow> string list \<Rightarrow> string" where
  "join sep [] = []"
| "join sep [x] = x"
| "join sep (x # y # ys) = x @ sep @ join sep (y # ys)"

definition trim_start :: "string \<Rightarrow> string" where
  "trim_start s = dropWhile is_ws s"

definition trim_end :: "string \<Rightarrow> string" where
  "trim_end s = rev (dropWhile is_ws (rev s))"

definition trim :: "string \<Rightarrow> string" where
  "trim s = trim_end (trim_start s)"

fun starts_with :: "string \<Rightarrow> string \<Rightarrow> bool" where
  "starts_with [] s = True"
| "starts_with (p # ps) [] = False"
| "starts_with (p # ps) (c # cs) = (p = c \<and> starts_with ps cs)"

fun str_includes :: "string \<Rightarrow> string \<Rightarrow> bool" where
  "str_includes p [] = (p = [])"
| "str_includes p (c # cs) = (starts_with p (c # cs) \<or> str_includes p cs)"

text \<open>\<^verbatim>\<open>s.indexOf(p, from)\<close>: the least position at or after \<^verbatim>\<open>from\<close> where \<open>p\<close> starts.\<close>

fun index_of :: "string \<Rightarrow> string \<Rightarrow> nat option" where
  "index_of p [] = (if p = [] then Some 0 else None)"
| "index_of p (c # cs) =
     (if starts_with p (c # cs) then Some 0 else map_option Suc (index_of p cs))"

definition digit_char :: "nat \<Rightarrow> char" where
  "digit_char d = char_of (48 + d)"

fun nat_str :: "nat \<Rightarrow> string" where
  "nat_str n = (if n < 10 then [digit_char n] else nat_str (n div 10) @ [digit_char (n mod 10)])"

declare nat_str.simps [simp del]

definition int_str :: "int \<Rightarrow> string" where
  "int_str i = (if i < 0 then ''-'' @ nat_str (nat (- i)) else nat_str (nat i))"

lemma split_on_not_Nil [simp]: "split_on d s \<noteq> []"
  by (induction s) (auto split: list.splits)

lemma split_on_no_sep: "d \<notin> set s \<Longrightarrow> split_on d s = [s]"
  by (induction s) auto

lemma split_on_append_sep:
  "d \<notin> set a \<Longrightarrow> split_on d (a @ d # b) = a # split_on d b"
  by (induction a) auto

lemma split_on_pieces: "l \<in> set (split_on d s) \<Longrightarrow> d \<notin> set l"
proof (induction s arbitrary: l)
  case Nil
  then show ?case by simp
next
  case (Cons c cs)
  then show ?case
    by (auto split: list.splits if_splits)
qed

lemma join_Cons: "ys \<noteq> [] \<Longrightarrow> join sep (x # ys) = x @ sep @ join sep ys"
  by (cases ys) auto

lemma join_split_on: "join [d] (split_on d s) = s"
proof (induction s)
  case Nil
  then show ?case by simp
next
  case (Cons c cs)
  obtain l ls where ls: "split_on d cs = l # ls"
    by (cases "split_on d cs") simp_all
  show ?case
  proof (cases "c = d")
    case True
    then show ?thesis using Cons ls by (simp add: join_Cons)
  next
    case False
    then show ?thesis using Cons ls by (cases ls) simp_all
  qed
qed

lemma split_on_join:
  "ls \<noteq> [] \<Longrightarrow> \<forall>l \<in> set ls. d \<notin> set l \<Longrightarrow> split_on d (join [d] ls) = ls"
proof (induction ls)
  case Nil
  then show ?case by simp
next
  case (Cons l ls)
  show ?case
  proof (cases ls)
    case Nil
    then show ?thesis using Cons.prems by (simp add: split_on_no_sep)
  next
    case (Cons m ms)
    then show ?thesis
      using Cons.prems Cons.IH by (simp add: split_on_append_sep)
  qed
qed

lemma join_append:
  "xs \<noteq> [] \<Longrightarrow> ys \<noteq> [] \<Longrightarrow> join sep (xs @ ys) = join sep xs @ sep @ join sep ys"
proof (induction xs)
  case Nil
  then show ?case by simp
next
  case (Cons x xs)
  then show ?case by (cases xs) (simp_all add: join_Cons)
qed

lemma starts_with_iff: "starts_with p s \<longleftrightarrow> (\<exists>r. s = p @ r)"
proof (induction p s rule: starts_with.induct)
  case (1 s)
  then show ?case by simp
next
  case (2 p ps)
  then show ?case by simp
next
  case (3 p ps c cs)
  then show ?case by auto
qed

lemma starts_with_append [simp]: "starts_with p (p @ r)"
  by (simp add: starts_with_iff)

lemma dropWhile_ws_first: "dropWhile P s = c # r \<Longrightarrow> \<not> P c"
  by (metis dropWhile_eq_Cons_conv)

lemma trim_end_append: "r \<noteq> [] \<Longrightarrow> \<not> is_ws (last r) \<Longrightarrow> trim_end (a @ r) = a @ r"
proof -
  assume "r \<noteq> []" "\<not> is_ws (last r)"
  then obtain r' c where "r = r' @ [c]" "\<not> is_ws c"
    by (metis append_butlast_last_id)
  then show ?thesis by (simp add: trim_end_def)
qed

lemma trim_id:
  "s = [] \<or> (\<not> is_ws (hd s) \<and> \<not> is_ws (last s)) \<Longrightarrow> trim s = s"
proof (elim disjE conjE)
  assume "s = []"
  then show ?thesis by (simp add: trim_def trim_start_def trim_end_def)
next
  assume h: "\<not> is_ws (hd s)" and l: "\<not> is_ws (last s)"
  show ?thesis
  proof (cases s)
    case Nil
    then show ?thesis by (simp add: trim_def trim_start_def trim_end_def)
  next
    case (Cons c cs)
    then have "trim_start s = s" using h by (simp add: trim_start_def)
    then show ?thesis using l Cons trim_end_append [of s "[]"] by (simp add: trim_def)
  qed
qed

lemma trim_start_idem: "trim_start (trim_start s) = trim_start s"
  by (simp add: trim_start_def)

lemma trim_end_idem: "trim_end (trim_end s) = trim_end s"
  by (simp add: trim_end_def)

lemma code_of_digit_char: "d < 10 \<Longrightarrow> code_of (digit_char d) = 48 + d"
  by (simp add: code_of_def digit_char_def)

lemma digit_char_inj: "a < 10 \<Longrightarrow> b < 10 \<Longrightarrow> digit_char a = digit_char b \<Longrightarrow> a = b"
  by (metis add_left_cancel code_of_digit_char)

lemma nat_str_not_Nil [simp]: "nat_str n \<noteq> []"
  by (subst nat_str.simps) simp

lemma nat_str_not_Nil' [simp]: "[] \<noteq> nat_str n"
  by (metis nat_str_not_Nil)

lemma nat_str_inj: "nat_str m = nat_str n \<Longrightarrow> m = n"
proof (induction m arbitrary: n rule: nat_str.induct)
  case (1 m)
  show ?case
  proof (cases "m < 10")
    case True
    then have m: "nat_str m = [digit_char m]" by (simp add: nat_str.simps)
    show ?thesis
    proof (cases "n < 10")
      case True
      then have "nat_str n = [digit_char n]" by (simp add: nat_str.simps)
      then show ?thesis using m 1 True \<open>m < 10\<close> digit_char_inj by simp
    next
      case False
      then have "nat_str n = nat_str (n div 10) @ [digit_char (n mod 10)]"
        by (subst nat_str.simps) simp
      then show ?thesis using m 1 by simp
    qed
  next
    case False
    then have m: "nat_str m = nat_str (m div 10) @ [digit_char (m mod 10)]"
      by (subst nat_str.simps) simp
    show ?thesis
    proof (cases "n < 10")
      case True
      then have "nat_str n = [digit_char n]" by (simp add: nat_str.simps)
      then show ?thesis using m 1 by simp
    next
      case n: False
      then have "nat_str n = nat_str (n div 10) @ [digit_char (n mod 10)]"
        by (subst nat_str.simps) simp
      then have "nat_str (m div 10) = nat_str (n div 10)" "digit_char (m mod 10) = digit_char (n mod 10)"
        using m "1.prems" by simp_all
      then have "m div 10 = n div 10" "m mod 10 = n mod 10"
        using "1.IH" [OF False] digit_char_inj by simp_all
      then show ?thesis by (metis div_mult_mod_eq)
    qed
  qed
qed

section \<open>Plain objects as string dictionaries\<close>

text \<open>
  A \<^verbatim>\<open>Record<string, string>\<close> literal such as the run context is a JavaScript object: its own
  properties are a finite map, and every object also inherits the properties of
  \<^verbatim>\<open>Object.prototype\<close>.  Assigning a string to \<^verbatim>\<open>o["__proto__"]\<close> is a no-op.
\<close>

type_synonym ctx = "string \<rightharpoonup> string"

definition object_prototype_keys :: "string list" where
  "object_prototype_keys =
     [''constructor'', ''__defineGetter__'', ''__defineSetter__'', ''hasOwnProperty'',
      ''__lookupGetter__'', ''__lookupSetter__'', ''isPrototypeOf'', ''propertyIsEnumerable'',
      ''toString'', ''valueOf'', ''__proto__'', ''toLocaleString'']"

text \<open>The text of an inherited property when it is converted to a string.\<close>

definition inherited_text :: "string \<Rightarrow> string" where
  "inherited_text k =
     (if k = ''__proto__'' then ''[object Object]''
      else if k = ''constructor'' then ''function Object() { [native code] }''
      else ''function '' @ k @ ''() { [native code] }'')"

definition obj_put :: "ctx \<Rightarrow> string \<Rightarrow> string \<Rightarrow> ctx" where
  "obj_put m k v = (if k = ''__proto__'' then m else m(k \<mapsto> v))"

text \<open>The value of \<^verbatim>\<open>m[k] || ""\<close> for an own property, the form the code uses for truthiness tests.\<close>

definition get_or_empty :: "ctx \<Rightarrow> string \<Rightarrow> string" where
  "get_or_empty m k = (case m k of None \<Rightarrow> [] | Some v \<Rightarrow> v)"

definition truthy :: "ctx \<Rightarrow> string \<Rightarrow> bool" where
  "truthy m k \<longleftrightarrow> get_or_empty m k \<noteq> []"

lemma obj_put_own [simp]: "k \<noteq> ''__proto__'' \<Longrightarrow> obj_put m k v = m(k \<mapsto> v)"
  by (simp add: obj_put_def)

lemma obj_put_other: "k' \<noteq> k \<Longrightarrow> obj_put m k v k' = m k'"
  by (simp add: obj_put_def)

section \<open>Rows of a table\<close>

text \<open>\<^verbatim>\<open>UPDATE t SET f WHERE P\<close> and \<^verbatim>\<open>SELECT .. WHERE P LIMIT 1\<close> over the rows in insertion order.\<close>

definition upd_where :: "('r \<Rightarrow> bool) \<Rightarrow> ('r \<Rightarrow> 'r) \<Rightarrow> 'r list \<Rightarrow> 'r list" where
  "upd_where P f rs = map (\<lambda>r. if P r then f r else r) rs"

lemma length_upd_where [simp]: "length (upd_where P f rs) = length rs"
  by (simp add: upd_where_def)

lemma upd_where_Nil [simp]: "upd_where P f [] = []"
  by (simp add: upd_where_def)

lemma upd_where_Cons [simp]:
  "upd_where P f (r # rs) = (if P r then f r else r) # upd_where P f rs"
  by (simp add: upd_where_def)

lemma upd_where_none: "\<forall>r \<in> set rs. \<not> P r \<Longrightarrow> upd_where P f rs = rs"
  by (induction rs) auto

lemma map_upd_where: "(\<And>r. g (f r) = g r) \<Longrightarrow> map g (upd_where P f rs) = map g rs"
  by (induction rs) auto

lemma set_upd_where:
  "r \<in> set (upd_where P f rs) \<longleftrightarrow>
     (\<exists>r0 \<in> set rs. r = (if P r0 then f r0 else r0))"
  by (auto simp: upd_where_def)

lemma filter_upd_where_frame:
  assumes "\<And>r. P r \<Longrightarrow> \<not> Q r" "\<And>r. P r \<Longrightarrow> \<not> Q (f r)"
  shows "filter Q (upd_where P f rs) = filter Q rs"
  using assms by (induction rs) auto


text \<open>\<^verbatim>\<open>ORDER BY k ASC LIMIT 1\<close> and \<^verbatim>\<open>ORDER BY k DESC LIMIT 1\<close>: the least or greatest row, the
  earliest among equals.\<close>

fun first_min :: "('r \<Rightarrow> 'k::linorder) \<Rightarrow> 'r list \<Rightarrow> 'r option" where
  "first_min k [] = None"
| "first_min k (x # xs) =
     (case first_min k xs of
        None \<Rightarrow> Some x
      | Some y \<Rightarrow> if k y < k x then Some y else Some x)"

fun first_max :: "('r \<Rightarrow> 'k::linorder) \<Rightarrow> 'r list \<Rightarrow> 'r option" where
  "first_max k [] = None"
| "first_max k (x # xs) =
     (case first_max k xs of
        None \<Rightarrow> Some x
      | Some y \<Rightarrow> if k x < k y then Some y else Some x)"

lemma first_min_None [simp]: "first_min k xs = None \<longleftrightarrow> xs = []"
  by (cases xs) (auto split: option.splits)

lemma first_min_Some:
  "first_min k xs = Some x \<Longrightarrow> x \<in> set xs \<and> (\<forall>y \<in> set xs. k x \<le> k y)"
proof (induction xs arbitrary: x)
  case Nil
  then show ?case by simp
next
  case (Cons a xs)
  show ?case
  proof (cases "first_min k xs")
    case None
    then show ?thesis using Cons.prems by simp
  next
    case (Some y)
    with Cons.IH have "y \<in> set xs" "\<forall>z \<in> set xs. k y \<le> k z" by blast+
    then show ?thesis using Cons.prems Some by (cases "k y < k a") (auto intro: order.trans)
  qed
qed

lemma first_max_None [simp]: "first_max k xs = None \<longleftrightarrow> xs = []"
  by (cases xs) (auto split: option.splits)

lemma first_max_Some:
  "first_max k xs = Some x \<Longrightarrow> x \<in> set xs \<and> (\<forall>y \<in> set xs. k y \<le> k x)"
proof (induction xs arbitrary: x)
  case Nil
  then show ?case by simp
next
  case (Cons a xs)
  show ?case
  proof (cases "first_max k xs")
    case None
    then show ?thesis using Cons.prems by simp
  next
    case (Some y)
    with Cons.IH have "y \<in> set xs" "\<forall>z \<in> set xs. k z \<le> k y" by blast+
    then show ?thesis using Cons.prems Some by (cases "k a < k y") (auto intro: order.trans)
  qed
qed

lemma find_filter_hd: "List.find P xs = (case filter P xs of [] \<Rightarrow> None | x # _ \<Rightarrow> Some x)"
  by (induction xs) auto

end
