(* ===== verification/Output_Text.thy ===== *)
theory Output_Text
  imports Prelude
begin

text \<open>
  What the program reads out of an agent's reply and out of a step's declaration:
  \<^verbatim>\<open>parseOutputKeyValues\<close> (\<^verbatim>\<open>src/src/installer/step-ops.ts\<close>), \<^verbatim>\<open>parseExpectedKeys\<close>,
  \<^verbatim>\<open>checkExpectsAcceptsVariant\<close> (\<^verbatim>\<open>src/src/installer/workflow-contract.ts\<close>) and
  \<^verbatim>\<open>validateExpects\<close>.  The fixed regular expressions of these functions are written out as
  scanners, their greedy and backtracking behaviour included; the patterns a workflow author
  writes after \<^verbatim>\<open>regex:\<close> are compiled by a parameter \<open>rx\<close>, which gives \<open>None\<close> for a pattern
  that \<^verbatim>\<open>new RegExp\<close> rejects and otherwise the result of \<^verbatim>\<open>test\<close>.
\<close>

section \<open>KEY: value lines\<close>

text \<open>\<^verbatim>\<open>/^([A-Z_]+):\s*(.*)$/\<close> on a line: the dot stops at a line terminator, so a carriage
  return left in the value defeats the match, whatever the white space gives back.\<close>

definition key_line :: "string \<Rightarrow> (string \<times> string) option" where
  "key_line line =
     (let k = takeWhile is_key_char line; r = dropWhile is_key_char line
      in if k = [] then None
         else (case r of
                 [] \<Rightarrow> None
               | c # r' \<Rightarrow>
                   if c \<noteq> CHR '':'' then None
                   else (let v = dropWhile is_ws r'
                         in if list_ex is_line_term v then None else Some (k, v))))"

definition commitPending :: "ctx \<Rightarrow> (string \<times> string) option \<Rightarrow> ctx" where
  "commitPending result pending =
     (case pending of
        None \<Rightarrow> result
      | Some (k, v) \<Rightarrow>
          if starts_with ''STORIES_JSON'' k then result
          else obj_put result (lower k) (trim v))"

fun parse_lines :: "ctx \<Rightarrow> (string \<times> string) option \<Rightarrow> string list \<Rightarrow> ctx" where
  "parse_lines result pending [] = commitPending result pending"
| "parse_lines result pending (line # ls) =
     (case key_line line of
        Some (k, v) \<Rightarrow> parse_lines (commitPending result pending) (Some (k, v)) ls
      | None \<Rightarrow>
          (case pending of
             None \<Rightarrow> parse_lines result None ls
           | Some (k, v) \<Rightarrow> parse_lines result (Some (k, v @ newline # line)) ls))"

definition parseOutputKeyValues :: "string \<Rightarrow> ctx" where
  "parseOutputKeyValues out = parse_lines Map.empty None (split_on newline out)"

definition RESERVED_CONTEXT_KEYS :: "string list" where
  "RESERVED_CONTEXT_KEYS =
     [''repo'', ''working_directory_for_harness'', ''task'', ''run_id'', ''workspace_mode'',
      ''worktree_path'', ''worktree_origin_repository'', ''worktree_origin_ref'',
      ''worktree_origin_sha'', ''original_branch'', ''merge_gate'', ''fail_missing'',
      ''test_cmd_raw'', ''test_cmd_review_required'', ''test_cmd_review_candidate'',
      ''test_cmd_review_established'', ''test_cmd_rewriter_step'']"

lemma key_line_SomeD:
  "key_line line = Some (k, v) \<Longrightarrow> k \<noteq> [] \<and> (\<forall>c \<in> set k. is_key_char c)"
  by (auto simp: key_line_def Let_def dest: set_takeWhileD split: if_splits list.splits)

lemma key_line_render:
  assumes "k \<noteq> []" "\<forall>c \<in> set k. is_key_char c" "\<not> list_ex is_line_term v"
    "v = [] \<or> \<not> is_ws (hd v)"
  shows "key_line (k @ '': '' @ v) = Some (k, v)"
proof -
  have colon: "\<not> is_key_char (CHR '':'')" and sp: "is_ws (CHR '' '')"
    by (simp_all add: char_class_defs)
  have t: "takeWhile is_key_char (k @ '': '' @ v) = k"
    and d: "dropWhile is_key_char (k @ '': '' @ v) = '': '' @ v"
    using assms(2) colon by (simp_all add: takeWhile_append dropWhile_append)
  have w: "dropWhile is_ws (CHR '' '' # v) = v"
    using assms(4) sp by (cases v) auto
  show ?thesis unfolding key_line_def t d using assms(1,3) w sp by (simp add: Let_def)
qed

text \<open>Lines that open no key extend the pending value.\<close>

lemma parse_lines_continue:
  "\<forall>l \<in> set conts. key_line l = None \<Longrightarrow>
   parse_lines result (Some (k, v)) (conts @ ls) =
   parse_lines result (Some (k, v @ concat (map (\<lambda>l. newline # l) conts))) ls"
  by (induction conts arbitrary: v) auto

lemma parse_lines_commit:
  "key_line l = Some kv \<Longrightarrow>
   parse_lines result pending (l # ls) = parse_lines (commitPending result pending) (Some kv) ls"
  by (cases kv) simp

lemma join_newline_lines:
  "l # conts = split_on newline v \<Longrightarrow> l @ concat (map (\<lambda>x. newline # x) conts) = v"
proof -
  have gen: "l @ concat (map (\<lambda>x. newline # x) conts) = join [newline] (l # conts)" for l conts
  proof (induction conts arbitrary: l)
    case Nil
    then show ?case by simp
  next
    case (Cons m ms)
    show ?case using Cons.IH [of m] by (cases ms) simp_all
  qed
  assume "l # conts = split_on newline v"
  then show ?thesis using gen join_split_on [of newline v] by simp
qed

text \<open>An entry that a reply can carry: an upper-case key, a value without outer white space
  whose first line holds no stray carriage return and whose later lines open no other key.\<close>

definition entry_ok :: "string \<times> string \<Rightarrow> bool" where
  "entry_ok e \<longleftrightarrow>
     (case e of (k, v) \<Rightarrow>
        k \<noteq> [] \<and> list_all is_key_char k \<and> \<not> starts_with ''STORIES_JSON'' k
        \<and> k \<noteq> ''__PROTO__''
        \<and> (v = [] \<or> \<not> is_ws (hd v) \<and> \<not> is_ws (last v))
        \<and> \<not> list_ex is_line_term (hd (split_on newline v))
        \<and> list_all (\<lambda>l. key_line l = None) (tl (split_on newline v)))"

definition render_entry :: "string \<times> string \<Rightarrow> string" where
  "render_entry e = fst e @ '': '' @ snd e"

definition render_entries :: "(string \<times> string) list \<Rightarrow> string" where
  "render_entries es = join [newline] (map render_entry es)"

lemma split_on_prefix_free:
  "d \<notin> set a \<Longrightarrow> split_on d (a @ b) = (a @ hd (split_on d b)) # tl (split_on d b)"
proof (induction a)
  case Nil
  then show ?case by (cases "split_on d b") simp_all
next
  case (Cons c cs)
  then have "c \<noteq> d" by auto
  then show ?case using Cons by simp
qed

lemma lower_key_proto:
  "list_all is_key_char k \<Longrightarrow> lower k = ''__proto__'' \<Longrightarrow> k = ''__PROTO__''"
proof -
  have step: "is_key_char c \<Longrightarrow> to_lower c = d \<Longrightarrow>
      c = (if code_of d = 95 then d else char_of (code_of d - 32))" for c d
    by (auto simp: is_key_char_def is_upper_def in_range_def to_lower_def code_of_def)
  assume k: "list_all is_key_char k" and e: "lower k = ''__proto__''"
  then have "k = map (\<lambda>d. if code_of d = 95 then d else char_of (code_of d - 32)) ''__proto__''"
    unfolding e [symmetric] lower_def
    by (induction k) (auto dest: step)
  then show ?thesis by (simp add: code_of_def char_of_def bit_0)
qed


lemma split_on_append_gen: "split_on d (a @ d # b) = split_on d a @ split_on d b"
proof (induction a)
  case Nil
  then show ?case by simp
next
  case (Cons c cs)
  obtain l ls where "split_on d cs = l # ls" by (cases "split_on d cs") simp_all
  then show ?case using Cons by simp
qed

lemma split_on_join_gen:
  "xs \<noteq> [] \<Longrightarrow> split_on d (join [d] xs) = concat (map (split_on d) xs)"
proof (induction xs)
  case Nil
  then show ?case by simp
next
  case (Cons x xs)
  then show ?case by (cases xs) (simp_all add: split_on_append_gen)
qed

lemma entry_first_line_start:
  assumes "v = [] \<or> \<not> is_ws (hd v)"
  shows "hd (split_on newline v) = [] \<or> \<not> is_ws (hd (hd (split_on newline v)))"
proof (cases v)
  case Nil
  then show ?thesis by simp
next
  case (Cons c cs)
  obtain l ls where "split_on newline cs = l # ls" by (cases "split_on newline cs") simp_all
  then show ?thesis using Cons assms by simp
qed

lemma entry_lines:
  assumes "entry_ok (k, v)"
  obtains l ls where "split_on newline (render_entry (k, v)) = l # ls"
    "key_line l = Some (k, hd (split_on newline v))" "\<forall>x \<in> set ls. key_line x = None"
    "hd (split_on newline v) # ls = split_on newline v"
proof -
  let ?f = "hd (split_on newline v)" and ?t = "tl (split_on newline v)"
  have k: "\<forall>c \<in> set k. is_key_char c" "k \<noteq> []"
    using assms by (auto simp: entry_ok_def list_all_iff)
  have "newline \<notin> set (k @ '': '')" using k by (auto simp: newline_def char_class_defs)
  then have sp: "split_on newline (render_entry (k, v)) = (k @ '': '' @ ?f) # ?t"
    using split_on_prefix_free [of newline "k @ '': ''" v] by (simp add: render_entry_def)
  have "key_line (k @ '': '' @ ?f) = Some (k, ?f)"
  proof (rule key_line_render)
    show "k \<noteq> []" "\<forall>c \<in> set k. is_key_char c" by (fact k)+
    show "\<not> list_ex is_line_term ?f" using assms by (simp add: entry_ok_def)
    show "?f = [] \<or> \<not> is_ws (hd ?f)"
      by (rule entry_first_line_start) (use assms in \<open>auto simp: entry_ok_def\<close>)
  qed
  moreover have "\<forall>x \<in> set ?t. key_line x = None"
    using assms by (simp add: entry_ok_def list_all_iff)
  moreover have "?f # ?t = split_on newline v" by (rule list.collapse) simp
  ultimately show ?thesis using sp by (intro that)
qed

lemma commit_entry:
  assumes "entry_ok (k, v)"
  shows "commitPending r (Some (k, v)) = r(lower k \<mapsto> v)"
proof -
  have "lower k \<noteq> ''__proto__''"
    using assms lower_key_proto [of k] by (auto simp: entry_ok_def)
  moreover have "trim v = v"
    using assms by (intro trim_id) (auto simp: entry_ok_def)
  ultimately show ?thesis using assms by (simp add: commitPending_def entry_ok_def)
qed

lemma parse_entry:
  assumes "entry_ok (k, v)"
  shows "parse_lines r p (split_on newline (render_entry (k, v)) @ ls) =
         parse_lines (commitPending r p) (Some (k, v)) ls"
proof -
  let ?f = "hd (split_on newline v)"
  from assms obtain l cs where l: "split_on newline (render_entry (k, v)) = l # cs"
    "key_line l = Some (k, ?f)" "\<forall>x \<in> set cs. key_line x = None" "?f # cs = split_on newline v"
    by (rule entry_lines)
  have "?f @ concat (map (\<lambda>x. newline # x) cs) = v"
    using l(4) by (rule join_newline_lines)
  then show ?thesis using l parse_lines_continue [OF l(3)] by simp
qed

lemma parse_entries:
  "list_all entry_ok es \<Longrightarrow>
   parse_lines r p (concat (map (split_on newline \<circ> render_entry) es)) =
   foldl (\<lambda>m (k, v). m(lower k \<mapsto> v)) (commitPending r p) es"
proof (induction es arbitrary: r p)
  case Nil
  then show ?case by simp
next
  case (Cons e es)
  obtain k v where e: "e = (k, v)" by (cases e)
  with Cons.prems have ok: "entry_ok (k, v)" and oks: "list_all entry_ok es" by simp_all
  show ?case
    using Cons.IH [OF oks] ok by (simp add: e parse_entry commit_entry)
qed

lemma foldl_map_upd:
  "foldl (\<lambda>m (k, v). m(lower k \<mapsto> v)) m es =
   m ++ map_of (rev (map (\<lambda>(k, v). (lower k, v)) es))"
  by (induction es arbitrary: m) (auto simp: map_add_def fun_eq_iff split: option.splits)

text \<open>C1.  A reply that is a list of \<^verbatim>\<open>KEY: value\<close> entries, values over several lines included,
  parses to exactly those entries under lower-case keys, a repeated key keeping its last value.\<close>

theorem parseOutputKeyValues_roundtrip:
  assumes "list_all entry_ok es"
  shows "parseOutputKeyValues (render_entries es) =
         map_of (rev (map (\<lambda>(k, v). (lower k, v)) es))"
proof (cases "es = []")
  case True
  then show ?thesis
    by (simp add: parseOutputKeyValues_def render_entries_def key_line_def commitPending_def)
next
  case False
  then have "split_on newline (render_entries es) =
      concat (map (split_on newline \<circ> render_entry) es)"
    by (simp add: render_entries_def split_on_join_gen)
  then show ?thesis
    using parse_entries [OF assms, of Map.empty None]
    by (simp add: parseOutputKeyValues_def commitPending_def foldl_map_upd)
qed

theorem parseOutputKeyValues_roundtrip_witness:
  "parseOutputKeyValues (render_entries [(''STATUS'', ''done''), (''CHANGES'', ''a'' @ newline # ''b'')])
     ''changes'' = Some (''a'' @ newline # ''b'')"
proof -
  have "list_all entry_ok [(''STATUS'', ''done''), (''CHANGES'', ''a'' @ newline # ''b'')]"
    by code_simp
  from parseOutputKeyValues_roundtrip [OF this] show ?thesis
    by (simp add: js_simps)
qed

end
