(* ===== verification/Contract.thy ===== *)
theory Contract
  imports Output_Text
begin

text \<open>
  The step contract of \<^verbatim>\<open>src/src/installer/workflow-contract.ts\<close>: the keys and status variants a
  step's \<^verbatim>\<open>Reply with:\<close> block declares, what its \<^verbatim>\<open>expects\<close> accepts and enforces, and
  \<^verbatim>\<open>validateExpects\<close> of \<^verbatim>\<open>src/src/installer/step-ops.ts\<close>, which judges a reply.  The parameter
  \<open>rx\<close> compiles and tests a workflow author's regular expression (\<open>None\<close>: rejected pattern).
\<close>

type_synonym rx_test = "string \<Rightarrow> string \<Rightarrow> bool option"

section \<open>The Reply-with header\<close>

text \<open>Case-insensitive prefix test, as the \<^verbatim>\<open>i\<close> flag does on ASCII literals.\<close>

definition strip_ci :: "string \<Rightarrow> string \<Rightarrow> string option" where
  "strip_ci p s =
     (if lower (take (length p) s) = lower p then Some (drop (length p) s) else None)"

text \<open>After the colon, \<^verbatim>\<open>\s*$\<close> under the \<^verbatim>\<open>m\<close> flag: all white space to the end of the text, or
  back to the last line terminator of the run.\<close>

definition header_end :: "string \<Rightarrow> string option" where
  "header_end s =
     (let w = takeWhile is_ws s; x = dropWhile is_ws s
      in if x = [] then Some []
         else (case dropWhile (\<lambda>c. \<not> is_line_term c) (rev w) of
                 [] \<Rightarrow> None
               | ds \<Rightarrow> Some (drop (length ds - 1) w @ x)))"

definition header_here :: "string \<Rightarrow> string option" where
  "header_here s =
     (case strip_ci ''Reply'' (dropWhile (\<lambda>c. c = CHR 0x09 \<or> c = CHR '' '') s) of
        None \<Rightarrow> None
      | Some [] \<Rightarrow> None
      | Some (d # r) \<Rightarrow>
          if d \<noteq> CHR ''-'' \<and> d \<noteq> CHR '' '' then None
          else (case strip_ci ''with'' r of
                  None \<Rightarrow> None
                | Some r' \<Rightarrow>
                    (case dropWhile is_ws r' of
                       [] \<Rightarrow> None
                     | c # r'' \<Rightarrow> if c = CHR '':'' then header_end r'' else None)))"

text \<open>The text after the leftmost header, tried at every line start.\<close>

fun find_header :: "bool \<Rightarrow> string \<Rightarrow> string option" where
  "find_header at_start [] = None"
| "find_header at_start (c # cs) =
     (case (if at_start then header_here (c # cs) else None) of
        Some r \<Rightarrow> Some r
      | None \<Rightarrow> find_header (is_line_term c) cs)"

section \<open>Declared keys and variants\<close>

definition blank :: "string \<Rightarrow> bool" where
  "blank s \<longleftrightarrow> trim s = []"

definition skip_indent :: "string \<Rightarrow> string" where
  "skip_indent s = dropWhile (\<lambda>c. c = CHR 0x09 \<or> c = CHR '' '') s"

text \<open>Insertion into a JavaScript \<^verbatim>\<open>Set\<close> kept as the list of its elements in insertion order.\<close>

definition set_add :: "'a list \<Rightarrow> 'a \<Rightarrow> 'a list" where
  "set_add xs x = (if x \<in> set xs then xs else xs @ [x])"

fun expected_lines :: "bool \<Rightarrow> string list \<Rightarrow> string list \<Rightarrow> string list" where
  "expected_lines started keys [] = keys"
| "expected_lines started keys (raw # ls) =
     (let line = trim_end raw
      in if \<not> started \<and> blank line then expected_lines started keys ls
         else if blank line then keys
         else (case key_line (skip_indent line) of
                 Some (k, _) \<Rightarrow> expected_lines True (set_add keys (lower k)) ls
               | None \<Rightarrow> expected_lines True keys ls))"

definition parseExpectedKeys :: "string \<Rightarrow> string list" where
  "parseExpectedKeys inputTemplate =
     (case find_header True inputTemplate of
        None \<Rightarrow> []
      | Some after \<Rightarrow> expected_lines False [] (split_on newline after))"

text \<open>\<^verbatim>\<open>/^[\t ]*STATUS:\s*(.+)$/\<close> on a line whose end is trimmed.\<close>

definition status_line :: "string \<Rightarrow> string option" where
  "status_line line =
     (let s = skip_indent line
      in if starts_with ''STATUS:'' s
         then (let v = dropWhile is_ws (drop 7 s)
               in if v = [] \<or> list_ex is_line_term v then None else Some v)
         else None)"

fun variant_lines :: "bool \<Rightarrow> string list \<Rightarrow> string list \<Rightarrow> string list" where
  "variant_lines started vs [] = vs"
| "variant_lines started vs (raw # ls) =
     (let line = trim_end raw
      in if blank line then variant_lines started vs ls
         else (case status_line line of
                 Some v \<Rightarrow>
                   variant_lines True
                     (foldl (\<lambda>acc part. let x = lower (trim part)
                                        in if x = [] then acc else set_add acc x)
                            vs (split_on (CHR ''|'') (trim v))) ls
               | None \<Rightarrow> variant_lines True vs ls))"

definition parseStatusVariants :: "string \<Rightarrow> string list" where
  "parseStatusVariants inputTemplate =
     (case find_header True inputTemplate of
        None \<Rightarrow> []
      | Some after \<Rightarrow> variant_lines False [] (split_on newline after))"

section \<open>What expects accepts\<close>

text \<open>\<^verbatim>\<open>/^STATUS:\s*(.+)$/i\<close>.\<close>

definition literal_status :: "string \<Rightarrow> string option" where
  "literal_status line =
     (case strip_ci ''STATUS:'' line of
        None \<Rightarrow> None
      | Some r \<Rightarrow>
          (let v = dropWhile is_ws r
           in if v = [] \<or> list_ex is_line_term v then None else Some v))"

text \<open>\<^verbatim>\<open>/^regex:\^(STATUS:.+)/i\<close> and the same without the caret; the group runs to the line's end.\<close>

definition regex_status :: "string \<Rightarrow> string \<Rightarrow> string option" where
  "regex_status prefix line =
     (case strip_ci prefix line of
        None \<Rightarrow> None
      | Some r \<Rightarrow>
          (case strip_ci ''STATUS:'' r of
             None \<Rightarrow> None
           | Some v \<Rightarrow>
               (let g = takeWhile (\<lambda>c. \<not> is_line_term c) v
                in if g = [] then None else Some (take 7 r @ g))))"

definition accepts_line :: "rx_test \<Rightarrow> string \<Rightarrow> string \<Rightarrow> bool" where
  "accepts_line rx variant line =
     (case literal_status line of
        Some v \<Rightarrow>
          list_ex (\<lambda>part. lower (trim part) = lower variant) (split_on (CHR ''|'') (trim v))
      | None \<Rightarrow>
          (case regex_status ''regex:^'' line of
             Some g \<Rightarrow> rx g (''STATUS: '' @ variant) = Some True
           | None \<Rightarrow>
               (case regex_status ''regex:'' line of
                  Some g \<Rightarrow> rx g (''STATUS: '' @ variant) = Some True
                | None \<Rightarrow> False)))"

definition checkExpectsAcceptsVariant :: "rx_test \<Rightarrow> string \<Rightarrow> string \<Rightarrow> bool" where
  "checkExpectsAcceptsVariant rx expects variant =
     list_ex (\<lambda>raw. let line = trim raw in line \<noteq> [] \<and> accepts_line rx variant line)
       (split_on newline expects)"

definition hasTwoDotBaseComparison :: "string \<Rightarrow> bool" where
  "hasTwoDotBaseComparison template =
     list_ex (\<lambda>line. str_includes ''git diff'' line \<and> \<not> str_includes ''...'' line
                     \<and> str_includes ''..{{'' line)
       (split_on newline template)"

section \<open>Judging a reply\<close>

text \<open>\<^verbatim>\<open>/^STATUS:\s*(\S+)/m\<close>: the first line start followed by \<^verbatim>\<open>STATUS:\<close> and, possibly after
  line breaks, a non-blank token.\<close>

fun find_status :: "bool \<Rightarrow> string \<Rightarrow> string option" where
  "find_status at_start [] = None"
| "find_status at_start (c # cs) =
     (let v = takeWhile (\<lambda>x. \<not> is_ws x) (dropWhile is_ws (drop 7 (c # cs)))
      in if at_start \<and> starts_with ''STATUS:'' (c # cs) \<and> v \<noteq> [] then Some v
         else find_status (is_line_term c) cs)"

datatype expects_error =
  RegexMismatch string
| RegexInvalid string
| MissingString string

definition expects_line_error :: "rx_test \<Rightarrow> string \<Rightarrow> string \<Rightarrow> expects_error option" where
  "expects_line_error rx out line =
     (let trimmed = trim line
      in if trimmed = [] then None
         else if starts_with ''regex:'' trimmed
         then (let p = drop 6 trimmed
               in case rx p out of
                    None \<Rightarrow> Some (RegexInvalid p)
                  | Some True \<Rightarrow> None
                  | Some False \<Rightarrow> Some (RegexMismatch p))
         else if str_includes trimmed out then None
         else Some (MissingString trimmed))"

fun first_error :: "('a \<Rightarrow> 'e option) \<Rightarrow> 'a list \<Rightarrow> 'e option" where
  "first_error f [] = None"
| "first_error f (x # xs) = (case f x of Some e \<Rightarrow> Some e | None \<Rightarrow> first_error f xs)"

text \<open>The accepted status variant that ends the check before any \<^verbatim>\<open>expects\<close> line is read.\<close>

definition variant_shortcut :: "rx_test \<Rightarrow> string \<Rightarrow> string \<Rightarrow> bool" where
  "variant_shortcut rx out expects =
     (case find_status True out of
        None \<Rightarrow> False
      | Some v \<Rightarrow> lower v \<noteq> ''done'' \<and> checkExpectsAcceptsVariant rx expects v)"

definition validateExpects :: "rx_test \<Rightarrow> string \<Rightarrow> string \<Rightarrow> expects_error option" where
  "validateExpects rx out expects =
     (if blank expects then None
      else if variant_shortcut rx out expects then None
      else first_error (expects_line_error rx out) (split_on newline expects))"

text \<open>The text stored as the step's retry feedback.\<close>

definition expects_error_text :: "expects_error \<Rightarrow> string" where
  "expects_error_text e =
     (case e of
        RegexMismatch p \<Rightarrow> ''Output does not match expects regex: '' @ p
      | RegexInvalid p \<Rightarrow> ''Invalid expects regex pattern: '' @ p
      | MissingString s \<Rightarrow> ''Output missing expects string: \"'' @ s @ ''\"'')"

lemma first_error_None: "first_error f xs = None \<longleftrightarrow> (\<forall>x \<in> set xs. f x = None)"
  by (induction xs) (auto split: option.splits)

lemma first_error_Some:
  "first_error f xs = Some e \<Longrightarrow> \<exists>ys x zs. xs = ys @ x # zs \<and> f x = Some e \<and> (\<forall>y \<in> set ys. f y = None)"
proof (induction xs)
  case Nil
  then show ?case by simp
next
  case (Cons a xs)
  show ?case
  proof (cases "f a")
    case None
    with Cons obtain ys x zs where "xs = ys @ x # zs" "f x = Some e" "\<forall>y \<in> set ys. f y = None"
      by auto
    with None show ?thesis by (intro exI [of _ "a # ys"] exI [of _ x] exI [of _ zs]) simp
  next
    case (Some b)
    with Cons.prems show ?thesis by (intro exI [of _ "[]"]) auto
  qed
qed

text \<open>What a single line of \<^verbatim>\<open>expects\<close> demands of a reply.\<close>

definition line_satisfied :: "rx_test \<Rightarrow> string \<Rightarrow> string \<Rightarrow> bool" where
  "line_satisfied rx out line \<longleftrightarrow>
     (blank line
      \<or> (starts_with ''regex:'' (trim line) \<and> rx (drop 6 (trim line)) out = Some True)
      \<or> (\<not> starts_with ''regex:'' (trim line) \<and> str_includes (trim line) out))"

lemma expects_line_error_None:
  "expects_line_error rx out line = None \<longleftrightarrow> line_satisfied rx out line"
  by (auto simp: expects_line_error_def line_satisfied_def blank_def Let_def
           split: option.splits bool.splits)

lemma validateExpects_None:
  "validateExpects rx out expects = None \<longleftrightarrow>
     blank expects \<or> variant_shortcut rx out expects
     \<or> list_all (line_satisfied rx out) (split_on newline expects)"
  by (auto simp: validateExpects_def first_error_None expects_line_error_None list_all_iff)

lemma set_add_distinct: "distinct xs \<Longrightarrow> distinct (set_add xs x)"
  by (simp add: set_add_def)

lemma set_set_add [simp]: "set (set_add xs x) = insert x (set xs)"
  by (auto simp: set_add_def)

lemma expected_lines_distinct: "distinct keys \<Longrightarrow> distinct (expected_lines st keys ls)"
  by (induction st keys ls rule: expected_lines.induct)
     (auto simp: Let_def set_add_distinct split: option.splits)

lemma expected_lines_lower:
  "\<forall>k \<in> set keys. lower k = k \<Longrightarrow> k \<in> set (expected_lines st keys ls) \<Longrightarrow> lower k = k"
  by (induction st keys ls rule: expected_lines.induct)
     (auto simp: Let_def split: option.splits if_splits)

lemma parseExpectedKeys_lower: "k \<in> set (parseExpectedKeys t) \<Longrightarrow> lower k = k"
  using expected_lines_lower [of "[]"]
  by (fastforce simp: parseExpectedKeys_def split: option.splits)

lemma parseExpectedKeys_distinct: "distinct (parseExpectedKeys t)"
  by (simp add: parseExpectedKeys_def expected_lines_distinct split: option.splits)

end
