(* ===== verification/Contract_Props.thy ===== *)
theory Contract_Props
  imports Contract
begin

text \<open>
  What a contract accepts, stated on its abstract syntax.  A contract is a list of clauses, one line each: a status
  line with its variants, a pattern for the status line, any other pattern, a literal text.  The reply is judged
  against the clauses and against the status it reports, neither of which mentions the scanners of the code.
\<close>

section \<open>The status a reply reports\<close>

text \<open>\<open>out\<close> has, after \<open>a\<close>, a line start with \<^verbatim>\<open>STATUS:\<close>, white space (line breaks count) and the token \<open>v\<close>.  The flag
  says whether the text itself starts a line.\<close>

definition status_at :: "bool \<Rightarrow> string \<Rightarrow> string \<Rightarrow> string \<Rightarrow> bool" where
  "status_at st out a v \<longleftrightarrow>
     (\<exists>ws b. out = a @ ''STATUS:'' @ ws @ v @ b \<and> list_all is_ws ws
        \<and> v \<noteq> [] \<and> \<not> list_ex is_ws v \<and> (b = [] \<or> is_ws (hd b)))
     \<and> (if a = [] then st else is_line_term (last a))"

text \<open>The status reported is the token of the first such place.\<close>

definition reports :: "string \<Rightarrow> string \<Rightarrow> bool" where
  "reports out v \<longleftrightarrow>
     (\<exists>a. status_at True out a v \<and> (\<forall>a' v'. status_at True out a' v' \<longrightarrow> length a \<le> length a'))"

lemma token_split:
  assumes "list_all is_ws ws" "v \<noteq> []" "\<not> list_ex is_ws v" "b = [] \<or> is_ws (hd b)"
  shows "takeWhile (\<lambda>x. \<not> is_ws x) (dropWhile is_ws (ws @ v @ b)) = v"
proof -
  obtain c r where v: "v = c # r" using assms(2) by (cases v) auto
  have "dropWhile is_ws (ws @ v @ b) = v @ b"
    using assms(1,3) v by (simp add: dropWhile_append list_all_iff)
  moreover have "takeWhile (\<lambda>x. \<not> is_ws x) (v @ b) = v"
    using assms(3,4) by (cases b) (auto simp: takeWhile_append list_ex_iff)
  ultimately show ?thesis by simp
qed

lemma status_here:
  "status_at st out [] v \<longleftrightarrow>
     st \<and> starts_with ''STATUS:'' out \<and> v \<noteq> []
     \<and> v = takeWhile (\<lambda>x. \<not> is_ws x) (dropWhile is_ws (drop 7 out))"
proof
  assume "status_at st out [] v"
  then show "st \<and> starts_with ''STATUS:'' out \<and> v \<noteq> []
     \<and> v = takeWhile (\<lambda>x. \<not> is_ws x) (dropWhile is_ws (drop 7 out))"
  proof -
    obtain ws b where "out = ''STATUS:'' @ ws @ v @ b" "list_all is_ws ws" "v \<noteq> []" "\<not> list_ex is_ws v"
        "b = [] \<or> is_ws (hd b)" and st
      using \<open>status_at st out [] v\<close> by (auto simp: status_at_def simp del: append_Cons)
    then show ?thesis using token_split [of ws v b] by (simp del: append_Cons)
  qed
next
  assume h: "st \<and> starts_with ''STATUS:'' out \<and> v \<noteq> []
     \<and> v = takeWhile (\<lambda>x. \<not> is_ws x) (dropWhile is_ws (drop 7 out))"
  then obtain r where r: "out = ''STATUS:'' @ r" by (auto simp: starts_with_iff)
  let ?n = "\<lambda>x. \<not> is_ws x"
  have v: "v = takeWhile ?n (dropWhile is_ws r)" using h r by simp
  have "out = [] @ ''STATUS:'' @ takeWhile is_ws r @ v @ dropWhile ?n (dropWhile is_ws r)"
    using r v by simp
  moreover have "list_all is_ws (takeWhile is_ws r)" by (auto simp: list_all_iff dest: set_takeWhileD)
  moreover have "\<not> list_ex is_ws v" unfolding v by (auto simp: list_ex_iff dest: set_takeWhileD)
  moreover have "dropWhile ?n (dropWhile is_ws r) = [] \<or> is_ws (hd (dropWhile ?n (dropWhile is_ws r)))"
    using hd_dropWhile by blast
  ultimately show "status_at st out [] v" unfolding status_at_def using h by (metis (no_types))
qed

lemma status_later:
  "status_at st (c # cs) (x # a) v \<longleftrightarrow> x = c \<and> status_at (is_line_term c) cs a v"
  by (auto simp: status_at_def)

lemma status_Nil [simp]: "\<not> status_at st [] a v"
  by (simp add: status_at_def)

lemma find_status_sound:
  "find_status st out = Some v \<Longrightarrow>
     \<exists>a. status_at st out a v \<and> (\<forall>a' v'. status_at st out a' v' \<longrightarrow> length a \<le> length a')"
proof (induction st out rule: find_status.induct)
  case (1 st)
  then show ?case by simp
next
  case (2 st c cs)
  show ?case
  proof (cases "\<exists>v'. status_at st (c # cs) [] v'")
    case True
    then have "status_at st (c # cs) [] v" using 2(2) by (auto simp: status_here Let_def split: if_splits)
    then show ?thesis by fastforce
  next
    case False
    then have "find_status (is_line_term c) cs = Some v"
      using 2(2) by (auto simp: status_here Let_def split: if_splits)
    from 2(1) [OF refl _ this] obtain a where a: "status_at (is_line_term c) cs a v"
      "\<forall>a' v'. status_at (is_line_term c) cs a' v' \<longrightarrow> length a \<le> length a'"
      using False by (auto simp: status_here)
    have "length (c # a) \<le> length a'" if "status_at st (c # cs) a' v'" for a' v'
      using that False a(2) by (cases a') (auto simp: status_later)
    moreover have "status_at st (c # cs) (c # a) v" using a(1) by (simp add: status_later)
    ultimately show ?thesis by blast
  qed
qed

lemma find_status_complete: "status_at st out a v \<Longrightarrow> find_status st out \<noteq> None"
proof (induction st out arbitrary: a rule: find_status.induct)
  case (1 st)
  then show ?case by simp
next
  case (2 st c cs)
  show ?case
  proof (cases a)
    case Nil
    then have "status_at st (c # cs) [] v" using 2(2) by simp
    then have h: "st" "starts_with ''STATUS:'' (c # cs)"
        "takeWhile (\<lambda>x. \<not> is_ws x) (dropWhile is_ws (drop 7 (c # cs))) \<noteq> []"
      unfolding status_here by blast+
    then show ?thesis unfolding find_status.simps Let_def by (simp only: simp_thms if_True option.simps)
  next
    case (Cons x a')
    then have "status_at (is_line_term c) cs a' v" using 2(2) by (simp add: status_later)
    then show ?thesis using 2(1) by (auto simp: Let_def)
  qed
qed

lemma status_unique:
  "status_at st out a v \<Longrightarrow> status_at st out a' v' \<Longrightarrow> length a = length a' \<Longrightarrow> v = v'"
proof (induction a arbitrary: a' st out)
  case Nil
  then show ?case by (simp add: status_here)
next
  case (Cons x a)
  then show ?case by (cases a'; cases out) (auto simp: status_later)
qed

lemma reports_iff: "find_status True out = Some v \<longleftrightarrow> reports out v"
proof
  assume "find_status True out = Some v"
  then show "reports out v" unfolding reports_def by (rule find_status_sound)
next
  assume r: "reports out v"
  then obtain a where a: "status_at True out a v" "\<forall>a' v'. status_at True out a' v' \<longrightarrow> length a \<le> length a'"
    by (auto simp: reports_def)
  then obtain v' where v': "find_status True out = Some v'" using find_status_complete by blast
  then obtain a' where "status_at True out a' v'" "\<forall>b w. status_at True out b w \<longrightarrow> length a' \<le> length b"
    using find_status_sound by blast
  then have "v = v'" using a status_unique by (meson le_antisym)
  then show "find_status True out = Some v" using v' by simp
qed

section \<open>Clauses\<close>

datatype clause =
  Variants "string list"
| StatusPattern string
| Pattern string
| Literal string

fun clause_text :: "clause \<Rightarrow> string" where
  "clause_text (Variants vs) = ''STATUS: '' @ join ''|'' vs"
| "clause_text (StatusPattern g) = ''regex:^STATUS:'' @ g"
| "clause_text (Pattern p) = ''regex:'' @ p"
| "clause_text (Literal l) = l"

definition contract_text :: "clause list \<Rightarrow> string" where
  "contract_text cs = join [newline] (map clause_text cs)"

text \<open>A variant is a word; a pattern or literal is a trimmed line that is none of the other clauses.\<close>

definition one_line :: "string \<Rightarrow> bool" where
  "one_line s \<longleftrightarrow> s \<noteq> [] \<and> \<not> list_ex is_line_term s \<and> \<not> is_ws (last s)"

fun clause_ok :: "clause \<Rightarrow> bool" where
  "clause_ok (Variants vs) \<longleftrightarrow>
     vs \<noteq> [] \<and> list_all (\<lambda>v. v \<noteq> [] \<and> \<not> list_ex is_ws v \<and> CHR ''|'' \<notin> set v) vs"
| "clause_ok (StatusPattern g) \<longleftrightarrow> one_line g"
| "clause_ok (Pattern p) \<longleftrightarrow>
     one_line p \<and> lower (take 7 p) \<noteq> ''status:'' \<and> lower (take 8 p) \<noteq> ''^status:''"
| "clause_ok (Literal l) \<longleftrightarrow>
     one_line l \<and> \<not> is_ws (hd l) \<and> lower (take 7 l) \<noteq> ''status:'' \<and> lower (take 6 l) \<noteq> ''regex:''"

text \<open>The statuses a clause allows, and what it demands of any other reply.\<close>

fun allows :: "rx_test \<Rightarrow> string \<Rightarrow> clause \<Rightarrow> bool" where
  "allows rx v (Variants vs) \<longleftrightarrow> lower v \<in> lower ` set vs"
| "allows rx v (StatusPattern g) \<longleftrightarrow> rx (''STATUS:'' @ g) (''STATUS: '' @ v) = Some True"
| "allows rx v (Pattern p) \<longleftrightarrow> False"
| "allows rx v (Literal l) \<longleftrightarrow> False"

definition occurs :: "string \<Rightarrow> string \<Rightarrow> bool" where
  "occurs p s \<longleftrightarrow> (\<exists>a b. s = a @ p @ b)"

fun demands :: "rx_test \<Rightarrow> string \<Rightarrow> clause \<Rightarrow> bool" where
  "demands rx out (StatusPattern g) \<longleftrightarrow> rx (''^STATUS:'' @ g) out = Some True"
| "demands rx out (Pattern p) \<longleftrightarrow> rx p out = Some True"
| "demands rx out (Variants vs) \<longleftrightarrow> occurs (''STATUS: '' @ join ''|'' vs) out"
| "demands rx out (Literal l) \<longleftrightarrow> occurs l out"

lemma occurs_iff: "str_includes p s \<longleftrightarrow> occurs p s"
proof (induction s)
  case Nil
  then show ?case by (simp add: occurs_def)
next
  case (Cons c cs)
  have "occurs p (c # cs) \<longleftrightarrow> (\<exists>b. c # cs = p @ b) \<or> occurs p cs"
    unfolding occurs_def by (metis append_Cons append_Nil list.exhaust list.inject)
  then show ?case using Cons by (simp add: starts_with_iff)
qed

section \<open>The lines of a contract\<close>

lemma join_last: "vs \<noteq> [] \<Longrightarrow> last vs \<noteq> [] \<Longrightarrow> join sep vs \<noteq> [] \<and> last (join sep vs) = last (last vs)"
proof (induction vs)
  case Nil
  then show ?case by simp
next
  case (Cons v vs)
  then show ?case by (cases "vs = []") (simp_all add: join_Cons)
qed

lemma join_set: "set (join sep vs) \<subseteq> \<Union> (set ` set vs) \<union> set sep"
proof (induction vs)
  case Nil
  then show ?case by simp
next
  case (Cons v vs)
  then show ?case by (cases vs) (auto simp: join_Cons)
qed

lemma variants_text:
  assumes "clause_ok (Variants vs)"
  shows "join ''|'' vs \<noteq> []" "\<not> is_ws (hd (join ''|'' vs))" "\<not> is_ws (last (join ''|'' vs))"
    "\<not> list_ex is_line_term (join ''|'' vs)" "split_on (CHR ''|'') (join ''|'' vs) = vs"
proof -
  from assms have vs: "vs \<noteq> []" "\<And>v. v \<in> set vs \<Longrightarrow> v \<noteq> [] \<and> \<not> list_ex is_ws v \<and> CHR ''|'' \<notin> set v"
    by (auto simp: list_all_iff)
  obtain u us where u: "vs = u # us" using vs(1) by (cases vs) auto
  obtain d r where d: "u = d # r" "\<not> is_ws d" using vs(2) [of u] u by (cases u) auto
  then show "join ''|'' vs \<noteq> []" "\<not> is_ws (hd (join ''|'' vs))" using u by (cases us; simp)+
  have "last vs \<noteq> []" "\<not> is_ws (last (last vs))" using vs by (metis last_in_set list_ex_iff)+
  then show "\<not> is_ws (last (join ''|'' vs))" using join_last [OF vs(1)] by simp
  have "\<not> is_line_term c" if "c \<in> set (join ''|'' vs)" for c
  proof -
    have "c = CHR ''|'' \<or> (\<exists>v \<in> set vs. c \<in> set v)" using join_set [of "''|''" vs] that by auto
    moreover have "\<not> is_line_term CHR ''|''" by code_simp
    ultimately show ?thesis using vs(2) line_term_is_ws by (metis list_ex_iff)
  qed
  then show "\<not> list_ex is_line_term (join ''|'' vs)" by (auto simp: list_ex_iff)
  show "split_on (CHR ''|'') (join ''|'' vs) = vs" using split_on_join [OF vs(1)] vs(2) by blast
qed

lemma clause_line:
  assumes "clause_ok c"
  shows "trim (clause_text c) = clause_text c" "newline \<notin> set (clause_text c)" "clause_text c \<noteq> []"
    "\<not> is_ws (hd (clause_text c))"
proof -
  have l: "list_ex is_line_term s" if "newline \<in> set s" for s
  proof -
    have "is_line_term newline" by code_simp
    then show ?thesis using that by (metis list_ex_iff)
  qed
  have w: "\<not> is_ws CHR ''S''" "\<not> is_ws CHR ''r''" by code_simp+
  show "trim (clause_text c) = clause_text c"
    using assms variants_text(1-3) by (cases c) (auto intro!: trim_id simp: one_line_def w)
  show "newline \<notin> set (clause_text c)"
    using assms variants_text(4) l by (cases c) (auto simp: one_line_def newline_def)
  show "clause_text c \<noteq> []" using assms by (cases c) (auto simp: one_line_def)
  show "\<not> is_ws (hd (clause_text c))" using assms by (cases c) (auto simp: w)
qed

lemma accepts_clause:
  assumes "clause_ok c"
  shows "accepts_line rx v (clause_text c) = allows rx v c"
proof -
  have low: "lower ''STATUS:'' = ''status:''" "lower ''regex:'' = ''regex:''" "lower ''regex:^'' = ''regex:^''"
    by code_simp+
  have "to_lower CHR ''r'' \<noteq> CHR ''s''" by code_simp
  then have no_literal: "literal_status (CHR ''r'' # s) = None" for s
    by (simp add: literal_status_def strip_ci_def low) (simp add: lower_def)
  show ?thesis
  proof (cases c)
    case (Variants vs)
    let ?j = "join ''|'' vs"
    have ok: "clause_ok (Variants vs)" using assms Variants by simp
    obtain d r where d: "?j = d # r" "\<not> is_ws d" using variants_text(1,2) [OF ok] by (cases ?j) auto
    have "strip_ci ''STATUS:'' (''STATUS: '' @ ?j) = Some ('' '' @ ?j)"
      by (simp add: strip_ci_def)
    moreover have "dropWhile is_ws ('' '' @ ?j) = ?j"
      using d by (simp add: is_ws_def code_of_def)
    ultimately have "literal_status (clause_text c) = Some ?j"
      using variants_text(1,4) [OF ok] Variants by (simp add: literal_status_def Let_def)
    moreover have "trim ?j = ?j" using variants_text(2,3) [OF ok] by (simp add: trim_id)
    moreover have "list_ex (\<lambda>x. lower (trim x) = lower v) vs = (lower v \<in> lower ` set vs)"
    proof -
      have "x \<in> set vs \<Longrightarrow> trim x = x" for x
        using ok by (intro trim_id) (auto simp: list_all_iff list_ex_iff)
      then show ?thesis by (auto simp: list_ex_iff intro: rev_image_eqI)
    qed
    ultimately show ?thesis using variants_text(5) [OF ok] Variants by (simp add: accepts_line_def)
  next
    case (StatusPattern g)
    then have g: "g \<noteq> []" "\<not> list_ex is_line_term g" using assms by (auto simp: one_line_def)
    have whole: "takeWhile (\<lambda>c. \<not> is_line_term c) g = g" using g(2) by (simp only: takeWhile_eq_all_conv list_ex_iff) blast
    then have "regex_status ''regex:^'' (''regex:^STATUS:'' @ g) = Some (''STATUS:'' @ g)"
      by (simp add: regex_status_def strip_ci_def Let_def whole g(1))
    moreover have "literal_status (''regex:^STATUS:'' @ g) = None" using no_literal by simp
    ultimately show ?thesis using StatusPattern by (simp add: accepts_line_def del: append_Cons)
  next
    case (Pattern p)
    then obtain d r where p: "p = d # r" using assms by (cases p) (auto simp: one_line_def)
    have caret: "to_lower CHR ''^'' = CHR ''^''" by code_simp
    have 8: "lower (take 8 p) = to_lower d # lower (take 7 r)" using p by (simp add: lower_def)
    have "strip_ci ''regex:^'' (''regex:'' @ p) = None \<or> strip_ci ''STATUS:'' r = None"
    proof (rule disjCI)
      assume "strip_ci ''STATUS:'' r \<noteq> None"
      then have "lower (take 7 r) = ''status:''" by (simp add: strip_ci_def low eval_nat_numeral split: if_splits)
      then have "to_lower d \<noteq> to_lower CHR ''^''" using assms Pattern 8 caret by simp
      then show "strip_ci ''regex:^'' (''regex:'' @ p) = None" using p by (simp add: strip_ci_def lower_def)
    qed
    then have "regex_status ''regex:^'' (''regex:'' @ p) = None"
      using p by (auto simp: regex_status_def strip_ci_def split: if_splits)
    moreover have "regex_status ''regex:'' (''regex:'' @ p) = None"
      using assms Pattern by (simp add: regex_status_def strip_ci_def low eval_nat_numeral)
    moreover have "literal_status (''regex:'' @ p) = None" using no_literal by simp
    ultimately show ?thesis using Pattern by (simp add: accepts_line_def del: append_Cons)
  next
    case (Literal l)
    have "take 6 (lower (take 7 l)) = lower (take 6 l)" by (simp add: lower_def take_map)
    then have "lower (take 7 l) \<noteq> ''regex:^''" using assms Literal by auto
    then have "literal_status l = None" "regex_status ''regex:^'' l = None" "regex_status ''regex:'' l = None"
      using assms Literal by (simp_all add: literal_status_def regex_status_def strip_ci_def low eval_nat_numeral)
    then show ?thesis using Literal by (simp add: accepts_line_def)
  qed
qed

lemma satisfied_clause:
  assumes "clause_ok c"
  shows "line_satisfied rx out (clause_text c) = demands rx out c"
proof -
  have r: "\<not> starts_with ''regex:'' l" if "lower (take 6 l) \<noteq> ''regex:''" for l
  proof
    assume "starts_with ''regex:'' l"
    then have "take 6 l = ''regex:''" by (auto simp: starts_with_iff)
    moreover have "lower ''regex:'' = ''regex:''" by code_simp
    ultimately show False using that by simp
  qed
  show ?thesis
    using assms clause_line [OF assms] r
    by (cases c) (auto simp: line_satisfied_def blank_def occurs_iff)
qed

lemma contract_lines:
  assumes "cs \<noteq> []" "list_all clause_ok cs"
  shows "split_on newline (contract_text cs) = map clause_text cs" "\<not> blank (contract_text cs)"
proof -
  show s: "split_on newline (contract_text cs) = map clause_text cs"
    unfolding contract_text_def using assms clause_line(2) by (intro split_on_join) (auto simp: list_all_iff)
  obtain c cs' where c: "cs = c # cs'" using assms(1) by (cases cs) auto
  have "hd (clause_text c) \<in> set (contract_text cs)"
    using clause_line(3) [of c] assms(2) c by (cases cs') (auto simp: contract_text_def join_Cons)
  moreover have "\<not> is_ws (hd (clause_text c))"
    using clause_line(4) [of c] assms(2) c by simp
  moreover have "list_all is_ws s" if "blank s" for s
  proof -
    have "list_all is_ws (dropWhile is_ws s)"
      using that by (simp add: blank_def trim_def trim_start_def trim_end_def list_all_iff)
    then have "dropWhile is_ws s = []" by (cases "dropWhile is_ws s") (auto dest: dropWhile_ws_first)
    then show ?thesis by (simp add: list_all_iff)
  qed
  ultimately show "\<not> blank (contract_text cs)" by (auto simp: list_all_iff)
qed



end
