(* ===== verification/Template.thy ===== *)
theory Template
  imports Output_Text
begin

text \<open>
  Step templates (\<^verbatim>\<open>src/src/installer/step-ops.ts\<close>): the placeholders \<^verbatim>\<open>{{key}}\<close>, their
  substitution, the search for missing keys, and the wrapping of the test command that the
  rendered template carries.
\<close>

section \<open>Placeholders\<close>

text \<open>The rest of a key after its first word character, for \<^verbatim>\<open>\w+(?:\.\w+)*\<close>: word characters,
  and dots that a word character follows.\<close>

fun key_rest :: "string \<Rightarrow> string \<times> string" where
  "key_rest [] = ([], [])"
| "key_rest (c # cs) =
     (if is_word c then (let (k, r) = key_rest cs in (c # k, r))
      else if c = CHR ''.''
      then (case cs of
              [] \<Rightarrow> ([], c # cs)
            | d # ds \<Rightarrow> if is_word d then (let (k, r) = key_rest cs in (c # k, r)) else ([], c # cs))
      else ([], c # cs))"

definition match_hole :: "string \<Rightarrow> (string \<times> string) option" where
  "match_hole s =
     (case s of
        a # b # c # cs \<Rightarrow>
          if a = CHR ''{'' \<and> b = CHR ''{'' \<and> is_word c
          then (case key_rest (c # cs) of
                  (k, x # y # r) \<Rightarrow>
                    if x = CHR ''}'' \<and> y = CHR ''}'' then Some (k, r) else None
                | _ \<Rightarrow> None)
          else None
      | _ \<Rightarrow> None)"

datatype piece = Lit char | Hole string

lemma key_rest_length: "key_rest s = (k, r) \<Longrightarrow> length k + length r = length s"
proof (induction s arbitrary: k r)
  case Nil
  then show ?case by simp
next
  case (Cons c cs)
  obtain k' r' where kr: "key_rest cs = (k', r')" by (cases "key_rest cs")
  have "length k' + length r' = length cs" by (rule Cons.IH) (rule kr)
  then show ?case using Cons.prems kr
    by (cases cs) (auto split: if_splits)
qed

lemma match_hole_length: "match_hole s = Some (k, r) \<Longrightarrow> length r < length s"
  by (auto simp: match_hole_def split: list.splits if_splits prod.splits
           dest!: key_rest_length)

text \<open>The global match of \<^verbatim>\<open>template.replace(/../g, callback)\<close>: literal characters and holes, left to
  right, a match continuing after its closing braces.\<close>

function pieces :: "string \<Rightarrow> piece list" where
  "pieces s =
     (case s of
        [] \<Rightarrow> []
      | c # cs \<Rightarrow>
          (case match_hole s of
             Some (k, r) \<Rightarrow> Hole k # pieces r
           | None \<Rightarrow> Lit c # pieces cs))"
  by pat_completeness auto
termination
  by (relation "measure length") (auto dest: match_hole_length)

declare pieces.simps [simp del]

definition holes :: "string \<Rightarrow> string list" where
  "holes t = concat (map (\<lambda>p. case p of Hole k \<Rightarrow> [k] | Lit _ \<Rightarrow> []) (pieces t))"

section \<open>Substitution\<close>

text \<open>\<^verbatim>\<open>key in context\<close> sees inherited properties too.\<close>

definition in_object :: "ctx \<Rightarrow> string \<Rightarrow> bool" where
  "in_object m k \<longleftrightarrow> m k \<noteq> None \<or> k \<in> set object_prototype_keys"

definition object_get :: "ctx \<Rightarrow> string \<Rightarrow> string" where
  "object_get m k = (case m k of Some v \<Rightarrow> v | None \<Rightarrow> inherited_text k)"

definition hole_value :: "ctx \<Rightarrow> string \<Rightarrow> string" where
  "hole_value context key =
     (if in_object context key then object_get context key
      else if in_object context (lower key) then object_get context (lower key)
      else ''[missing: '' @ key @ '']'')"

definition render_piece :: "ctx \<Rightarrow> piece \<Rightarrow> string" where
  "render_piece context p = (case p of Lit c \<Rightarrow> [c] | Hole k \<Rightarrow> hole_value context k)"

definition resolveTemplate :: "string \<Rightarrow> ctx \<Rightarrow> string" where
  "resolveTemplate template context = concat (map (render_piece context) (pieces template))"

section \<open>Missing and required keys\<close>

fun missing_from :: "ctx \<Rightarrow> string list \<Rightarrow> string list \<Rightarrow> string list" where
  "missing_from context seen [] = []"
| "missing_from context seen (key # ks) =
     (let lk = lower key
      in if context key = None \<and> context lk = None \<and> lk \<notin> set seen
         then lk # missing_from context (lk # seen) ks
         else missing_from context seen ks)"

definition findMissingTemplateKeys :: "string \<Rightarrow> ctx \<Rightarrow> string list" where
  "findMissingTemplateKeys template context = missing_from context [] (holes template)"

fun add_keys :: "string list \<Rightarrow> string list \<Rightarrow> string list" where
  "add_keys keys [] = keys"
| "add_keys keys (k # ks) =
     add_keys (if lower k \<in> set keys then keys else keys @ [lower k]) ks"

definition templateKeys :: "string \<Rightarrow> string list" where
  "templateKeys template = add_keys [] (holes template)"

lemma set_missing_from:
  "set (missing_from m seen ks) =
     {lower k | k. k \<in> set ks \<and> m k = None \<and> m (lower k) = None \<and> lower k \<notin> set seen}"
  by (induction m seen ks rule: missing_from.induct) (auto simp: Let_def)

lemma distinct_missing_from: "distinct (missing_from m seen ks)"
  by (induction m seen ks rule: missing_from.induct) (auto simp: Let_def set_missing_from)

lemma set_add_keys: "set (add_keys keys ks) = set keys \<union> lower ` set ks"
  by (induction keys ks rule: add_keys.induct) auto

lemma set_findMissing:
  "set (findMissingTemplateKeys t m) =
     {lower k | k. k \<in> set (holes t) \<and> m k = None \<and> m (lower k) = None}"
  by (simp add: findMissingTemplateKeys_def set_missing_from)

lemma holes_iff: "k \<in> set (holes t) \<longleftrightarrow> Hole k \<in> set (pieces t)"
  by (force simp: holes_def split: piece.splits)

text \<open>The value a placeholder is meant to have: the own property under the key as written, else
  under its lower-case form.\<close>

definition own_value :: "ctx \<Rightarrow> string \<Rightarrow> string option" where
  "own_value m k = (case m k of Some v \<Rightarrow> Some v | None \<Rightarrow> m (lower k))"

fun subst_pieces :: "ctx \<Rightarrow> piece list \<Rightarrow> string option" where
  "subst_pieces m [] = Some []"
| "subst_pieces m (Lit c # ps) = map_option ((#) c) (subst_pieces m ps)"
| "subst_pieces m (Hole k # ps) =
     (case own_value m k of
        None \<Rightarrow> None
      | Some v \<Rightarrow> map_option ((@) v) (subst_pieces m ps))"

lemma subst_pieces_Some_iff:
  "(\<exists>s. subst_pieces m ps = Some s) \<longleftrightarrow> (\<forall>k. Hole k \<in> set ps \<longrightarrow> own_value m k \<noteq> None)"
  by (induction m ps rule: subst_pieces.induct) (auto split: option.splits)

lemma subst_pieces_render:
  "subst_pieces m ps = Some s \<Longrightarrow>
   \<forall>k. Hole k \<in> set ps \<longrightarrow> k \<notin> set object_prototype_keys \<Longrightarrow>
   concat (map (render_piece m) ps) = s"
proof (induction m ps arbitrary: s rule: subst_pieces.induct)
  case (3 m k ps)
  from "3.prems"(1) obtain v s' where v: "own_value m k = Some v" and
    s': "subst_pieces m ps = Some s'" "s = v @ s'"
    by (auto split: option.splits)
  have "hole_value m k = v"
    using v "3.prems"(2)
    by (auto simp: hole_value_def own_value_def in_object_def object_get_def split: option.splits)
  then show ?case using "3.IH" [OF v s'(1)] "3.prems"(2) s' by (simp add: render_piece_def)
qed (auto simp: render_piece_def)

lemma resolveTemplate_known:
  assumes "\<forall>k \<in> set (holes t). own_value m k \<noteq> None"
    and "\<forall>k \<in> set (holes t). k \<notin> set object_prototype_keys"
  shows "subst_pieces m (pieces t) = Some (resolveTemplate t m)"
proof -
  obtain s where s: "subst_pieces m (pieces t) = Some s"
    using assms(1) subst_pieces_Some_iff [of m "pieces t"] by (auto simp: holes_iff)
  then have "concat (map (render_piece m) (pieces t)) = s"
    by (rule subst_pieces_render) (use assms(2) in \<open>simp add: holes_iff\<close>)
  with s show ?thesis by (simp add: resolveTemplate_def)
qed

lemma no_missing_known:
  "findMissingTemplateKeys t m = [] \<Longrightarrow> \<forall>k \<in> set (holes t). own_value m k \<noteq> None"
  using set_findMissing [of t m] by (auto simp: own_value_def split: option.splits)

text \<open>When no key is reported missing, and no placeholder is named like a property every
  JavaScript object inherits, the rendered template is the template with every placeholder
  replaced by the context's own value for it.\<close>

theorem resolveTemplate_no_missing:
  assumes "findMissingTemplateKeys t m = []"
    and "\<forall>k \<in> set (holes t). k \<notin> set object_prototype_keys"
  shows "subst_pieces m (pieces t) = Some (resolveTemplate t m)"
  by (rule resolveTemplate_known [OF no_missing_known [OF assms(1)] assms(2)])

text \<open>The missing keys are exactly the lower-case names of the placeholders without an own
  value, each listed once.\<close>

theorem findMissingTemplateKeys_exact:
  "set (findMissingTemplateKeys t m) = {lower k | k. k \<in> set (holes t) \<and> own_value m k = None}
   \<and> distinct (findMissingTemplateKeys t m)"
proof
  show "set (findMissingTemplateKeys t m) = {lower k | k. k \<in> set (holes t) \<and> own_value m k = None}"
    unfolding set_findMissing own_value_def by (auto split: option.splits)
  show "distinct (findMissingTemplateKeys t m)"
    by (simp add: findMissingTemplateKeys_def distinct_missing_from)
qed


text \<open>A placeholder named like an inherited property: rendering finds a value where the search
  for missing keys finds none.\<close>

lemma inherited_placeholder_disagreement:
  "findMissingTemplateKeys ''{{constructor}}'' Map.empty = [''constructor'']
   \<and> resolveTemplate ''{{constructor}}'' Map.empty = ''function Object() { [native code] }''"
proof -
  have "pieces ''{{constructor}}'' = [Hole ''constructor'']"
    by (simp add: pieces.simps match_hole_def js_simps)
  then show ?thesis
    by (simp add: findMissingTemplateKeys_def resolveTemplate_def holes_def render_piece_def
                  hole_value_def in_object_def object_get_def object_prototype_keys_def
                  inherited_text_def js_simps)
qed

theorem resolveTemplate_no_missing_witness:
  "subst_pieces [''task'' \<mapsto> ''fix''] (pieces ''do {{TASK}}'') = Some ''do fix''"
proof -
  have p: "pieces ''do {{TASK}}'' = [Lit (CHR ''d''), Lit (CHR ''o''), Lit (CHR '' ''), Hole ''TASK'']"
    by (simp add: pieces.simps match_hole_def js_simps)
  have "findMissingTemplateKeys ''do {{TASK}}'' [''task'' \<mapsto> ''fix''] = []"
    by (simp add: findMissingTemplateKeys_def holes_def p js_simps)
  moreover have "\<forall>k \<in> set (holes ''do {{TASK}}''). k \<notin> set object_prototype_keys"
    by (simp add: holes_def p object_prototype_keys_def)
  ultimately have "subst_pieces [''task'' \<mapsto> ''fix''] (pieces ''do {{TASK}}'') =
      Some (resolveTemplate ''do {{TASK}}'' [''task'' \<mapsto> ''fix''])"
    by (rule resolveTemplate_no_missing)
  then show ?thesis
    by (simp add: resolveTemplate_def p render_piece_def hole_value_def in_object_def object_get_def
                  object_prototype_keys_def js_simps)
qed

section \<open>The wrapped test command\<close>

definition posixQuoteArg :: "string \<Rightarrow> string" where
  "posixQuoteArg value =
     [CHR 0x27]
     @ concat (map (\<lambda>c. if c = CHR 0x27 then [CHR 0x27, CHR 0x5C, CHR 0x27, CHR 0x27] else [c]) value)
     @ [CHR 0x27]"

definition buildWrappedTestCommand :: "string \<Rightarrow> string \<Rightarrow> string \<Rightarrow> string \<Rightarrow> string" where
  "buildWrappedTestCommand raw repo runId stepId =
     ''tamandua-test --repo '' @ posixQuoteArg repo @ '' --run '' @ posixQuoteArg runId
     @ '' --step '' @ posixQuoteArg stepId @ '' -- '' @ posixQuoteArg raw"

text \<open>The result is the (possibly annotated) context and the context to render with.\<close>

definition wrapTestCmdInContext ::
    "ctx \<Rightarrow> string option \<Rightarrow> string \<Rightarrow> string \<Rightarrow> ctx \<times> ctx" where
  "wrapTestCmdInContext context repo runId stepId =
     (let rawCmd = (if truthy context ''test_cmd_raw'' then get_or_empty context ''test_cmd_raw''
                    else get_or_empty context ''test_cmd'')
      in if trim rawCmd = [] then (context, context)
         else (case repo of
                 None \<Rightarrow> (context, context)
               | Some [] \<Rightarrow> (context, context)
               | Some rp \<Rightarrow>
                   (let context' = context(''test_cmd_raw'' \<mapsto> rawCmd)
                    in (context',
                        context'(''test_cmd'' \<mapsto> buildWrappedTestCommand rawCmd rp runId stepId)))))"

definition raw_command :: "ctx \<Rightarrow> string" where
  "raw_command m =
     (if truthy m ''test_cmd_raw'' then get_or_empty m ''test_cmd_raw''
      else get_or_empty m ''test_cmd'')"

lemma wrapTestCmdInContext_eq:
  "wrapTestCmdInContext m repo run st =
     (if trim (raw_command m) = [] \<or> repo = None \<or> repo = Some [] then (m, m)
      else (m(''test_cmd_raw'' \<mapsto> raw_command m),
            m(''test_cmd_raw'' \<mapsto> raw_command m,
              ''test_cmd'' \<mapsto> buildWrappedTestCommand (raw_command m) (the repo) run st)))"
  by (simp add: wrapTestCmdInContext_def raw_command_def Let_def split: option.splits list.splits)

text \<open>How a POSIX shell reads a word: text in single quotes is literal, a backslash outside quotes
  makes the next character literal, an unquoted blank ends the word.\<close>

fun sh_word :: "bool \<Rightarrow> string \<Rightarrow> (string \<times> string) option" where
  "sh_word True [] = None"
| "sh_word False [] = Some ([], [])"
| "sh_word True (c # cs) =
     (if c = CHR 0x27 then sh_word False cs
      else map_option (\<lambda>(w, r). (c # w, r)) (sh_word True cs))"
| "sh_word False (c # cs) =
     (if c = CHR 0x27 then sh_word True cs
      else if c = CHR 0x5C
      then (case cs of [] \<Rightarrow> None
            | d # ds \<Rightarrow> map_option (\<lambda>(w, r). (d # w, r)) (sh_word False ds))
      else if c = CHR '' '' then Some ([], c # cs)
      else map_option (\<lambda>(w, r). (c # w, r)) (sh_word False cs))"

lemma sh_word_quoted_body:
  "sh_word True (concat (map (\<lambda>c. if c = CHR 0x27 then [CHR 0x27, CHR 0x5C, CHR 0x27, CHR 0x27]
                                   else [c]) v) @ CHR 0x27 # rest) =
   map_option (\<lambda>(w, r). (v @ w, r)) (sh_word False rest)"
  by (induction v) (auto simp: option.map_comp o_def split_def option.map_ident)

text \<open> The shell reads a quoted argument back as the one word it was made from, whatever
  characters it holds, and goes on after it.\<close>

theorem posixQuoteArg_roundtrip:
  "sh_word False (posixQuoteArg v) = Some (v, [])
   \<and> sh_word False (posixQuoteArg v @ CHR '' '' # rest) = Some (v, CHR '' '' # rest)"
  using sh_word_quoted_body [of v "[]"] sh_word_quoted_body [of v "CHR '' '' # rest"]
  by (simp add: posixQuoteArg_def)

text \<open>Wrapping is stable: wrapping the annotated context again, or a context whose command an
  earlier render left wrapped, wraps the same raw command once.\<close>

theorem wrapTestCmdInContext_stable:
  assumes "wrapTestCmdInContext m repo run st = (m', r)"
  shows "wrapTestCmdInContext m' repo run st = (m', r)
   \<and> wrapTestCmdInContext r repo run st = (r, r)"
proof (cases "trim (raw_command m) = [] \<or> repo = None \<or> repo = Some []")
  case True
  then have "wrapTestCmdInContext m repo run st = (m, m)"
    by (auto simp: wrapTestCmdInContext_eq)
  then show ?thesis using assms by simp
next
  case False
  then obtain rp where rp: "repo = Some rp" "rp \<noteq> []" by auto
  let ?raw = "raw_command m"
  have raw: "trim ?raw \<noteq> []" using False by simp
  then have ne: "?raw \<noteq> []" by (auto simp: trim_def trim_start_def trim_end_def)
  have w: "m' = m(''test_cmd_raw'' \<mapsto> ?raw)"
    "r = m'(''test_cmd'' \<mapsto> buildWrappedTestCommand ?raw rp run st)"
    using assms rp raw by (auto simp: wrapTestCmdInContext_eq)
  have "raw_command m' = ?raw" "raw_command r = ?raw"
    using ne by (simp_all add: w raw_command_def truthy_def get_or_empty_def)
  moreover have "m'(''test_cmd_raw'' \<mapsto> ?raw) = m'" "r(''test_cmd_raw'' \<mapsto> ?raw) = r"
    "r(''test_cmd'' \<mapsto> buildWrappedTestCommand ?raw rp run st) = r"
    by (auto simp: w fun_eq_iff)
  ultimately show ?thesis using raw rp w(2) by (simp add: wrapTestCmdInContext_eq)
qed

theorem wrapTestCmdInContext_stable_witness:
  "wrapTestCmdInContext (fst (wrapTestCmdInContext [''test_cmd'' \<mapsto> ''npm test''] (Some ''/r'') ''1'' ''2''))
     (Some ''/r'') ''1'' ''2'' = wrapTestCmdInContext [''test_cmd'' \<mapsto> ''npm test''] (Some ''/r'') ''1'' ''2''"
proof -
  obtain m' r where h: "wrapTestCmdInContext [''test_cmd'' \<mapsto> ''npm test''] (Some ''/r'') ''1'' ''2'' = (m', r)"
    by (cases "wrapTestCmdInContext [''test_cmd'' \<mapsto> ''npm test''] (Some ''/r'') ''1'' ''2''")
  from wrapTestCmdInContext_stable [OF h] show ?thesis by (simp add: h)
qed

end
