(* ===== verification/Byte_Text.thy ===== *)
theory Byte_Text
  imports Prelude
begin

text \<open>
  Text bounded by its UTF-8 size (\<^verbatim>\<open>src/src/installer/step-ops.ts\<close>): \<^verbatim>\<open>sanitizeStderrTail\<close> and
  \<^verbatim>\<open>formatRetryFeedback\<close>.  Here a JavaScript string is the list of its UTF-16 code units
  (numbers below 65536), \<^verbatim>\<open>Buffer.from(s, "utf-8")\<close> and \<^verbatim>\<open>buf.toString("utf-8", start)\<close> are
  written out, and the theorems say that the byte window never splits a character.
\<close>

type_synonym units = "nat list"
type_synonym bytes = "nat list"

section \<open>UTF-16 and UTF-8\<close>

definition high_surrogate :: "nat \<Rightarrow> bool" where
  "high_surrogate u \<longleftrightarrow> 55296 \<le> u \<and> u \<le> 56319"

definition low_surrogate :: "nat \<Rightarrow> bool" where
  "low_surrogate u \<longleftrightarrow> 56320 \<le> u \<and> u \<le> 57343"

text \<open>The Unicode scalar values of a string, a lone surrogate read as U+FFFD.\<close>

fun scalars :: "units \<Rightarrow> nat list" where
  "scalars [] = []"
| "scalars [u] = [if high_surrogate u \<or> low_surrogate u then 65533 else u]"
| "scalars (u # v # us) =
     (if high_surrogate u \<and> low_surrogate v
      then (65536 + (u - 55296) * 1024 + (v - 56320)) # scalars us
      else (if high_surrogate u \<or> low_surrogate u then 65533 else u) # scalars (v # us))"

definition unit_char :: "nat \<Rightarrow> units" where
  "unit_char c =
     (if c < 65536 then [c]
      else [55296 + (c - 65536) div 1024, 56320 + (c - 65536) mod 1024])"

definition utf8_char :: "nat \<Rightarrow> bytes" where
  "utf8_char c =
     (if c < 128 then [c]
      else if c < 2048 then [192 + c div 64, 128 + c mod 64]
      else if c < 65536 then [224 + c div 4096, 128 + c div 64 mod 64, 128 + c mod 64]
      else [240 + c div 262144, 128 + c div 4096 mod 64, 128 + c div 64 mod 64, 128 + c mod 64])"

definition encode :: "nat list \<Rightarrow> bytes" where
  "encode cs = concat (map utf8_char cs)"

definition utf8 :: "units \<Rightarrow> bytes" where
  "utf8 s = encode (scalars s)"

text \<open>\<^verbatim>\<open>(byte & 0xC0) === 0x80\<close>: the two top bits of a byte are 10.\<close>

definition is_cont :: "nat \<Rightarrow> bool" where
  "is_cont b \<longleftrightarrow> b div 64 = 2"

definition second_ok :: "nat \<Rightarrow> nat \<Rightarrow> bool" where
  "second_ok b c \<longleftrightarrow>
     is_cont c \<and> (b = 224 \<longrightarrow> 160 \<le> c) \<and> (b = 237 \<longrightarrow> c \<le> 159)
     \<and> (b = 240 \<longrightarrow> 144 \<le> c) \<and> (b = 244 \<longrightarrow> c \<le> 143)"

text \<open>Decoding with U+FFFD for every maximal ill-formed part.\<close>

fun decode :: "bytes \<Rightarrow> nat list" where
  "decode [] = []"
| "decode (b # bs) =
     (if b < 128 then b # decode bs
      else if 194 \<le> b \<and> b \<le> 223
      then (case bs of
              c # r \<Rightarrow> if is_cont c then ((b - 192) * 64 + (c - 128)) # decode r
                       else 65533 # decode bs
            | [] \<Rightarrow> [65533])
      else if 224 \<le> b \<and> b \<le> 239
      then (case bs of
              c # r \<Rightarrow>
                if second_ok b c
                then (case r of
                        d # r' \<Rightarrow>
                          if is_cont d
                          then ((b - 224) * 4096 + (c - 128) * 64 + (d - 128)) # decode r'
                          else 65533 # decode r
                      | [] \<Rightarrow> [65533])
                else 65533 # decode bs
            | [] \<Rightarrow> [65533])
      else if 240 \<le> b \<and> b \<le> 244
      then (case bs of
              c # r \<Rightarrow>
                if second_ok b c
                then (case r of
                        d # r' \<Rightarrow>
                          if is_cont d
                          then (case r' of
                                  e # r'' \<Rightarrow>
                                    if is_cont e
                                    then ((b - 240) * 262144 + (c - 128) * 4096
                                          + (d - 128) * 64 + (e - 128)) # decode r''
                                    else 65533 # decode r'
                                | [] \<Rightarrow> [65533])
                          else 65533 # decode r
                      | [] \<Rightarrow> [65533])
                else 65533 # decode bs
            | [] \<Rightarrow> [65533])
      else 65533 # decode bs)"

declare decode.simps [simp del]

definition to_units :: "nat list \<Rightarrow> units" where
  "to_units cs = concat (map unit_char cs)"

definition scalar_ok :: "nat \<Rightarrow> bool" where
  "scalar_ok c \<longleftrightarrow> c < 1114112 \<and> \<not> (55296 \<le> c \<and> c \<le> 57343)"

lemma surrogate_pair_range:
  "high_surrogate u \<Longrightarrow> low_surrogate v \<Longrightarrow>
   65536 \<le> 65536 + (u - 55296) * 1024 + (v - 56320)
   \<and> 65536 + (u - 55296) * 1024 + (v - 56320) < 1114112"
proof -
  assume "high_surrogate u" "low_surrogate v"
  then have "u - 55296 \<le> 1023" "v - 56320 \<le> 1023"
    by (simp_all add: high_surrogate_def low_surrogate_def le_diff_conv)
  then show ?thesis by linarith
qed

lemma scalar_ok_pair:
  "high_surrogate u \<Longrightarrow> low_surrogate v \<Longrightarrow> scalar_ok (65536 + (u - 55296) * 1024 + (v - 56320))"
  using surrogate_pair_range [of u v] by (simp add: scalar_ok_def)

lemma scalar_ok_unit:
  "u < 65536 \<Longrightarrow> scalar_ok (if high_surrogate u \<or> low_surrogate u then 65533 else u)"
  by (auto simp: scalar_ok_def high_surrogate_def low_surrogate_def)

lemma scalars_ok: "\<forall>u \<in> set s. u < 65536 \<Longrightarrow> \<forall>c \<in> set (scalars s). scalar_ok c"
proof (induction s rule: scalars.induct)
  case 1
  then show ?case by simp
next
  case (2 u)
  then show ?case using scalar_ok_unit [of u] by simp
next
  case (3 u v us)
  show ?case
  proof (cases "high_surrogate u \<and> low_surrogate v")
    case True
    then show ?thesis using 3 scalar_ok_pair [of u v] by simp
  next
    case False
    then have "scalars (u # v # us) =
        (if high_surrogate u \<or> low_surrogate u then 65533 else u) # scalars (v # us)"
      by (simp only: scalars.simps if_False)
    then show ?thesis using 3 False scalar_ok_unit [of u] by auto
  qed
qed

lemma scalars_bmp: "scalar_ok c \<Longrightarrow> c < 65536 \<Longrightarrow> scalars (c # us) = c # scalars us"
  by (cases us) (auto simp: scalar_ok_def high_surrogate_def low_surrogate_def)

lemma scalars_unit_char:
  "scalar_ok c \<Longrightarrow> scalars (unit_char c @ us) = c # scalars us"
proof (cases "c < 65536")
  case True
  assume "scalar_ok c"
  with True show ?thesis by (simp add: unit_char_def scalars_bmp)
next
  case False
  assume "scalar_ok c"
  then have "c - 65536 < 1024 * 1024" unfolding scalar_ok_def by arith
  then have "(c - 65536) div 1024 < 1024" by (rule less_mult_imp_div_less)
  then have q: "(c - 65536) div 1024 \<le> 1023" by simp
  have m: "(c - 65536) mod 1024 \<le> 1023" by simp
  have e: "(c - 65536) div 1024 * 1024 + (c - 65536) mod 1024 = c - 65536" by simp
  have "65536 + (c - 65536) div 1024 * 1024 + (c - 65536) mod 1024 = c"
    using e False by linarith
  then show ?thesis using False q m
    by (simp add: unit_char_def high_surrogate_def low_surrogate_def)
qed

lemma scalars_to_units: "\<forall>c \<in> set cs. scalar_ok c \<Longrightarrow> scalars (to_units cs) = cs"
  by (induction cs) (simp_all add: to_units_def scalars_unit_char)

lemma is_cont_range: "is_cont b \<longleftrightarrow> 128 \<le> b \<and> b < 192"
proof -
  have "b div 64 = 2 \<longleftrightarrow> 2 \<le> b div 64 \<and> b div 64 < 3" by linarith
  then show ?thesis
    by (simp add: is_cont_def div_less_iff_less_mult less_eq_div_iff_mult_less_eq)
qed

lemma cont_mod [simp]: "is_cont (128 + x mod 64)"
  by (simp add: is_cont_range)

lemma utf8_char_lead: "\<exists>b bs. utf8_char c = b # bs \<and> (scalar_ok c \<longrightarrow> \<not> is_cont b)
    \<and> (\<forall>x \<in> set bs. is_cont x) \<and> length bs \<le> 3"
proof -
  have "\<not> is_cont (192 + n)" "\<not> is_cont (224 + n)" "\<not> is_cont (240 + n)" for n
    by (simp_all add: is_cont_range)
  moreover have "c < 128 \<Longrightarrow> \<not> is_cont c" by (simp add: is_cont_range)
  ultimately show ?thesis by (simp add: utf8_char_def)
qed

lemma second_ok_three:
  assumes "2048 \<le> c" "c < 65536" "scalar_ok c"
  shows "second_ok (224 + c div 4096) (128 + c div 64 mod 64)"
proof -
  define p q where "p = c div 4096" and "q = c div 64 mod 64"
  have m: "c div 64 = p * 64 + q" and q: "q < 64"
    by (simp_all add: p_def q_def div_mult2_eq [of c 64 64, simplified])
  have "32 \<le> c div 64" using assms(1) by simp
  moreover have "c < 55296 \<Longrightarrow> c div 64 < 864" by (simp add: div_less_iff_less_mult)
  moreover have "57344 \<le> c \<Longrightarrow> 896 \<le> c div 64" by (simp add: less_eq_div_iff_mult_less_eq)
  moreover have "c < 55296 \<or> 57344 \<le> c" using assms(3) by (auto simp: scalar_ok_def)
  moreover have "p \<le> 15" using assms(2) by (simp add: p_def)
  ultimately show ?thesis
    using m q cont_mod [of "c div 64"] unfolding p_def [symmetric] q_def [symmetric]
    by (auto simp: second_ok_def)
qed

lemma second_ok_four:
  assumes "65536 \<le> c" "scalar_ok c"
  shows "second_ok (240 + c div 262144) (128 + c div 4096 mod 64)"
proof -
  define p q where "p = c div 262144" and "q = c div 4096 mod 64"
  have m: "c div 4096 = p * 64 + q" and q: "q < 64"
    by (simp_all add: p_def q_def div_mult2_eq [of c 4096 64, simplified])
  have "16 \<le> c div 4096" using assms(1) by simp
  moreover have "c div 4096 < 272" using assms(2) by (simp add: scalar_ok_def div_less_iff_less_mult)
  ultimately show ?thesis
    using m q cont_mod [of "c div 4096"] unfolding p_def [symmetric] q_def [symmetric]
    by (auto simp: second_ok_def)
qed

lemma decode_utf8_char: "scalar_ok c \<Longrightarrow> decode (utf8_char c @ r) = c # decode r"
proof -
  assume c: "scalar_ok c"
  consider "c < 128" | "128 \<le> c" "c < 2048" | "2048 \<le> c" "c < 65536" | "65536 \<le> c"
    by linarith
  then show ?thesis
  proof cases
    case 1
    then show ?thesis by (simp add: utf8_char_def decode.simps)
  next
    case 2
    then have "2 \<le> c div 64" "c div 64 \<le> 31" by auto
    moreover have "c div 64 * 64 + c mod 64 = c" by simp
    ultimately show ?thesis using 2
      by (simp add: utf8_char_def decode.simps)
  next
    case 3
    then have a: "c div 4096 \<le> 15" by auto
    have b: "second_ok (224 + c div 4096) (128 + c div 64 mod 64)"
      using 3 c by (intro second_ok_three)
    have "c div 64 = c div 4096 * 64 + c div 64 mod 64"
      by (simp add: div_mult2_eq [of c 64 64, simplified])
    then have "c div 4096 * 4096 + (c div 64 mod 64) * 64 + c mod 64 = c"
      using div_mult_mod_eq [of c 64] by linarith
    with a b 3 show ?thesis by (simp add: utf8_char_def decode.simps)
  next
    case 4
    then have a: "c div 262144 \<le> 4" using c by (auto simp: scalar_ok_def)
    have b: "second_ok (240 + c div 262144) (128 + c div 4096 mod 64)"
      using 4 c by (intro second_ok_four)
    have "c div 64 = c div 4096 * 64 + c div 64 mod 64"
      "c div 4096 = c div 262144 * 64 + c div 4096 mod 64"
      by (simp_all add: div_mult2_eq [of c 64 64, simplified] div_mult2_eq [of c 4096 64, simplified])
    then have "c div 262144 * 262144 + (c div 4096 mod 64) * 4096 + (c div 64 mod 64) * 64 + c mod 64 = c"
      using div_mult_mod_eq [of c 64] by linarith
    with a b 4 show ?thesis by (simp add: utf8_char_def decode.simps)
  qed
qed

lemma decode_encode: "\<forall>c \<in> set cs. scalar_ok c \<Longrightarrow> decode (encode cs) = cs"
  by (induction cs) (simp_all add: encode_def decode_utf8_char decode.simps)

text \<open>Skipping continuation bytes from any cut point lands on a character boundary at most three
  bytes further.\<close>

lemma encode_no_lead_cont:
  "\<forall>c \<in> set cs. scalar_ok c \<Longrightarrow> dropWhile is_cont (encode cs) = encode cs"
proof (cases cs)
  case (Cons c cs')
  assume ok: "\<forall>c \<in> set cs. scalar_ok c"
  then obtain b bs where "utf8_char c = b # bs" "\<not> is_cont b"
    using utf8_char_lead [of c] Cons by auto
  then show ?thesis by (simp add: encode_def Cons)
qed (simp add: encode_def)

lemma cut_lands_on_character:
  "\<forall>c \<in> set cs. scalar_ok c \<Longrightarrow> j \<le> length (encode cs) \<Longrightarrow>
   \<exists>k. dropWhile is_cont (drop j (encode cs)) = encode (drop k cs)
       \<and> length (encode cs) \<le> j + 3 + length (encode (drop k cs))"
proof (induction cs arbitrary: j)
  case Nil
  then show ?case by (simp add: encode_def)
next
  case (Cons c cs)
  obtain b bs where u: "utf8_char c = b # bs" "\<not> is_cont b" "\<forall>x \<in> set bs. is_cont x"
    "length bs \<le> 3"
    using utf8_char_lead [of c] Cons.prems(1) by auto
  have e: "encode (c # cs) = b # bs @ encode cs" by (simp add: encode_def u)
  have ok: "\<forall>c \<in> set cs. scalar_ok c" using Cons.prems(1) by simp
  show ?case
  proof (cases j)
    case 0
    then have "dropWhile is_cont (drop j (encode (c # cs))) = encode (drop 0 (c # cs))"
      using encode_no_lead_cont [OF Cons.prems(1)] by simp
    then show ?thesis by (intro exI [of _ 0]) (simp add: 0)
  next
    case (Suc i)
    show ?thesis
    proof (cases "i < length bs")
      case True
      then have "\<forall>x \<in> set (drop i bs). is_cont x" using u(3) by (meson in_set_dropD)
      then have "dropWhile is_cont (drop j (encode (c # cs))) = encode (drop 1 (c # cs))"
        using encode_no_lead_cont [OF ok] Suc True by (simp add: e dropWhile_append)
      then show ?thesis using u(4) Suc by (intro exI [of _ 1]) (simp add: e)
    next
      case False
      have "i - length bs \<le> length (encode cs)" using Cons.prems(2) Suc False by (simp add: e)
      then obtain k where k: "dropWhile is_cont (drop (i - length bs) (encode cs)) = encode (drop k cs)"
        "length (encode cs) \<le> (i - length bs) + 3 + length (encode (drop k cs))"
        using Cons.IH [OF ok] by blast
      then show ?thesis using Suc False by (intro exI [of _ "Suc k"]) (simp add: e)
    qed
  qed
qed

section \<open>The byte window\<close>

definition keep_tail :: "nat \<Rightarrow> units \<Rightarrow> units" where
  "keep_tail maxBytes s =
     (let buf = utf8 s
      in if length buf > maxBytes
         then to_units (decode (dropWhile is_cont (drop (length buf - maxBytes) buf)))
         else s)"

lemma keep_tail_window:
  assumes "\<forall>u \<in> set s. u < 65536"
  shows "length (utf8 (keep_tail n s)) \<le> n
   \<and> (\<exists>k. scalars (keep_tail n s) = drop k (scalars s))
   \<and> (length (utf8 s) > n \<longrightarrow> n \<le> length (utf8 (keep_tail n s)) + 3)
   \<and> (length (utf8 s) \<le> n \<longrightarrow> keep_tail n s = s)"
proof (cases "length (utf8 s) > n")
  case False
  then show ?thesis by (auto simp: keep_tail_def intro: exI [of _ 0])
next
  case True
  let ?cs = "scalars s"
  have ok: "\<forall>c \<in> set ?cs. scalar_ok c" using assms by (rule scalars_ok)
  have "length (utf8 s) - n \<le> length (encode ?cs)" by (simp add: utf8_def)
  from cut_lands_on_character [OF ok this]
  obtain k where k: "dropWhile is_cont (drop (length (utf8 s) - n) (utf8 s)) = encode (drop k ?cs)"
    "length (utf8 s) \<le> (length (utf8 s) - n) + 3 + length (encode (drop k ?cs))"
    by (auto simp: utf8_def)
  have okk: "\<forall>c \<in> set (drop k ?cs). scalar_ok c" using ok by (meson in_set_dropD)
  have "keep_tail n s = to_units (drop k ?cs)"
    using True k(1) decode_encode [OF okk] by (simp add: keep_tail_def)
  then have sc: "scalars (keep_tail n s) = drop k ?cs"
    using scalars_to_units [OF okk] by simp
  then have u: "utf8 (keep_tail n s) = dropWhile is_cont (drop (length (utf8 s) - n) (utf8 s))"
    by (simp add: utf8_def k(1) [unfolded utf8_def])
  then have "length (utf8 (keep_tail n s)) \<le> n"
    by (metis True diff_diff_cancel dual_order.trans length_dropWhile_le length_drop less_imp_le)
  then show ?thesis using sc True k(2) u by (auto simp: k(1))
qed


section \<open>Retry feedback\<close>

definition RETRY_FEEDBACK_MAX_BYTES :: nat where
  "RETRY_FEEDBACK_MAX_BYTES = 4096"

definition units_of :: "string \<Rightarrow> units" where
  "units_of s = map code_of s"

definition feedback_header :: "nat \<Rightarrow> string" where
  "feedback_header retryCount =
     (if retryCount > 0
      then ''PREVIOUS ATTEMPT FEEDBACK (attempt '' @ nat_str retryCount @ '' was rejected):''
      else ''PREVIOUS ATTEMPT FEEDBACK:'') @ [newline]"

definition formatRetryFeedback :: "units option \<Rightarrow> nat \<Rightarrow> units" where
  "formatRetryFeedback rawFeedback retryCount =
     (case rawFeedback of
        None \<Rightarrow> []
      | Some raw \<Rightarrow>
          if raw = [] then []
          else units_of (feedback_header retryCount) @ keep_tail RETRY_FEEDBACK_MAX_BYTES raw)"

lemma units_of_bound: "u \<in> set (units_of s) \<Longrightarrow> u < 256"
  by (auto simp: units_of_def code_of_def)

text \<open>C3.  Retry feedback is absent exactly when there is none to give; otherwise it is the header
  of the attempt followed by a tail of the raw feedback of at most 4096 UTF-8 bytes.  The tail is
  made of whole characters, it is everything when the feedback fits, and cutting loses at most
  three bytes more than the limit demands.\<close>

theorem formatRetryFeedback_bounded:
  assumes "\<forall>u \<in> set raw. u < 65536" "raw \<noteq> []"
  shows "\<exists>kept. formatRetryFeedback (Some raw) n = units_of (feedback_header n) @ kept
     \<and> length (utf8 kept) \<le> 4096
     \<and> (\<exists>k. scalars kept = drop k (scalars raw))
     \<and> (length (utf8 raw) \<le> 4096 \<longrightarrow> kept = raw)
     \<and> (length (utf8 raw) > 4096 \<longrightarrow> 4093 \<le> length (utf8 kept))"
  using keep_tail_window [OF assms(1), of 4096] assms(2)
  by (intro exI [of _ "keep_tail 4096 raw"])
     (auto simp: formatRetryFeedback_def RETRY_FEEDBACK_MAX_BYTES_def)

theorem formatRetryFeedback_bounded_witness:
  "\<exists>kept. formatRetryFeedback (Some [8230, 97]) 2 = units_of (feedback_header 2) @ kept
     \<and> kept = [8230, 97]"
proof -
  have "length (utf8 [8230, 97]) \<le> 4096"
    by (simp add: utf8_def encode_def utf8_char_def high_surrogate_def low_surrogate_def)
  then show ?thesis
    using formatRetryFeedback_bounded [of "[8230, 97]" 2] by auto
qed

section \<open>Standard error tails\<close>

text \<open>\<^verbatim>\<open>/\x1B\[[0-?]*[ -/]*[@-~]/\<close> at the head of the text: the three classes are disjoint, so the
  greedy match is the only one.\<close>

definition csi_match :: "units \<Rightarrow> units option" where
  "csi_match s =
     (case s of
        e # b # r \<Rightarrow>
          if e = 27 \<and> b = 91
          then (case dropWhile (\<lambda>u. 32 \<le> u \<and> u \<le> 47) (dropWhile (\<lambda>u. 48 \<le> u \<and> u \<le> 63) r) of
                  [] \<Rightarrow> None
                | f # r' \<Rightarrow> if 64 \<le> f \<and> f \<le> 126 then Some r' else None)
          else None
      | _ \<Rightarrow> None)"

lemma csi_match_length: "csi_match s = Some r \<Longrightarrow> length r < length s"
proof -
  assume m: "csi_match s = Some r"
  then obtain e b t where s: "s = e # b # t"
    by (auto simp: csi_match_def split: list.splits)
  with m obtain f where
    "dropWhile (\<lambda>u. 32 \<le> u \<and> u \<le> 47) (dropWhile (\<lambda>u. 48 \<le> u \<and> u \<le> 63) t) = f # r"
    by (auto simp: csi_match_def split: list.splits if_splits)
  then have "length (f # r) \<le> length t"
    by (metis length_dropWhile_le order.trans)
  then show ?thesis by (simp add: s)
qed

function strip_csi :: "units \<Rightarrow> units" where
  "strip_csi s =
     (case s of
        [] \<Rightarrow> []
      | u # us \<Rightarrow> (case csi_match s of Some r \<Rightarrow> strip_csi r | None \<Rightarrow> u # strip_csi us))"
  by pat_completeness auto
termination
  by (relation "measure length") (auto dest: csi_match_length)

declare strip_csi.simps [simp del]

definition truncatedMarker :: units where
  "truncatedMarker = 8230 # units_of '' [truncated]''"

text \<open>\<^verbatim>\<open>line.slice(0, n)\<close>, where a negative \<open>n\<close> counts from the end.\<close>

definition slice0 :: "int \<Rightarrow> 'a list \<Rightarrow> 'a list" where
  "slice0 n xs = take (if n < 0 then nat (int (length xs) + n) else nat n) xs"

definition truncate_line :: "nat \<Rightarrow> units \<Rightarrow> units" where
  "truncate_line maxLineLength line =
     (if length line \<le> maxLineLength then line
      else slice0 (int maxLineLength - int (length truncatedMarker)) line @ truncatedMarker)"

fun split_units :: "units \<Rightarrow> units list" where
  "split_units [] = [[]]"
| "split_units (c # cs) =
     (if c = 10 then [] # split_units cs
      else (case split_units cs of [] \<Rightarrow> [[c]] | l # ls \<Rightarrow> (c # l) # ls))"

fun join_units :: "units list \<Rightarrow> units" where
  "join_units [] = []"
| "join_units [x] = x"
| "join_units (x # y # ys) = x @ 10 # join_units (y # ys)"

definition sanitizeStderrTail :: "units \<Rightarrow> nat \<Rightarrow> nat \<Rightarrow> units" where
  "sanitizeStderrTail raw maxBytes maxLineLength =
     keep_tail maxBytes
       (join_units (map (truncate_line maxLineLength) (split_units (strip_csi raw))))"

lemma csi_match_subset: "csi_match s = Some r \<Longrightarrow> set r \<subseteq> set s"
proof -
  assume m: "csi_match s = Some r"
  then obtain e b t where s: "s = e # b # t"
    by (auto simp: csi_match_def split: list.splits)
  with m obtain f where
    "dropWhile (\<lambda>u. 32 \<le> u \<and> u \<le> 47) (dropWhile (\<lambda>u. 48 \<le> u \<and> u \<le> 63) t) = f # r"
    by (auto simp: csi_match_def split: list.splits if_splits)
  then have "set (f # r) \<subseteq> set t" by (metis set_dropWhileD subsetI)
  then show ?thesis by (auto simp: s)
qed

lemma strip_csi_Cons:
  "strip_csi (a # as) =
     (case csi_match (a # as) of Some r \<Rightarrow> strip_csi r | None \<Rightarrow> a # strip_csi as)"
  by (simp add: strip_csi.simps [of "a # as"])

lemma set_strip_csi: "u \<in> set (strip_csi s) \<Longrightarrow> u \<in> set s"
proof (induction s rule: strip_csi.induct)
  case (1 s)
  show ?case
  proof (cases s)
    case Nil
    then show ?thesis using 1 by (simp add: strip_csi.simps)
  next
    case (Cons a as)
    show ?thesis
    proof (cases "csi_match s")
      case None
      then have "u = a \<or> u \<in> set (strip_csi as)" using "1.prems" Cons by (simp add: strip_csi_Cons)
      then show ?thesis using "1.IH"(1) [OF Cons None] Cons by auto
    next
      case (Some r)
      then have "u \<in> set (strip_csi r)" using "1.prems" Cons by (simp add: strip_csi_Cons)
      then have "u \<in> set r" using "1.IH"(2) [OF Cons Some] by simp
      then show ?thesis using csi_match_subset [OF Some] by auto
    qed
  qed
qed

lemma split_units_bound:
  "\<forall>u \<in> set s. P u \<Longrightarrow> l \<in> set (split_units s) \<Longrightarrow> u \<in> set l \<Longrightarrow> P u"
proof (induction s arbitrary: l)
  case Nil
  then show ?case by simp
next
  case (Cons c cs)
  note IH = Cons.IH and prems = Cons.prems
  show ?case
  proof (cases "split_units cs")
    case Nil
    then show ?thesis using prems by (auto split: if_splits)
  next
    case (Cons m ms)
    have "P u" if "k \<in> set (split_units cs)" "u \<in> set k" for k
      using IH [of k] prems(1) that by simp
    then show ?thesis using prems Cons by (fastforce split: if_splits)
  qed
qed

lemma split_units_no_newline: "l \<in> set (split_units s) \<Longrightarrow> 10 \<notin> set l"
  by (induction s arbitrary: l) (auto split: if_splits list.splits)

lemma join_units_set: "u \<in> set (join_units ls) \<Longrightarrow> u = 10 \<or> (\<exists>l \<in> set ls. u \<in> set l)"
  by (induction ls rule: join_units.induct) auto

lemma truncatedMarker_units: "length truncatedMarker = 13" "\<forall>u \<in> set truncatedMarker. u < 65536"
  by (auto simp: truncatedMarker_def units_of_def code_of_def)

lemma truncate_line_length:
  "13 \<le> m \<Longrightarrow> length (truncate_line m l) \<le> m"
  by (auto simp: truncate_line_def slice0_def truncatedMarker_units)

lemma truncate_line_set: "u \<in> set (truncate_line m l) \<Longrightarrow> u \<in> set l \<or> u \<in> set truncatedMarker"
  by (auto simp: truncate_line_def slice0_def dest: in_set_takeD split: if_splits)

text \<open>The text before the byte window: every line within the line limit.\<close>

definition sanitized_lines :: "units \<Rightarrow> nat \<Rightarrow> units list" where
  "sanitized_lines raw maxLineLength = map (truncate_line maxLineLength) (split_units (strip_csi raw))"

text \<open>A sanitized tail never exceeds the byte bound, is made of whole characters of the
  text whose escape sequences are stripped and whose long lines are cut, and every line of that
  text is within the line limit.\<close>

theorem sanitizeStderrTail_bounded:
  assumes "\<forall>u \<in> set raw. u < 65536" "13 \<le> maxLine"
  shows "length (utf8 (sanitizeStderrTail raw maxBytes maxLine)) \<le> maxBytes
     \<and> (\<exists>k. scalars (sanitizeStderrTail raw maxBytes maxLine) =
              drop k (scalars (join_units (sanitized_lines raw maxLine))))
     \<and> (\<forall>l \<in> set (sanitized_lines raw maxLine). length l \<le> maxLine)"
proof -
  let ?t = "join_units (sanitized_lines raw maxLine)"
  have strip: "\<forall>u \<in> set (strip_csi raw). u < 65536"
    using assms(1) set_strip_csi by blast
  have "u < 65536" if "l \<in> set (sanitized_lines raw maxLine)" "u \<in> set l" for l u
  proof -
    from that(1) obtain l0 where l0: "l0 \<in> set (split_units (strip_csi raw))" "l = truncate_line maxLine l0"
      by (auto simp: sanitized_lines_def)
    then have "u \<in> set l0 \<or> u \<in> set truncatedMarker" using that(2) truncate_line_set by simp
    then show ?thesis
      using split_units_bound [OF strip l0(1)] truncatedMarker_units(2) by blast
  qed
  then have "\<forall>u \<in> set ?t. u < 65536" using join_units_set by fastforce
  from keep_tail_window [OF this, of maxBytes] show ?thesis
    using truncate_line_length [OF assms(2)]
    by (auto simp: sanitizeStderrTail_def sanitized_lines_def)
qed

theorem sanitizeStderrTail_bounded_witness:
  "length (utf8 (sanitizeStderrTail [27, 91, 51, 49, 109, 104, 105] 8192 512)) \<le> 8192
   \<and> sanitizeStderrTail [27, 91, 51, 49, 109, 104, 105] 8192 512 = [104, 105]"
proof -
  have "\<forall>u \<in> set [27, 91, 51, 49, 109, 104, 105 :: nat]. u < 65536" by simp
  from sanitizeStderrTail_bounded [OF this, of 512 8192]
  have "length (utf8 (sanitizeStderrTail [27, 91, 51, 49, 109, 104, 105] 8192 512)) \<le> 8192"
    by simp
  then show ?thesis
    by (simp add: sanitizeStderrTail_def strip_csi.simps csi_match_def truncate_line_def keep_tail_def
                  utf8_def encode_def utf8_char_def high_surrogate_def low_surrogate_def)
qed

end
