(* ===== verification/Store.thy ===== *)
theory Store
  imports Prelude
begin

text \<open>
  The shared state of the program: the rows of the SQLite tables \<^verbatim>\<open>runs\<close>, \<^verbatim>\<open>steps\<close>,
  \<^verbatim>\<open>stories\<close> and \<^verbatim>\<open>story_abandonments\<close> (\<^verbatim>\<open>src/src/db.ts\<close>) in insertion order, the log of emitted
  events, the calls made to the daemon and the clock.  Columns no modelled code reads or writes
  are left out.  A JSON column is the value it parses to, or a constructor for text that
  \<^verbatim>\<open>JSON.parse\<close> rejects.  Instants are milliseconds since the epoch, \<open>None\<close> when the column does not
  hold a valid instant.  One operation runs at one instant: \<^verbatim>\<open>SQL_NOW_ISO\<close> reads \<open>now\<close>.
\<close>

section \<open>Rows\<close>

datatype step_status = SWaiting | SPending | SRunning | SDone | SFailed | SSkipped | SCanceled

datatype step_type = TySingle | TyLoop | TyConditional

datatype story_status = TPending | TRunning | TDone | TFailed

datatype run_status = RRunning | RPaused | RCompleted | RFailed | RCanceled

record loop_config =
  lc_over :: string
  lc_completion :: string
  lc_verifyEach :: "bool option"
  lc_verify_each :: "bool option"
  lc_verifyStep :: "string option"
  lc_verify_step :: "string option"

datatype loop_col = LcNull | LcMalformed | LcConfig loop_config

datatype ctx_col = CtxObj ctx | CtxCorrupt string

text \<open>The sandbox policy pinned to a run: what the modelled code reads of it, and the rest of its text.  A
  text that \<^verbatim>\<open>parseMatchlockPolicy\<close> rejects is kept as the code and the reason of the rejection.\<close>

record policy =
  po_harness :: string
  po_consent :: bool
  po_rest :: string

datatype policy_col = PolNull | PolUnusable string string | PolPinned policy

record step =
  s_id :: string
  s_run_id :: string
  s_step_id :: string
  s_agent_id :: string
  s_step_index :: nat
  s_input_template :: string
  s_expects :: string
  s_status :: step_status
  s_output :: "string option"
  s_retry_count :: nat
  s_max_retries :: nat
  s_type :: step_type
  s_loop_config :: loop_col
  s_current_story_id :: "string option"
  s_abandoned_count :: nat
  s_updated_at :: "int option"
  s_claim_job_id :: "string option"
  s_claim_pid :: "int option"
  s_claim_pgid :: "int option"
  s_claim_updated_at :: "int option"
  s_claim_invalidated_by :: "string option"
  s_reroute_count :: nat
  s_terminal_reroute_count :: nat
  s_target_moved_reroute_count :: nat
  s_ledger_concession_count :: nat
  s_preclaim_death_count :: nat
  s_conditional_condition :: "string option"
  s_auto_completed :: bool
  s_auto_complete_reason :: "string option"

record story =
  t_id :: string
  t_run_id :: string
  t_story_index :: nat
  t_story_id :: string
  t_title :: string
  t_description :: string
  t_acceptance :: "string list"
  t_status :: story_status
  t_output :: "string option"
  t_retry_count :: nat
  t_max_retries :: nat
  t_abandoned_count :: nat
  t_resume_reset_count :: nat
  t_updated_at :: "int option"

record run =
  r_id :: string
  r_run_number :: nat
  r_workflow_id :: string
  r_task :: string
  r_notify_url :: "string option"
  r_status :: run_status
  r_context :: ctx_col
  r_tokens_spent :: nat
  r_scheduling_status :: "string option"
  r_scheduling_error :: "string option"
  r_scheduling_requested_at :: "int option"
  r_isolation_intent :: "string option"
  r_matchlock_policy :: policy_col
  r_worker_lost_count :: nat
  r_ceiling_expiry_count :: nat
  r_instant_fail_count :: nat
  r_test_cmd_established :: "string option"
  r_test_cmd_source :: "string option"
  r_created_at :: "int option"
  r_updated_at :: "int option"

record abandonment =
  ab_story_id :: string
  ab_run_id :: string
  ab_reason :: string
  ab_count :: nat
  ab_step_id :: "string option"

section \<open>Events and calls to the daemon\<close>

datatype ev_val = VStr string | VNat nat | VInt int | VBool bool | VList "string list"

record event =
  ev_name :: string
  ev_run :: string
  ev_fields :: "(string \<times> ev_val) list"

datatype effect =
  RemoveRunCrons string
| TerminateRun string
| TeardownWorkflow string
| NudgeDispatch
| ArchiveProgress string
| ReleaseSuiteClaims string string
| CheckRugpull string
| MakeDir string
| WriteText string string
| CopyFile string string
| RemoveFile string
| CommitDocument string
| ArchiveDocument string
| RemoveWorktree string
| AdmitQueuedRuns

record store =
  runs :: "run list"
  steps :: "step list"
  stories :: "story list"
  abandonments :: "abandonment list"
  events :: "event list"
  effects :: "effect list"
  now :: int

text \<open>An optional field is left out of the payload when it is undefined.\<close>

definition opt_str :: "string \<Rightarrow> string option \<Rightarrow> (string \<times> ev_val) list" where
  "opt_str k v = (case v of None \<Rightarrow> [] | Some x \<Rightarrow> [(k, VStr x)])"

definition opt_int :: "string \<Rightarrow> int option \<Rightarrow> (string \<times> ev_val) list" where
  "opt_int k v = (case v of None \<Rightarrow> [] | Some x \<Rightarrow> [(k, VInt x)])"

definition opt_nat :: "string \<Rightarrow> nat option \<Rightarrow> (string \<times> ev_val) list" where
  "opt_nat k v = (case v of None \<Rightarrow> [] | Some x \<Rightarrow> [(k, VNat x)])"

definition emit :: "string \<Rightarrow> string \<Rightarrow> (string \<times> ev_val) list \<Rightarrow> store \<Rightarrow> store" where
  "emit name runId fs w =
     w\<lparr>events := events w @ [\<lparr>ev_name = name, ev_run = runId, ev_fields = fs\<rparr>]\<rparr>"

definition call :: "effect \<Rightarrow> store \<Rightarrow> store" where
  "call e w = w\<lparr>effects := effects w @ [e]\<rparr>"

section \<open>Lookup and update by primary key\<close>

definition find_step :: "string \<Rightarrow> store \<Rightarrow> step option" where
  "find_step i w = List.find (\<lambda>s. s_id s = i) (steps w)"

definition find_run :: "string \<Rightarrow> store \<Rightarrow> run option" where
  "find_run i w = List.find (\<lambda>r. r_id r = i) (runs w)"

definition find_story :: "string \<Rightarrow> store \<Rightarrow> story option" where
  "find_story i w = List.find (\<lambda>t. t_id t = i) (stories w)"

definition upd_step :: "string \<Rightarrow> (step \<Rightarrow> step) \<Rightarrow> store \<Rightarrow> store" where
  "upd_step i f w = w\<lparr>steps := upd_where (\<lambda>s. s_id s = i) f (steps w)\<rparr>"

definition upd_run :: "string \<Rightarrow> (run \<Rightarrow> run) \<Rightarrow> store \<Rightarrow> store" where
  "upd_run i f w = w\<lparr>runs := upd_where (\<lambda>r. r_id r = i) f (runs w)\<rparr>"

definition upd_story :: "string \<Rightarrow> (story \<Rightarrow> story) \<Rightarrow> store \<Rightarrow> store" where
  "upd_story i f w = w\<lparr>stories := upd_where (\<lambda>t. t_id t = i) f (stories w)\<rparr>"

text \<open>Every \<^verbatim>\<open>UPDATE\<close> of the program also stamps \<^verbatim>\<open>updated_at\<close>, which the \<open>set_\<close> forms do.\<close>

definition set_step :: "string \<Rightarrow> (step \<Rightarrow> step) \<Rightarrow> store \<Rightarrow> store" where
  "set_step i f w = upd_step i (\<lambda>s. (f s)\<lparr>s_updated_at := Some (now w)\<rparr>) w"

definition set_run :: "string \<Rightarrow> (run \<Rightarrow> run) \<Rightarrow> store \<Rightarrow> store" where
  "set_run i f w = upd_run i (\<lambda>r. (f r)\<lparr>r_updated_at := Some (now w)\<rparr>) w"

definition set_story :: "string \<Rightarrow> (story \<Rightarrow> story) \<Rightarrow> store \<Rightarrow> store" where
  "set_story i f w = upd_story i (\<lambda>t. (f t)\<lparr>t_updated_at := Some (now w)\<rparr>) w"

definition run_steps :: "string \<Rightarrow> store \<Rightarrow> step list" where
  "run_steps r w = filter (\<lambda>s. s_run_id s = r) (steps w)"

definition run_stories :: "string \<Rightarrow> store \<Rightarrow> story list" where
  "run_stories r w = filter (\<lambda>t. t_run_id t = r) (stories w)"

definition step_status_of :: "string \<Rightarrow> store \<Rightarrow> step_status option" where
  "step_status_of i w = map_option s_status (find_step i w)"

definition run_status_of :: "string \<Rightarrow> store \<Rightarrow> run_status option" where
  "run_status_of i w = map_option r_status (find_run i w)"

definition getWorkflowId :: "string \<Rightarrow> store \<Rightarrow> string option" where
  "getWorkflowId r w = map_option r_workflow_id (find_run r w)"

definition verify_each :: "loop_config \<Rightarrow> bool" where
  "verify_each lc =
     (case lc_verifyEach lc of Some b \<Rightarrow> b
      | None \<Rightarrow> (case lc_verify_each lc of Some b \<Rightarrow> b | None \<Rightarrow> False))"

definition verify_step_id :: "loop_config \<Rightarrow> string option" where
  "verify_step_id lc = (case lc_verifyStep lc of Some s \<Rightarrow> Some s | None \<Rightarrow> lc_verify_step lc)"

definition terminal :: "run_status \<Rightarrow> bool" where
  "terminal st \<longleftrightarrow> st = RCompleted \<or> st = RFailed \<or> st = RCanceled"

section \<open>Keyed tables\<close>

text \<open>What every table of the store promises: an update touches the rows of one key, in place.\<close>

locale keyed_table =
  fixes key :: "'r \<Rightarrow> string"
    and rows :: "store \<Rightarrow> 'r list"
    and find :: "string \<Rightarrow> store \<Rightarrow> 'r option"
    and upd :: "string \<Rightarrow> ('r \<Rightarrow> 'r) \<Rightarrow> store \<Rightarrow> store"
  assumes find_rows: "find i w = List.find (\<lambda>r. key r = i) (rows w)"
    and rows_upd: "rows (upd i f w) = upd_where (\<lambda>r. key r = i) f (rows w)"
begin

lemma length_rows_upd: "length (rows (upd i f w)) = length (rows w)"
  by (simp add: rows_upd)

lemma keys_upd: "(\<And>r. key (f r) = key r) \<Longrightarrow> map key (rows (upd i f w)) = map key (rows w)"
  by (simp add: rows_upd map_upd_where)

lemma find_key: "find i w = Some r \<Longrightarrow> key r = i \<and> r \<in> set (rows w)"
  by (auto simp: find_rows find_Some_iff in_set_conv_nth)

lemma find_upd_same:
  assumes "\<And>r. key (f r) = key r"
  shows "find i (upd i f w) = map_option f (find i w)"
proof -
  have "List.find (\<lambda>r. key r = i) (upd_where (\<lambda>r. key r = i) f rs) =
        map_option f (List.find (\<lambda>r. key r = i) rs)" for rs
    by (induction rs) (auto simp: assms)
  then show ?thesis by (simp add: find_rows rows_upd)
qed

lemma find_upd_other:
  assumes "\<And>r. key (f r) = key r" "j \<noteq> i"
  shows "find j (upd i f w) = find j w"
proof -
  have "List.find (\<lambda>r. key r = j) (upd_where (\<lambda>r. key r = i) f rs) =
        List.find (\<lambda>r. key r = j) rs" for rs
    using assms(2) by (induction rs) (auto simp: assms(1))
  then show ?thesis by (simp add: find_rows rows_upd)
qed

lemma find_in_rows:
  "distinct (map key (rows w)) \<Longrightarrow> r \<in> set (rows w) \<Longrightarrow> find (key r) w = Some r"
proof -
  have "distinct (map key rs) \<Longrightarrow> r \<in> set rs \<Longrightarrow> List.find (\<lambda>x. key x = key r) rs = Some r" for rs
    by (induction rs) (auto simp: image_iff)
  moreover assume "distinct (map key (rows w))" "r \<in> set (rows w)"
  ultimately show ?thesis by (simp add: find_rows)
qed

lemma upd_miss: "find i w = None \<Longrightarrow> rows (upd i f w) = rows w"
  by (auto simp: rows_upd find_rows find_None_iff intro: upd_where_none)

lemma rows_upd_iff:
  "r \<in> set (rows (upd i f w)) \<longleftrightarrow> (\<exists>r0 \<in> set (rows w). r = (if key r0 = i then f r0 else r0))"
  by (simp add: rows_upd set_upd_where)

end

interpretation step_table: keyed_table s_id steps find_step upd_step
  by unfold_locales (simp_all add: find_step_def upd_step_def)

interpretation run_table: keyed_table r_id runs find_run upd_run
  by unfold_locales (simp_all add: find_run_def upd_run_def)

interpretation story_table: keyed_table t_id stories find_story upd_story
  by unfold_locales (simp_all add: find_story_def upd_story_def)

section \<open>Projections of the primitive updates\<close>

lemma emit_simps [simp]:
  "runs (emit n r f w) = runs w" "steps (emit n r f w) = steps w"
  "stories (emit n r f w) = stories w" "abandonments (emit n r f w) = abandonments w"
  "effects (emit n r f w) = effects w" "now (emit n r f w) = now w"
  by (simp_all add: emit_def)

lemma call_simps [simp]:
  "runs (call e w) = runs w" "steps (call e w) = steps w" "stories (call e w) = stories w"
  "abandonments (call e w) = abandonments w" "events (call e w) = events w"
  "now (call e w) = now w"
  by (simp_all add: call_def)

lemma set_step_simps [simp]:
  "runs (set_step i f w) = runs w" "stories (set_step i f w) = stories w"
  "abandonments (set_step i f w) = abandonments w" "events (set_step i f w) = events w"
  "effects (set_step i f w) = effects w" "now (set_step i f w) = now w"
  by (simp_all add: set_step_def upd_step_def)

lemma set_run_simps [simp]:
  "steps (set_run i f w) = steps w" "stories (set_run i f w) = stories w"
  "abandonments (set_run i f w) = abandonments w" "events (set_run i f w) = events w"
  "effects (set_run i f w) = effects w" "now (set_run i f w) = now w"
  by (simp_all add: set_run_def upd_run_def)

lemma set_story_simps [simp]:
  "runs (set_story i f w) = runs w" "steps (set_story i f w) = steps w"
  "abandonments (set_story i f w) = abandonments w" "events (set_story i f w) = events w"
  "effects (set_story i f w) = effects w" "now (set_story i f w) = now w"
  by (simp_all add: set_story_def upd_story_def)

lemma upd_run_simps [simp]:
  "steps (upd_run i f w) = steps w" "stories (upd_run i f w) = stories w"
  "abandonments (upd_run i f w) = abandonments w" "events (upd_run i f w) = events w"
  "effects (upd_run i f w) = effects w" "now (upd_run i f w) = now w"
  by (simp_all add: upd_run_def)

lemma upd_step_simps [simp]:
  "runs (upd_step i f w) = runs w" "stories (upd_step i f w) = stories w"
  "abandonments (upd_step i f w) = abandonments w" "events (upd_step i f w) = events w"
  "effects (upd_step i f w) = effects w" "now (upd_step i f w) = now w"
  by (simp_all add: upd_step_def)

lemma finds_frame [simp]:
  "find_step i (emit n r f w) = find_step i w" "find_run i (emit n r f w) = find_run i w"
  "find_story i (emit n r f w) = find_story i w" "find_step i (call e w) = find_step i w"
  "find_run i (call e w) = find_run i w" "find_story i (call e w) = find_story i w"
  "find_run i (set_step j g w) = find_run i w" "find_story i (set_step j g w) = find_story i w"
  "find_step i (set_run j h w) = find_step i w" "find_story i (set_run j h w) = find_story i w"
  "find_step i (set_story j k w) = find_step i w" "find_run i (set_story j k w) = find_run i w"
  "find_step i (upd_run j h w) = find_step i w" "find_story i (upd_run j h w) = find_story i w"
  "find_run i (upd_step j g w) = find_run i w" "find_story i (upd_step j g w) = find_story i w"
  by (simp_all add: find_step_def find_run_def find_story_def)

lemma find_set_step:
  "(\<And>s. s_id (f s) = s_id s) \<Longrightarrow>
   find_step j (set_step i f w) =
     (if j = i then map_option (\<lambda>s. (f s)\<lparr>s_updated_at := Some (now w)\<rparr>) (find_step i w)
      else find_step j w)"
  by (simp add: set_step_def step_table.find_upd_same step_table.find_upd_other)

lemma find_set_run:
  "(\<And>r. r_id (f r) = r_id r) \<Longrightarrow>
   find_run j (set_run i f w) =
     (if j = i then map_option (\<lambda>r. (f r)\<lparr>r_updated_at := Some (now w)\<rparr>) (find_run i w)
      else find_run j w)"
  by (simp add: set_run_def run_table.find_upd_same run_table.find_upd_other)

lemma find_set_story:
  "(\<And>t. t_id (f t) = t_id t) \<Longrightarrow>
   find_story j (set_story i f w) =
     (if j = i then map_option (\<lambda>t. (f t)\<lparr>t_updated_at := Some (now w)\<rparr>) (find_story i w)
      else find_story j w)"
  by (simp add: set_story_def story_table.find_upd_same story_table.find_upd_other)

lemmas find_set = find_set_step find_set_run find_set_story

text \<open>The tables and updates unfolded, to evaluate an operation at a concrete store.\<close>

lemmas eval_store =
  find_step_def find_run_def find_story_def upd_step_def upd_run_def upd_story_def
  set_step_def set_run_def set_story_def run_steps_def run_stories_def

end
