(* ===== verification/Json.thy ===== *)
theory Json
  imports Prelude
begin

text \<open>
  The JSON texts the step operations read.  \<^verbatim>\<open>JSON.parse\<close> belongs to the language, so its grammar is
  written out: the reader is a recursive descent over the characters with a fuel that the length
  of the text bounds.  An object keeps its members as they stand in the text, repeated keys
  included; reading a property takes the last of them, as \<^verbatim>\<open>JSON.parse\<close> does.  A number keeps its
  text.  The model's strings are Latin-1, so an escape \<^verbatim>\<open>\uXXXX\<close> above 255 has no character of its
  own: the parameter \<open>wide\<close> says which character stands for it.
\<close>

datatype json =
  JNull
| JBool bool
| JNum string
| JStr string
| JArr "json list"
| JObj "(string \<times> json) list"

section \<open>Reading\<close>

abbreviation dq :: char where "dq \<equiv> CHR 0x22"

abbreviation bslash :: char where "bslash \<equiv> CHR 0x5C"

definition json_ws :: "char \<Rightarrow> bool" where
  "json_ws c \<longleftrightarrow> code_of c \<in> {9, 10, 13, 32}"

definition skip_ws :: "string \<Rightarrow> string" where
  "skip_ws s = dropWhile json_ws s"

definition hex_val :: "char \<Rightarrow> nat option" where
  "hex_val c =
     (if is_digit c then Some (code_of c - 48)
      else if in_range c 97 102 then Some (code_of c - 87)
      else if in_range c 65 70 then Some (code_of c - 55) else None)"

fun hex4 :: "string \<Rightarrow> (nat \<times> string) option" where
  "hex4 (a # b # c # d # r) =
     (case (hex_val a, hex_val b, hex_val c, hex_val d) of
        (Some w, Some x, Some y, Some z) \<Rightarrow> Some (((w * 16 + x) * 16 + y) * 16 + z, r)
      | _ \<Rightarrow> None)"
| "hex4 _ = None"

definition simple_escape :: "char \<Rightarrow> char option" where
  "simple_escape c =
     map_of [(dq, dq), (bslash, bslash), (CHR ''/'', CHR ''/''), (CHR ''b'', CHR 0x08),
             (CHR ''f'', CHR 0x0C), (CHR ''n'', CHR 0x0A), (CHR ''r'', CHR 0x0D),
             (CHR ''t'', CHR 0x09)] c"

definition code_char :: "(nat \<Rightarrow> char) \<Rightarrow> nat \<Rightarrow> char" where
  "code_char wide n = (if n < 256 then char_of n else wide n)"

text \<open>The rest of a string after its opening quote.\<close>

function read_string :: "(nat \<Rightarrow> char) \<Rightarrow> string \<Rightarrow> (string \<times> string) option" where
  "read_string wide [] = None"
| "read_string wide (c # cs) =
     (if c = dq then Some ([], cs)
      else if c = bslash then
        (case cs of
           [] \<Rightarrow> None
         | d # ds \<Rightarrow>
             if d = CHR ''u'' then
               (case hex4 ds of
                  None \<Rightarrow> None
                | Some (n, es) \<Rightarrow>
                    map_option (\<lambda>(s, r). (code_char wide n # s, r)) (read_string wide es))
             else
               (case simple_escape d of
                  None \<Rightarrow> None
                | Some e \<Rightarrow> map_option (\<lambda>(s, r). (e # s, r)) (read_string wide ds)))
      else if code_of c < 32 then None
      else map_option (\<lambda>(s, r). (c # s, r)) (read_string wide cs))"
  by pat_completeness auto

lemma hex4_length: "hex4 s = Some (n, r) \<Longrightarrow> length r < length s"
  by (cases s rule: hex4.cases) (auto split: option.splits)

termination read_string
  by (relation "measure (\<lambda>(_, s). length s)") (auto dest: hex4_length)

definition take_digits :: "string \<Rightarrow> string \<times> string" where
  "take_digits s = (takeWhile is_digit s, dropWhile is_digit s)"

text \<open>The parts of a number: sign and integer part, fraction, exponent.\<close>

fun read_sign :: "string \<Rightarrow> string \<Rightarrow> string \<times> string" where
  "read_sign signs [] = ([], [])"
| "read_sign signs (c # cs) = (if c \<in> set signs then ([c], cs) else ([], c # cs))"

definition read_int :: "string \<Rightarrow> (string \<times> string) option" where
  "read_int s =
     (let (sg, s1) = read_sign ''-'' s;
          (ds, r) = take_digits s1
      in if ds = [] then None
         else if hd ds = CHR ''0'' then Some (sg @ [CHR ''0''], tl ds @ r)
         else Some (sg @ ds, r))"

definition read_frac :: "string \<Rightarrow> (string \<times> string) option" where
  "read_frac s =
     (case s of
        c # cs \<Rightarrow>
          if c = CHR ''.'' then (let (ds, r) = take_digits cs in if ds = [] then None else Some (c # ds, r))
          else Some ([], s)
      | [] \<Rightarrow> Some ([], s))"

definition read_exp :: "string \<Rightarrow> (string \<times> string) option" where
  "read_exp s =
     (case s of
        c # cs \<Rightarrow>
          if c = CHR ''e'' \<or> c = CHR ''E''
          then (let (sg, s1) = read_sign ''+-'' cs;
                    (ds, r) = take_digits s1
                in if ds = [] then None else Some (c # sg @ ds, r))
          else Some ([], s)
      | [] \<Rightarrow> Some ([], s))"

definition read_number :: "string \<Rightarrow> (string \<times> string) option" where
  "read_number s =
     (case read_int s of
        None \<Rightarrow> None
      | Some (a, s1) \<Rightarrow>
          (case read_frac s1 of
             None \<Rightarrow> None
           | Some (b, s2) \<Rightarrow>
               (case read_exp s2 of None \<Rightarrow> None | Some (c, s3) \<Rightarrow> Some (a @ b @ c, s3))))"

fun strip_prefix :: "string \<Rightarrow> string \<Rightarrow> string option" where
  "strip_prefix [] s = Some s"
| "strip_prefix (p # ps) [] = None"
| "strip_prefix (p # ps) (c # cs) = (if p = c then strip_prefix ps cs else None)"

text \<open>A value, the elements of an array after its bracket, the members of an object after its
  brace.  White space before a value is skipped by the caller of a whole text and by each part.\<close>

fun read_value :: "(nat \<Rightarrow> char) \<Rightarrow> nat \<Rightarrow> string \<Rightarrow> (json \<times> string) option"
  and read_elements :: "(nat \<Rightarrow> char) \<Rightarrow> nat \<Rightarrow> string \<Rightarrow> (json list \<times> string) option"
  and read_members :: "(nat \<Rightarrow> char) \<Rightarrow> nat \<Rightarrow> string \<Rightarrow> ((string \<times> json) list \<times> string) option" where
  "read_value wide 0 s = None"
| "read_value wide (Suc n) s =
     (case skip_ws s of
        [] \<Rightarrow> None
      | c # cs \<Rightarrow>
          if c = dq then map_option (\<lambda>(x, r). (JStr x, r)) (read_string wide cs)
          else if c = CHR ''['' then
            (case skip_ws cs of
               [] \<Rightarrow> None
             | d # ds \<Rightarrow>
                 if d = CHR '']'' then Some (JArr [], ds)
                 else map_option (\<lambda>(xs, r). (JArr xs, r)) (read_elements wide n (d # ds)))
          else if c = CHR ''{'' then
            (case skip_ws cs of
               [] \<Rightarrow> None
             | d # ds \<Rightarrow>
                 if d = CHR ''}'' then Some (JObj [], ds)
                 else map_option (\<lambda>(ms, r). (JObj ms, r)) (read_members wide n (d # ds)))
          else if c = CHR ''t'' then map_option (\<lambda>r. (JBool True, r)) (strip_prefix ''rue'' cs)
          else if c = CHR ''f'' then map_option (\<lambda>r. (JBool False, r)) (strip_prefix ''alse'' cs)
          else if c = CHR ''n'' then map_option (\<lambda>r. (JNull, r)) (strip_prefix ''ull'' cs)
          else map_option (\<lambda>(x, r). (JNum x, r)) (read_number (c # cs)))"
| "read_elements wide 0 s = None"
| "read_elements wide (Suc n) s =
     (case read_value wide n s of
        None \<Rightarrow> None
      | Some (x, r) \<Rightarrow>
          (case skip_ws r of
             [] \<Rightarrow> None
           | c # cs \<Rightarrow>
               if c = CHR '']'' then Some ([x], cs)
               else if c = CHR '','' then map_option (\<lambda>(xs, r). (x # xs, r)) (read_elements wide n cs)
               else None))"
| "read_members wide 0 s = None"
| "read_members wide (Suc n) s =
     (case skip_ws s of
        [] \<Rightarrow> None
      | q # qs \<Rightarrow>
          if q \<noteq> dq then None
          else (case read_string wide qs of
                  None \<Rightarrow> None
                | Some (k, r) \<Rightarrow>
                    (case skip_ws r of
                       [] \<Rightarrow> None
                     | c # cs \<Rightarrow>
                         if c \<noteq> CHR '':'' then None
                         else (case read_value wide n cs of
                                 None \<Rightarrow> None
                               | Some (x, r2) \<Rightarrow>
                                   (case skip_ws r2 of
                                      [] \<Rightarrow> None
                                    | d # ds \<Rightarrow>
                                        if d = CHR ''}'' then Some ([(k, x)], ds)
                                        else if d = CHR '',''
                                        then map_option (\<lambda>(ms, r). ((k, x) # ms, r)) (read_members wide n ds)
                                        else None)))))"

text \<open>\<^verbatim>\<open>JSON.parse\<close>; \<open>None\<close> is its \<^verbatim>\<open>SyntaxError\<close>.\<close>

definition json_parse :: "(nat \<Rightarrow> char) \<Rightarrow> string \<Rightarrow> json option" where
  "json_parse wide s =
     (case read_value wide (2 * length s + 2) s of
        None \<Rightarrow> None
      | Some (j, r) \<Rightarrow> if skip_ws r = [] then Some j else None)"

text \<open>\<^verbatim>\<open>v.k\<close>: undefined for what is not an object.  None of the names read is inherited.\<close>

definition prop_of :: "json \<Rightarrow> string \<Rightarrow> json option" where
  "prop_of j k = (case j of JObj ms \<Rightarrow> map_of (rev ms) k | _ \<Rightarrow> None)"

text \<open>\<^verbatim>\<open>String(v)\<close>; the text of a number is a parameter.\<close>

fun js_string :: "(string \<Rightarrow> string) \<Rightarrow> json \<Rightarrow> string" where
  "js_string num JNull = ''null''"
| "js_string num (JBool b) = (if b then ''true'' else ''false'')"
| "js_string num (JNum n) = num n"
| "js_string num (JStr s) = s"
| "js_string num (JArr xs) =
     join '','' (map (\<lambda>x. if x = JNull then [] else js_string num x) xs)"
| "js_string num (JObj ms) = ''[object Object]''"

section \<open>Writing\<close>

text \<open>A text for a value: no white space, quotes, backslashes and control characters escaped.\<close>

definition hex_digit :: "nat \<Rightarrow> char" where
  "hex_digit n = char_of (if n < 10 then 48 + n else 87 + n)"

definition escape_char :: "char \<Rightarrow> string" where
  "escape_char c =
     (if c = dq \<or> c = bslash then [bslash, c]
      else if code_of c < 32
      then [bslash, CHR ''u'', CHR ''0'', CHR ''0'', hex_digit (code_of c div 16), hex_digit (code_of c mod 16)]
      else [c])"

definition json_quote :: "string \<Rightarrow> string" where
  "json_quote s = dq # concat (map escape_char s) @ [dq]"

fun render :: "json \<Rightarrow> string" where
  "render JNull = ''null''"
| "render (JBool b) = (if b then ''true'' else ''false'')"
| "render (JNum n) = n"
| "render (JStr s) = json_quote s"
| "render (JArr xs) = CHR ''['' # join '','' (map render xs) @ '']''"
| "render (JObj ms) = CHR ''{'' # join '','' (map (\<lambda>(k, v). json_quote k @ CHR '':'' # render v) ms) @ ''}''"

end
