(* ===== verification/Stories_Json.thy ===== *)
theory Stories_Json
  imports Store Json
begin

text \<open>
  The story list of a planner's reply (\<^verbatim>\<open>parseAndInsertStories\<close> and its scanners in
  \<^verbatim>\<open>src/src/installer/step-ops.ts\<close>): the \<^verbatim>\<open>STORIES_JSON\<close> block is cut out of the reply, parsed,
  scanned for fused stories and repeated keys, checked story by story, and only then inserted.

  The host of the program is a parameter: the messages of its exceptions, the text of a number, the
  UUIDs it draws for one call, and the characters that stand for wide code units.
\<close>

record js_host =
  wide_unit :: "nat \<Rightarrow> char"
  number_text :: "string \<Rightarrow> string"
  syntax_message :: "string \<Rightarrow> string"
  null_message :: string
  bind_message :: string
  uuid :: "nat \<Rightarrow> string"

section \<open>The block\<close>

text \<open>\<^verbatim>\<open>/^[A-Z_]+:\s/\<close>\<close>

definition header_line :: "string \<Rightarrow> bool" where
  "header_line l \<longleftrightarrow>
     takeWhile is_key_char l \<noteq> []
     \<and> (case dropWhile is_key_char l of c # d # _ \<Rightarrow> c = CHR '':'' \<and> is_ws d | _ \<Rightarrow> False)"

definition stories_block :: "string \<Rightarrow> string option" where
  "stories_block out =
     (case dropWhile (\<lambda>l. \<not> starts_with ''STORIES_JSON:'' l) (split_on newline out) of
        [] \<Rightarrow> None
      | l # ls \<Rightarrow>
          Some (trim (join [newline] (trim (drop 13 l) # takeWhile (\<lambda>l. \<not> header_line l) ls))))"

section \<open>Scanners over the raw text\<close>

text \<open>\<^verbatim>\<open>"key"\s*:\<close> at the head of the text, for a key of letters.\<close>

definition key_here :: "string \<Rightarrow> string \<Rightarrow> bool" where
  "key_here key s \<longleftrightarrow>
     (case strip_prefix (dq # key @ [dq]) s of
        None \<Rightarrow> False
      | Some r \<Rightarrow> (case dropWhile is_ws r of [] \<Rightarrow> False | c # _ \<Rightarrow> c = CHR '':''))"

text \<open>The flag: an odd number of backslashes stands before this character.\<close>

fun count_keys :: "string \<Rightarrow> bool \<Rightarrow> string \<Rightarrow> nat" where
  "count_keys key esc [] = 0"
| "count_keys key esc (c # cs) =
     (if \<not> esc \<and> key_here key (c # cs) then 1 else 0)
     + count_keys key (c = bslash \<and> \<not> esc) cs"

definition countUnescapedJsonKey :: "string \<Rightarrow> string \<Rightarrow> nat" where
  "countUnescapedJsonKey jsonText key = count_keys key False jsonText"

record dup =
  dup_key :: string
  dup_index :: nat
  dup_first :: nat
  dup_second :: nat

text \<open>The characters of a string, the backslashes of its escapes dropped, and what follows its closing
  quote.\<close>

fun raw_string :: "string \<Rightarrow> string \<times> string" where
  "raw_string [] = ([], [])"
| "raw_string (c # cs) =
     (if c = bslash then
        (case cs of [] \<Rightarrow> ([], []) | d # ds \<Rightarrow> (let (v, r) = raw_string ds in (d # v, r)))
      else if c = dq then ([], cs)
      else (let (v, r) = raw_string cs in (c # v, r)))"

lemma raw_string_length: "length (snd (raw_string s)) \<le> length s"
proof (induction s rule: raw_string.induct)
  case (2 c cs)
  show ?case
  proof (cases "c = bslash")
    case True
    then show ?thesis using 2(1) by (cases cs) (simp_all add: split_def Let_def)
  next
    case False
    then show ?thesis using 2(2) by (cases "c = dq") (simp_all add: split_def Let_def)
  qed
qed simp

definition colon_next :: "string \<Rightarrow> bool" where
  "colon_next r \<longleftrightarrow> (case dropWhile is_ws r of [] \<Rightarrow> False | c # _ \<Rightarrow> c = CHR '':'')"

type_synonym frame = "(string \<times> nat) list \<times> nat"

text \<open>The key of an open object: noted with its position, or reported when it stands there already.\<close>

fun note_key :: "string \<Rightarrow> nat \<Rightarrow> frame list \<Rightarrow> frame list \<times> dup list" where
  "note_key v i [] = ([], [])"
| "note_key v i ((ks, x) # fs) =
     (case map_of ks v of
        Some p \<Rightarrow> ((ks, x) # fs, [\<lparr>dup_key = v, dup_index = x, dup_first = p, dup_second = i\<rparr>])
      | None \<Rightarrow> (((v, i) # ks, x) # fs, []))"

definition open_frame :: "int \<Rightarrow> nat \<Rightarrow> frame list \<Rightarrow> frame" where
  "open_frame d n st =
     ([], if d = 1 then n else (case st of [] \<Rightarrow> n | (_, x) # _ \<Rightarrow> x))"

function scan_dups :: "nat \<Rightarrow> int \<Rightarrow> nat \<Rightarrow> frame list \<Rightarrow> string \<Rightarrow> dup list" where
  "scan_dups i d n st [] = []"
| "scan_dups i d n st (c # cs) =
     (if c = dq then
        (let (v, r) = raw_string cs; (st', ds) = (if colon_next r then note_key v i st else (st, []))
         in ds @ scan_dups (Suc i + (length cs - length r)) d n st' r)
      else if c = CHR ''{'' then
        scan_dups (Suc i) (d + 1) (if d + 1 = 1 then Suc n else n) (open_frame (d + 1) n st # st) cs
      else if c = CHR ''}'' then scan_dups (Suc i) (d - 1) n (tl st) cs
      else scan_dups (Suc i) d n st cs)"
  by pat_completeness (simp_all only: prod.inject list.inject list.distinct simp_thms)

lemma raw_string_shorter: "(v, r) = raw_string cs \<Longrightarrow> length r < length (c # cs)"
  using raw_string_length [of cs] by (metis le_imp_less_Suc length_Cons snd_conv)

termination scan_dups
  by (relation "measure (\<lambda>(_, _, _, _, s). length s)";
      simp only: wf_measure in_measure prod.case length_Cons lessI raw_string_shorter [unfolded length_Cons])

definition detectDuplicateKeys :: "string \<Rightarrow> dup list" where
  "detectDuplicateKeys jsonText = scan_dups 0 0 0 [] jsonText"

fun line_col :: "nat \<times> nat \<Rightarrow> nat \<Rightarrow> string \<Rightarrow> nat \<times> nat" where
  "line_col (l, c) 0 s = (l, c)"
| "line_col (l, c) (Suc n) [] = (l, c)"
| "line_col (l, c) (Suc n) (x # xs) =
     line_col (if x = newline then (Suc l, 1) else (l, Suc c)) n xs"

definition positionToLineCol :: "string \<Rightarrow> nat \<Rightarrow> nat \<times> nat" where
  "positionToLineCol s pos = line_col (1, 1) pos s"

section \<open>Checks\<close>

text \<open>\<^verbatim>\<open>/^[A-Z]+-\d+$/i\<close>\<close>

definition story_id_ok :: "string \<Rightarrow> bool" where
  "story_id_ok s \<longleftrightarrow>
     (let letters = takeWhile (\<lambda>c. is_upper c \<or> is_lower c) s; r = dropWhile (\<lambda>c. is_upper c \<or> is_lower c) s
      in letters \<noteq> [] \<and> r \<noteq> [] \<and> hd r = CHR ''-'' \<and> tl r \<noteq> [] \<and> list_all is_digit (tl r))"

definition fused_message :: "nat \<Rightarrow> nat \<Rightarrow> string" where
  "fused_message ids n =
     ''STORIES_JSON structural mismatch: the raw JSON contains '' @ nat_str ids
     @ '' \"id\" keys but parsed to only '' @ nat_str n @ '' ''
     @ (if n = 1 then ''story'' else ''stories'')
     @ ''. Story objects are likely fused together (missing \"},{\" separators between stories), so JSON.parse silently discarded every story but the last.''"

definition dup_message :: "string \<Rightarrow> dup \<Rightarrow> string" where
  "dup_message jsonText p =
     ''STORIES_JSON has duplicate key \"'' @ dup_key p @ ''\" in story object at index ''
     @ nat_str (dup_index p) @ '' (lines '' @ nat_str (fst (positionToLineCol jsonText (dup_first p)))
     @ '','' @ nat_str (fst (positionToLineCol jsonText (dup_second p))) @ '').''"

definition structure_error :: "string \<Rightarrow> nat \<Rightarrow> string option" where
  "structure_error jsonText n =
     (let ids = countUnescapedJsonKey jsonText ''id''; ds = detectDuplicateKeys jsonText
      in if ids > n \<or> ds \<noteq> []
         then Some (join '' '' ((if ids > n then [fused_message ids n] else [])
                @ map (dup_message jsonText) ds
                @ [''Each story must be a separate {...} object separated by },{. See retry feedback for the format contract.'']))
         else None)"

definition criteria :: "json \<Rightarrow> json option" where
  "criteria s =
     (case prop_of s ''acceptanceCriteria'' of
        Some v \<Rightarrow> if v = JNull then prop_of s ''acceptance_criteria'' else Some v
      | None \<Rightarrow> prop_of s ''acceptance_criteria'')"

definition present :: "json option \<Rightarrow> bool" where
  "present v \<longleftrightarrow> v \<noteq> None \<and> v \<noteq> Some JNull"

definition text_ok :: "json option \<Rightarrow> bool" where
  "text_ok v \<longleftrightarrow> (case v of Some (JStr s) \<Rightarrow> trim s \<noteq> [] | _ \<Rightarrow> False)"

definition at_index :: "nat \<Rightarrow> string" where
  "at_index i = ''STORIES_JSON story at index '' @ nat_str i"

text \<open>The first story that fails stops the checks; the ids seen so far are strings.\<close>

definition check_story :: "js_host \<Rightarrow> nat \<Rightarrow> string list \<Rightarrow> json \<Rightarrow> string + string list" where
  "check_story h i seen s =
     (let idv = prop_of s ''id''; titl = prop_of s ''title''; des = prop_of s ''description'';
          idt = (case idv of None \<Rightarrow> ''undefined'' | Some v \<Rightarrow> js_string (number_text h) v);
          named = at_index i @ '' (id \"'' @ idt @ ''\")''
      in if s = JNull then Inl (null_message h)
         else (case criteria s of
                 Some (JArr (c # cs)) \<Rightarrow>
                   if \<not> present idv \<or> \<not> present titl \<or> \<not> present des
                   then Inl (at_index i @ '' missing required fields (id, title, description, acceptanceCriteria)'')
                   else if \<not> story_id_ok idt
                   then Inl (at_index i @ '' has invalid id \"'' @ idt
                             @ ''\". Ids must match pattern UPPERCASE-DIGITS (e.g. US-001, fix-002).'')
                   else if (case idv of Some (JStr x) \<Rightarrow> x \<in> set seen | _ \<Rightarrow> False)
                   then Inl (''STORIES_JSON has duplicate story id \"'' @ idt @ ''\"'')
                   else if \<not> text_ok titl
                   then Inl (named @ '' has empty or whitespace-only title. Title must be a non-empty string.'')
                   else if \<not> text_ok des
                   then Inl (named @ '' has empty or whitespace-only description. Description must be a non-empty string.'')
                   else (case dropWhile (\<lambda>(_, x). text_ok (Some x)) (enumerate 0 (c # cs)) of
                           (j, _) # _ \<Rightarrow>
                             Inl (named @ '' has empty or non-string acceptanceCriteria['' @ nat_str j
                                  @ '']. Each acceptance criteria item must be a non-empty string.'')
                         | [] \<Rightarrow> Inr ((case idv of Some (JStr x) \<Rightarrow> [x] | _ \<Rightarrow> []) @ seen))
               | _ \<Rightarrow>
                   Inl (at_index i @ '' missing required fields (id, title, description, acceptanceCriteria)'')))"

fun check_stories :: "js_host \<Rightarrow> nat \<Rightarrow> string list \<Rightarrow> json list \<Rightarrow> string option" where
  "check_stories h i seen [] = None"
| "check_stories h i seen (s # ss) =
     (case check_story h i seen s of
        Inl e \<Rightarrow> Some e
      | Inr seen' \<Rightarrow> check_stories h (Suc i) seen' ss)"

section \<open>Insertion\<close>

text \<open>A value bound to a TEXT column; SQLite takes neither arrays nor objects nor booleans.\<close>

definition bound_text :: "js_host \<Rightarrow> json option \<Rightarrow> string option" where
  "bound_text h v =
     (case v of Some (JStr s) \<Rightarrow> Some s | Some (JNum n) \<Rightarrow> Some (number_text h n) | _ \<Rightarrow> None)"

definition json_str :: "json option \<Rightarrow> string" where
  "json_str v = (case v of Some (JStr s) \<Rightarrow> s | _ \<Rightarrow> [])"

definition story_row :: "js_host \<Rightarrow> string \<Rightarrow> nat \<Rightarrow> string \<Rightarrow> json \<Rightarrow> int \<Rightarrow> story" where
  "story_row h runId i sid s t =
     \<lparr>t_id = uuid h i, t_run_id = runId, t_story_index = i, t_story_id = sid,
      t_title = json_str (prop_of s ''title''), t_description = json_str (prop_of s ''description''),
      t_acceptance = (case criteria s of Some (JArr xs) \<Rightarrow> map (\<lambda>x. json_str (Some x)) xs | _ \<Rightarrow> []),
      t_status = TPending, t_output = None, t_retry_count = 0, t_max_retries = 4,
      t_abandoned_count = 0, t_resume_reset_count = 0, t_updated_at = Some t\<rparr>"

fun insert_stories :: "js_host \<Rightarrow> string \<Rightarrow> nat \<Rightarrow> json list \<Rightarrow> store \<Rightarrow> store \<times> string option" where
  "insert_stories h runId i [] w = (w, None)"
| "insert_stories h runId i (s # ss) w =
     (case bound_text h (prop_of s ''id'') of
        None \<Rightarrow> (w, Some (bind_message h))
      | Some sid \<Rightarrow>
          insert_stories h runId (Suc i) ss
            (w\<lparr>stories := stories w @ [story_row h runId i sid s (now w)]\<rparr>))"

text \<open>\<open>Some message\<close> is the exception thrown; the rows inserted before a failed binding stay.\<close>

definition parseAndInsertStories ::
    "js_host \<Rightarrow> string \<Rightarrow> string \<Rightarrow> store \<Rightarrow> store \<times> string option" where
  "parseAndInsertStories h out runId w =
     (case stories_block out of
        None \<Rightarrow> (w, None)
      | Some jsonText \<Rightarrow>
          (case json_parse (wide_unit h) jsonText of
             None \<Rightarrow> (w, Some (''Failed to parse STORIES_JSON: '' @ syntax_message h jsonText))
           | Some (JArr ss) \<Rightarrow>
               if length ss > 20
               then (w, Some (''STORIES_JSON has '' @ nat_str (length ss) @ '' stories, max is 20''))
               else (case structure_error jsonText (length ss) of
                       Some e \<Rightarrow> (w, Some e)
                     | None \<Rightarrow>
                         if ss = []
                         then (w, Some ''STORIES_JSON is present but contains zero stories. The planner must emit at least one story object.'')
                         else (case check_stories h 0 [] ss of
                                 Some e \<Rightarrow> (w, Some e)
                               | None \<Rightarrow> insert_stories h runId 0 ss w))
           | Some _ \<Rightarrow> (w, Some ''STORIES_JSON must be an array'')))"

end
