(* ===== verification/Json_Props.thy ===== *)
theory Json_Props
  imports Json
begin

text \<open>Reading back the text written for a value.\<close>

section \<open>Numbers\<close>

definition num_ok :: "string \<Rightarrow> bool" where
  "num_ok n \<longleftrightarrow> read_number n = Some (n, [])"

text \<open>What may follow a number.\<close>

definition stops :: "string \<Rightarrow> bool" where
  "stops r \<longleftrightarrow> r = [] \<or> hd r \<in> {CHR '','', CHR '']'', CHR ''}''}"

lemma stops_hd: "stops (c # cs) \<Longrightarrow> \<not> is_digit c \<and> c \<noteq> CHR ''.'' \<and> c \<noteq> CHR ''e'' \<and> c \<noteq> CHR ''E''"
  by (auto simp: stops_def is_digit_def in_range_def code_of_def)

lemma stops_digits: "stops r \<Longrightarrow> takeWhile is_digit r = [] \<and> dropWhile is_digit r = r"
  by (cases r) (auto dest: stops_hd)

lemma take_digits_append:
  assumes "stops r"
  shows "take_digits (s @ r) = (fst (take_digits s), snd (take_digits s) @ r)"
proof -
  have "takeWhile is_digit (s @ r) = takeWhile is_digit s" for s
    using stops_digits [OF assms] by (induction s) simp_all
  moreover have "dropWhile is_digit (s @ r) = dropWhile is_digit s @ r" for s
    using stops_digits [OF assms] by (induction s) simp_all
  ultimately show ?thesis by (simp add: take_digits_def)
qed

lemma read_sign_append:
  "stops r \<Longrightarrow> set signs \<subseteq> set ''+-'' \<Longrightarrow>
   read_sign signs (s @ r) = (fst (read_sign signs s), snd (read_sign signs s) @ r)"
  by (cases s; cases r) (auto simp: stops_def)

lemma read_int_append:
  "stops r \<Longrightarrow> read_int s = Some (a, s1) \<Longrightarrow> read_int (s @ r) = Some (a, s1 @ r)"
  by (auto simp: read_int_def Let_def split_def take_digits_append read_sign_append split: if_splits)

lemma read_frac_append:
  "stops r \<Longrightarrow> read_frac s = Some (a, s1) \<Longrightarrow> read_frac (s @ r) = Some (a, s1 @ r)"
  by (cases s; cases r) (auto simp: read_frac_def Let_def split_def take_digits_append
                            dest: stops_hd split: if_splits)

lemma read_exp_append:
  assumes "stops r" "read_exp s = Some (a, s1)"
  shows "read_exp (s @ r) = Some (a, s1 @ r)"
proof (cases s)
  case Nil
  then show ?thesis using assms by (cases r) (auto simp: read_exp_def dest: stops_hd)
next
  case (Cons c cs)
  then show ?thesis using assms
    by (auto simp: read_exp_def Let_def split_def take_digits_append read_sign_append split: if_splits)
qed

lemma read_number_append:
  "stops r \<Longrightarrow> num_ok n \<Longrightarrow> read_number (n @ r) = Some (n, r)"
  by (auto simp: num_ok_def read_number_def read_int_append read_frac_append read_exp_append
           split: option.splits)

lemma read_number_hd: "c \<noteq> CHR ''-'' \<Longrightarrow> \<not> is_digit c \<Longrightarrow> read_number (c # cs) = None"
  by (simp add: read_number_def read_int_def take_digits_def)

lemma num_ok_Cons: "num_ok (c # cs) \<Longrightarrow> c = CHR ''-'' \<or> is_digit c"
  by (rule ccontr) (simp add: num_ok_def read_number_hd)

lemma num_ok_Nil: "\<not> num_ok []"
  by (simp add: num_ok_def read_number_def read_int_def take_digits_def)

lemma num_ok_hd:
  assumes "num_ok n"
  obtains c cs where "n = c # cs" "c = CHR ''-'' \<or> is_digit c"
proof -
  obtain c cs where n: "n = c # cs" using assms num_ok_Nil by (cases n) simp_all
  then have "c = CHR ''-'' \<or> is_digit c" using assms num_ok_Cons by blast
  with n show thesis by (rule that)
qed

section \<open>Strings\<close>

lemma hex_val_digit: "n < 16 \<Longrightarrow> hex_val (hex_digit n) = Some n"
  by (simp add: hex_val_def hex_digit_def is_digit_def in_range_def code_of_def)

lemma read_escape_char:
  "read_string wide (escape_char c @ r) = map_option (\<lambda>(s, r). (c # s, r)) (read_string wide r)"
proof (cases "c = dq \<or> c = bslash")
  case True
  then show ?thesis by (auto simp: escape_char_def simple_escape_def)
next
  case False
  show ?thesis
  proof (cases "code_of c < 32")
    case True
    have h0: "hex_val (CHR ''0'') = Some 0"
      by (simp add: hex_val_def is_digit_def in_range_def code_of_def)
    have "code_of c div 16 * 16 + code_of c mod 16 = code_of c" by simp
    moreover have "char_of (code_of c) = c" by (simp add: code_of_def)
    ultimately show ?thesis using True False
      by (simp add: escape_char_def h0 hex_val_digit code_char_def)
  qed (use False in \<open>simp add: escape_char_def\<close>)
qed

lemma read_string_escaped:
  "read_string wide (concat (map escape_char s) @ dq # r) = Some (s, r)"
  by (induction s) (simp_all add: read_escape_char)

lemma json_quote_Cons: "json_quote s = dq # concat (map escape_char s) @ [dq]"
  by (simp add: json_quote_def)

section \<open>Values\<close>

fun json_ok :: "json \<Rightarrow> bool" where
  "json_ok (JNum n) = num_ok n"
| "json_ok (JArr xs) = (\<forall>x \<in> set xs. json_ok x)"
| "json_ok (JObj ms) = (\<forall>m \<in> set ms. json_ok (snd m))"
| "json_ok _ = True"

lemma skip_ws_Cons: "\<not> json_ws c \<Longrightarrow> skip_ws (c # cs) = c # cs"
  by (simp add: skip_ws_def)

lemma render_hd:
  assumes "json_ok x"
  obtains c cs where "render x = c # cs" "\<not> json_ws c" "c \<noteq> CHR '']''"
proof (cases x)
  case (JNum n)
  then obtain c cs where "n = c # cs" "c = CHR ''-'' \<or> is_digit c"
    using num_ok_hd [of n] assms by auto
  moreover from this(2) have "\<not> json_ws c \<and> c \<noteq> CHR '']''"
    by (auto simp: json_ws_def code_of_def is_digit_def in_range_def)
  ultimately show ?thesis using JNum that [of c cs] by simp
next
  case (JBool b)
  then show ?thesis using that by (cases b) (simp_all add: json_ws_def code_of_def)
qed (use that in \<open>simp_all add: json_ws_def code_of_def json_quote_def\<close>)

lemma delim_simps [simp]:
  "\<not> json_ws (CHR '','')" "\<not> json_ws (CHR '']'')" "\<not> json_ws (CHR ''}'')" "\<not> json_ws (CHR '':'')"
  "\<not> json_ws dq" "stops (CHR '','' # r)" "stops (CHR '']'' # r)" "stops (CHR ''}'' # r)" "stops []"
  by (simp_all add: json_ws_def code_of_def stops_def)

text \<open>What is to be shown of a value.\<close>

definition reads :: "(nat \<Rightarrow> char) \<Rightarrow> json \<Rightarrow> bool" where
  "reads wide x \<longleftrightarrow>
     (\<forall>n r. n \<ge> 2 * length (render x) \<longrightarrow> stops r \<longrightarrow> read_value wide n (render x @ r) = Some (x, r))"

lemma read_elements_join:
  assumes "\<forall>x \<in> set xs. reads wide x" "xs \<noteq> []" "n \<ge> 2 * length (join '','' (map render xs)) + 1"
  shows "read_elements wide n (join '','' (map render xs) @ CHR '']'' # r) = Some (xs, r)"
  using assms
proof (induction xs arbitrary: n)
  case (Cons x xs)
  obtain m where n: "n = Suc m" using Cons.prems(3) by (cases n) auto
  show ?case
  proof (cases xs)
    case Nil
    then have "read_value wide m (render x @ CHR '']'' # r) = Some (x, CHR '']'' # r)"
      using Cons.prems n by (simp add: reads_def)
    then show ?thesis using n Nil by (simp add: skip_ws_Cons)
  next
    case (Cons y ys)
    let ?t = "join '','' (map render xs) @ CHR '']'' # r"
    have "read_value wide m (render x @ CHR '','' # ?t) = Some (x, CHR '','' # ?t)"
      using Cons.prems n by (simp add: reads_def Cons)
    moreover have "read_elements wide m ?t = Some (xs, r)"
      using Cons.prems n Cons by (intro Cons.IH) (auto simp: Cons)
    ultimately show ?thesis using n Cons by (simp add: skip_ws_Cons)
  qed
qed simp

abbreviation member :: "string \<times> json \<Rightarrow> string" where
  "member m \<equiv> json_quote (fst m) @ CHR '':'' # render (snd m)"

lemma render_Obj: "render (JObj ms) = CHR ''{'' # join '','' (map member ms) @ ''}''"
  by (simp add: split_def)

lemma read_members_join:
  assumes "\<forall>m \<in> set ms. reads wide (snd m)" "ms \<noteq> []"
    "n \<ge> 2 * length (join '','' (map member ms)) + 1"
  shows "read_members wide n (join '','' (map member ms) @ CHR ''}'' # r) = Some (ms, r)"
  using assms
proof (induction ms arbitrary: n)
  case (Cons m ms)
  obtain k x where m: "m = (k, x)" by fastforce
  obtain i where n: "n = Suc i" using Cons.prems(3) by (cases n) auto
  show ?case
  proof (cases ms)
    case Nil
    then have "read_value wide i (render x @ CHR ''}'' # r) = Some (x, CHR ''}'' # r)"
      using Cons.prems n m by (simp add: reads_def)
    then show ?thesis using n m Nil by (simp add: skip_ws_Cons json_quote_Cons read_string_escaped)
  next
    case (Cons y ys)
    let ?t = "join '','' (map member ms) @ CHR ''}'' # r"
    have "read_value wide i (render x @ CHR '','' # ?t) = Some (x, CHR '','' # ?t)"
      using Cons.prems n m by (simp add: reads_def Cons)
    moreover have "read_members wide i ?t = Some (ms, r)"
      using Cons.prems n Cons by (intro Cons.IH) (auto simp: Cons)
    ultimately show ?thesis
      using n m Cons by (simp add: skip_ws_Cons json_quote_Cons read_string_escaped)
  qed
qed simp

lemma read_value_number:
  assumes "num_ok s" "stops r"
  shows "read_value wide (Suc n) (s @ r) = Some (JNum s, r)"
proof -
  obtain c cs where s: "s = c # cs" "c = CHR ''-'' \<or> is_digit c"
    by (rule num_ok_hd [OF assms(1)])
  then have "\<not> json_ws c \<and> c \<notin> set ''[{tfn'' \<and> c \<noteq> dq"
    by (auto simp: json_ws_def code_of_def is_digit_def in_range_def)
  then show ?thesis using s(1) read_number_append [OF assms(2,1)] by (simp add: skip_ws_Cons)
qed

lemma read_value_array:
  assumes "\<forall>x \<in> set xs. reads wide x" "\<forall>x \<in> set xs. json_ok x"
    "n \<ge> 2 * length (join '','' (map render xs)) + 1"
  shows "read_value wide (Suc n) (render (JArr xs) @ r) = Some (JArr xs, r)"
proof (cases xs)
  case Nil
  then show ?thesis by (simp add: skip_ws_Cons json_ws_def code_of_def)
next
  case (Cons y ys)
  obtain c cs where c: "render y = c # cs" "\<not> json_ws c" "c \<noteq> CHR '']''"
    using render_hd [of y] assms(2) Cons by auto
  obtain q where q: "join '','' (map render xs) = c # q"
    using c(1) Cons by (cases ys) auto
  show ?thesis
    using read_elements_join [OF assms(1) _ assms(3), of r] c(2,3) q Cons
    by (simp add: skip_ws_Cons json_ws_def code_of_def)
qed

lemma read_value_object:
  assumes "\<forall>m \<in> set ms. reads wide (snd m)"
    "n \<ge> 2 * length (join '','' (map member ms)) + 1"
  shows "read_value wide (Suc n) (render (JObj ms) @ r) = Some (JObj ms, r)"
proof (cases ms)
  case Nil
  then show ?thesis by (simp add: skip_ws_Cons json_ws_def code_of_def)
next
  case (Cons y ys)
  obtain q where q: "join '','' (map member ms) = dq # q"
    using Cons by (cases ys) (auto simp: json_quote_def)
  show ?thesis
    using read_members_join [OF assms(1) _ assms(2), of r] q Cons
    by (simp add: render_Obj skip_ws_Cons json_ws_def code_of_def del: render.simps)
qed

lemma readsI:
  assumes "json_ok x"
    "\<And>m r. m \<ge> 2 * length (render x) - 1 \<Longrightarrow> stops r \<Longrightarrow> read_value wide (Suc m) (render x @ r) = Some (x, r)"
  shows "reads wide x"
  unfolding reads_def
proof (intro allI impI)
  fix n r assume n: "n \<ge> 2 * length (render x)" and "stops r"
  have "render x \<noteq> []" using render_hd [OF assms(1)] by force
  then obtain m where "n = Suc m" using n by (cases n) auto
  then show "read_value wide n (render x @ r) = Some (x, r)"
    using assms(2) [of m r] n \<open>stops r\<close> by simp
qed

lemma read_value_literals:
  "read_value wide (Suc n) (render JNull @ r) = Some (JNull, r)"
  "read_value wide (Suc n) (render (JBool b) @ r) = Some (JBool b, r)"
  "read_value wide (Suc n) (render (JStr s) @ r) = Some (JStr s, r)"
  by (cases b; simp add: skip_ws_Cons json_ws_def code_of_def json_quote_Cons read_string_escaped)+

lemma render_reads: "json_ok x \<Longrightarrow> reads wide x"
proof (induction x)
  case (JNum s)
  then show ?case by (intro readsI) (simp_all add: read_value_number del: read_value.simps)
next
  case (JArr xs)
  then have "\<forall>x \<in> set xs. reads wide x" "\<forall>x \<in> set xs. json_ok x" by simp_all
  from read_value_array [OF this] JArr(2) show ?case by (intro readsI) simp_all
next
  case (JObj ms)
  then have "\<forall>m \<in> set ms. reads wide (snd m)" by (auto simp: prod_set_simps)
  from read_value_object [OF this] JObj(2) show ?case
    by (intro readsI) (simp_all add: render_Obj del: render.simps)
qed (rule readsI; simp add: read_value_literals del: read_value.simps render.simps)+

text \<open>What is written for a value is read back as that value.\<close>

lemma json_parse_render: "json_ok x \<Longrightarrow> json_parse wide (render x) = Some x"
proof -
  assume "json_ok x"
  then have "read_value wide (2 * length (render x) + 2) (render x @ []) = Some (x, [])"
    using render_reads unfolding reads_def by (meson delim_simps(9) le_add1)
  then show ?thesis by (simp add: json_parse_def skip_ws_def del: read_value.simps)
qed

end
