(* ===== verification/Samples.thy ===== *)
theory Samples
  imports Store
begin

text \<open>Concrete rows and stores at which the properties are instantiated: a run \<open>r\<close> whose planner
  \<open>p\<close> is done, whose loop \<open>d\<close> and consumer \<open>m\<close> vary.\<close>

definition step0 :: step where
  "step0 =
     \<lparr>s_id = ''p'', s_run_id = ''r'', s_step_id = ''plan'', s_agent_id = ''planner'', s_step_index = 0,
      s_input_template = ''do it'', s_expects = ''STATUS: done'', s_status = SDone, s_output = None,
      s_retry_count = 0, s_max_retries = 2, s_type = TySingle, s_loop_config = LcNull,
      s_current_story_id = None, s_abandoned_count = 0, s_updated_at = Some 0, s_claim_job_id = None,
      s_claim_pid = None, s_claim_pgid = None, s_claim_updated_at = None, s_claim_invalidated_by = None,
      s_reroute_count = 0, s_terminal_reroute_count = 0, s_target_moved_reroute_count = 0,
      s_ledger_concession_count = 0, s_preclaim_death_count = 0, s_conditional_condition = None,
      s_auto_completed = False, s_auto_complete_reason = None\<rparr>"

definition lc0 :: loop_config where
  "lc0 = \<lparr>lc_over = ''stories'', lc_completion = ''all_done'', lc_verifyEach = None,
          lc_verify_each = None, lc_verifyStep = None, lc_verify_step = None\<rparr>"

definition loop0 :: step where
  "loop0 = step0\<lparr>s_id := ''d'', s_step_id := ''develop'', s_agent_id := ''developer'',
                 s_step_index := 1, s_type := TyLoop, s_loop_config := LcConfig lc0\<rparr>"

definition merge0 :: step where
  "merge0 = step0\<lparr>s_id := ''m'', s_step_id := ''finalize_merge'', s_agent_id := ''merger'',
                  s_step_index := 2, s_status := SRunning\<rparr>"

definition story0 :: story where
  "story0 = \<lparr>t_id = ''t'', t_run_id = ''r'', t_story_index = 0, t_story_id = ''US-1'', t_title = ''T'',
             t_description = ''D'', t_acceptance = [''A''], t_status = TDone, t_output = None,
             t_retry_count = 0, t_max_retries = 2, t_abandoned_count = 0, t_resume_reset_count = 0,
             t_updated_at = Some 0\<rparr>"

definition run0 :: run where
  "run0 = \<lparr>r_id = ''r'', r_run_number = 1, r_workflow_id = ''wf'', r_task = ''T'', r_notify_url = None,
           r_status = RRunning, r_context = CtxObj Map.empty, r_tokens_spent = 0,
           r_scheduling_status = None, r_scheduling_error = None, r_scheduling_requested_at = None,
           r_isolation_intent = None, r_matchlock_policy = PolNull,
           r_worker_lost_count = 0, r_ceiling_expiry_count = 0, r_instant_fail_count = 0, r_test_cmd_established = None,
           r_test_cmd_source = None, r_created_at = Some 0, r_updated_at = Some 0\<rparr>"

definition store0 :: store where
  "store0 = \<lparr>runs = [run0], steps = [step0, loop0, merge0], stories = [story0], abandonments = [],
             events = [], effects = [], now = 100\<rparr>"

lemmas sample_defs = step0_def lc0_def loop0_def merge0_def story0_def run0_def store0_def

end
