(* ===== verification/Stories_Props.thy ===== *)
theory Stories_Props
  imports Stories_Json Json_Props Samples
begin

text \<open>
  What is proved of the story list: the scanner for repeated keys agrees with the definition of a
  repeated key on the parsed value, fused stories are refused with the store untouched, and what is
  inserted is a well-formed list of at most twenty pending stories.
\<close>

section \<open>Repeated keys\<close>

text \<open>The repeated keys of a value in the order of the text: a key of an object that an earlier member
  of the same object has.\<close>

fun repeats_after :: "string list \<Rightarrow> (string \<times> string list) list \<Rightarrow> string list" where
  "repeats_after seen [] = []"
| "repeats_after seen ((k, inner) # ms) =
     (if k \<in> set seen then [k] else []) @ inner @ repeats_after (k # seen) ms"

fun repeated_keys :: "json \<Rightarrow> string list" where
  "repeated_keys (JArr xs) = concat (map repeated_keys xs)"
| "repeated_keys (JObj ms) = repeats_after [] (map (\<lambda>(k, v). (k, repeated_keys v)) ms)"
| "repeated_keys _ = []"

text \<open>Keys whose text needs no escape.\<close>

definition plain_text :: "string \<Rightarrow> bool" where
  "plain_text s \<longleftrightarrow> (\<forall>c \<in> set s. c \<noteq> dq \<and> c \<noteq> bslash \<and> 32 \<le> code_of c)"

fun plain_keys :: "json \<Rightarrow> bool" where
  "plain_keys (JArr xs) = (\<forall>x \<in> set xs. plain_keys x)"
| "plain_keys (JObj ms) = (\<forall>m \<in> set ms. plain_text (fst m) \<and> plain_keys (snd m))"
| "plain_keys _ = True"

lemma raw_string_plain:
  "(\<forall>c \<in> set s. c \<noteq> dq \<and> c \<noteq> bslash) \<Longrightarrow> raw_string (s @ t) = (s @ fst (raw_string t), snd (raw_string t))"
  by (induction s) (simp_all add: Let_def split_def)

lemma raw_string_key: "plain_text k \<Longrightarrow> raw_string (k @ dq # r) = (k, r)"
  by (simp add: raw_string_plain plain_text_def)

lemma plain_quote: "plain_text k \<Longrightarrow> json_quote k = dq # k @ [dq]"
proof -
  have "\<forall>c \<in> set k. c \<noteq> dq \<and> c \<noteq> bslash \<and> 32 \<le> code_of c \<Longrightarrow> concat (map escape_char k) = k" for k
    by (induction k) (simp_all add: escape_char_def)
  then show "plain_text k \<Longrightarrow> json_quote k = dq # k @ [dq]"
    by (simp add: json_quote_def plain_text_def)
qed

lemma hex_digit_plain: "n < 16 \<Longrightarrow> hex_digit n \<noteq> dq \<and> hex_digit n \<noteq> bslash"
proof -
  assume "n < 16"
  then have "code_of (hex_digit n) = (if n < 10 then 48 + n else 87 + n)"
    by (simp add: hex_digit_def code_of_def)
  moreover have "code_of dq = 34" "code_of bslash = 92" by (simp_all add: code_of_def)
  ultimately show ?thesis using \<open>n < 16\<close> by (auto split: if_splits)
qed

lemma raw_string_escape: "snd (raw_string (escape_char c @ t)) = snd (raw_string t)"
proof (cases "c = dq \<or> c = bslash")
  case True
  then show ?thesis by (auto simp: escape_char_def Let_def split_def)
next
  case False
  have h: "hex_digit (code_of c mod 16) \<noteq> dq" "hex_digit (code_of c mod 16) \<noteq> bslash"
    using hex_digit_plain by simp_all
  show ?thesis
  proof (cases "code_of c < 32")
    case True
    then have "code_of c div 16 < 16" by simp
    then show ?thesis using False True h hex_digit_plain [of "code_of c div 16"]
      by (simp add: escape_char_def Let_def split_def)
  qed (use False in \<open>simp add: escape_char_def Let_def split_def\<close>)
qed

lemma raw_string_value: "snd (raw_string (concat (map escape_char s) @ dq # r)) = r"
  by (induction s) (simp_all add: raw_string_escape)

lemma stops_no_colon: "stops r \<Longrightarrow> \<not> colon_next r"
  by (cases r) (auto simp: stops_def colon_next_def is_ws_def in_range_def code_of_def)

definition quiet :: "char \<Rightarrow> bool" where
  "quiet c \<longleftrightarrow> c \<noteq> dq \<and> c \<noteq> bslash \<and> c \<noteq> CHR ''{'' \<and> c \<noteq> CHR ''}''"

lemma scan_quiet: "\<forall>c \<in> set s. quiet c \<Longrightarrow> scan_dups i d n st (s @ r) = scan_dups (i + length s) d n st r"
  by (induction s arbitrary: i) (simp_all add: quiet_def)

lemma scan_value_string:
  "stops r \<Longrightarrow> \<exists>j. scan_dups i d n st (json_quote s @ r) = scan_dups j d n st r"
proof -
  assume r: "stops r"
  obtain v where "raw_string (concat (map escape_char s) @ dq # r) = (v, r)"
    using raw_string_value [of s r] by (metis prod.collapse)
  then show ?thesis using stops_no_colon [OF r] by (auto simp: json_quote_Cons Let_def)
qed

section \<open>Numbers are quiet\<close>

lemma read_number_chars:
  assumes "read_number s = Some (n, r)"
  shows "\<forall>c \<in> set n. quiet c"
proof -
  have d: "c \<in> set (takeWhile is_digit t) \<Longrightarrow> quiet c" for c t
    by (auto simp: quiet_def is_digit_def in_range_def code_of_def dest!: set_takeWhileD)
  have sg: "set signs \<subseteq> set ''+-'' \<Longrightarrow> c \<in> set (fst (read_sign signs t)) \<Longrightarrow> quiet c" for c signs t
    by (cases t) (auto simp: quiet_def split: if_splits)
  have i: "read_int t = Some (a, u) \<Longrightarrow> c \<in> set a \<Longrightarrow> quiet c" for t a u c
    using sg [of "''-''" c t] d [of c "snd (read_sign ''-'' t)"]
    by (auto simp: read_int_def Let_def split_def take_digits_def quiet_def split: if_splits)
  have f: "read_frac t = Some (a, u) \<Longrightarrow> c \<in> set a \<Longrightarrow> quiet c" for t a u c
    using d [of c "tl t"]
    by (cases t) (auto simp: read_frac_def Let_def split_def take_digits_def quiet_def split: if_splits)
  have e: "read_exp t = Some (a, u) \<Longrightarrow> c \<in> set a \<Longrightarrow> quiet c" for t a u c
    using sg [of "''+-''" c "tl t"] d [of c "snd (read_sign ''+-'' (tl t))"]
    by (cases t) (auto simp: read_exp_def Let_def split_def take_digits_def quiet_def split: if_splits)
  show ?thesis using assms i f e by (auto simp: read_number_def split: option.splits)
qed


section \<open>The scanner and the parsed value\<close>

abbreviation dup_keys :: "dup list \<Rightarrow> string list" where
  "dup_keys ds \<equiv> map dup_key ds"

definition scans :: "json \<Rightarrow> bool" where
  "scans x \<longleftrightarrow>
     (\<forall>i d n st r. stops r \<longrightarrow>
        (\<exists>j n'. dup_keys (scan_dups i d n st (render x @ r)) =
                  repeated_keys x @ dup_keys (scan_dups j d n' st r)))"

lemma scansD:
  "scans x \<Longrightarrow> stops r \<Longrightarrow>
   \<exists>j n'. dup_keys (scan_dups i d n st (render x @ r)) =
     repeated_keys x @ dup_keys (scan_dups j d n' st r)"
  by (simp add: scans_def)

lemma scan_elements:
  assumes "\<forall>x \<in> set xs. scans x"
  shows "\<exists>j n'. dup_keys (scan_dups i d n st (join '','' (map render xs) @ CHR '']'' # r)) =
    concat (map repeated_keys xs) @ dup_keys (scan_dups j d n' st r)"
  using assms
proof (induction xs arbitrary: i n)
  case Nil
  then show ?case by auto
next
  case (Cons x xs)
  show ?case
  proof (cases xs)
    case Nil
    have "scans x" using Cons.prems by simp
    then obtain j n' where "dup_keys (scan_dups i d n st (render x @ CHR '']'' # r)) =
        repeated_keys x @ dup_keys (scan_dups j d n' st (CHR '']'' # r))"
      using scansD [of x "CHR '']'' # r"] by force
    then show ?thesis using Nil by auto
  next
    case (Cons y ys)
    let ?t = "join '','' (map render xs) @ CHR '']'' # r"
    have "scans x" using Cons.prems by simp
    then obtain j n' where "dup_keys (scan_dups i d n st (render x @ CHR '','' # ?t)) =
        repeated_keys x @ dup_keys (scan_dups j d n' st (CHR '','' # ?t))"
      using scansD [of x "CHR '','' # ?t"] by force
    moreover obtain k m where "dup_keys (scan_dups (Suc j) d n' st ?t) =
        concat (map repeated_keys xs) @ dup_keys (scan_dups k d m st r)"
      using Cons.IH [of "Suc j" n'] Cons.prems by auto
    ultimately show ?thesis using Cons by auto
  qed
qed

definition pairs_of :: "(string \<times> json) list \<Rightarrow> (string \<times> string list) list" where
  "pairs_of ms = map (\<lambda>(k, v). (k, repeated_keys v)) ms"

lemma repeats_after_cong: "set seen = set seen' \<Longrightarrow> repeats_after seen ps = repeats_after seen' ps"
  by (induction ps arbitrary: seen seen') (auto simp: split_paired_all)

text \<open>A key and its colon: reported when the open object has it, noted otherwise.\<close>

lemma scan_key:
  assumes "plain_text k"
  obtains ks' where "set (map fst ks') = insert k (set (map fst ks))"
    "dup_keys (scan_dups i d n ((ks, x) # st) (json_quote k @ CHR '':'' # t)) =
       (if k \<in> set (map fst ks) then [k] else [])
       @ dup_keys (scan_dups (i + length k + 3) d n ((ks', x) # st) t)"
proof -
  have c: "colon_next (CHR '':'' # t)" by (simp add: colon_next_def is_ws_def in_range_def code_of_def)
  show ?thesis
  proof (cases "map_of ks k")
    case None
    then have "k \<notin> set (map fst ks)" by (simp add: map_of_eq_None_iff)
    moreover have "note_key k i ((ks, x) # st) = (((k, i) # ks, x) # st, [])"
      unfolding note_key.simps None by simp
    ultimately show ?thesis
      using that [of "(k, i) # ks"] assms c
      by (simp add: plain_quote raw_string_key numeral_3_eq_3 del: note_key.simps)
  next
    case (Some p)
    then have "k \<in> set (map fst ks)" by (metis map_of_eq_None_iff option.distinct(1) set_map)
    then show ?thesis
      using that [of ks] assms c Some by (auto simp: plain_quote raw_string_key numeral_3_eq_3)
  qed
qed

lemma scan_members:
  assumes "\<forall>m \<in> set ms. plain_text (fst m) \<and> scans (snd m)" "set (map fst ks) = set seen"
  shows "\<exists>j n'. dup_keys (scan_dups i d n ((ks, x) # st) (join '','' (map member ms) @ CHR ''}'' # r)) =
    repeats_after seen (pairs_of ms) @ dup_keys (scan_dups j (d - 1) n' st r)"
  using assms
proof (induction ms arbitrary: i n ks seen)
  case Nil
  then show ?case by (auto simp: pairs_of_def)
next
  case (Cons m ms)
  obtain k v where m: "m = (k, v)" by fastforce
  have k: "plain_text k" and v: "scans v" using Cons.prems(1) m by simp_all
  let ?t = "if ms = [] then CHR ''}'' # r else CHR '','' # join '','' (map member ms) @ CHR ''}'' # r"
  have shape: "join '','' (map member (m # ms)) @ CHR ''}'' # r = json_quote k @ CHR '':'' # render v @ ?t"
    using m by (cases ms) simp_all
  obtain ks' where ks': "set (map fst ks') = insert k (set (map fst ks))"
    "dup_keys (scan_dups i d n ((ks, x) # st) (json_quote k @ CHR '':'' # render v @ ?t)) =
       (if k \<in> set (map fst ks) then [k] else [])
       @ dup_keys (scan_dups (i + length k + 3) d n ((ks', x) # st) (render v @ ?t))"
    by (rule scan_key [OF k])
  obtain j n' where j: "dup_keys (scan_dups (i + length k + 3) d n ((ks', x) # st) (render v @ ?t)) =
      repeated_keys v @ dup_keys (scan_dups j d n' ((ks', x) # st) ?t)"
    using scansD [OF v, of ?t] by force
  have s: "set (map fst ks') = set (k # seen)" using ks'(1) Cons.prems(2) by simp
  have "\<exists>j' m'. dup_keys (scan_dups j d n' ((ks', x) # st) ?t) =
      repeats_after (k # seen) (pairs_of ms) @ dup_keys (scan_dups j' (d - 1) m' st r)"
  proof (cases "ms = []")
    case True
    then show ?thesis by (auto simp: pairs_of_def)
  next
    case False
    have "\<forall>m \<in> set ms. plain_text (fst m) \<and> scans (snd m)" using Cons.prems(1) by simp
    from Cons.IH [OF this s, of "Suc j" n'] False show ?thesis by simp
  qed
  then show ?case
    using ks'(2) j Cons.prems(2) unfolding shape by (auto simp: pairs_of_def m)
qed

lemma render_scans: "json_ok x \<Longrightarrow> plain_keys x \<Longrightarrow> scans x"
proof (induction x)
  case (JNum s)
  have "\<forall>c \<in> set s. quiet c" using read_number_chars [of s s "[]"] JNum(1) by (simp add: num_ok_def)
  then show ?case by (auto simp: scans_def scan_quiet)
next
  case (JStr s)
  show ?case unfolding scans_def
  proof (intro allI impI)
    fix i d n st r assume "stops r"
    then obtain j where "scan_dups i d n st (json_quote s @ r) = scan_dups j d n st r"
      using scan_value_string by blast
    then show "\<exists>j n'. dup_keys (scan_dups i d n st (render (JStr s) @ r)) =
        repeated_keys (JStr s) @ dup_keys (scan_dups j d n' st r)" by auto
  qed
next
  case (JArr xs)
  then have "\<forall>x \<in> set xs. scans x" by simp
  from scan_elements [OF this] show ?case by (auto simp: scans_def)
next
  case (JObj ms)
  have "\<forall>m \<in> set ms. plain_text (fst m) \<and> scans (snd m)"
    using JObj.prems by (auto intro!: JObj.IH simp: prod_set_simps)
  then have m: "\<exists>j n'. dup_keys (scan_dups i (d + 1) n (([], x) # st) (join '','' (map member ms) @ CHR ''}'' # r))
      = repeats_after [] (pairs_of ms) @ dup_keys (scan_dups j d n' st r)" for i d n x st r
    using scan_members [of ms "[]" "[]" i "d + 1"] by simp
  show ?case unfolding scans_def
  proof (intro allI impI)
    fix i d n st r
    have "render (JObj ms) @ r = CHR ''{'' # join '','' (map member ms) @ CHR ''}'' # r"
      by (simp only: render_Obj append_Cons append_Nil append_assoc)
    moreover have "repeated_keys (JObj ms) = repeats_after [] (pairs_of ms)" by (simp add: pairs_of_def)
    ultimately show "\<exists>j n'. dup_keys (scan_dups i d n st (render (JObj ms) @ r)) =
        repeated_keys (JObj ms) @ dup_keys (scan_dups j d n' st r)"
      using m by (simp add: open_frame_def del: render.simps repeated_keys.simps)
  qed
qed (auto simp: scans_def scan_quiet [of "''null''", simplified] quiet_def)

lemma dup_keys_render:
  assumes "json_ok x" "plain_keys x"
  shows "dup_keys (detectDuplicateKeys (render x)) = repeated_keys x"
proof -
  from render_scans [OF assms] obtain j n' where
    "dup_keys (scan_dups 0 0 0 [] (render x @ [])) = repeated_keys x @ dup_keys (scan_dups j 0 n' [] [])"
    using scansD [of x "[]"] by force
  then show ?thesis by (simp add: detectDuplicateKeys_def)
qed

text \<open>C15.  On the compact text written for a value none of whose keys needs an escape, the scanner reports
  exactly the keys repeated within one object, in the order of the text, however deep the objects are
  nested and whatever the other strings contain, braces, quotes and backslashes included.\<close>

theorem detectDuplicateKeys_exact:
  assumes "json_ok x" "plain_keys x"
  shows "map dup_key (detectDuplicateKeys (render x)) = repeated_keys x"
  by (rule dup_keys_render [OF assms])

lemma detectDuplicateKeys_exact_witness:
  "map dup_key (detectDuplicateKeys (render (JObj [(''id'', JStr ''US-1''), (''id'', JStr ''US-2'')])))
     = [''id'']"
  by (subst detectDuplicateKeys_exact) (simp_all add: plain_text_def code_of_def)


section \<open>Counting a key\<close>

text \<open>How often a key stands in a value.\<close>

fun key_count :: "string \<Rightarrow> json \<Rightarrow> nat" where
  "key_count key (JArr xs) = sum_list (map (key_count key) xs)"
| "key_count key (JObj ms) = sum_list (map (\<lambda>(k, v). (if k = key then 1 else 0) + key_count key v) ms)"
| "key_count key _ = 0"

lemma count_other: "c \<noteq> dq \<Longrightarrow> c \<noteq> bslash \<Longrightarrow> count_keys key esc (c # t) = count_keys key False t"
  by (simp add: key_here_def)

lemma count_bslash: "count_keys key False (bslash # t) = count_keys key True t"
  by (simp add: key_here_def)

lemma count_escape: "count_keys key False (escape_char c @ t) = count_keys key False t"
proof (cases "c = dq \<or> c = bslash")
  case True
  then show ?thesis by (auto simp: escape_char_def key_here_def)
next
  case False
  show ?thesis
  proof (cases "code_of c < 32")
    case True
    then have "code_of c div 16 < 16" "code_of c mod 16 < 16" by simp_all
    then have "hex_digit (code_of c div 16) \<noteq> dq \<and> hex_digit (code_of c div 16) \<noteq> bslash"
      "hex_digit (code_of c mod 16) \<noteq> dq \<and> hex_digit (code_of c mod 16) \<noteq> bslash"
      using hex_digit_plain by blast+
    then show ?thesis using False True
      by (simp add: escape_char_def count_bslash count_other del: count_keys.simps)
  qed (use False in \<open>simp add: escape_char_def count_other del: count_keys.simps\<close>)
qed

lemma count_escaped: "count_keys key False (concat (map escape_char s) @ t) = count_keys key False t"
  by (induction s) (simp_all add: count_escape)

lemma escape_char_hd: "\<exists>e es. escape_char c = e # es \<and> e \<noteq> dq"
  by (auto simp: escape_char_def)

lemma strip_escaped:
  "plain_text key \<Longrightarrow>
   strip_prefix (key @ [dq]) (concat (map escape_char s) @ dq # r) = (if s = key then Some r else None)"
proof (induction s arbitrary: key)
  case Nil
  then show ?case by (cases key) (auto simp: plain_text_def)
next
  case (Cons c s)
  show ?case
  proof (cases key)
    case Nil
    then show ?thesis using escape_char_hd [of c] by auto
  next
    case key: (Cons k ks)
    then have k: "k \<noteq> dq" "k \<noteq> bslash" "32 \<le> code_of k" "plain_text ks"
      using Cons.prems by (simp_all add: plain_text_def)
    show ?thesis
    proof (cases "c = dq \<or> c = bslash \<or> code_of c < 32")
      case True
      then obtain es where "escape_char c = bslash # es" by (cases "c = dq \<or> c = bslash") (auto simp: escape_char_def)
      moreover have "c \<noteq> k" using True k(1-3) by auto
      ultimately show ?thesis using key k(2) by auto
    next
      case False
      then have "escape_char c = [c]" by (simp add: escape_char_def)
      then show ?thesis using Cons.IH [OF k(4)] key by (cases "s = ks") auto
    qed
  qed
qed

definition apart :: "string \<Rightarrow> string \<Rightarrow> bool" where
  "apart key r \<longleftrightarrow> r = [] \<or> hd r \<noteq> dq \<and> hd r \<notin> set key"

lemma count_quoted:
  assumes "plain_text key" "apart key r"
  shows "count_keys key False (json_quote s @ r) =
    (if s = key \<and> colon_next r then 1 else 0) + count_keys key False r"
proof -
  have k: "key_here key (json_quote s @ r) \<longleftrightarrow> s = key \<and> colon_next r"
    using strip_escaped [OF assms(1), of s r] by (simp add: key_here_def json_quote_Cons colon_next_def)
  have e: "\<not> key_here key (dq # r)"
    using assms(2) by (cases key; cases r) (auto simp: key_here_def apart_def)
  have "count_keys key False (json_quote s @ r) =
      (if key_here key (json_quote s @ r) then 1 else 0)
      + count_keys key False (concat (map escape_char s) @ dq # r)"
    by (simp add: json_quote_Cons)
  also have "count_keys key False (concat (map escape_char s) @ dq # r) = count_keys key False r"
    unfolding count_escaped using e by simp
  finally show ?thesis unfolding k .
qed

text \<open>A key of lower-case letters.\<close>

definition letter_key :: "string \<Rightarrow> bool" where
  "letter_key key \<longleftrightarrow> list_all is_lower key"

lemma letter_key_plain: "letter_key key \<Longrightarrow> plain_text key"
  by (auto simp: letter_key_def plain_text_def list_all_iff is_lower_def in_range_def code_of_def)

lemma letter_key_apart:
  "letter_key key \<Longrightarrow> stops r \<Longrightarrow> apart key r" "letter_key key \<Longrightarrow> apart key (CHR '':'' # r)"
  by (auto simp: letter_key_def apart_def list_all_iff is_lower_def in_range_def code_of_def stops_def)

lemma count_quiet:
  "\<forall>c \<in> set s. c \<noteq> dq \<and> c \<noteq> bslash \<Longrightarrow> count_keys key False (s @ r) = count_keys key False r"
  by (induction s) (simp_all add: count_other del: count_keys.simps)

definition counts_key :: "string \<Rightarrow> json \<Rightarrow> bool" where
  "counts_key key x \<longleftrightarrow>
     (\<forall>r. stops r \<longrightarrow>
        count_keys key False (render x @ r) = key_count key x + count_keys key False r)"

lemma count_elements:
  assumes "\<forall>x \<in> set xs. counts_key key x"
  shows "count_keys key False (join '','' (map render xs) @ CHR '']'' # r) =
    sum_list (map (key_count key) xs) + count_keys key False r"
  using assms
proof (induction xs)
  case Nil
  then show ?case by (simp add: count_other del: count_keys.simps)
next
  case (Cons x xs)
  then show ?case
    by (cases xs) (simp_all add: counts_key_def count_other del: count_keys.simps)
qed

lemma count_members:
  assumes "\<forall>m \<in> set ms. counts_key key (snd m)" "letter_key key"
  shows "count_keys key False (join '','' (map member ms) @ CHR ''}'' # r) =
    key_count key (JObj ms) + count_keys key False r"
  using assms(1)
proof (induction ms)
  case Nil
  then show ?case by (simp add: count_other del: count_keys.simps)
next
  case (Cons m ms)
  have "colon_next (CHR '':'' # t)" for t by (simp add: colon_next_def is_ws_def in_range_def code_of_def)
  then have q: "count_keys key False (json_quote s @ CHR '':'' # t) =
      (if s = key then 1 else 0) + count_keys key False t" for s t
    using count_quoted [OF letter_key_plain [OF assms(2)] letter_key_apart(2) [OF assms(2)], of s t]
    by (simp add: count_other del: count_keys.simps)
  show ?case
    using Cons by (cases ms) (simp_all add: counts_key_def count_other q split_def del: count_keys.simps)
qed

lemma render_counts: "json_ok x \<Longrightarrow> letter_key key \<Longrightarrow> counts_key key x"
proof (induction x)
  case (JNum s)
  then show ?case using read_number_chars [of s s "[]"]
    by (auto simp: counts_key_def num_ok_def quiet_def intro!: count_quiet)
next
  case (JStr s)
  then show ?case
    using count_quoted [OF letter_key_plain letter_key_apart(1)] stops_no_colon
    by (simp add: counts_key_def)
next
  case (JArr xs)
  then have "\<forall>x \<in> set xs. counts_key key x" by simp
  from count_elements [OF this] show ?case
    by (simp add: counts_key_def count_other del: count_keys.simps)
next
  case (JObj ms)
  then have "\<forall>m \<in> set ms. counts_key key (snd m)" by (auto simp: prod_set_simps)
  from count_members [OF this JObj.prems(2)] show ?case
    unfolding counts_key_def render_Obj by (simp add: count_other del: count_keys.simps key_count.simps)
qed (simp_all add: counts_key_def count_other del: count_keys.simps)

lemma countUnescapedJsonKey_render:
  assumes "json_ok x" "letter_key key"
  shows "countUnescapedJsonKey (render x) key = key_count key x"
proof -
  have "count_keys key False (render x @ []) = key_count key x + count_keys key False []"
    using render_counts [OF assms] unfolding counts_key_def by (meson delim_simps(9))
  then show ?thesis by (simp add: countUnescapedJsonKey_def)
qed

section \<open>Stories accepted and refused\<close>

text \<open>A story as a planner writes it: id, title, description and acceptance criteria.\<close>

type_synonym plan_story = "string \<times> string \<times> string \<times> string list"

fun story_json :: "plan_story \<Rightarrow> json" where
  "story_json (i, ti, d, cs) =
     JObj [(''id'', JStr i), (''title'', JStr ti), (''description'', JStr d),
           (''acceptanceCriteria'', JArr (map JStr cs))]"

fun story_valid :: "plan_story \<Rightarrow> bool" where
  "story_valid (i, ti, d, cs) \<longleftrightarrow>
     story_id_ok i \<and> trim ti \<noteq> [] \<and> trim d \<noteq> [] \<and> cs \<noteq> [] \<and> (\<forall>c \<in> set cs. trim c \<noteq> [])"

definition plan_valid :: "plan_story list \<Rightarrow> bool" where
  "plan_valid ps \<longleftrightarrow>
     ps \<noteq> [] \<and> length ps \<le> 20 \<and> distinct (map fst ps) \<and> (\<forall>p \<in> set ps. story_valid p)"

fun planned_row :: "js_host \<Rightarrow> string \<Rightarrow> int \<Rightarrow> nat \<times> plan_story \<Rightarrow> story" where
  "planned_row h runId t (k, (i, ti, d, cs)) =
     \<lparr>t_id = uuid h k, t_run_id = runId, t_story_index = k, t_story_id = i, t_title = ti,
      t_description = d, t_acceptance = cs, t_status = TPending, t_output = None,
      t_retry_count = 0, t_max_retries = 4, t_abandoned_count = 0, t_resume_reset_count = 0,
      t_updated_at = Some t\<rparr>"

lemma story_json_props:
  "prop_of (story_json (i, ti, d, cs)) ''id'' = Some (JStr i)"
  "prop_of (story_json (i, ti, d, cs)) ''title'' = Some (JStr ti)"
  "prop_of (story_json (i, ti, d, cs)) ''description'' = Some (JStr d)"
  "criteria (story_json (i, ti, d, cs)) = Some (JArr (map JStr cs))"
  by (simp_all add: prop_of_def criteria_def)

lemma story_json_ok: "json_ok (story_json p)" "plain_keys (story_json p)"
  by (cases p, simp add: plain_text_def code_of_def)+

lemma story_json_keys: "repeated_keys (story_json p) = []" "key_count ''id'' (story_json p) = 1"
proof -
  have "repeated_keys (JArr (map JStr cs)) = []" "key_count k (JArr (map JStr cs)) = 0" for cs k
    by (simp_all add: comp_def)
  then show "repeated_keys (story_json p) = []" "key_count ''id'' (story_json p) = 1"
    by (cases p; simp del: repeated_keys.simps(1) key_count.simps(1))+
qed

lemma no_repeats: "repeated_keys (JArr (map story_json ps)) = []"
  by (induction ps) (simp_all add: story_json_keys)

lemma text_string: "text_ok (Some (JStr s)) \<longleftrightarrow> trim s \<noteq> []"
  by (simp add: text_ok_def)

lemma enumerate_texts:
  "\<forall>c \<in> set cs. trim c \<noteq> [] \<Longrightarrow>
   dropWhile (\<lambda>(_, x). text_ok (Some x)) (enumerate k (map JStr cs)) = []"
  by (induction cs arbitrary: k) (simp_all add: text_ok_def)

lemma check_planned:
  assumes "story_valid (i, ti, d, cs)" "i \<notin> set seen"
  shows "check_story h k seen (story_json (i, ti, d, cs)) = Inr (i # seen)"
proof -
  obtain c cs' where cs: "cs = c # cs'" using assms(1) by (cases cs) auto
  have dw: "dropWhile (\<lambda>(_, x). text_ok (Some x)) (enumerate 0 (JStr c # map JStr cs')) = []"
    using enumerate_texts [of cs 0] assms(1) cs by simp
  have "story_json (i, ti, d, cs) \<noteq> JNull" by simp
  then show ?thesis
    using assms cs
    by (simp add: check_story_def dw story_json_props present_def text_string Let_def
        del: story_json.simps enumerate_simps)
qed

lemma check_plan:
  "\<forall>p \<in> set ps. story_valid p \<Longrightarrow> distinct (map fst ps) \<Longrightarrow> set (map fst ps) \<inter> set seen = {} \<Longrightarrow>
   check_stories h k seen (map story_json ps) = None"
proof (induction ps arbitrary: k seen)
  case (Cons p ps)
  obtain i ti d cs where p: "p = (i, ti, d, cs)" by (cases p) auto
  then show ?case using Cons check_planned [of i ti d cs seen h k] by (simp del: story_json.simps)
qed simp

lemma insert_plan:
  "insert_stories h rid k (map story_json ps) w =
     (w\<lparr>stories := stories w @ map (planned_row h rid (now w)) (enumerate k ps)\<rparr>, None)"
proof (induction ps arbitrary: k w)
  case (Cons p ps)
  obtain i ti d cs where p: "p = (i, ti, d, cs)" by (cases p) auto
  have "story_row h rid k i (story_json p) (now w) = planned_row h rid (now w) (k, p)"
    by (simp add: story_row_def story_json_props json_str_def p comp_def del: story_json.simps)
  then show ?case using Cons
    by (simp add: bound_text_def story_json_props p del: story_json.simps planned_row.simps)
qed simp

text \<open>C16.  A valid plan is accepted: from a block that holds the text of at most twenty stories with
  distinct well-formed ids, titles, descriptions and criteria, whatever characters these hold, exactly
  those stories are inserted, pending, in their order.\<close>

theorem planned_stories_inserted:
  assumes "stories_block out = Some (render (JArr (map story_json ps)))" "plan_valid ps"
  shows "parseAndInsertStories h out rid w =
    (w\<lparr>stories := stories w @ map (planned_row h rid (now w)) (enumerate 0 ps)\<rparr>, None)"
proof -
  let ?j = "JArr (map story_json ps)"
  have ok: "json_ok ?j" "plain_keys ?j" using story_json_ok by auto
  have "detectDuplicateKeys (render ?j) = []"
    using dup_keys_render [OF ok, unfolded no_repeats] by (simp only: map_is_Nil_conv)
  moreover have "countUnescapedJsonKey (render ?j) ''id'' = length ps"
    using countUnescapedJsonKey_render [OF ok(1), of "''id''"] story_json_keys(2)
    by (simp add: letter_key_def is_lower_def in_range_def code_of_def comp_def sum_list_triv)
  ultimately have "structure_error (render ?j) (length ps) = None"
    by (simp add: structure_error_def Let_def)
  moreover have "check_stories h 0 [] (map story_json ps) = None"
    using assms(2) by (intro check_plan) (simp_all add: plan_valid_def)
  ultimately show ?thesis
    using assms json_parse_render [OF ok(1), of "wide_unit h"]
    by (simp add: parseAndInsertStories_def plan_valid_def insert_plan del: render.simps)
qed

text \<open>Fused stories are refused: when the value in the block has a repeated key in one of its
  objects, the reply is rejected and nothing changes.\<close>

theorem fused_stories_refused:
  assumes "stories_block out = Some (render x)" "json_ok x" "plain_keys x" "repeated_keys x \<noteq> []"
  shows "\<exists>msg. parseAndInsertStories h out rid w = (w, Some msg)"
proof -
  have e: "structure_error (render x) n \<noteq> None" for n
    using dup_keys_render [OF assms(2,3)] assms(4) by (auto simp: structure_error_def Let_def)
  have p: "json_parse (wide_unit h) (render x) = Some x" by (rule json_parse_render [OF assms(2)])
  show ?thesis
  proof (cases x)
    case (JArr xs)
    obtain m where "structure_error (render x) (length xs) = Some m" using e by blast
    then show ?thesis using assms(1) p JArr by (simp add: parseAndInsertStories_def del: render.simps)
  qed (use assms(1) p in \<open>simp_all add: parseAndInsertStories_def del: render.simps\<close>)
qed

definition js_host0 :: js_host where
  "js_host0 = \<lparr>wide_unit = \<lambda>_. CHR ''?'', number_text = \<lambda>n. n, syntax_message = \<lambda>_. ''Unexpected token'',
     null_message = ''Cannot read properties of null'', bind_message = ''cannot be bound'',
     uuid = \<lambda>n. CHR ''u'' # nat_str n\<rparr>"

definition plan0 :: "plan_story list" where
  "plan0 = [(''US-1'', ''T'', ''D'', [''A'', ''B''])]"

lemma planned_stories_inserted_witness:
  "map t_story_id (stories (fst (parseAndInsertStories js_host0
       (''STORIES_JSON: '' @ render (JArr (map story_json plan0))) ''r'' store0))) = [''US-1'', ''US-1'']"
proof -
  have "stories_block (''STORIES_JSON: '' @ render (JArr (map story_json plan0)))
      = Some (render (JArr (map story_json plan0)))" "plan_valid plan0"
    by code_simp+
  from planned_stories_inserted [OF this] show ?thesis
    by (simp add: plan0_def store0_def story0_def del: story_json.simps render.simps)
qed

lemma fused_stories_refused_witness:
  "\<exists>msg. parseAndInsertStories js_host0
       (''STORIES_JSON:'' @ render (JArr [JObj [(''id'', JStr ''US-1''), (''id'', JStr ''US-2'')]])) ''r'' store0
     = (store0, Some msg)"
proof -
  let ?x = "JArr [JObj [(''id'', JStr ''US-1''), (''id'', JStr ''US-2'')]]"
  have "stories_block (''STORIES_JSON:'' @ render ?x) = Some (render ?x)" by code_simp
  then show ?thesis
    by (rule fused_stories_refused) (simp_all add: plain_text_def code_of_def)
qed

end
