(* ===== verification/Pipeline.thy ===== *)
theory Pipeline
  imports Samples Output_Text
begin

text \<open>
  How a run moves on (\<^verbatim>\<open>src/src/installer/step-ops.ts\<close>): \<^verbatim>\<open>advancePipeline\<close> promotes the next
  waiting step or completes the run, \<^verbatim>\<open>checkLoopContinuation\<close> and
  \<^verbatim>\<open>handleVerifyEachCompletion\<close> decide what follows a story of a loop, and the end of a run tears
  its timers down and settles a pause that waited for the work in flight.
\<close>

section \<open>Run context\<close>

definition parseRunContext :: "string \<Rightarrow> ctx_col \<Rightarrow> store \<Rightarrow> ctx \<times> store" where
  "parseRunContext runId raw w =
     (case raw of
        CtxObj m \<Rightarrow> (m, w)
      | CtxCorrupt text \<Rightarrow>
          (Map.empty, emit ''run.context_corrupt'' runId [(''detail'', VStr (take 200 text))] w))"

definition setRunContextKey :: "string \<Rightarrow> string \<Rightarrow> string \<Rightarrow> store \<Rightarrow> store" where
  "setRunContextKey runId key v w =
     (case find_run runId w of
        None \<Rightarrow> w
      | Some r \<Rightarrow>
          (let (m, w1) = parseRunContext runId (r_context r) w
           in set_run runId (\<lambda>r. r\<lparr>r_context := CtxObj (obj_put m key v)\<rparr>) w1))"

definition removeRunContextKey :: "string \<Rightarrow> string \<Rightarrow> store \<Rightarrow> store" where
  "removeRunContextKey runId key w =
     (case find_run runId w of
        None \<Rightarrow> w
      | Some r \<Rightarrow>
          (let (m, w1) = parseRunContext runId (r_context r) w
           in if m key = None \<and> key \<notin> set object_prototype_keys then w1
              else set_run runId (\<lambda>r. r\<lparr>r_context := CtxObj (m(key := None))\<rparr>) w1))"

definition runHasStories :: "string \<Rightarrow> store \<Rightarrow> bool" where
  "runHasStories runId w \<longleftrightarrow> run_stories runId w \<noteq> []"

section \<open>The end of a run\<close>

definition emitRunTerminalEvent ::
    "string \<Rightarrow> string \<Rightarrow> string option \<Rightarrow> string option \<Rightarrow> string option \<Rightarrow> store \<Rightarrow> store" where
  "emitRunTerminalEvent name runId workflowId detail reason w =
     emit name runId
       (opt_str ''workflowId'' workflowId @ opt_str ''detail'' detail @ opt_str ''reason'' reason
        @ opt_nat ''tokensSpent'' (map_option r_tokens_spent (find_run runId w))
        @ opt_nat ''workerLostCount'' (map_option r_worker_lost_count (find_run runId w))
        @ opt_nat ''ceilingExpiryCount'' (map_option r_ceiling_expiry_count (find_run runId w))) w"

definition scheduleRunCronTeardown :: "string \<Rightarrow> store \<Rightarrow> store" where
  "scheduleRunCronTeardown runId w =
     (case find_run runId w of
        None \<Rightarrow> w
      | Some r \<Rightarrow>
          (let w1 = (if terminal (r_status r)
                     then set_run runId (\<lambda>r. r\<lparr>r_scheduling_status := None\<rparr>) w else w)
           in call (TeardownWorkflow (r_workflow_id r))
                (call (TerminateRun runId) (call (RemoveRunCrons runId) w1))))"

text \<open>A running step that holds back a pause: anything but a loop idling between stories under
  per-story verification.\<close>

definition in_flight_step :: "step \<Rightarrow> bool" where
  "in_flight_step s \<longleftrightarrow>
     (if s_type s \<noteq> TyLoop \<or> s_current_story_id s \<notin> {None, Some []} \<or> s_loop_config s = LcNull then True
      else (case s_loop_config s of LcConfig lc \<Rightarrow> \<not> verify_each lc | _ \<Rightarrow> True))"

definition finalizeDrainingPause :: "string \<Rightarrow> store \<Rightarrow> store" where
  "finalizeDrainingPause runId w =
     (case find_run runId w of
        None \<Rightarrow> w
      | Some r \<Rightarrow>
          (let (drain, w1) =
                 (if r_scheduling_status r = Some ''draining_pause'' then (True, w)
                  else (let (m, w') = parseRunContext runId (r_context r) w
                        in (m ''pause_drain'' = Some ''true'', w')))
           in if \<not> drain \<or> r_status r = RPaused \<or> terminal (r_status r) then w1
              else if list_ex in_flight_step (filter (\<lambda>s. s_status s = SRunning) (run_steps runId w1))
              then w1
              else emit ''run.paused'' runId [(''workflowId'', VStr (r_workflow_id r))]
                     (set_run runId
                        (\<lambda>r. r\<lparr>r_status := RPaused, r_scheduling_status := Some ''paused''\<rparr>)
                        (call (RemoveRunCrons runId) w1))))"

definition fail_run :: "string \<Rightarrow> store \<Rightarrow> store" where
  "fail_run runId w = set_run runId (\<lambda>r. r\<lparr>r_status := RFailed\<rparr>) w"

section \<open>Advancing\<close>

record advance =
  advanced :: bool
  runCompleted :: bool

definition not_advanced :: advance where
  "not_advanced = \<lparr>advanced = False, runCompleted = False\<rparr>"

definition incomplete_status :: "step_status \<Rightarrow> bool" where
  "incomplete_status st \<longleftrightarrow> st = SFailed \<or> st = SPending \<or> st = SRunning \<or> st = SCanceled"

definition next_waiting :: "string \<Rightarrow> store \<Rightarrow> step option" where
  "next_waiting runId w =
     first_min s_step_index (filter (\<lambda>s. s_status s = SWaiting) (run_steps runId w))"

definition set_step_status :: "string \<Rightarrow> step_status \<Rightarrow> store \<Rightarrow> store" where
  "set_step_status i st w = set_step i (\<lambda>s. s\<lparr>s_status := st\<rparr>) w"

definition promote_step :: "string \<Rightarrow> step \<Rightarrow> store \<Rightarrow> store" where
  "promote_step runId nxt w =
     (let wf = opt_str ''workflowId'' (getWorkflowId runId w)
      in emit ''step.pending'' runId (wf @ [(''stepId'', VStr (s_step_id nxt))])
           (emit ''pipeline.advanced'' runId (wf @ [(''stepId'', VStr (s_step_id nxt))])
              (set_step_status (s_id nxt) SPending w)))"

definition complete_run :: "string \<Rightarrow> store \<Rightarrow> store" where
  "complete_run runId w =
     finalizeDrainingPause runId
       (scheduleRunCronTeardown runId
          (call (ArchiveProgress runId)
             (emitRunTerminalEvent ''run.completed'' runId (getWorkflowId runId w) None None
                (set_run runId (\<lambda>r. r\<lparr>r_status := RCompleted\<rparr>) w))))"

definition advancePipeline :: "string \<Rightarrow> store \<Rightarrow> store \<times> advance" where
  "advancePipeline runId w =
     (if run_status_of runId w = Some RFailed \<or> run_status_of runId w = Some RCanceled
      then (w, not_advanced)
      else if list_ex (\<lambda>s. s_status s = SRunning) (run_steps runId w) then (w, not_advanced)
      else (case next_waiting runId w of
              Some nxt \<Rightarrow> (promote_step runId nxt w, \<lparr>advanced = True, runCompleted = False\<rparr>)
            | None \<Rightarrow>
                if list_ex (\<lambda>s. incomplete_status (s_status s)) (run_steps runId w)
                then (w, not_advanced)
                else (complete_run runId w, \<lparr>advanced = False, runCompleted = True\<rparr>)))"

section \<open>Stories of a loop\<close>

datatype exn = JsonParseError | TypeError | ErrorText string

definition has_story :: "story_status \<Rightarrow> string \<Rightarrow> store \<Rightarrow> bool" where
  "has_story st runId w \<longleftrightarrow> list_ex (\<lambda>t. t_status t = st) (run_stories runId w)"

definition mark_verifier_done :: "string \<Rightarrow> string \<Rightarrow> store \<Rightarrow> store" where
  "mark_verifier_done runId verifyStep w =
     w\<lparr>steps := upd_where (\<lambda>s. s_run_id s = runId \<and> s_step_id s = verifyStep)
                 (\<lambda>s. s\<lparr>s_status := SDone, s_updated_at := Some (now w)\<rparr>) (steps w)\<rparr>"

definition fail_loop :: "string \<Rightarrow> string \<Rightarrow> store \<Rightarrow> store" where
  "fail_loop runId loopStepId w =
     (let w1 = fail_run runId
                 (set_step loopStepId
                    (\<lambda>s. s\<lparr>s_status := SFailed,
                           s_output := Some ''Loop cannot continue because one or more stories failed''\<rparr>) w);
          wf = getWorkflowId runId w1;
          d = ''Loop has failed stories and no pending stories''
      in scheduleRunCronTeardown runId
           (emitRunTerminalEvent ''run.failed'' runId wf (Some d) None
              (emit ''step.failed'' runId
                 (opt_str ''workflowId'' wf @ [(''stepId'', VStr loopStepId), (''detail'', VStr d)]) w1)))"

definition checkLoopContinuation :: "string \<Rightarrow> string \<Rightarrow> store \<Rightarrow> store \<times> (exn + advance)" where
  "checkLoopContinuation runId loopStepId w =
     (if has_story TPending runId w
      then (if step_status_of loopStepId w = Some SFailed then (w, Inr not_advanced)
            else (set_step_status loopStepId SPending w, Inr not_advanced))
      else if has_story TFailed runId w
      then (finalizeDrainingPause runId (fail_loop runId loopStepId w), Inr not_advanced)
      else (let w1 = set_step_status loopStepId SDone w
            in case map_option s_loop_config (find_step loopStepId w1) of
                 Some LcMalformed \<Rightarrow> (w1, Inl JsonParseError)
               | Some (LcConfig lc) \<Rightarrow>
                   (case (verify_each lc, verify_step_id lc) of
                      (True, Some v) \<Rightarrow>
                        (let (w2, a) = advancePipeline runId
                                         (if v = [] then w1 else mark_verifier_done runId v w1)
                         in (w2, Inr a))
                    | _ \<Rightarrow> (let (w2, a) = advancePipeline runId w1 in (w2, Inr a)))
               | _ \<Rightarrow> (let (w2, a) = advancePipeline runId w1 in (w2, Inr a))))"

datatype verdict = VDone | VRetry

text \<open>\<^verbatim>\<open>ORDER BY updated_at DESC LIMIT 1\<close>, a NULL ordering before every instant.\<close>

definition null_first :: "int option \<Rightarrow> int option \<Rightarrow> bool" where
  "null_first a b \<longleftrightarrow> (case (a, b) of (None, Some _) \<Rightarrow> True | (Some x, Some y) \<Rightarrow> x < y | _ \<Rightarrow> False)"

fun latest_story :: "story list \<Rightarrow> story option" where
  "latest_story [] = None"
| "latest_story (t # ts) =
     (case latest_story ts of
        None \<Rightarrow> Some t
      | Some u \<Rightarrow> if null_first (t_updated_at t) (t_updated_at u) then Some u else Some t)"

definition last_done_story :: "string \<Rightarrow> store \<Rightarrow> story option" where
  "last_done_story runId w =
     latest_story (filter (\<lambda>t. t_status t = TDone) (run_stories runId w))"

definition verify_retry_exhausted :: "step \<Rightarrow> string \<Rightarrow> story \<Rightarrow> store \<Rightarrow> store" where
  "verify_retry_exhausted vs loopStepId st w =
     (let rid = s_run_id vs;
          w1 = fail_run rid
                 (set_step_status loopStepId SFailed
                    (set_story (t_id st)
                       (\<lambda>t. t\<lparr>t_status := TFailed, t_retry_count := Suc (t_retry_count st)\<rparr>) w));
          wf = getWorkflowId rid w1
      in finalizeDrainingPause rid
           (scheduleRunCronTeardown rid
              (emitRunTerminalEvent ''run.failed'' rid wf (Some ''Verification retries exhausted'') None
                 (emit ''story.failed'' rid
                    (opt_str ''workflowId'' wf @ [(''stepId'', VStr (s_step_id vs))]) w1))))"

definition verify_retry_story :: "step \<Rightarrow> string \<Rightarrow> ctx \<Rightarrow> story \<Rightarrow> store \<Rightarrow> store" where
  "verify_retry_story vs out context st w =
     (let rid = s_run_id vs;
          issues = (case context ''issues'' of Some i \<Rightarrow> i | None \<Rightarrow> out);
          w1 = set_story (t_id st)
                 (\<lambda>t. t\<lparr>t_status := TPending, t_retry_count := Suc (t_retry_count st)\<rparr>) w
      in set_run rid (\<lambda>r. r\<lparr>r_context := CtxObj (context(''verify_feedback'' \<mapsto> issues))\<rparr>)
           (emit ''story.retry'' rid
              (opt_str ''workflowId'' (getWorkflowId rid w1)
               @ [(''stepId'', VStr (s_step_id vs)), (''detail'', VStr issues)]) w1))"

definition handleVerifyEachCompletion ::
    "step \<Rightarrow> string \<Rightarrow> string \<Rightarrow> ctx \<Rightarrow> verdict \<Rightarrow> store \<Rightarrow> store \<times> advance" where
  "handleVerifyEachCompletion vs loopStepId out context v w =
     (let rid = s_run_id vs;
          w1 = set_step (s_id vs)
                 (\<lambda>s. s\<lparr>s_status := SWaiting, s_retry_count := 0, s_output := Some out\<rparr>) w
      in if v = VRetry
         then (case last_done_story rid w1 of
                 Some st \<Rightarrow>
                   if t_max_retries st < Suc (t_retry_count st)
                   then (verify_retry_exhausted vs loopStepId st w1, not_advanced)
                   else (set_step_status loopStepId SPending
                           (verify_retry_story vs out context st w1), not_advanced)
               | None \<Rightarrow> (set_step_status loopStepId SPending w1, not_advanced))
         else (let w2 = emit ''story.verified'' rid
                          (opt_str ''workflowId'' (getWorkflowId rid w1)
                           @ [(''stepId'', VStr (s_step_id vs))]) w1;
                   w3 = set_run rid
                          (\<lambda>r. r\<lparr>r_context := CtxObj (context(''verify_feedback'' := None))\<rparr>) w2
               in case checkLoopContinuation rid loopStepId w3 of
                    (w4, Inr a) \<Rightarrow> (w4, a)
                  | (w4, Inl _) \<Rightarrow> (set_step_status loopStepId SPending w4, not_advanced)))"


section \<open>What the parts of an operation leave alone\<close>

text \<open>Primary keys are unique in every table.\<close>

definition wf_store :: "store \<Rightarrow> bool" where
  "wf_store w \<longleftrightarrow> distinct (map s_id (steps w)) \<and> distinct (map r_id (runs w))
     \<and> distinct (map t_id (stories w))"

text \<open>Only rows of one run differ, and no row appears, goes or moves.\<close>

definition only_run :: "string \<Rightarrow> store \<Rightarrow> store \<Rightarrow> bool" where
  "only_run rid w w' \<longleftrightarrow>
     filter (\<lambda>s. s_run_id s \<noteq> rid) (steps w') = filter (\<lambda>s. s_run_id s \<noteq> rid) (steps w)
     \<and> filter (\<lambda>t. t_run_id t \<noteq> rid) (stories w') = filter (\<lambda>t. t_run_id t \<noteq> rid) (stories w)
     \<and> filter (\<lambda>r. r_id r \<noteq> rid) (runs w') = filter (\<lambda>r. r_id r \<noteq> rid) (runs w)
     \<and> map s_id (steps w') = map s_id (steps w) \<and> map s_run_id (steps w') = map s_run_id (steps w)
     \<and> map t_id (stories w') = map t_id (stories w)
     \<and> map r_id (runs w') = map r_id (runs w)
     \<and> now w' = now w"

lemma only_run_refl [simp, frame]: "only_run rid w w"
  by (simp add: only_run_def)

lemma only_run_trans: "only_run rid a b \<Longrightarrow> only_run rid b c \<Longrightarrow> only_run rid a c"
  by (simp add: only_run_def)

lemma only_run_wf: "only_run rid w w' \<Longrightarrow> wf_store w \<Longrightarrow> wf_store w'"
  by (simp add: only_run_def wf_store_def)

lemma only_run_emit [frame]: "only_run rid w w' \<Longrightarrow> only_run rid w (emit n r f w')"
  by (simp add: only_run_def)

lemma only_run_call [frame]: "only_run rid w w' \<Longrightarrow> only_run rid w (call e w')"
  by (simp add: only_run_def)

lemma only_run_set_run [frame]:
  assumes "only_run rid w w'" "\<And>r. r_id (f r) = r_id r"
  shows "only_run rid w (set_run rid f w')"
proof -
  have "filter (\<lambda>r. r_id r \<noteq> rid) (runs (set_run rid f w')) = filter (\<lambda>r. r_id r \<noteq> rid) (runs w')"
    unfolding set_run_def run_table.rows_upd by (rule filter_upd_where_frame) (simp_all add: assms(2))
  moreover have "map r_id (runs (set_run rid f w')) = map r_id (runs w')"
    unfolding set_run_def by (rule run_table.keys_upd) (simp add: assms(2))
  ultimately show ?thesis using assms(1) by (simp add: only_run_def)
qed

definition step_of_run :: "string \<Rightarrow> string \<Rightarrow> store \<Rightarrow> bool" where
  "step_of_run rid i w \<longleftrightarrow> (\<forall>s \<in> set (steps w). s_id s = i \<longrightarrow> s_run_id s = rid)"

definition story_of_run :: "string \<Rightarrow> string \<Rightarrow> store \<Rightarrow> bool" where
  "story_of_run rid i w \<longleftrightarrow> (\<forall>t \<in> set (stories w). t_id t = i \<longrightarrow> t_run_id t = rid)"

lemma filter_upd_where_other:
  "(\<And>r. r \<in> set rs \<Longrightarrow> P r \<Longrightarrow> \<not> Q r) \<Longrightarrow> (\<And>r. P r \<Longrightarrow> Q (f r) = Q r) \<Longrightarrow>
   filter Q (upd_where P f rs) = filter Q rs"
  by (induction rs) auto

lemma only_run_set_step [frame]:
  assumes "only_run rid w w'" "step_of_run rid i w'"
    "\<And>s. s_id (f s) = s_id s" "\<And>s. s_run_id (f s) = s_run_id s"
  shows "only_run rid w (set_step i f w')"
proof -
  have "filter (\<lambda>s. s_run_id s \<noteq> rid) (steps (set_step i f w')) = filter (\<lambda>s. s_run_id s \<noteq> rid) (steps w')"
    unfolding set_step_def step_table.rows_upd
    by (rule filter_upd_where_other) (use assms in \<open>auto simp: step_of_run_def\<close>)
  moreover have "map s_id (steps (set_step i f w')) = map s_id (steps w')"
    "map s_run_id (steps (set_step i f w')) = map s_run_id (steps w')"
    unfolding set_step_def step_table.rows_upd by (simp_all add: map_upd_where assms)
  ultimately show ?thesis using assms(1) by (simp add: only_run_def)
qed

lemma only_run_set_story [frame]:
  assumes "only_run rid w w'" "story_of_run rid i w'"
    "\<And>t. t_id (f t) = t_id t" "\<And>t. t_run_id (f t) = t_run_id t"
  shows "only_run rid w (set_story i f w')"
proof -
  have "filter (\<lambda>t. t_run_id t \<noteq> rid) (stories (set_story i f w')) = filter (\<lambda>t. t_run_id t \<noteq> rid) (stories w')"
    unfolding set_story_def story_table.rows_upd
    by (rule filter_upd_where_other) (use assms in \<open>auto simp: story_of_run_def\<close>)
  moreover have "map t_id (stories (set_story i f w')) = map t_id (stories w')"
    unfolding set_story_def story_table.rows_upd by (simp add: map_upd_where assms)
  ultimately show ?thesis using assms(1) by (simp add: only_run_def)
qed

lemma step_of_run_frame [simp]:
  "step_of_run rid i (emit n r f w) = step_of_run rid i w"
  "step_of_run rid i (call e w) = step_of_run rid i w"
  "step_of_run rid i (set_run j g w) = step_of_run rid i w"
  "step_of_run rid i (set_story j h w) = step_of_run rid i w"
  "story_of_run rid i (emit n r f w) = story_of_run rid i w"
  "story_of_run rid i (call e w) = story_of_run rid i w"
  "story_of_run rid i (set_run j g w) = story_of_run rid i w"
  "story_of_run rid i (set_step j k w) = story_of_run rid i w"
  by (simp_all add: step_of_run_def story_of_run_def)

lemma step_of_run_zip:
  "step_of_run rid i w \<longleftrightarrow>
     (\<forall>(a, b) \<in> set (zip (map s_id (steps w)) (map s_run_id (steps w))). a = i \<longrightarrow> b = rid)"
proof -
  have "set (zip (map s_id (steps w)) (map s_run_id (steps w))) = (\<lambda>s. (s_id s, s_run_id s)) ` set (steps w)"
    by (simp add: zip_map_map zip_same_conv_map image_image)
  then show ?thesis by (auto simp: step_of_run_def)
qed

lemma step_of_run_only_run: "only_run r w w' \<Longrightarrow> step_of_run rid i w' = step_of_run rid i w"
  by (simp add: step_of_run_zip only_run_def)

lemma in_run_steps_of_run:
  "wf_store w \<Longrightarrow> s \<in> set (run_steps rid w) \<Longrightarrow> step_of_run rid (s_id s) w"
  by (auto simp: run_steps_def step_of_run_def wf_store_def distinct_map dest: inj_onD)

lemma in_run_stories_of_run:
  "wf_store w \<Longrightarrow> t \<in> set (run_stories rid w) \<Longrightarrow> story_of_run rid (t_id t) w"
  by (auto simp: run_stories_def story_of_run_def wf_store_def distinct_map dest: inj_onD)

lemma parseRunContext_tables [simp]:
  "runs (snd (parseRunContext r c w)) = runs w" "steps (snd (parseRunContext r c w)) = steps w"
  "stories (snd (parseRunContext r c w)) = stories w" "now (snd (parseRunContext r c w)) = now w"
  "effects (snd (parseRunContext r c w)) = effects w"
  "abandonments (snd (parseRunContext r c w)) = abandonments w"
  by (simp_all add: parseRunContext_def split: ctx_col.splits)

lemma only_run_parse [frame]: "only_run rid w w' \<Longrightarrow> only_run rid w (snd (parseRunContext r c w'))"
  by (simp add: only_run_def)

lemma only_run_terminal_event [frame]:
  "only_run rid w w' \<Longrightarrow> only_run rid w (emitRunTerminalEvent n r a b c w')"
  by (simp add: emitRunTerminalEvent_def frame)

lemma emitRunTerminalEvent_simps [simp]:
  "runs (emitRunTerminalEvent n r a b c w) = runs w" "steps (emitRunTerminalEvent n r a b c w) = steps w"
  "stories (emitRunTerminalEvent n r a b c w) = stories w" "now (emitRunTerminalEvent n r a b c w) = now w"
  "find_run i (emitRunTerminalEvent n r a b c w) = find_run i w"
  "find_step i (emitRunTerminalEvent n r a b c w) = find_step i w"
  "find_story i (emitRunTerminalEvent n r a b c w) = find_story i w"
  by (simp_all add: emitRunTerminalEvent_def)

lemma scheduleRunCronTeardown_simps [simp]:
  "steps (scheduleRunCronTeardown r w) = steps w" "stories (scheduleRunCronTeardown r w) = stories w"
  "now (scheduleRunCronTeardown r w) = now w"
  "find_step i (scheduleRunCronTeardown r w) = find_step i w"
  "find_story i (scheduleRunCronTeardown r w) = find_story i w"
  by (simp_all add: scheduleRunCronTeardown_def Let_def split: option.splits)

lemma finalizeDrainingPause_simps [simp]:
  "steps (finalizeDrainingPause r w) = steps w" "stories (finalizeDrainingPause r w) = stories w"
  "now (finalizeDrainingPause r w) = now w"
  by (auto simp: finalizeDrainingPause_def Let_def split_def split: option.splits)

lemma finalizeDrainingPause_finds [simp]:
  "find_step i (finalizeDrainingPause r w) = find_step i w"
  "find_story i (finalizeDrainingPause r w) = find_story i w"
  by (simp_all add: find_step_def find_story_def)

lemma only_run_teardown [frame]:
  "only_run rid w w' \<Longrightarrow> only_run rid w (scheduleRunCronTeardown rid w')"
  by (auto simp: scheduleRunCronTeardown_def Let_def frame split: option.splits)

lemma only_run_finalize [frame]:
  "only_run rid w w' \<Longrightarrow> only_run rid w (finalizeDrainingPause rid w')"
  by (auto simp: finalizeDrainingPause_def Let_def split_def frame split: option.splits)

lemma only_run_fail_run [frame]: "only_run rid w w' \<Longrightarrow> only_run rid w (fail_run rid w')"
  by (simp add: fail_run_def frame)

lemma only_run_set_step_status [frame]:
  "only_run rid w w' \<Longrightarrow> step_of_run rid i w' \<Longrightarrow> only_run rid w (set_step_status i st w')"
  unfolding set_step_status_def by (rule only_run_set_step) simp_all

lemma only_run_mark_verifier [frame]:
  assumes "only_run rid w w'"
  shows "only_run rid w (mark_verifier_done rid v w')"
proof -
  have "filter (\<lambda>s. s_run_id s \<noteq> rid) (steps (mark_verifier_done rid v w')) =
        filter (\<lambda>s. s_run_id s \<noteq> rid) (steps w')"
    unfolding mark_verifier_done_def by simp (rule filter_upd_where_frame; simp)
  then show ?thesis using assms by (simp add: only_run_def mark_verifier_done_def map_upd_where)
qed

end
