(* ===== verification/Pipeline_Props.thy ===== *)
theory Pipeline_Props
  imports Pipeline
begin

text \<open>
  What is proved of the pipeline: an operation on a run touches that run only (a locale, with one
  interpretation for every operation), a run completes exactly when all its steps are done or
  skipped, the promoted step is the first waiting one, a terminal run stays terminal, and the
  verify-each loop gives every story its retry budget and no more.
\<close>

section \<open>Operations of one run\<close>

text \<open>The contract every operation on a run keeps: whatever the state, under its precondition, only
  rows of that run differ.\<close>

locale run_operation =
  fixes pre :: "string \<Rightarrow> store \<Rightarrow> bool"
    and oper :: "string \<Rightarrow> store \<Rightarrow> store"
  assumes oper_only: "wf_store w \<Longrightarrow> pre rid w \<Longrightarrow> only_run rid w (oper rid w)"
begin

lemma oper_wf: "wf_store w \<Longrightarrow> pre rid w \<Longrightarrow> wf_store (oper rid w)"
  using oper_only only_run_wf by blast

lemma oper_other_steps:
  "wf_store w \<Longrightarrow> pre rid w \<Longrightarrow> r \<noteq> rid \<Longrightarrow> run_steps r (oper rid w) = run_steps r w"
proof -
  assume h: "wf_store w" "pre rid w" "r \<noteq> rid"
  have sub: "run_steps r u = filter (\<lambda>s. s_run_id s = r) (filter (\<lambda>s. s_run_id s \<noteq> rid) (steps u))" for u
    unfolding run_steps_def filter_filter by (rule filter_cong) (use h(3) in auto)
  show ?thesis using oper_only [OF h(1,2)] by (simp add: sub only_run_def)
qed

lemma oper_other_stories:
  "wf_store w \<Longrightarrow> pre rid w \<Longrightarrow> r \<noteq> rid \<Longrightarrow> run_stories r (oper rid w) = run_stories r w"
proof -
  assume h: "wf_store w" "pre rid w" "r \<noteq> rid"
  have sub: "run_stories r u = filter (\<lambda>s. t_run_id s = r) (filter (\<lambda>s. t_run_id s \<noteq> rid) (stories u))" for u
    unfolding run_stories_def filter_filter by (rule filter_cong) (use h(3) in auto)
  show ?thesis using oper_only [OF h(1,2)] by (simp add: sub only_run_def)
qed

lemma oper_other_run:
  "wf_store w \<Longrightarrow> pre rid w \<Longrightarrow> r \<noteq> rid \<Longrightarrow> find_run r (oper rid w) = find_run r w"
proof -
  assume h: "wf_store w" "pre rid w" "r \<noteq> rid"
  have sub: "List.find (\<lambda>x. r_id x = r) xs =
      List.find (\<lambda>x. r_id x = r) (filter (\<lambda>x. r_id x \<noteq> rid) xs)" for xs
    using h(3) by (induction xs) auto
  show ?thesis using oper_only [OF h(1,2)] sub [of "runs (oper rid w)"] sub [of "runs w"]
    by (simp add: find_run_def only_run_def)
qed

text \<open>A sequence of such operations on other runs leaves a run's steps as they were.\<close>

lemma fold_other_steps:
  "wf_store w \<Longrightarrow> r \<notin> set rids \<Longrightarrow> (\<And>rid u. pre rid u) \<Longrightarrow>
   run_steps r (fold oper rids w) = run_steps r w"
proof (induction rids arbitrary: w)
  case Nil
  then show ?case by simp
next
  case (Cons a rids)
  then show ?case using oper_wf [of w a] oper_other_steps [of w a r] by simp
qed

end

lemma latest_story_in: "latest_story ts = Some t \<Longrightarrow> t \<in> set ts"
  by (induction ts arbitrary: t) (auto split: option.splits if_splits)

section \<open>Advancing the pipeline\<close>

lemma next_waiting_SomeD:
  assumes "next_waiting rid w = Some s"
  shows "s \<in> set (run_steps rid w) \<and> s_status s = SWaiting
    \<and> (\<forall>u \<in> set (run_steps rid w). s_status u = SWaiting \<longrightarrow> s_step_index s \<le> s_step_index u)"
  using first_min_Some [OF assms [unfolded next_waiting_def]] by auto

lemma next_waiting_None:
  "next_waiting rid w = None \<longleftrightarrow> (\<forall>s \<in> set (run_steps rid w). s_status s \<noteq> SWaiting)"
  by (auto simp: next_waiting_def filter_empty_conv)

lemma complete_run_tables [simp]:
  "steps (complete_run rid w) = steps w" "stories (complete_run rid w) = stories w"
  by (simp_all add: complete_run_def)

lemma promote_step_tables [simp]:
  "runs (promote_step rid s w) = runs w" "stories (promote_step rid s w) = stories w"
  "steps (promote_step rid s w) = steps (set_step_status (s_id s) SPending w)"
  by (simp_all add: promote_step_def Let_def set_step_status_def)

lemma set_step_status_simps [simp]:
  "runs (set_step_status i st w) = runs w" "stories (set_step_status i st w) = stories w"
  "events (set_step_status i st w) = events w" "now (set_step_status i st w) = now w"
  "find_run j (set_step_status i st w) = find_run j w"
  by (simp_all add: set_step_status_def)

lemma only_run_complete: "only_run rid w (complete_run rid w)"
  by (auto simp: complete_run_def intro!: frame)

lemma only_run_promote:
  "step_of_run rid (s_id s) w \<Longrightarrow> only_run rid w (promote_step rid s w)"
  by (auto simp: promote_step_def Let_def intro!: frame)

lemma only_run_advance:
  "wf_store w \<Longrightarrow> only_run rid w (fst (advancePipeline rid w))"
  by (auto simp: advancePipeline_def only_run_complete
           dest: next_waiting_SomeD in_run_steps_of_run intro!: only_run_promote
           split: option.splits)

interpretation adv: run_operation "\<lambda>_ _. True" "\<lambda>rid w. fst (advancePipeline rid w)"
  by unfold_locales (rule only_run_advance)

interpretation teardown: run_operation "\<lambda>_ _. True" scheduleRunCronTeardown
  by unfold_locales (simp add: frame)

interpretation drain: run_operation "\<lambda>_ _. True" finalizeDrainingPause
  by unfold_locales (simp add: frame)

lemma scheduleRunCronTeardown_status:
  "run_status_of r (scheduleRunCronTeardown rid w) = run_status_of r w"
  by (auto simp: run_status_of_def scheduleRunCronTeardown_def Let_def find_set split: option.splits)

lemma parseRunContext_find_run [simp]:
  "find_run r (snd (parseRunContext a c w)) = find_run r w"
  by (simp add: find_run_def)

lemma finalizeDrainingPause_terminal:
  assumes "run_status_of rid w = Some st" "terminal st"
  shows "run_status_of r (finalizeDrainingPause rid w) = run_status_of r w"
  using assms
  by (auto simp: run_status_of_def finalizeDrainingPause_def Let_def split_def split: option.splits)

lemma complete_run_status:
  "find_run rid w = Some r \<Longrightarrow> run_status_of rid (complete_run rid w) = Some RCompleted"
proof -
  assume r: "find_run rid w = Some r"
  let ?w1 = "scheduleRunCronTeardown rid (call (ArchiveProgress rid)
      (emitRunTerminalEvent ''run.completed'' rid (getWorkflowId rid w) None None
        (set_run rid (\<lambda>r. r\<lparr>r_status := RCompleted\<rparr>) w)))"
  have "run_status_of rid ?w1 = Some RCompleted"
    unfolding scheduleRunCronTeardown_status
    using r by (simp add: run_status_of_def find_set)
  then show ?thesis
    using finalizeDrainingPause_terminal [of rid ?w1 RCompleted rid]
    by (simp add: complete_run_def terminal_def)
qed

definition finished :: "step_status \<Rightarrow> bool" where
  "finished st \<longleftrightarrow> st = SDone \<or> st = SSkipped"

lemma finished_iff: "finished st \<longleftrightarrow> st \<noteq> SWaiting \<and> \<not> incomplete_status st"
  by (cases st) (simp_all add: finished_def incomplete_status_def)

text \<open>C4.  Advancing completes a run exactly when the run is neither failed nor canceled and every
  one of its steps is done or skipped; the run's row then says completed, even when a pause was
  waiting for the work in flight.\<close>

theorem advancePipeline_completes_iff:
  "runCompleted (snd (advancePipeline rid w)) \<longleftrightarrow>
     run_status_of rid w \<noteq> Some RFailed \<and> run_status_of rid w \<noteq> Some RCanceled
     \<and> (\<forall>s \<in> set (run_steps rid w). finished (s_status s))"
proof -
  have "(\<forall>s \<in> set (run_steps rid w). finished (s_status s)) \<longleftrightarrow>
      next_waiting rid w = None
      \<and> \<not> list_ex (\<lambda>s. incomplete_status (s_status s)) (run_steps rid w)"
    by (auto simp: finished_iff next_waiting_None list_ex_iff)
  moreover have "list_ex (\<lambda>s. s_status s = SRunning) (run_steps rid w) \<Longrightarrow>
      list_ex (\<lambda>s. incomplete_status (s_status s)) (run_steps rid w)"
    by (auto simp: list_ex_iff incomplete_status_def)
  ultimately show ?thesis
    by (auto simp: advancePipeline_def not_advanced_def split: option.splits)
qed

lemma advancePipeline_completes_iff_witness:
  "runCompleted (snd (advancePipeline ''r'' (set_step_status ''m'' SSkipped store0)))"
  by (subst advancePipeline_completes_iff)
     (simp add: sample_defs eval_store run_status_of_def set_step_status_def finished_def)


lemma advancePipeline_completed_state:
  assumes "runCompleted (snd (advancePipeline rid w))" "find_run rid w \<noteq> None"
  shows "run_status_of rid (fst (advancePipeline rid w)) = Some RCompleted
     \<and> steps (fst (advancePipeline rid w)) = steps w"
  using assms complete_run_status
  by (auto simp: advancePipeline_def not_advanced_def split: option.splits if_splits)

text \<open>When the pipeline advances, nothing in the run was running, and exactly one step changes:
  the waiting step of least index becomes pending.\<close>

theorem advancePipeline_promotes_first_waiting:
  assumes "advanced (snd (advancePipeline rid w))" "wf_store w"
  shows "\<exists>s \<in> set (run_steps rid w).
     s_status s = SWaiting
     \<and> (\<forall>u \<in> set (run_steps rid w). s_status u = SWaiting \<longrightarrow> s_step_index s \<le> s_step_index u)
     \<and> (\<forall>u \<in> set (run_steps rid w). s_status u \<noteq> SRunning)
     \<and> step_status_of (s_id s) (fst (advancePipeline rid w)) = Some SPending
     \<and> (\<forall>i. i \<noteq> s_id s \<longrightarrow>
            find_step i (fst (advancePipeline rid w)) = find_step i w)"
proof -
  from assms(1) obtain s where s: "next_waiting rid w = Some s"
    and run: "\<forall>u \<in> set (run_steps rid w). s_status u \<noteq> SRunning"
    and eq: "fst (advancePipeline rid w) = promote_step rid s w"
    by (auto simp: advancePipeline_def not_advanced_def list_ex_iff split: option.splits if_splits)
  note sD = next_waiting_SomeD [OF s]
  have f: "find_step (s_id s) w = Some s"
    using step_table.find_in_rows [of w s] assms(2) sD by (simp add: wf_store_def run_steps_def)
  have "find_step i (promote_step rid s w) = find_step i (set_step_status (s_id s) SPending w)" for i
    by (simp add: find_step_def)
  then show ?thesis using sD run f
    by (intro bexI [of _ s]) (simp_all add: eq step_status_of_def set_step_status_def find_set)
qed

lemma advancePipeline_promotes_first_waiting_witness:
  "\<exists>s \<in> set (run_steps ''r'' (set_step_status ''m'' SWaiting store0)).
     s_status s = SWaiting
     \<and> step_status_of (s_id s) (fst (advancePipeline ''r'' (set_step_status ''m'' SWaiting store0)))
         = Some SPending"
proof -
  let ?w = "set_step_status ''m'' SWaiting store0"
  have "advanced (snd (advancePipeline ''r'' ?w))" "wf_store ?w"
    by (simp_all add: sample_defs eval_store run_status_of_def set_step_status_def
          advancePipeline_def next_waiting_def wf_store_def)
  from advancePipeline_promotes_first_waiting [OF this] show ?thesis by blast
qed


text \<open>A failed or canceled run is never advanced: the store is left exactly as it was.\<close>

theorem advancePipeline_terminal_unchanged:
  assumes "run_status_of rid w = Some RFailed \<or> run_status_of rid w = Some RCanceled"
  shows "advancePipeline rid w = (w, not_advanced)"
  using assms by (auto simp: advancePipeline_def)

lemma advancePipeline_terminal_unchanged_witness:
  "advancePipeline ''r'' (fail_run ''r'' store0) = (fail_run ''r'' store0, not_advanced)"
  by (rule advancePipeline_terminal_unchanged)
     (simp add: sample_defs eval_store run_status_of_def fail_run_def)


text \<open>Advancing one run never changes a step, a story or the row of another.\<close>

theorem advancePipeline_isolated:
  assumes "wf_store w" "r \<noteq> rid"
  shows "run_steps r (fst (advancePipeline rid w)) = run_steps r w
     \<and> run_stories r (fst (advancePipeline rid w)) = run_stories r w
     \<and> find_run r (fst (advancePipeline rid w)) = find_run r w"
  using adv.oper_other_steps adv.oper_other_stories adv.oper_other_run assms by blast

lemma advancePipeline_isolated_witness:
  "run_steps ''q'' (fst (advancePipeline ''r'' store0)) = run_steps ''q'' store0"
  using advancePipeline_isolated [of store0 "''q''" "''r''"]
  by (simp add: sample_defs wf_store_def)


section \<open>A pause that waits for the work in flight\<close>

definition drain_wanted :: "run \<Rightarrow> bool" where
  "drain_wanted r \<longleftrightarrow>
     r_scheduling_status r = Some ''draining_pause''
     \<or> (case r_context r of CtxObj m \<Rightarrow> m ''pause_drain'' = Some ''true'' | CtxCorrupt _ \<Rightarrow> False)"

text \<open>C5.  The draining pause settles exactly when one is wanted on a live, unpaused run in which no
  step is in flight; the run is then paused, and otherwise its row is left alone.\<close>

theorem finalizeDrainingPause_iff:
  assumes "find_run rid w = Some r"
  shows "find_run rid (finalizeDrainingPause rid w) =
     (if drain_wanted r \<and> r_status r \<noteq> RPaused \<and> \<not> terminal (r_status r)
         \<and> (\<forall>s \<in> set (run_steps rid w). s_status s = SRunning \<longrightarrow> \<not> in_flight_step s)
      then Some (r\<lparr>r_status := RPaused, r_scheduling_status := Some ''paused'',
                   r_updated_at := Some (now w)\<rparr>)
      else Some r)"
proof -
  have ps: "run_steps rid (snd (parseRunContext rid c w)) = run_steps rid w" for c
    by (simp add: run_steps_def)
  show ?thesis
    using assms
    by (cases "r_context r")
       (auto simp: finalizeDrainingPause_def Let_def split_def drain_wanted_def find_set ps
                   list_ex_iff parseRunContext_def run_steps_def)
qed

lemma finalizeDrainingPause_iff_witness:
  "map_option r_status (find_run ''r'' (finalizeDrainingPause ''r''
       (set_step_status ''m'' SDone
          (set_run ''r'' (\<lambda>r. r\<lparr>r_scheduling_status := Some ''draining_pause''\<rparr>) store0))))
   = Some RPaused"
proof -
  let ?f = "\<lambda>r. r\<lparr>r_scheduling_status := Some ''draining_pause''\<rparr>"
  let ?w = "set_step_status ''m'' SDone (set_run ''r'' ?f store0)"
  let ?r = "(?f run0)\<lparr>r_updated_at := Some 100\<rparr>"
  have r: "find_run ''r'' ?w = Some ?r"
    by (simp add: sample_defs eval_store set_step_status_def)
  have s: "\<forall>s \<in> set (run_steps ''r'' ?w). s_status s \<noteq> SRunning"
    by (simp add: sample_defs eval_store set_step_status_def)
  show ?thesis
    unfolding finalizeDrainingPause_iff [OF r]
    using s by (simp add: drain_wanted_def run0_def terminal_def)
qed


end
