(* ===== verification/Reroute.thy ===== *)
theory Reroute
  imports Pipeline_Props
begin

text \<open>
  Rerouting a failed step to an upstream producer (\<^verbatim>\<open>src/src/installer/step-ops.ts\<close>): the failure
  class of a reason, the two reroute budgets, the reset of stories and the feedback the producer
  receives.  The workflow file is read through a YAML library; the parameter \<open>specs\<close> gives the
  \<^verbatim>\<open>on_fail\<close> block of every step of a workflow, or \<open>None\<close> when the file does not load.
\<close>

section \<open>Failure policies\<close>

record on_fail =
  of_retry_step :: "string option"
  of_max_reroutes :: "int option"
  of_max_target_moved_reroutes :: "int option"
  of_retry_on :: "string list option"

type_synonym workflow_steps = "(string \<times> on_fail option) list"
type_synonym specs = "string \<Rightarrow> workflow_steps option"

definition getOnFailPolicySync :: "specs \<Rightarrow> string \<Rightarrow> string \<Rightarrow> store \<Rightarrow> on_fail option" where
  "getOnFailPolicySync specs runId stepId w =
     (case find_run runId w of
        None \<Rightarrow> None
      | Some r \<Rightarrow>
          (case specs (r_workflow_id r) of
             None \<Rightarrow> None
           | Some sts \<Rightarrow>
               (case List.find (\<lambda>(i, _). i = stepId) sts of
                  None \<Rightarrow> None
                | Some (_, p) \<Rightarrow> p)))"

text \<open>A policy's retry step, an empty name counting as none.\<close>

definition retry_target :: "on_fail option \<Rightarrow> string option" where
  "retry_target p =
     (case p of
        None \<Rightarrow> None
      | Some q \<Rightarrow> (case of_retry_step q of None \<Rightarrow> None | Some [] \<Rightarrow> None | Some t \<Rightarrow> Some t))"

section \<open>Failure classes\<close>

datatype disposition = Transient | Terminal | Inherited

datatype reroute_mode = Legacy | DeclaredRetryable | TerminalMode

fun mode_name :: "reroute_mode \<Rightarrow> string" where
  "mode_name Legacy = ''legacy''"
| "mode_name DeclaredRetryable = ''declared_retryable''"
| "mode_name TerminalMode = ''terminal''"

definition FAILURE_CLASS_VOCABULARY :: "string \<Rightarrow> disposition option" where
  "FAILURE_CLASS_VOCABULARY c =
     (if c = ''target_moved'' \<or> c = ''conflicts'' \<or> c = ''tree_dirty'' then Some Transient
      else if c = ''refused_permanent'' then Some Terminal
      else if c \<in> set object_prototype_keys then Some Inherited
      else None)"

definition is_blank_tab :: "char \<Rightarrow> bool" where
  "is_blank_tab c \<longleftrightarrow> c = CHR '' '' \<or> c = CHR 0x09"

text \<open>The text before the first \<^verbatim>\<open>\r?\n\<close>.\<close>

definition first_line :: "string \<Rightarrow> string" where
  "first_line s =
     (let l = takeWhile (\<lambda>c. c \<noteq> newline) s
      in if length l < length s \<and> l \<noteq> [] \<and> last l = CHR 0x0D then butlast l else l)"

definition parseFailureClass :: "string \<Rightarrow> string option" where
  "parseFailureClass reason =
     (let l = first_line reason; r = drop 14 l;
          t = takeWhile (\<lambda>c. \<not> is_ws c) (dropWhile is_blank_tab r);
          e = dropWhile (\<lambda>c. \<not> is_ws c) (dropWhile is_blank_tab r)
      in if starts_with ''FAILURE_CLASS:'' l \<and> takeWhile is_blank_tab r \<noteq> [] \<and> t \<noteq> []
            \<and> list_all is_blank_tab e
         then Some t else None)"

definition getFailureRerouteMode :: "string \<Rightarrow> on_fail option \<Rightarrow> reroute_mode" where
  "getFailureRerouteMode reason policy =
     (case parseFailureClass reason of
        None \<Rightarrow> Legacy
      | Some c \<Rightarrow>
          (case FAILURE_CLASS_VOCABULARY c of
             None \<Rightarrow> Legacy
           | Some Terminal \<Rightarrow> TerminalMode
           | Some _ \<Rightarrow>
               (case policy of
                  None \<Rightarrow> Legacy
                | Some p \<Rightarrow>
                    (case of_retry_on p of
                       None \<Rightarrow> Legacy
                     | Some cs \<Rightarrow> if c \<in> set cs then DeclaredRetryable else Legacy))))"

definition bounded_reason :: "string \<Rightarrow> string" where
  "bounded_reason e = (if length e > 200 then take 197 e @ ''...'' else e)"

text \<open>\<^verbatim>\<open>/^FAILURE_CLASS: refused_permanent$/m\<close>: some line of the text is exactly that.\<close>

fun term_lines :: "string \<Rightarrow> string list" where
  "term_lines [] = [[]]"
| "term_lines (c # cs) =
     (if is_line_term c then [] # term_lines cs
      else (case term_lines cs of [] \<Rightarrow> [[c]] | l # ls \<Rightarrow> (c # l) # ls))"

definition reroute_reason :: "string \<Rightarrow> string" where
  "reroute_reason e =
     (if ''FAILURE_CLASS: refused_permanent'' \<in> set (term_lines e) then e else bounded_reason e)"

definition cap_reroutes :: "on_fail \<Rightarrow> int" where
  "cap_reroutes p = (case of_max_reroutes p of None \<Rightarrow> 2 | Some n \<Rightarrow> n)"

definition cap_target_moved :: "on_fail \<Rightarrow> int" where
  "cap_target_moved p = (case of_max_target_moved_reroutes p of None \<Rightarrow> 16 | Some n \<Rightarrow> n)"

definition buildTargetMovedExhaustedReason ::
    "string \<Rightarrow> on_fail option \<Rightarrow> string \<Rightarrow> store \<Rightarrow> string" where
  "buildTargetMovedExhaustedReason consumerRowId policy consumerFailure w =
     (let cnt = (case find_step consumerRowId w of None \<Rightarrow> 0 | Some s \<Rightarrow> s_target_moved_reroute_count s);
          cap = (case policy of None \<Rightarrow> 16 | Some p \<Rightarrow> cap_target_moved p);
          target = (case policy of None \<Rightarrow> ''?''
                    | Some p \<Rightarrow> (case of_retry_step p of None \<Rightarrow> ''?'' | Some t \<Rightarrow> t))
      in ''FAILURE_CLASS: target_moved_exhausted'' @ [newline]
         @ ''Target-moved reroute budget exhausted: '' @ nat_str cnt @ ''/'' @ int_str cap
         @ '' stale-tip reroutes to \"'' @ target @ ''\". Consumer failure: ''
         @ bounded_reason consumerFailure)"

section \<open>Stories of the reroute target\<close>

text \<open>\<^verbatim>\<open>failureText.match(/US-\d+/g)\<close>.\<close>

function us_ids :: "string \<Rightarrow> string list" where
  "us_ids s =
     (case s of
        [] \<Rightarrow> []
      | c # cs \<Rightarrow>
          (if starts_with ''US-'' s \<and> takeWhile is_digit (drop 3 s) \<noteq> []
           then (''US-'' @ takeWhile is_digit (drop 3 s)) # us_ids (dropWhile is_digit (drop 3 s))
           else us_ids cs))"
  by pat_completeness auto
termination
proof (relation "measure length", goal_cases)
  case 1
  show ?case by simp
next
  case (2 s c cs)
  have "length (dropWhile is_digit (drop 3 (c # cs))) \<le> length (drop 3 (c # cs))"
    by (rule length_dropWhile_le)
  also have "\<dots> < length (c # cs)" by simp
  finally show ?case using 2 by simp
next
  case (3 s c cs)
  then show ?case by simp
qed

declare us_ids.simps [simp del]

text \<open>One story goes back to work: pending with a retry charged, or failed when its retries are
  used up.\<close>

definition charge_story :: "string \<Rightarrow> string option \<Rightarrow> string \<Rightarrow> story \<Rightarrow> store \<Rightarrow> store" where
  "charge_story runId wfid targetStepId st w =
     (let n = Suc (t_retry_count st)
      in if t_max_retries st < n
         then emit ''story.failed'' runId
                (opt_str ''workflowId'' wfid
                 @ [(''stepId'', VStr targetStepId), (''storyId'', VStr (t_story_id st)),
                    (''storyTitle'', VStr (t_title st)),
                    (''detail'', VStr ''Reroute - story retries exhausted'')])
                (set_story (t_id st) (\<lambda>t. t\<lparr>t_status := TFailed, t_retry_count := n\<rparr>) w)
         else set_story (t_id st) (\<lambda>t. t\<lparr>t_status := TPending, t_retry_count := n\<rparr>) w)"

definition story_named :: "string \<Rightarrow> string \<Rightarrow> store \<Rightarrow> story option" where
  "story_named runId storyId w =
     List.find (\<lambda>t. t_run_id t = runId \<and> t_story_id t = storyId) (stories w)"

fun reset_named :: "string \<Rightarrow> string option \<Rightarrow> string \<Rightarrow> string list \<Rightarrow> store \<Rightarrow> store \<times> nat" where
  "reset_named runId wfid targetStepId [] w = (w, 0)"
| "reset_named runId wfid targetStepId (i # is) w =
     (case story_named runId i w of
        None \<Rightarrow> reset_named runId wfid targetStepId is w
      | Some st \<Rightarrow>
          if t_status st \<noteq> TDone then reset_named runId wfid targetStepId is w
          else (let (w', n) = reset_named runId wfid targetStepId is
                                (charge_story runId wfid targetStepId st w)
                in (w', Suc n)))"

definition loop_over_stories :: "step \<Rightarrow> bool" where
  "loop_over_stories s \<longleftrightarrow>
     s_type s = TyLoop
     \<and> (case s_loop_config s of LcConfig lc \<Rightarrow> lc_over lc = ''stories'' | _ \<Rightarrow> False)"

definition resetStoriesOnReroute ::
    "string \<Rightarrow> step \<Rightarrow> string \<Rightarrow> string option \<Rightarrow> store \<Rightarrow> store" where
  "resetStoriesOnReroute runId target failureText wfid w =
     (if \<not> loop_over_stories target then w
      else (let (w1, n) = reset_named runId wfid (s_step_id target) (us_ids failureText) w
            in if n = 0
               then (case last_done_story runId w1 of
                       None \<Rightarrow> w1
                     | Some st \<Rightarrow> charge_story runId wfid (s_step_id target) st w1)
               else w1))"

definition writeRerouteFeedbackContext :: "string \<Rightarrow> step \<Rightarrow> string \<Rightarrow> store \<Rightarrow> store" where
  "writeRerouteFeedbackContext runId target failureText w =
     (if \<not> loop_over_stories target then w
      else (case find_run runId w of
              None \<Rightarrow> w
            | Some r \<Rightarrow>
                (let (m, w1) = parseRunContext runId (r_context r) w
                 in set_run runId
                      (\<lambda>r. r\<lparr>r_context := CtxObj (m(''verify_feedback'' \<mapsto> failureText,
                                                       ''retry_feedback'' \<mapsto> failureText))\<rparr>) w1)))"

section \<open>The reroute\<close>

datatype reroute_result =
  Rerouted | BudgetExhausted | TargetMovedExhausted | InvalidTarget | NotFound

definition step_named :: "string \<Rightarrow> string \<Rightarrow> store \<Rightarrow> step option" where
  "step_named runId stepId w =
     List.find (\<lambda>s. s_run_id s = runId \<and> s_step_id s = stepId) (steps w)"

text \<open>Reroutes charged to the shared budget: stale-tip reroutes are counted apart.\<close>

definition effective_shared :: "step \<Rightarrow> nat" where
  "effective_shared c = s_reroute_count c - s_target_moved_reroute_count c"

definition terminal_allowance :: "reroute_mode \<Rightarrow> step \<Rightarrow> bool \<Rightarrow> bool" where
  "terminal_allowance mode c gate \<longleftrightarrow>
     mode = TerminalMode \<and> (s_terminal_reroute_count c < 1 \<or> gate)"

definition exhausted_event ::
    "string \<Rightarrow> string \<Rightarrow> string \<Rightarrow> string option \<Rightarrow> step \<Rightarrow> on_fail \<Rightarrow> string \<Rightarrow> store \<Rightarrow> store" where
  "exhausted_event name runId consumerStepId fc c p detail w =
     emit name runId
       (opt_str ''workflowId'' (getWorkflowId runId w)
        @ [(''stepId'', VStr consumerStepId), (''detail'', VStr detail)]
        @ opt_str ''failureClass'' fc
        @ [(''targetMovedRerouteCount'', VNat (s_target_moved_reroute_count c)),
           (''targetMovedBudget'', VInt (cap_target_moved p))]) w"

definition budget_label :: "bool \<Rightarrow> nat \<Rightarrow> nat \<Rightarrow> on_fail \<Rightarrow> string" where
  "budget_label isTargetMoved tm n p =
     (if isTargetMoved
      then ''target-moved reroute '' @ nat_str tm @ ''/'' @ int_str (cap_target_moved p)
      else ''reroute '' @ nat_str n @ ''/'' @ int_str (cap_reroutes p))"

definition repend_producer :: "string \<Rightarrow> string \<Rightarrow> store \<Rightarrow> store" where
  "repend_producer i feedback w =
     set_step i (\<lambda>s. s\<lparr>s_status := SPending, s_output := Some feedback, s_claim_job_id := None,
                       s_claim_pid := None, s_claim_pgid := None, s_claim_updated_at := None,
                       s_claim_invalidated_by := Some ''reroute''\<rparr>) w"

definition park_consumer :: "string \<Rightarrow> nat \<Rightarrow> nat \<Rightarrow> nat \<Rightarrow> store \<Rightarrow> store" where
  "park_consumer i n term tm w =
     set_step i (\<lambda>s. s\<lparr>s_status := SWaiting, s_retry_count := 0, s_reroute_count := n,
                       s_terminal_reroute_count := term, s_target_moved_reroute_count := tm,
                       s_output := None, s_claim_job_id := None, s_claim_pid := None,
                       s_claim_pgid := None\<rparr>) w"

definition do_reroute ::
    "on_fail \<Rightarrow> string \<Rightarrow> string \<Rightarrow> string \<Rightarrow> step \<Rightarrow> step \<Rightarrow> string \<Rightarrow> bool \<Rightarrow> store \<Rightarrow> store" where
  "do_reroute p runId targetStepId consumerStepId c target err usesAllowance w =
     (let mode = getFailureRerouteMode err (Some p);
          fc = parseFailureClass err;
          isTM = (fc = Some ''target_moved'');
          n = s_reroute_count c + (if usesAllowance then 0 else 1);
          term = s_terminal_reroute_count c + (if mode = TerminalMode then 1 else 0);
          tm = s_target_moved_reroute_count c + (if isTM then 1 else 0);
          label = budget_label isTM tm n p;
          feedback = ''Reroute from \"'' @ s_step_id c @ ''\" ('' @ label
                     @ ''). Consumer failure: '' @ bounded_reason err;
          w1 = repend_producer (s_id target) feedback w;
          w2 = resetStoriesOnReroute runId target err (getWorkflowId runId w1) w1;
          w3 = writeRerouteFeedbackContext runId target err w2;
          w4 = park_consumer (s_id c) n term tm w3
      in emit ''step.rerouted'' runId
           (opt_str ''workflowId'' (getWorkflowId runId w4)
            @ [(''stepId'', VStr consumerStepId),
               (''detail'', VStr (''Rerouted to '' @ targetStepId @ '' ('' @ label
                                  @ ''). Consumer failure: '' @ reroute_reason err)),
               (''rerouteMode'', VStr (mode_name mode)),
               (''terminal'', VBool (mode = TerminalMode))]
            @ opt_str ''failureClass'' fc
            @ [(''targetMovedRerouteCount'', VNat tm),
               (''targetMovedBudget'', VInt (cap_target_moved p))]) w4)"

definition rerouteWithPolicy ::
    "on_fail \<Rightarrow> string \<Rightarrow> string \<Rightarrow> string \<Rightarrow> string \<Rightarrow> bool \<Rightarrow> store \<Rightarrow> store \<times> reroute_result" where
  "rerouteWithPolicy p runId consumerStepId consumerRowId err gate w =
     (let targetStepId = (case of_retry_step p of Some t \<Rightarrow> t | None \<Rightarrow> ''undefined'')
      in case find_step consumerRowId w of
           None \<Rightarrow> (w, NotFound)
         | Some c \<Rightarrow>
             (case step_named runId targetStepId w of
                None \<Rightarrow> (w, InvalidTarget)
              | Some target \<Rightarrow>
                  if s_step_index target \<ge> s_step_index c then (w, InvalidTarget)
                  else
                    (let mode = getFailureRerouteMode err (Some p);
                         fc = parseFailureClass err;
                         allowance = terminal_allowance mode c gate;
                         shared = int (effective_shared c);
                         tm = s_target_moved_reroute_count c
                     in if fc = Some ''target_moved'' \<and> int tm \<ge> cap_target_moved p
                        then (exhausted_event ''step.target_moved_reroute_exhausted'' runId consumerStepId
                                fc c p
                                (''Target-moved reroute budget exhausted: '' @ nat_str tm @ ''/''
                                 @ int_str (cap_target_moved p) @ '' to '' @ targetStepId
                                 @ ''. Consumer failure: '' @ reroute_reason err) w,
                              TargetMovedExhausted)
                        else if fc \<noteq> Some ''target_moved'' \<and> shared \<ge> cap_reroutes p \<and> \<not> allowance
                        then (exhausted_event ''step.reroute_budget_exhausted'' runId consumerStepId
                                fc c p
                                (''Reroute budget exhausted: '' @ int_str shared @ ''/''
                                 @ int_str (cap_reroutes p) @ '' to '' @ targetStepId
                                 @ ''. Consumer failure: '' @ reroute_reason err) w,
                              BudgetExhausted)
                        else (do_reroute p runId targetStepId consumerStepId c target err
                                (shared \<ge> cap_reroutes p \<and> allowance) w,
                              Rerouted))))"

definition rerouteStepSync ::
    "specs \<Rightarrow> string \<Rightarrow> string \<Rightarrow> string \<Rightarrow> string \<Rightarrow> store \<Rightarrow> store \<times> reroute_result" where
  "rerouteStepSync specs runId consumerStepId consumerRowId err w =
     (case getOnFailPolicySync specs runId consumerStepId w of
        None \<Rightarrow> (w, NotFound)
      | Some p \<Rightarrow>
          if retry_target (Some p) = None then (w, NotFound)
          else rerouteWithPolicy p runId consumerStepId consumerRowId err False w)"

end
