(* ===== verification/Reroute_Props.thy ===== *)
theory Reroute_Props
  imports Reroute
begin

text \<open>
  What is proved of rerouting: it touches one run; it only ever goes upstream; what it writes to
  the consumer and the producer; the two budgets are charged apart; and what a reroute takes from the fuel of its
  consumer.
\<close>

section \<open>Frame\<close>

lemma charge_story_tables [simp]:
  "runs (charge_story r wi ts st w) = runs w" "steps (charge_story r wi ts st w) = steps w"
  "now (charge_story r wi ts st w) = now w"
  by (simp_all add: charge_story_def Let_def)

lemma reset_named_tables [simp]:
  "runs (fst (reset_named r wi ts is w)) = runs w" "steps (fst (reset_named r wi ts is w)) = steps w"
  "now (fst (reset_named r wi ts is w)) = now w"
  by (induction r wi ts "is" w rule: reset_named.induct) (auto simp: split_def Let_def split: option.splits)

lemma resetStoriesOnReroute_tables [simp]:
  "runs (resetStoriesOnReroute r t e wi w) = runs w" "steps (resetStoriesOnReroute r t e wi w) = steps w"
  "now (resetStoriesOnReroute r t e wi w) = now w"
  by (auto simp: resetStoriesOnReroute_def split_def Let_def split: option.splits)

lemma writeRerouteFeedbackContext_tables [simp]:
  "steps (writeRerouteFeedbackContext r t e w) = steps w"
  "stories (writeRerouteFeedbackContext r t e w) = stories w"
  "now (writeRerouteFeedbackContext r t e w) = now w"
  by (auto simp: writeRerouteFeedbackContext_def split_def Let_def split: option.splits)

lemma only_run_charge [frame]:
  "only_run rid w w' \<Longrightarrow> story_of_run rid (t_id st) w' \<Longrightarrow>
   only_run rid w (charge_story r wi ts st w')"
  by (auto simp: charge_story_def Let_def intro!: frame)

lemma story_named_of_run:
  "wf_store w \<Longrightarrow> story_named rid i w = Some st \<Longrightarrow> story_of_run rid (t_id st) w"
  unfolding story_named_def
  by (rule in_run_stories_of_run) (auto simp: run_stories_def find_Some_iff in_set_conv_nth)

lemma only_run_reset_named [frame]:
  "only_run rid w w' \<Longrightarrow> wf_store w \<Longrightarrow> only_run rid w (fst (reset_named rid wi ts is w'))"
proof (induction rid wi ts "is" w' arbitrary: rule: reset_named.induct)
  case (1 rid wi ts w')
  then show ?case by simp
next
  case (2 rid wi ts i "is" w')
  have "only_run rid w (charge_story rid wi ts st w')" if "story_named rid i w' = Some st" for st
    using 2(4) story_named_of_run [OF only_run_wf [OF 2(4,5)] that] by (rule only_run_charge)
  then show ?case using 2
    by (auto simp: split_def Let_def split: option.splits)
qed

lemma last_done_story_in:
  "last_done_story rid w = Some t \<Longrightarrow> t \<in> set (run_stories rid w) \<and> t_status t = TDone"
  using latest_story_in by (fastforce simp: last_done_story_def)

lemma only_run_resetStories [frame]:
  assumes "only_run rid w w'" "wf_store w"
  shows "only_run rid w (resetStoriesOnReroute rid t e wi w')"
proof -
  let ?u = "fst (reset_named rid wi (s_step_id t) (us_ids e) w')"
  have u: "only_run rid w ?u" by (rule only_run_reset_named [OF assms])
  have "last_done_story rid ?u = Some st \<Longrightarrow> story_of_run rid (t_id st) ?u" for st
    by (rule in_run_stories_of_run [OF only_run_wf [OF u assms(2)]])
       (simp add: last_done_story_in)
  then show ?thesis using u assms(1)
    by (auto simp: resetStoriesOnReroute_def split_def Let_def intro!: only_run_charge
             split: option.splits)
qed

lemma only_run_feedback [frame]:
  "only_run rid w w' \<Longrightarrow> only_run rid w (writeRerouteFeedbackContext rid t e w')"
  by (auto simp: writeRerouteFeedbackContext_def split_def Let_def intro!: frame split: option.splits)

lemma step_named_SomeD:
  "step_named rid i w = Some t \<Longrightarrow> t \<in> set (run_steps rid w) \<and> s_step_id t = i"
  by (auto simp: step_named_def run_steps_def find_Some_iff)

lemma find_step_run_steps:
  "find_step i w = Some c \<Longrightarrow> s_run_id c = rid \<Longrightarrow> c \<in> set (run_steps rid w) \<and> s_id c = i"
  using step_table.find_key [of i w c] by (simp add: run_steps_def)

lemma only_run_exhausted [frame]:
  "only_run rid w w' \<Longrightarrow> only_run rid w (exhausted_event n r i fc c p d w')"
  by (simp add: exhausted_event_def frame)

lemma exhausted_event_tables [simp]:
  "runs (exhausted_event n r i fc c p d w) = runs w" "steps (exhausted_event n r i fc c p d w) = steps w"
  "stories (exhausted_event n r i fc c p d w) = stories w"
  "find_step j (exhausted_event n r i fc c p d w) = find_step j w"
  by (simp_all add: exhausted_event_def)

lemma only_run_repend [frame]:
  "only_run rid w w' \<Longrightarrow> step_of_run rid i w' \<Longrightarrow> only_run rid w (repend_producer i f w')"
  unfolding repend_producer_def by (rule only_run_set_step) simp_all

lemma only_run_park [frame]:
  "only_run rid w w' \<Longrightarrow> step_of_run rid i w' \<Longrightarrow> only_run rid w (park_consumer i n t m w')"
  unfolding park_consumer_def by (rule only_run_set_step) simp_all

lemma only_run_do_reroute:
  assumes "wf_store w" "step_of_run rid (s_id c) w" "step_of_run rid (s_id t) w"
  shows "only_run rid w (do_reroute p rid ti ci c t e ua w)"
proof -
  let ?w3 = "\<lambda>f wi. writeRerouteFeedbackContext rid t e (resetStoriesOnReroute rid t e wi
                       (repend_producer (s_id t) f w))"
  have "only_run rid w (?w3 f wi)" for f wi
    using assms by (intro frame) simp_all
  moreover from this have "step_of_run rid (s_id c) (?w3 f wi)" for f wi
    using assms(2) step_of_run_only_run by blast
  ultimately show ?thesis
    unfolding do_reroute_def Let_def by (intro only_run_emit only_run_park)
qed

text \<open>The consumer's row belongs to the run that is rerouted.\<close>

definition consumer_of :: "string \<Rightarrow> string \<Rightarrow> store \<Rightarrow> bool" where
  "consumer_of row rid w \<longleftrightarrow> (\<forall>c. find_step row w = Some c \<longrightarrow> s_run_id c = rid)"

lemma only_run_reroute:
  assumes "wf_store w" "consumer_of row rid w"
  shows "only_run rid w (fst (rerouteWithPolicy p rid cid row e gate w))"
proof (cases "find_step row w")
  case None
  then show ?thesis by (simp add: rerouteWithPolicy_def)
next
  case (Some c)
  then have "step_of_run rid (s_id c) w"
    using assms find_step_run_steps in_run_steps_of_run unfolding consumer_of_def by blast
  then show ?thesis using Some assms(1)
    by (auto simp: rerouteWithPolicy_def Let_def intro!: frame only_run_do_reroute
             intro: in_run_steps_of_run dest: step_named_SomeD split: option.splits)
qed

interpretation reroute: run_operation "consumer_of row"
    "\<lambda>rid w. fst (rerouteWithPolicy p rid cid row e gate w)" for p cid row e gate
  by unfold_locales (rule only_run_reroute)

section \<open>What a reroute writes\<close>

lemma step_fields_set_step:
  "(\<And>s. s_id (f s) = s_id s) \<Longrightarrow> find_step i (set_step i f w) =
     map_option (\<lambda>s. (f s)\<lparr>s_updated_at := Some (now w)\<rparr>) (find_step i w)"
  by (simp add: find_set_step)

lemma park_consumer_find:
  "find_step j (park_consumer i n t m w) =
     (if j = i then map_option (\<lambda>s. s\<lparr>s_status := SWaiting, s_retry_count := 0, s_reroute_count := n,
                       s_terminal_reroute_count := t, s_target_moved_reroute_count := m,
                       s_output := None, s_claim_job_id := None, s_claim_pid := None,
                       s_claim_pgid := None, s_updated_at := Some (now w)\<rparr>) (find_step i w)
      else find_step j w)"
  by (auto simp: park_consumer_def find_set_step)

lemma repend_producer_find:
  "find_step j (repend_producer i f w) =
     (if j = i then map_option (\<lambda>s. s\<lparr>s_status := SPending, s_output := Some f, s_claim_job_id := None,
                       s_claim_pid := None, s_claim_pgid := None, s_claim_updated_at := None,
                       s_claim_invalidated_by := Some ''reroute'', s_updated_at := Some (now w)\<rparr>)
                    (find_step i w)
      else find_step j w)"
  by (auto simp: repend_producer_def find_set_step)

lemma side_writes_find [simp]:
  "find_step j (resetStoriesOnReroute r t e wi w) = find_step j w"
  "find_step j (writeRerouteFeedbackContext r t e w) = find_step j w"
  by (simp_all add: find_step_def)

lemma park_repend_now [simp]:
  "now (park_consumer i n t m w) = now w" "now (repend_producer i f w) = now w"
  by (simp_all add: park_consumer_def repend_producer_def)

definition rerouted_count :: "on_fail \<Rightarrow> string \<Rightarrow> bool \<Rightarrow> step \<Rightarrow> nat" where
  "rerouted_count p err gate c =
     s_reroute_count c
     + (if int (effective_shared c) \<ge> cap_reroutes p
           \<and> terminal_allowance (getFailureRerouteMode err (Some p)) c gate then 0 else 1)"

definition tm_failure :: "string \<Rightarrow> bool" where
  "tm_failure err \<longleftrightarrow> parseFailureClass err = Some ''target_moved''"

lemma rerouted_cases:
  assumes "rerouteWithPolicy p rid cid row err gate w = (w', Rerouted)"
  obtains c t where "find_step row w = Some c"
    "step_named rid (case of_retry_step p of Some t \<Rightarrow> t | None \<Rightarrow> ''undefined'') w = Some t"
    "s_step_index t < s_step_index c"
    "w' = do_reroute p rid (case of_retry_step p of Some t \<Rightarrow> t | None \<Rightarrow> ''undefined'') cid c t err
            (int (effective_shared c) \<ge> cap_reroutes p
             \<and> terminal_allowance (getFailureRerouteMode err (Some p)) c gate) w"
    "tm_failure err \<Longrightarrow> int (s_target_moved_reroute_count c) < cap_target_moved p"
    "\<not> tm_failure err \<Longrightarrow> int (effective_shared c) < cap_reroutes p
       \<or> terminal_allowance (getFailureRerouteMode err (Some p)) c gate"
  using assms
  by (auto simp: rerouteWithPolicy_def Let_def tm_failure_def split: option.splits if_splits)

lemma do_reroute_find:
  assumes "wf_store w" "find_step row w = Some c" "t \<in> set (steps w)" "s_id t \<noteq> row"
  shows "find_step row (do_reroute p rid ti cid c t err ua w) =
      Some (c\<lparr>s_status := SWaiting, s_retry_count := 0,
              s_reroute_count := s_reroute_count c + (if ua then 0 else 1),
              s_terminal_reroute_count := s_terminal_reroute_count c
                + (if getFailureRerouteMode err (Some p) = TerminalMode then 1 else 0),
              s_target_moved_reroute_count := s_target_moved_reroute_count c
                + (if tm_failure err then 1 else 0),
              s_output := None, s_claim_job_id := None, s_claim_pid := None,
              s_claim_pgid := None, s_updated_at := Some (now w)\<rparr>)"
    "map_option s_status (find_step (s_id t) (do_reroute p rid ti cid c t err ua w)) = Some SPending"
    "map_option s_claim_invalidated_by (find_step (s_id t) (do_reroute p rid ti cid c t err ua w))
       = Some (Some ''reroute'')"
    "map_option s_claim_updated_at (find_step (s_id t) (do_reroute p rid ti cid c t err ua w))
       = Some None"
    "j \<noteq> row \<Longrightarrow> j \<noteq> s_id t \<Longrightarrow>
       find_step j (do_reroute p rid ti cid c t err ua w) = find_step j w"
proof -
  have i: "s_id c = row" using step_table.find_key [of row w c] assms(2) by simp
  have t: "find_step (s_id t) w = Some t"
    using step_table.find_in_rows [of w t] assms(1,3) by (simp add: wf_store_def)
  show "find_step row (do_reroute p rid ti cid c t err ua w) =
      Some (c\<lparr>s_status := SWaiting, s_retry_count := 0,
              s_reroute_count := s_reroute_count c + (if ua then 0 else 1),
              s_terminal_reroute_count := s_terminal_reroute_count c
                + (if getFailureRerouteMode err (Some p) = TerminalMode then 1 else 0),
              s_target_moved_reroute_count := s_target_moved_reroute_count c
                + (if tm_failure err then 1 else 0),
              s_output := None, s_claim_job_id := None, s_claim_pid := None,
              s_claim_pgid := None, s_updated_at := Some (now w)\<rparr>)"
    using i t assms(2,4)
    by (simp add: do_reroute_def Let_def park_consumer_find repend_producer_find tm_failure_def)
  show "map_option s_status (find_step (s_id t) (do_reroute p rid ti cid c t err ua w)) = Some SPending"
    "map_option s_claim_invalidated_by (find_step (s_id t) (do_reroute p rid ti cid c t err ua w))
       = Some (Some ''reroute'')"
    "map_option s_claim_updated_at (find_step (s_id t) (do_reroute p rid ti cid c t err ua w))
       = Some None"
    using i t assms(4)
    by (simp_all add: do_reroute_def Let_def park_consumer_find repend_producer_find)
  show "j \<noteq> row \<Longrightarrow> j \<noteq> s_id t \<Longrightarrow>
       find_step j (do_reroute p rid ti cid c t err ua w) = find_step j w"
    using i by (simp add: do_reroute_def Let_def park_consumer_find repend_producer_find)
qed

lemma rerouted_row:
  assumes "rerouteWithPolicy p rid cid row err gate w = (w', Rerouted)" "wf_store w"
    and c: "find_step row w = Some c"
  shows "find_step row w' =
      Some (c\<lparr>s_status := SWaiting, s_retry_count := 0,
              s_reroute_count := rerouted_count p err gate c,
              s_terminal_reroute_count := s_terminal_reroute_count c
                + (if getFailureRerouteMode err (Some p) = TerminalMode then 1 else 0),
              s_target_moved_reroute_count := s_target_moved_reroute_count c
                + (if tm_failure err then 1 else 0),
              s_output := None, s_claim_job_id := None, s_claim_pid := None,
              s_claim_pgid := None, s_updated_at := Some (now w)\<rparr>)"
    and "\<exists>t \<in> set (run_steps rid w). s_step_index t < s_step_index c \<and> s_id t \<noteq> row
           \<and> Some (s_step_id t) = Some (case of_retry_step p of Some t \<Rightarrow> t | None \<Rightarrow> ''undefined'')
           \<and> step_status_of (s_id t) w' = Some SPending
           \<and> map_option s_claim_invalidated_by (find_step (s_id t) w') = Some (Some ''reroute'')
           \<and> (\<forall>j. j \<noteq> row \<and> j \<noteq> s_id t \<longrightarrow> find_step j w' = find_step j w)"
proof -
  from rerouted_cases [OF assms(1)] obtain c' t where 1: "find_step row w = Some c'"
    "step_named rid (case of_retry_step p of Some t \<Rightarrow> t | None \<Rightarrow> ''undefined'') w = Some t"
    "s_step_index t < s_step_index c'"
    "w' = do_reroute p rid (case of_retry_step p of Some t \<Rightarrow> t | None \<Rightarrow> ''undefined'') cid c' t err
            (int (effective_shared c') \<ge> cap_reroutes p
             \<and> terminal_allowance (getFailureRerouteMode err (Some p)) c' gate) w"
    by metis
  have [simp]: "c' = c" using 1(1) c by simp
  note t = step_named_SomeD [OF 1(2)]
  then have ts: "t \<in> set (steps w)" by (simp add: run_steps_def)
  have ne: "s_id t \<noteq> row"
  proof
    assume "s_id t = row"
    then have "find_step row w = Some t"
      using step_table.find_in_rows [of w t] assms(2) ts by (simp add: wf_store_def)
    then show False using 1(3) c by simp
  qed
  note f = do_reroute_find [OF assms(2) c ts ne]
  show "find_step row w' =
      Some (c\<lparr>s_status := SWaiting, s_retry_count := 0,
              s_reroute_count := rerouted_count p err gate c,
              s_terminal_reroute_count := s_terminal_reroute_count c
                + (if getFailureRerouteMode err (Some p) = TerminalMode then 1 else 0),
              s_target_moved_reroute_count := s_target_moved_reroute_count c
                + (if tm_failure err then 1 else 0),
              s_output := None, s_claim_job_id := None, s_claim_pid := None,
              s_claim_pgid := None, s_updated_at := Some (now w)\<rparr>)"
    using 1(4) f(1) by (simp add: rerouted_count_def)
  show "\<exists>t \<in> set (run_steps rid w). s_step_index t < s_step_index c \<and> s_id t \<noteq> row
           \<and> Some (s_step_id t) = Some (case of_retry_step p of Some t \<Rightarrow> t | None \<Rightarrow> ''undefined'')
           \<and> step_status_of (s_id t) w' = Some SPending
           \<and> map_option s_claim_invalidated_by (find_step (s_id t) w') = Some (Some ''reroute'')
           \<and> (\<forall>j. j \<noteq> row \<and> j \<noteq> s_id t \<longrightarrow> find_step j w' = find_step j w)"
    using t 1(3,4) f(2,3,5) ne by (intro bexI [of _ t]) (auto simp: step_status_of_def)
qed

section \<open>Budgets\<close>

lemma tm_not_terminal: "tm_failure err \<Longrightarrow> getFailureRerouteMode err q \<noteq> TerminalMode"
  by (auto simp: tm_failure_def getFailureRerouteMode_def FAILURE_CLASS_VOCABULARY_def
           split: option.splits disposition.splits)

text \<open>The stale-tip counter counts a subset of the reroutes.\<close>

definition counters_ok :: "step \<Rightarrow> bool" where
  "counters_ok c \<longleftrightarrow> s_target_moved_reroute_count c \<le> s_reroute_count c"

definition reroute_fuel :: "on_fail \<Rightarrow> step \<Rightarrow> nat" where
  "reroute_fuel p c =
     nat (cap_reroutes p - int (effective_shared c))
     + nat (cap_target_moved p - int (s_target_moved_reroute_count c))
     + (1 - s_terminal_reroute_count c)"

text \<open>A reroute never gains fuel, and one that is not granted by the gate's own allowance uses some.\<close>

lemma reroute_uses_fuel:
  assumes "rerouteWithPolicy p rid cid row err gate w = (w', Rerouted)" "wf_store w"
    and c: "find_step row w = Some c" "counters_ok c"
  obtains c' where "find_step row w' = Some c'" "counters_ok c'"
    "reroute_fuel p c' + (if gate then 0 else 1) \<le> reroute_fuel p c"
    "s_ledger_concession_count c' = s_ledger_concession_count c"
proof -
  from rerouted_cases [OF assms(1)] obtain c1 where 1: "find_step row w = Some c1"
    "tm_failure err \<Longrightarrow> int (s_target_moved_reroute_count c1) < cap_target_moved p"
    "\<not> tm_failure err \<Longrightarrow> int (effective_shared c1) < cap_reroutes p
       \<or> terminal_allowance (getFailureRerouteMode err (Some p)) c1 gate"
    by metis
  then have [simp]: "c1 = c" using c by simp
  note row = rerouted_row(1) [OF assms(1,2) c(1)]
  have tm: "tm_failure err \<Longrightarrow> \<not> terminal_allowance (getFailureRerouteMode err (Some p)) c gate"
    using tm_not_terminal by (simp add: terminal_allowance_def)
  show ?thesis
    by (rule that [OF row])
       (use 1(2,3) tm c(2) in \<open>auto simp: counters_ok_def reroute_fuel_def effective_shared_def
           rerouted_count_def terminal_allowance_def dest: tm_not_terminal\<close>)
qed

definition policy0 :: on_fail where
  "policy0 = \<lparr>of_retry_step = Some ''develop'', of_max_reroutes = None,
              of_max_target_moved_reroutes = None, of_retry_on = None\<rparr>"

abbreviation rerouted0 :: "string \<Rightarrow> store" where
  "rerouted0 err \<equiv> fst (rerouteWithPolicy policy0 ''r'' ''finalize_merge'' ''m'' err False store0)"

lemma reroute_sample:
  "rerouteWithPolicy policy0 ''r'' ''finalize_merge'' ''m'' ''boom'' False store0
     = (rerouted0 ''boom'', Rerouted)"
  by (simp add: rerouteWithPolicy_def policy0_def sample_defs eval_store step_named_def Let_def
        effective_shared_def cap_reroutes_def parseFailureClass_def first_line_def)

lemma store0_facts:
  "wf_store store0" "find_step ''m'' store0 = Some merge0" "consumer_of ''m'' ''r'' store0"
  by (simp_all add: sample_defs wf_store_def eval_store consumer_of_def)

text \<open>C8.  A reroute goes upstream: the producer named by the policy stands before the consumer,
  becomes pending with its old claim invalidated, the consumer waits afresh with its retries reset
  and its output and claim cleared, and no other step changes.\<close>

theorem reroute_goes_upstream:
  assumes "rerouteWithPolicy p rid cid row err gate w = (w', Rerouted)" "wf_store w"
    "find_step row w = Some c"
  shows "step_status_of row w' = Some SWaiting
    \<and> map_option s_retry_count (find_step row w') = Some 0
    \<and> map_option s_output (find_step row w') = Some None
    \<and> (\<exists>t \<in> set (run_steps rid w). s_step_index t < s_step_index c
         \<and> step_status_of (s_id t) w' = Some SPending
         \<and> map_option s_claim_invalidated_by (find_step (s_id t) w') = Some (Some ''reroute'')
         \<and> (\<forall>j. j \<noteq> row \<and> j \<noteq> s_id t \<longrightarrow> find_step j w' = find_step j w))"
proof -
  from rerouted_row(2) [OF assms] obtain t where "t \<in> set (run_steps rid w)"
    "s_step_index t < s_step_index c" "step_status_of (s_id t) w' = Some SPending"
    "map_option s_claim_invalidated_by (find_step (s_id t) w') = Some (Some ''reroute'')"
    "\<forall>j. j \<noteq> row \<and> j \<noteq> s_id t \<longrightarrow> find_step j w' = find_step j w" by blast
  then show ?thesis using rerouted_row(1) [OF assms] by (auto simp: step_status_of_def)
qed

lemma reroute_goes_upstream_witness: "step_status_of ''m'' (rerouted0 ''boom'') = Some SWaiting"
  using reroute_goes_upstream [OF reroute_sample store0_facts(1,2)] by blast


text \<open>The budgets are apart: a stale-tip reroute leaves what counts against
  \<^verbatim>\<open>max_reroutes\<close> as it was and charges its own counter, and any other reroute leaves the
  stale-tip counter alone.\<close>

theorem reroute_budgets_apart:
  assumes "rerouteWithPolicy p rid cid row err gate w = (w', Rerouted)" "wf_store w"
    "find_step row w = Some c" "s_target_moved_reroute_count c \<le> s_reroute_count c"
  shows "\<exists>c'. find_step row w' = Some c' \<and>
     (if parseFailureClass err = Some ''target_moved''
      then effective_shared c' = effective_shared c
        \<and> s_target_moved_reroute_count c' = s_target_moved_reroute_count c + 1
        \<and> int (s_target_moved_reroute_count c') \<le> cap_target_moved p
      else s_target_moved_reroute_count c' = s_target_moved_reroute_count c
        \<and> effective_shared c' \<le> effective_shared c + 1)"
proof -
  from rerouted_cases [OF assms(1)] assms(3)
  have cap: "tm_failure err \<Longrightarrow> int (s_target_moved_reroute_count c) < cap_target_moved p"
    by (metis option.inject)
  show ?thesis using rerouted_row(1) [OF assms(1-3)] assms(4) cap
    by (auto simp: effective_shared_def rerouted_count_def terminal_allowance_def tm_failure_def
             dest: tm_not_terminal [unfolded tm_failure_def])
qed

lemma reroute_budgets_apart_witness:
  "\<exists>c'. find_step ''m'' (rerouted0 ''boom'') = Some c' \<and> s_target_moved_reroute_count c' = 0"
  using reroute_budgets_apart [OF reroute_sample store0_facts(1,2)]
  by (auto simp: merge0_def step0_def parseFailureClass_def first_line_def split: if_splits)


lemma refused_tables:
  "snd (rerouteWithPolicy p rid cid row err gate w) \<noteq> Rerouted \<Longrightarrow>
   steps (fst (rerouteWithPolicy p rid cid row err gate w)) = steps w
   \<and> stories (fst (rerouteWithPolicy p rid cid row err gate w)) = stories w
   \<and> runs (fst (rerouteWithPolicy p rid cid row err gate w)) = runs w"
  by (auto simp: rerouteWithPolicy_def Let_def split: option.splits if_splits)

text \<open>A reroute that is refused (budget used up, target missing or not upstream, consumer
  unknown) changes no row of any table.\<close>

theorem reroute_refused_unchanged:
  assumes "rerouteWithPolicy p rid cid row err gate w = (w', res)" "res \<noteq> Rerouted"
  shows "steps w' = steps w \<and> stories w' = stories w \<and> runs w' = runs w"
  using assms refused_tables [of p rid cid row err gate w] by simp

lemma reroute_refused_unchanged_witness:
  "steps (fst (rerouteWithPolicy policy0 ''r'' ''plan'' ''p'' ''boom'' False store0)) = steps store0"
proof -
  have "rerouteWithPolicy policy0 ''r'' ''plan'' ''p'' ''boom'' False store0 = (store0, InvalidTarget)"
    by (simp add: rerouteWithPolicy_def policy0_def sample_defs eval_store step_named_def)
  from reroute_refused_unchanged [OF this] show ?thesis
    by (simp add: rerouteWithPolicy_def policy0_def sample_defs eval_store step_named_def)
qed


text \<open>A terminal refusal that crosses an exhausted shared budget on its one-shot allowance is
  logged as \<^verbatim>\<open>step.rerouted\<close> while \<^verbatim>\<open>reroute_count\<close> stays as it was: the count of such events and
  the column can differ.\<close>

theorem terminal_allowance_not_counted:
  assumes "wf_store w" "find_step row w = Some c" "s_terminal_reroute_count c = 0"
    "parseFailureClass err = Some ''refused_permanent''"
    "int (effective_shared c) \<ge> cap_reroutes p" "of_retry_step p = Some ti"
    "step_named rid ti w = Some t" "s_step_index t < s_step_index c"
  shows "snd (rerouteWithPolicy p rid cid row err gate w) = Rerouted
    \<and> ev_name (last (events (fst (rerouteWithPolicy p rid cid row err gate w)))) = ''step.rerouted''
    \<and> map_option s_reroute_count (find_step row (fst (rerouteWithPolicy p rid cid row err gate w)))
        = Some (s_reroute_count c)
    \<and> map_option s_terminal_reroute_count (find_step row (fst (rerouteWithPolicy p rid cid row err gate w)))
        = Some 1"
proof -
  have m: "getFailureRerouteMode err (Some p) = TerminalMode"
    by (simp add: getFailureRerouteMode_def assms FAILURE_CLASS_VOCABULARY_def)
  let ?w' = "do_reroute p rid ti cid c t err True w"
  have e: "rerouteWithPolicy p rid cid row err gate w = (?w', Rerouted)"
    using assms m by (simp add: rerouteWithPolicy_def Let_def terminal_allowance_def)
  have "rerouted_count p err gate c = s_reroute_count c"
    using assms(3,5) m by (simp add: rerouted_count_def terminal_allowance_def)
  moreover have "ev_name (last (events ?w')) = ''step.rerouted''"
    by (simp add: do_reroute_def Let_def emit_def)
  ultimately show ?thesis
    using rerouted_row(1) [OF e assms(1,2)] m assms(3) e by simp
qed

lemma terminal_allowance_not_counted_witness:
  "snd (rerouteWithPolicy policy0 ''r'' ''finalize_merge'' ''m''
          ''FAILURE_CLASS: refused_permanent'' False
          (set_step ''m'' (\<lambda>s. s\<lparr>s_reroute_count := 2\<rparr>) store0)) = Rerouted"
proof -
  let ?w = "set_step ''m'' (\<lambda>s. s\<lparr>s_reroute_count := 2\<rparr>) store0"
  let ?c = "merge0\<lparr>s_reroute_count := 2, s_updated_at := Some 100\<rparr>"
  have "parseFailureClass ''FAILURE_CLASS: refused_permanent'' = Some ''refused_permanent''"
    by code_simp
  moreover have "wf_store ?w" "find_step ''m'' ?w = Some ?c"
    "int (effective_shared ?c) \<ge> cap_reroutes policy0" "of_retry_step policy0 = Some ''develop''"
    "step_named ''r'' ''develop'' ?w = Some loop0" "s_step_index loop0 < s_step_index ?c"
    "s_terminal_reroute_count ?c = 0"
    by (simp_all add: wf_store_def sample_defs eval_store policy0_def step_named_def
          effective_shared_def cap_reroutes_def)
  ultimately show ?thesis
    using terminal_allowance_not_counted [of ?w "''m''" ?c _ policy0 "''develop''" "''r''" loop0]
    by blast
qed


end
