(* ===== verification/Ledger_Gate.thy ===== *)
theory Ledger_Gate
  imports Reroute_Props "HOL-Library.List_Lexorder" "HOL-Library.Product_Lexorder"
begin

text \<open>
  The test-evidence gate of a merge (\<^verbatim>\<open>src/src/installer/ledger-gate.ts\<close> and the gate functions of
  \<^verbatim>\<open>src/src/installer/step-ops.ts\<close>): which recorded suite execution vouches for the tree that is
  about to land, when a merge is refused, and what a refusal does to the step and its run.

  The record \<open>host\<close> holds what the code asks of git, the file system and SHA-256.  Evidence comes
  from the rows of the table \<^verbatim>\<open>suite_results\<close> or from the interface of an attesting host.  Event
  texts are written in ASCII: a dash of the source is a hyphen here, an ellipsis three dots.
\<close>

section \<open>The host\<close>

record host =
  git_common_dir :: "string \<Rightarrow> string option"
  realpath :: "string \<Rightarrow> string option"
  rev_parse :: "string \<Rightarrow> string \<Rightarrow> string option"
  status_porcelain :: "string \<Rightarrow> string option"
  sha256_hex :: "string \<Rightarrow> string"

text \<open>\<^verbatim>\<open>path.join(..)\<close> on POSIX: empty and \<^verbatim>\<open>.\<close> segments go, \<^verbatim>\<open>..\<close> takes its parent away, a
  trailing separator stays.\<close>

fun norm_segs :: "bool \<Rightarrow> string list \<Rightarrow> string list \<Rightarrow> string list" where
  "norm_segs up acc [] = rev acc"
| "norm_segs up acc (s # ss) =
     (if s = [] \<or> s = ''.'' then norm_segs up acc ss
      else if s = ''..''
      then (case acc of
              [] \<Rightarrow> if up then norm_segs up [s] ss else norm_segs up [] ss
            | p # ps \<Rightarrow> if p = ''..'' then norm_segs up (s # acc) ss else norm_segs up ps ss)
      else norm_segs up (s # acc) ss)"

definition path_join :: "string list \<Rightarrow> string" where
  "path_join parts =
     (let p = join ''/'' (filter (\<lambda>s. s \<noteq> []) parts); root = starts_with ''/'' p;
          b = join ''/'' (norm_segs (\<not> root) [] (split_on (CHR ''/'') p))
      in if p = [] then ''.''
         else if b = [] then (if root then ''/'' else if last p = CHR ''/'' then ''./'' else ''.'')
         else (if root then ''/'' else []) @ b @ (if last p = CHR ''/'' then ''/'' else []))"

definition ends_with :: "string \<Rightarrow> string \<Rightarrow> bool" where
  "ends_with p s \<longleftrightarrow> starts_with (rev p) (rev s)"

definition real_or_self :: "host \<Rightarrow> string \<Rightarrow> string" where
  "real_or_self h d = (case realpath h d of Some r \<Rightarrow> r | None \<Rightarrow> d)"

definition getOriginRepo :: "host \<Rightarrow> string \<Rightarrow> string" where
  "getOriginRepo h repoDir =
     (case git_common_dir h repoDir of
        None \<Rightarrow> real_or_self h repoDir
      | Some out \<Rightarrow>
          if out = [] then real_or_self h repoDir
          else
            (let g = trim out
             in if g \<noteq> path_join [repoDir, ''.git''] \<and> g \<noteq> ''.git''
                then (case realpath h (if ends_with ''/.git'' g then take (length g - 4) g else g) of
                        Some r \<Rightarrow> r
                      | None \<Rightarrow> real_or_self h repoDir)
                else real_or_self h repoDir))"

definition computeCmdHash :: "host \<Rightarrow> string \<Rightarrow> string" where
  "computeCmdHash h cmd = sha256_hex h cmd"

section \<open>Evidence\<close>

record ledger_row =
  lr_id :: int
  lr_exit :: int
  lr_duration :: int
  lr_log :: "string option"
  lr_run :: "string option"
  lr_step :: "string option"
  lr_created :: string

record suite_result = ledger_row +
  sr_origin :: string
  sr_tree :: string
  sr_cmd :: string

record nearest_row =
  nr_tree :: string
  nr_exit :: int
  nr_created :: string

text \<open>The host interface: a query by key, and possibly a query for evidence on other trees, which may
  throw.\<close>

datatype evidence =
  Native "suite_result list"
| Attested "string \<Rightarrow> string \<Rightarrow> string \<Rightarrow> ledger_row option"
           "(string \<Rightarrow> string \<Rightarrow> nat \<Rightarrow> nearest_row list option) option"

record gate_key =
  gk_origin :: string
  gk_tested :: "string option"
  gk_tree :: string
  gk_cmd_hash :: string
  gk_test_cmd :: string

datatype gate_mode = GDefault | GGreen | GOff

datatype decision =
  Inert string
| Overridden gate_key
| Missing gate_mode gate_key
| Green gate_mode gate_key ledger_row
| Red gate_mode gate_key ledger_row

datatype refusal = RefMissing gate_mode gate_key | RefRed gate_mode gate_key ledger_row

text \<open>\<^verbatim>\<open>ORDER BY created_at DESC, id DESC LIMIT 1\<close>, texts compared by their bytes.\<close>

definition text_key :: "string \<Rightarrow> nat list" where
  "text_key s = map code_of s"

definition nativeEvidenceRow :: "suite_result list \<Rightarrow> gate_key \<Rightarrow> ledger_row option" where
  "nativeEvidenceRow rows k =
     map_option ledger_row.truncate
       (first_max (\<lambda>r. (text_key (lr_created r), lr_id r))
          (filter (\<lambda>r. sr_origin r = gk_origin k \<and> sr_tree r = gk_tree k \<and> sr_cmd r = gk_cmd_hash k) rows))"

definition evidence_row :: "evidence \<Rightarrow> gate_key \<Rightarrow> ledger_row option" where
  "evidence_row ev k =
     (case ev of
        Native rows \<Rightarrow> nativeEvidenceRow rows k
      | Attested query _ \<Rightarrow> query (gk_origin k) (gk_tree k) (gk_cmd_hash k))"

section \<open>The decision\<close>

definition gate_context :: "ctx_col \<Rightarrow> ctx" where
  "gate_context c = (case c of CtxObj m \<Rightarrow> m | CtxCorrupt _ \<Rightarrow> Map.empty)"

text \<open>One line of \<^verbatim>\<open>/^TESTED_TREE:\s*(.*)$/\<close>.\<close>

definition tested_tree_line :: "string \<Rightarrow> string option" where
  "tested_tree_line l =
     (let r = dropWhile is_ws (drop 12 l)
      in if starts_with ''TESTED_TREE:'' l \<and> list_all (\<lambda>c. \<not> is_line_term c) r \<and> trim r \<noteq> []
         then Some (trim r) else None)"

fun first_some :: "('a \<Rightarrow> 'b option) \<Rightarrow> 'a list \<Rightarrow> 'b option" where
  "first_some f [] = None"
| "first_some f (x # xs) = (case f x of Some y \<Rightarrow> Some y | None \<Rightarrow> first_some f xs)"

definition testedTreeFromOutput :: "string option \<Rightarrow> string option" where
  "testedTreeFromOutput out =
     (case out of None \<Rightarrow> None | Some s \<Rightarrow> first_some tested_tree_line (split_on newline s))"

definition normalizeContextKnob :: "ctx \<Rightarrow> string \<Rightarrow> string" where
  "normalizeContextKnob m k = lower (trim (get_or_empty m k))"

definition gateModeFromContext :: "ctx \<Rightarrow> gate_mode" where
  "gateModeFromContext m =
     (let v = normalizeContextKnob m ''merge_gate''
      in if v = ''green'' then GGreen else if v = ''off'' then GOff else GDefault)"

definition isStrictMissing :: "ctx \<Rightarrow> gate_mode \<Rightarrow> bool" where
  "isStrictMissing m mode =
     (let v = normalizeContextKnob m ''fail_missing''
      in if mode = GOff then False
         else if mode = GGreen then True
         else v = ''1'' \<or> v = ''true'' \<or> v = ''on'')"

definition non_blank :: "string option \<Rightarrow> string option" where
  "non_blank v = (case v of None \<Rightarrow> None | Some s \<Rightarrow> if trim s = [] then None else Some s)"

text \<open>\<^verbatim>\<open>ORDER BY step_index DESC\<close> over the finished steps before the merge.\<close>

definition upstream_outputs :: "step \<Rightarrow> store \<Rightarrow> string option list" where
  "upstream_outputs s w =
     map s_output
       (sort_key (\<lambda>u. - int (s_step_index u))
          (filter (\<lambda>u. s_step_index u < s_step_index s \<and> s_status u = SDone)
             (run_steps (s_run_id s) w)))"

definition gate_test_cmd :: "run \<Rightarrow> ctx \<Rightarrow> string" where
  "gate_test_cmd r m =
     (case non_blank (r_test_cmd_established r) of
        Some c \<Rightarrow> c
      | None \<Rightarrow>
          (case m ''test_cmd_raw'' of
             Some c \<Rightarrow> c
           | None \<Rightarrow> (case m ''test_cmd'' of Some c \<Rightarrow> c | None \<Rightarrow> [])))"

definition evaluateFinalizeMergeLedgerGate ::
    "host \<Rightarrow> evidence \<Rightarrow> string \<Rightarrow> store \<Rightarrow> decision" where
  "evaluateFinalizeMergeLedgerGate h ev stepId w =
     (case find_step stepId w of
        None \<Rightarrow> Inert ''step_not_found''
      | Some s \<Rightarrow>
          if s_step_id s \<noteq> ''finalize_merge'' then Inert ''not_finalize_merge''
          else (case find_run (s_run_id s) w of
             None \<Rightarrow> Inert ''run_not_found''
           | Some r \<Rightarrow>
               (case first_some testedTreeFromOutput (upstream_outputs s w) of
                  None \<Rightarrow> Inert ''no_tested_tree_attestation''
                | Some tree \<Rightarrow>
                    (let m = gate_context (r_context r); cmd = gate_test_cmd r m
                     in if trim cmd = [] then Inert ''no_test_cmd''
                        else (case first_some non_blank
                                     [m ''worktree_origin_repository'', m ''repo'',
                                      m ''working_directory_for_harness''] of
                           None \<Rightarrow> Inert ''no_origin_repo''
                         | Some repo \<Rightarrow>
                             (let k = \<lparr>gk_origin = getOriginRepo h repo,
                                       gk_tested = map_option trim
                                         (first_some non_blank
                                            [m ''working_directory_for_harness'', m ''repo'',
                                             m ''worktree_origin_repository'']),
                                       gk_tree = tree, gk_cmd_hash = computeCmdHash h cmd,
                                       gk_test_cmd = cmd\<rparr>;
                                  mode = gateModeFromContext m
                              in if mode = GOff then Overridden k
                                 else (case evidence_row ev k of
                                         None \<Rightarrow> Missing mode k
                                       | Some row \<Rightarrow>
                                           if lr_exit row = 0 then Green mode k row
                                           else Red mode k row)))))))"

section \<open>A rewrite of the test command under review\<close>

definition getTestCmdReviewRefusal ::
    "string \<Rightarrow> store \<Rightarrow> (string option \<times> string option) option" where
  "getTestCmdReviewRefusal runId w =
     (case find_run runId w of
        None \<Rightarrow> None
      | Some r \<Rightarrow>
          (let m = gate_context (r_context r)
           in if m ''test_cmd_review_required'' \<noteq> Some ''true'' then None
              else Some (non_blank (m ''test_cmd_review_established''),
                         non_blank (m ''test_cmd_review_candidate''))))"

definition formatTestCmdReviewRefusal :: "string option \<times> string option \<Rightarrow> string" where
  "formatTestCmdReviewRefusal ref =
     join [newline]
       ([''FAILURE_CLASS: refused_review_pending'',
         ''REVIEW_REASON: A TEST_CMD rewrite is pending review (or was rejected) - finalize_merge is refused until the review ACCEPTs the new command or the rewrite is withdrawn.'']
        @ (case fst ref of None \<Rightarrow> [] | Some c \<Rightarrow> [''TEST_CMD_OLD: '' @ c])
        @ (case snd ref of None \<Rightarrow> [] | Some c \<Rightarrow> [''TEST_CMD_NEW: '' @ c]))"

definition emitTestCmdReviewRefusal :: "step \<Rightarrow> string option \<times> string option \<Rightarrow> store \<Rightarrow> store" where
  "emitTestCmdReviewRefusal s ref w =
     emit ''merge.refused_review_pending'' (s_run_id s)
       (opt_str ''workflowId'' (getWorkflowId (s_run_id s) w)
        @ [(''stepId'', VStr (s_step_id s))]
        @ opt_str ''oldTestCmd'' (fst ref) @ opt_str ''newTestCmd'' (snd ref)
        @ [(''detail'', VStr (formatTestCmdReviewRefusal ref))]) w"

section \<open>The text of a refusal\<close>

definition pushNearestEvidenceDiagnostics :: "nearest_row list \<Rightarrow> string list" where
  "pushNearestEvidenceDiagnostics rows =
     (case rows of
        [] \<Rightarrow> [''NEAREST_EVIDENCE: none for this test command'',
               ''No recording was ever made - the suite must be executed through the tamandua suite shim (the provided test_cmd wrapper); a raw test command run is invisible to the merge gate.'']
      | r # _ \<Rightarrow> [''NEAREST_EVIDENCE: tree '' @ take 7 (nr_tree r) @ '' exit '' @ int_str (nr_exit r)
                  @ '' recorded '' @ nr_created r,
                  ''Evidence exists for a DIFFERENT tree - the workspace changed after that suite run (new commits, or dirty workspace at recording time). Re-run the suite on the final committed tree.''])"

datatype workspace = Clean | Dirty "string list" | Unavailable

definition workspace_state :: "host \<Rightarrow> gate_key \<Rightarrow> workspace" where
  "workspace_state h k =
     (case status_porcelain h
             (case gk_tested k of
                Some d \<Rightarrow> if trim d = [] then gk_origin k else trim d
              | None \<Rightarrow> gk_origin k) of
        None \<Rightarrow> Unavailable
      | Some out \<Rightarrow>
          if trim out = [] then Clean
          else Dirty (filter (\<lambda>l. l \<noteq> []) (split_on newline (trim out))))"

definition workspace_text :: "workspace \<Rightarrow> string" where
  "workspace_text ws =
     (case ws of
        Clean \<Rightarrow> ''WORKSPACE_STATE: clean''
      | Unavailable \<Rightarrow> ''WORKSPACE_STATE: unavailable''
      | Dirty fs \<Rightarrow>
          ''WORKSPACE_STATE: dirty ('' @ nat_str (length fs) @ '' file''
          @ (if length fs = 1 then [] else ''s'') @ '': '' @ join '', '' (take 32 fs)
          @ (if length fs > 32
             then '', ... and '' @ nat_str (length fs - 32) @ '' more ('' @ nat_str (length fs) @ '' total)''
             else [])
          @ '')'')"

text \<open>\<^verbatim>\<open>ORDER BY created_at DESC LIMIT 3\<close>, of which only the first row is used.\<close>

definition native_nearest :: "suite_result list \<Rightarrow> gate_key \<Rightarrow> nearest_row list" where
  "native_nearest rows k =
     (case first_max (\<lambda>r. text_key (lr_created r))
             (filter (\<lambda>r. sr_origin r = gk_origin k \<and> sr_cmd r = gk_cmd_hash k) rows) of
        None \<Rightarrow> []
      | Some r \<Rightarrow> [\<lparr>nr_tree = sr_tree r, nr_exit = lr_exit r, nr_created = lr_created r\<rparr>])"

definition nearest_lines :: "evidence \<Rightarrow> gate_key \<Rightarrow> string list" where
  "nearest_lines ev k =
     (case ev of
        Native rows \<Rightarrow> pushNearestEvidenceDiagnostics (native_nearest rows k)
      | Attested _ None \<Rightarrow>
          [''NEAREST_EVIDENCE: unavailable for the host-attested Matchlock evidence source'']
      | Attested _ (Some q) \<Rightarrow>
          (case q (gk_origin k) (gk_cmd_hash k) 3 of
             None \<Rightarrow> [''NEAREST_EVIDENCE: unavailable'']
           | Some rows \<Rightarrow> pushNearestEvidenceDiagnostics rows))"

definition missing_action :: "gate_key \<Rightarrow> string" where
  "missing_action k =
     ''ACTION: Run the EXACT shim-wrapped test command VERBATIM - do NOT run the raw test script directly:''
     @ [newline, newline] @ ''  '' @ gk_test_cmd k @ [newline, newline]
     @ ''If the suite TIMED OUT (or you suspect a stale/interrupted result), re-run via the wrapper with --force and a longer timeout so it completes and records.''
     @ [newline, newline]
     @ ''STAKES: If you record a green result this reroute, the merge lands on verified evidence AND the result is cached for other runs. If you do not, the merge will be allowed to land WITHOUT evidence this once (annotated), but that path is discouraged.''"

definition red_action :: "workspace \<Rightarrow> string" where
  "red_action ws =
     (case ws of
        Dirty _ \<Rightarrow> ''ACTION: commit all workspace changes, then execute the test suite via the provided shim-wrapped test command so evidence is recorded for the final tree, then resubmit.''
      | Clean \<Rightarrow> ''ACTION: execute the test suite via the provided shim-wrapped test command so evidence is recorded for the current tree, then resubmit.''
      | Unavailable \<Rightarrow> ''ACTION: ensure the workspace is clean, then execute the test suite via the provided shim-wrapped test command so evidence is recorded for the final tree, then resubmit.'')"

definition refusal_key :: "refusal \<Rightarrow> gate_key" where
  "refusal_key d = (case d of RefMissing _ k \<Rightarrow> k | RefRed _ k _ \<Rightarrow> k)"

definition is_missing :: "refusal \<Rightarrow> bool" where
  "is_missing d = (case d of RefMissing _ _ \<Rightarrow> True | RefRed _ _ _ \<Rightarrow> False)"

definition buildRefusalDiagnostics :: "host \<Rightarrow> evidence \<Rightarrow> refusal \<Rightarrow> string list" where
  "buildRefusalDiagnostics h ev d =
     (let k = refusal_key d; ws = workspace_state h k
      in [workspace_text ws]
         @ (case ws of
              Dirty _ \<Rightarrow> [''Uncommitted changes mean the tested tree cannot match the merge tree. Commit all changes, then re-run the suite.'']
            | _ \<Rightarrow> [])
         @ nearest_lines ev k
         @ [if is_missing d then missing_action k else red_action ws])"

definition formatLedgerGateRefusal :: "host \<Rightarrow> evidence \<Rightarrow> refusal \<Rightarrow> string" where
  "formatLedgerGateRefusal h ev d =
     (let k = refusal_key d
      in join [newline]
           ([''FAILURE_CLASS: refused_permanent'',
             (if is_missing d
              then ''Ledger gate refused finalize_merge: no matching TSTX suite execution exists.''
              else ''Ledger gate refused finalize_merge: latest matching TSTX suite execution is red.''),
             (if is_missing d then ''LEDGER_EVIDENCE: missing'' else ''LEDGER_EVIDENCE: red''),
             ''ORIGIN_REPO: '' @ gk_origin k, ''TREE_HASH: '' @ gk_tree k,
             ''CMD_HASH: '' @ gk_cmd_hash k, ''TEST_CMD: '' @ gk_test_cmd k]
            @ (case d of
                 RefMissing _ _ \<Rightarrow> []
               | RefRed _ _ row \<Rightarrow>
                   [''LEDGER_ROW_ID: '' @ int_str (lr_id row), ''EXIT_CODE: '' @ int_str (lr_exit row),
                    ''TIMESTAMP: '' @ lr_created row, ''DURATION_MS: '' @ int_str (lr_duration row),
                    ''LEDGER_RUN_ID: '' @ (case lr_run row of None \<Rightarrow> [] | Some x \<Rightarrow> x),
                    ''LEDGER_STEP_ID: '' @ (case lr_step row of None \<Rightarrow> [] | Some x \<Rightarrow> x),
                    ''LOG_TAIL: '' @ (case lr_log row of None \<Rightarrow> [] | Some x \<Rightarrow> x)])
            @ buildRefusalDiagnostics h ev d))"

end
