(* ===== verification/Loop_Props.thy ===== *)
theory Loop_Props
  imports Pipeline_Props
begin

text \<open>
  What is proved of loops: how the continuation check settles the loop step, and what a verifier's
  verdict does to the story it judged.
\<close>

lemma find_step_set_status:
  "find_step j (set_step_status i st w) =
     (if j = i then map_option (\<lambda>s. s\<lparr>s_status := st, s_updated_at := Some (now w)\<rparr>) (find_step i w)
      else find_step j w)"
  by (auto simp: set_step_status_def find_set_step)

lemma find_step_mark_verifier:
  "find_step i (mark_verifier_done rid v w) =
     map_option (\<lambda>s. if s_run_id s = rid \<and> s_step_id s = v
                      then s\<lparr>s_status := SDone, s_updated_at := Some (now w)\<rparr> else s) (find_step i w)"
proof -
  let ?f = "\<lambda>s. s\<lparr>s_status := SDone, s_updated_at := Some (now w)\<rparr>"
  have "List.find (\<lambda>s. s_id s = i) (upd_where (\<lambda>s. s_run_id s = rid \<and> s_step_id s = v) ?f ss) =
      map_option (\<lambda>s. if s_run_id s = rid \<and> s_step_id s = v then ?f s else s)
        (List.find (\<lambda>s. s_id s = i) ss)" for ss
    by (induction ss) auto
  then show ?thesis by (simp add: mark_verifier_done_def find_step_def)
qed

text \<open>Advancing never touches a step that is not waiting.\<close>

lemma advance_keeps_row:
  assumes "distinct (map s_id (steps w))" "find_step i w = Some s" "s_status s \<noteq> SWaiting"
  shows "find_step i (fst (advancePipeline rid w)) = Some s"
proof -
  have ne: "s_id n \<noteq> i" if "next_waiting rid w = Some n" for n
  proof
    assume "s_id n = i"
    moreover have "n \<in> set (steps w)" "s_status n = SWaiting"
      using next_waiting_SomeD [OF that] by (simp_all add: run_steps_def)
    ultimately have "find_step i w = Some n"
      using step_table.find_in_rows [of w n] assms(1) by simp
    then show False using assms(2,3) \<open>s_status n = SWaiting\<close> by simp
  qed
  have "find_step i (promote_step rid n w) = find_step i (set_step_status (s_id n) SPending w)" for n
    by (simp add: find_step_def)
  moreover have "find_step i (complete_run rid w) = find_step i w"
    by (simp add: find_step_def)
  ultimately show ?thesis
    using assms(2) ne by (auto simp: advancePipeline_def find_step_set_status split: option.splits)
qed

lemma advance_keeps_step:
  "wf_store w \<Longrightarrow> find_step i w = Some s \<Longrightarrow> s_status s \<noteq> SWaiting \<Longrightarrow>
   find_step i (fst (advancePipeline rid w)) = Some s"
  by (rule advance_keeps_row) (simp_all add: wf_store_def)

lemma fail_run_frame [simp]:
  "steps (fail_run r w) = steps w" "stories (fail_run r w) = stories w" "now (fail_run r w) = now w"
  "find_step i (fail_run r w) = find_step i w" "find_story t (fail_run r w) = find_story t w"
  by (simp_all add: fail_run_def)

lemma loop_run_failed: "find_run r w \<noteq> None \<Longrightarrow> run_status_of r (fail_run r w) = Some RFailed"
  by (auto simp: run_status_of_def fail_run_def find_set_run)

lemma loop_run_status [simp]:
  "run_status_of r (emit n x f w) = run_status_of r w"
  "run_status_of r (emitRunTerminalEvent n x a b c w) = run_status_of r w"
  "run_status_of r (set_step_status i st w) = run_status_of r w"
  by (simp_all add: run_status_of_def)

text \<open>The end of a failed run: its timers go and a pause no longer applies.\<close>

lemma failed_run_settled:
  "find_run rid w \<noteq> None \<Longrightarrow> run_status_of rid w = Some RFailed \<Longrightarrow>
   run_status_of rid (finalizeDrainingPause rid (scheduleRunCronTeardown rid w)) = Some RFailed"
  using finalizeDrainingPause_terminal [of rid "scheduleRunCronTeardown rid w" RFailed rid]
  by (simp add: scheduleRunCronTeardown_status terminal_def)

lemma fail_loop_run:
  assumes "find_run rid w \<noteq> None"
  shows "run_status_of rid (finalizeDrainingPause rid (fail_loop rid l w)) = Some RFailed"
proof -
  let ?f = "\<lambda>s. s\<lparr>s_status := SFailed,
      s_output := Some ''Loop cannot continue because one or more stories failed''\<rparr>"
  have "run_status_of rid (fail_run rid (set_step l ?f w)) = Some RFailed"
    using assms by (simp add: loop_run_failed)
  moreover from this have "find_run rid (fail_run rid (set_step l ?f w)) \<noteq> None"
    by (auto simp: run_status_of_def)
  ultimately show ?thesis by (simp add: fail_loop_def Let_def failed_run_settled)
qed

lemma fail_loop_step:
  "find_step l w = Some s \<Longrightarrow>
   step_status_of l (finalizeDrainingPause rid (fail_loop rid l w)) = Some SFailed"
  by (simp add: fail_loop_def Let_def step_status_of_def find_set_step)

text \<open>The loop with no story left: its step is done however the pipeline goes on.\<close>

lemma loop_done_step:
  assumes "wf_store w" "find_step l w = Some s" "\<not> has_story TPending rid w" "\<not> has_story TFailed rid w"
  shows "step_status_of l (fst (checkLoopContinuation rid l w)) = Some SDone"
proof -
  let ?w1 = "set_step_status l SDone w"
  have wf1: "wf_store ?w1"
    using assms(1) unfolding set_step_status_def set_step_def wf_store_def
    by (simp add: step_table.keys_upd)
  have wfv: "wf_store (mark_verifier_done rid v ?w1)" for v
    using wf1 by (simp add: wf_store_def mark_verifier_done_def map_upd_where)
  obtain s1 where s1: "find_step l ?w1 = Some s1" "s_status s1 = SDone"
    using assms(2) by (simp add: find_step_set_status)
  have s2: "\<exists>u. find_step l (mark_verifier_done rid v ?w1) = Some u \<and> s_status u = SDone" for v
    using s1 by (simp add: find_step_mark_verifier)
  have a1: "step_status_of l (fst (advancePipeline rid ?w1)) = Some SDone"
    using advance_keeps_step [OF wf1 s1(1)] s1(2) by (simp add: step_status_of_def)
  have a2: "step_status_of l (fst (advancePipeline rid (mark_verifier_done rid v ?w1))) = Some SDone" for v
    using s2 [of v] advance_keeps_step [OF wfv] by (force simp: step_status_of_def)
  show ?thesis
    using assms(3,4) a1 a2 s1
    by (auto simp: checkLoopContinuation_def Let_def split_def step_status_of_def
             split: loop_col.splits option.splits bool.splits)
qed

text \<open>C6.  After a story of a loop, the loop step goes back to pending while stories are pending (but a
  failed loop stays failed), fails together with its run when none is pending and one has failed,
  and is done otherwise, whatever step the pipeline then moves on to.\<close>

theorem checkLoopContinuation_settles:
  assumes "wf_store w" "find_step l w = Some s" "find_run rid w \<noteq> None"
  shows "step_status_of l (fst (checkLoopContinuation rid l w)) =
      Some (if has_story TPending rid w then (if s_status s = SFailed then SFailed else SPending)
            else if has_story TFailed rid w then SFailed else SDone)
    \<and> (\<not> has_story TPending rid w \<and> has_story TFailed rid w \<longrightarrow>
         run_status_of rid (fst (checkLoopContinuation rid l w)) = Some RFailed)"
proof -
  have p: "step_status_of l (fst (checkLoopContinuation rid l w)) =
      Some (if s_status s = SFailed then SFailed else SPending)" if "has_story TPending rid w"
    using that assms(2)
    by (simp add: checkLoopContinuation_def step_status_of_def find_step_set_status)
  have f: "step_status_of l (fst (checkLoopContinuation rid l w)) = Some SFailed
      \<and> run_status_of rid (fst (checkLoopContinuation rid l w)) = Some RFailed"
    if "\<not> has_story TPending rid w" "has_story TFailed rid w"
    using that fail_loop_step [OF assms(2)] fail_loop_run [OF assms(3)]
    by (simp add: checkLoopContinuation_def)
  show ?thesis using p f loop_done_step [OF assms(1,2)] by auto
qed

lemma checkLoopContinuation_settles_witness:
  "step_status_of ''d'' (fst (checkLoopContinuation ''r'' ''d'' store0)) = Some SDone"
  using checkLoopContinuation_settles [of store0 "''d''" loop0 "''r''"]
  by (simp add: sample_defs eval_store wf_store_def has_story_def)

text \<open> A verifier's retry verdict charges the story it judged, the last one done: within its retry
  budget the story is pending again with one more retry, the loop pending and the issues are in the
  run's context; past the budget the story, the loop and the run fail.  In both cases the verifier
  waits for the next story with its own retries reset.\<close>

theorem verify_each_retry:
  assumes "wf_store w" "find_run (s_run_id vs) w \<noteq> None" "find_step (s_id vs) w = Some v0"
    "find_step l w = Some s" "l \<noteq> s_id vs"
    "last_done_story (s_run_id vs) w = Some st"
  shows "(let w' = fst (handleVerifyEachCompletion vs l out context VRetry w);
              ok = (t_retry_count st < t_max_retries st) in
     map_option t_status (find_story (t_id st) w') = Some (if ok then TPending else TFailed)
     \<and> map_option t_retry_count (find_story (t_id st) w') = Some (Suc (t_retry_count st))
     \<and> step_status_of l w' = Some (if ok then SPending else SFailed)
     \<and> step_status_of (s_id vs) w' = Some SWaiting
     \<and> map_option s_retry_count (find_step (s_id vs) w') = Some 0
     \<and> (if ok then run_status_of (s_run_id vs) w' = run_status_of (s_run_id vs) w
        else run_status_of (s_run_id vs) w' = Some RFailed))"
proof -
  let ?rid = "s_run_id vs"
  let ?f = "\<lambda>s. s\<lparr>s_status := SWaiting, s_retry_count := 0, s_output := Some out\<rparr>"
  let ?w1 = "set_step (s_id vs) ?f w"
  have last: "last_done_story ?rid ?w1 = Some st"
    using assms(6) by (simp add: last_done_story_def run_stories_def)
  have st: "find_story (t_id st) w = Some st"
    using story_table.find_in_rows [of w st] assms(1) latest_story_in assms(6)
    by (fastforce simp: wf_store_def last_done_story_def run_stories_def)
  show ?thesis
  proof (cases "t_retry_count st < t_max_retries st")
    case True
    then show ?thesis using assms(2-5) last st
      by (auto simp: handleVerifyEachCompletion_def Let_def verify_retry_story_def find_set
            set_step_status_def step_status_of_def run_status_of_def)
  next
    case False
    let ?w2 = "set_step_status l SFailed (set_story (t_id st)
        (\<lambda>t. t\<lparr>t_status := TFailed, t_retry_count := Suc (t_retry_count st)\<rparr>) ?w1)"
    have "run_status_of ?rid (fail_run ?rid ?w2) = Some RFailed"
      using assms(2) by (simp add: loop_run_failed)
    moreover from this have "find_run ?rid (fail_run ?rid ?w2) \<noteq> None"
      by (auto simp: run_status_of_def)
    ultimately have "run_status_of ?rid (verify_retry_exhausted vs l st ?w1) = Some RFailed"
      by (simp add: verify_retry_exhausted_def Let_def failed_run_settled)
    then show ?thesis using False assms(3-5) last st
      by (auto simp: handleVerifyEachCompletion_def Let_def verify_retry_exhausted_def find_set
            set_step_status_def step_status_of_def)
  qed
qed

lemma verify_each_retry_witness:
  "map_option t_status (find_story ''t''
      (fst (handleVerifyEachCompletion merge0 ''d'' ''no'' Map.empty VRetry store0))) = Some TPending"
proof -
  have "wf_store store0" "find_run (s_run_id merge0) store0 \<noteq> None"
    "find_step (s_id merge0) store0 = Some merge0" "find_step ''d'' store0 = Some loop0"
    "''d'' \<noteq> s_id merge0" "last_done_story (s_run_id merge0) store0 = Some story0"
    "t_id story0 = ''t''" "t_retry_count story0 < t_max_retries story0"
    by (simp_all add: sample_defs eval_store wf_store_def last_done_story_def)
  then show ?thesis using verify_each_retry [of store0 merge0 merge0 "''d''" loop0 story0 "''no''" Map.empty]
    by (simp add: Let_def)
qed

end
