(* ===== verification/Ledger_Ops.thy ===== *)
theory Ledger_Ops
  imports Ledger_Gate Loop_Props
begin

text \<open>
  What the merge gate does (\<^verbatim>\<open>src/src/installer/step-ops.ts\<close>): the refusal a decision leads to, the
  one-time concession of missing evidence, the reroute or failure a refusal causes, and the gate at
  claim time.  A claim runs in one database transaction; no call of the model throws inside it.
\<close>

section \<open>Refusals\<close>

definition isAlreadyLanded :: "host \<Rightarrow> string \<Rightarrow> string \<Rightarrow> store \<Rightarrow> bool \<times> store" where
  "isAlreadyLanded h stepId out w =
     (let merged = get_or_empty (parseOutputKeyValues out) ''merged_commit''
      in if merged = [] then (False, w)
         else (case find_step stepId w of
                 None \<Rightarrow> (False, w)
               | Some s \<Rightarrow>
                   (case find_run (s_run_id s) w of
                      None \<Rightarrow> (False, w)
                    | Some r \<Rightarrow>
                        (let (m, w1) = parseRunContext (s_run_id s) (r_context r) w;
                             repo = (if truthy m ''worktree_origin_repository''
                                     then get_or_empty m ''worktree_origin_repository''
                                     else if truthy m ''repo'' then get_or_empty m ''repo''
                                     else get_or_empty m ''working_directory_for_harness'')
                         in if \<not> truthy m ''original_branch'' \<or> repo = [] then (False, w1)
                            else (case rev_parse h repo
                                         (''refs/heads/'' @ get_or_empty m ''original_branch'') of
                                    None \<Rightarrow> (False, w1)
                                  | Some out \<Rightarrow> (trim out = merged, w1))))))"

definition hasLedgerGateConcession :: "string \<Rightarrow> store \<Rightarrow> bool" where
  "hasLedgerGateConcession stepId w \<longleftrightarrow>
     (case find_step stepId w of None \<Rightarrow> False | Some s \<Rightarrow> s_ledger_concession_count s \<ge> 1)"

definition getRunContextForStep :: "string \<Rightarrow> store \<Rightarrow> ctx option" where
  "getRunContextForStep stepId w =
     (case find_step stepId w of
        None \<Rightarrow> None
      | Some s \<Rightarrow> map_option (\<lambda>r. gate_context (r_context r)) (find_run (s_run_id s) w))"

definition strict_missing :: "string \<Rightarrow> gate_mode \<Rightarrow> store \<Rightarrow> bool" where
  "strict_missing stepId mode w =
     isStrictMissing (case getRunContextForStep stepId w of None \<Rightarrow> Map.empty | Some m \<Rightarrow> m) mode"

definition getLedgerGateRefusal :: "string \<Rightarrow> decision \<Rightarrow> store \<Rightarrow> refusal option" where
  "getLedgerGateRefusal stepId d w =
     (case d of
        Missing mode k \<Rightarrow>
          if strict_missing stepId mode w then Some (RefMissing mode k)
          else if \<not> hasLedgerGateConcession stepId w then Some (RefMissing mode k)
          else None
      | Red GGreen k row \<Rightarrow> Some (RefRed GGreen k row)
      | _ \<Rightarrow> None)"

definition usesLedgerConcessionAllowance :: "string \<Rightarrow> refusal \<Rightarrow> store \<Rightarrow> bool" where
  "usesLedgerConcessionAllowance stepId d w =
     (case d of RefMissing mode _ \<Rightarrow> \<not> strict_missing stepId mode w | RefRed _ _ _ \<Rightarrow> False)"

datatype refusal_outcome = ORerouted | OFailed | OConceded

definition record_concession :: "string \<Rightarrow> store \<Rightarrow> store" where
  "record_concession i w =
     upd_step i (\<lambda>s. s\<lparr>s_ledger_concession_count := Suc (s_ledger_concession_count s)\<rparr>) w"

text \<open>The end of a refused merge that nothing can repair: the step and its run fail.\<close>

definition fail_refused :: "step \<Rightarrow> nat \<Rightarrow> string \<Rightarrow> store \<Rightarrow> store" where
  "fail_refused s retries reason w =
     (let rid = s_run_id s;
          w1 = fail_run rid
                 (set_step (s_id s)
                    (\<lambda>u. u\<lparr>s_status := SFailed, s_output := Some reason, s_retry_count := Suc retries\<rparr>) w);
          wf = getWorkflowId rid w1
      in finalizeDrainingPause rid
           (scheduleRunCronTeardown rid
              (emitRunTerminalEvent ''run.failed'' rid wf (Some reason) None
                 (emit ''step.failed'' rid
                    (opt_str ''workflowId'' wf
                     @ [(''stepId'', VStr (s_step_id s)), (''detail'', VStr reason)]) w1))))"

text \<open>The reroute a refusal tries first; a spent terminal allowance blocks it, an allowed concession
  does not.\<close>

definition gate_attempt ::
    "specs \<Rightarrow> step \<Rightarrow> string \<Rightarrow> bool \<Rightarrow> store \<Rightarrow> store \<times> reroute_result" where
  "gate_attempt specs s reason allowance w =
     (let policy = getOnFailPolicySync specs (s_run_id s) (s_step_id s) w;
          spent = (getFailureRerouteMode reason policy = TerminalMode
                   \<and> (case find_step (s_id s) w of
                        None \<Rightarrow> 0 | Some u \<Rightarrow> s_terminal_reroute_count u) \<ge> 1)
      in case policy of
           None \<Rightarrow> (w, NotFound)
         | Some p \<Rightarrow>
             if (\<not> spent \<or> allowance) \<and> retry_target policy \<noteq> None
             then rerouteWithPolicy p (s_run_id s) (s_step_id s) (s_id s) reason allowance w
             else (w, NotFound))"

definition applyLedgerGateRefusalSync ::
    "specs \<Rightarrow> step \<Rightarrow> string \<Rightarrow> bool \<Rightarrow> bool \<Rightarrow> store \<Rightarrow> store \<times> refusal_outcome" where
  "applyLedgerGateRefusalSync specs s reason records allowance w =
     (let (w1, r) = gate_attempt specs s reason allowance w
      in if r = Rerouted
         then (finalizeDrainingPause (s_run_id s)
                 (call NudgeDispatch (if records then record_concession (s_id s) w1 else w1)),
               ORerouted)
         else if allowance then (w1, OConceded)
         else (fail_refused s
                 (case find_step (s_id s) w of None \<Rightarrow> 0 | Some u \<Rightarrow> s_retry_count u) reason w1,
               OFailed))"

section \<open>The gate at claim time\<close>

definition gate_refuse ::
    "host \<Rightarrow> evidence \<Rightarrow> specs \<Rightarrow> step \<Rightarrow> refusal \<Rightarrow> store \<Rightarrow> store \<times> refusal_outcome" where
  "gate_refuse h ev specs s d w =
     applyLedgerGateRefusalSync specs s (formatLedgerGateRefusal h ev d) (is_missing d)
       (usesLedgerConcessionAllowance (s_id s) d w) w"

definition gate_claim ::
    "host \<Rightarrow> evidence \<Rightarrow> specs \<Rightarrow> step \<Rightarrow> store \<Rightarrow> store \<times> bool \<times> decision option" where
  "gate_claim h ev specs s w =
     (case getTestCmdReviewRefusal (s_run_id s) w of
        Some ref \<Rightarrow> (emitTestCmdReviewRefusal s ref w, False, None)
      | None \<Rightarrow>
          (let d = evaluateFinalizeMergeLedgerGate h ev (s_id s) w
           in case getLedgerGateRefusal (s_id s) d w of
                None \<Rightarrow> (w, True, Some d)
              | Some ref \<Rightarrow>
                  (let (w2, res) = gate_refuse h ev specs s ref w
                   in (w2, res = OConceded, Some d))))"

definition landed_check :: "host \<Rightarrow> step \<Rightarrow> string option \<Rightarrow> store \<Rightarrow> bool \<times> store" where
  "landed_check h s out w =
     (case out of
        None \<Rightarrow> (False, w)
      | Some o1 \<Rightarrow> if o1 = [] then (False, w) else isAlreadyLanded h (s_id s) o1 w)"

definition enforceClaimLedgerGate ::
    "host \<Rightarrow> evidence \<Rightarrow> specs \<Rightarrow> step \<Rightarrow> store \<Rightarrow> store \<times> bool \<times> decision option" where
  "enforceClaimLedgerGate h ev specs s w =
     (case find_step (s_id s) w of
        None \<Rightarrow> (w, False, None)
      | Some c \<Rightarrow>
          if s_status c \<noteq> SPending \<or> run_status_of (s_run_id c) w \<noteq> Some RRunning
          then (w, False, None)
          else
            (let (landed, w1) = landed_check h s (s_output c) w
             in if landed then (w1, True, None) else gate_claim h ev specs s w1))"

section \<open>Instances\<close>

definition host0 :: host where
  "host0 = \<lparr>git_common_dir = (\<lambda>_. Some ''.git''), realpath = Some, rev_parse = (\<lambda>_ _. None),
            status_porcelain = (\<lambda>_. Some []), sha256_hex = (\<lambda>c. c)\<rparr>"

definition ctx0 :: "(string \<times> string) list \<Rightarrow> store" where
  "ctx0 kvs = set_run ''r'' (\<lambda>r. r\<lparr>r_context := CtxObj (map_of kvs)\<rparr>)
     (set_step ''p'' (\<lambda>s. s\<lparr>s_output := Some ''TESTED_TREE: abc''\<rparr>)
        (set_step_status ''m'' SPending store0))"

definition row0 :: suite_result where
  "row0 = \<lparr>lr_id = 1, lr_exit = 0, lr_duration = 5, lr_log = None, lr_run = None, lr_step = None,
           lr_created = ''2026'', sr_origin = ''/x'', sr_tree = ''abc'', sr_cmd = ''make''\<rparr>"

definition specs0 :: specs where
  "specs0 = (\<lambda>_. Some [(''finalize_merge'', Some policy0)])"

abbreviation green_ctx :: "(string \<times> string) list" where
  "green_ctx \<equiv> [(''merge_gate'', ''green''), (''repo'', ''/x''), (''test_cmd'', ''make'')]"

lemma gate_sample_texts:
  "testedTreeFromOutput (Some ''TESTED_TREE: abc'') = Some ''abc''"
  "getOriginRepo host0 ''/x'' = ''/x''" "trim ''make'' = ''make''" "trim ''/x'' = ''/x''"
  "normalizeContextKnob (map_of green_ctx) ''merge_gate'' = ''green''"
  by code_simp+

lemma gate_sample_rows:
  "find_step ''m'' (ctx0 kvs) = Some (merge0\<lparr>s_status := SPending, s_updated_at := Some 100\<rparr>)"
  "find_run ''r'' (ctx0 kvs) = Some (run0\<lparr>r_context := CtxObj (map_of kvs), r_updated_at := Some 100\<rparr>)"
  "wf_store (ctx0 kvs)"
  by (simp_all add: ctx0_def sample_defs eval_store set_step_status_def wf_store_def)

lemma gate_sample_upstream:
  "upstream_outputs (merge0\<lparr>s_status := SPending, s_updated_at := Some 100\<rparr>) (ctx0 kvs)
     = [None, Some ''TESTED_TREE: abc'']"
  by (simp add: upstream_outputs_def ctx0_def sample_defs eval_store set_step_status_def)

lemma gate_sample_fields:
  "s_step_id merge0 = ''finalize_merge''" "s_run_id merge0 = ''r''" "s_id merge0 = ''m''"
  "r_test_cmd_established run0 = None" "r_status run0 = RRunning" "s_output merge0 = None"
  "s_ledger_concession_count merge0 = 0" "testedTreeFromOutput None = None"
  "sha256_hex host0 c = c"
  by (simp_all add: merge0_def step0_def run0_def testedTreeFromOutput_def host0_def)

lemma gate_sample_evidence:
  "evidence_row (Native [row0]) \<lparr>gk_origin = ''/x'', gk_tested = t, gk_tree = ''abc'',
       gk_cmd_hash = ''make'', gk_test_cmd = c\<rparr> = Some (ledger_row.truncate row0)"
  "lr_exit (ledger_row.truncate row0) = 0"
  by (simp_all add: evidence_row_def nativeEvidenceRow_def row0_def ledger_row.truncate_def)

lemma gate_sample_decision:
  "\<exists>k row. evaluateFinalizeMergeLedgerGate host0 (Native [row0]) ''m'' (ctx0 green_ctx) = Green GGreen k row"
  by (simp add: evaluateFinalizeMergeLedgerGate_def gate_sample_rows gate_sample_upstream gate_context_def
        gate_test_cmd_def non_blank_def Let_def gateModeFromContext_def gate_sample_evidence
        gate_sample_fields gate_sample_texts computeCmdHash_def
        gate_sample_texts(5) [simplified])

lemma gate_sample_claim:
  "\<exists>w' d. enforceClaimLedgerGate host0 (Native [row0]) specs0 merge0 (ctx0 green_ctx) = (w', True, d)"
proof -
  obtain k row where "evaluateFinalizeMergeLedgerGate host0 (Native [row0]) ''m'' (ctx0 green_ctx) = Green GGreen k row"
    using gate_sample_decision by blast
  then show ?thesis
    by (simp add: enforceClaimLedgerGate_def gate_sample_rows gate_sample_fields landed_check_def
          gate_claim_def getTestCmdReviewRefusal_def gate_context_def getLedgerGateRefusal_def
          run_status_of_def)
qed

definition gate_key0 :: gate_key where
  "gate_key0 = \<lparr>gk_origin = ''/x'', gk_tested = None, gk_tree = ''a'', gk_cmd_hash = ''m'',
                gk_test_cmd = ''m''\<rparr>"

lemma gate_sample_strict: "\<not> strict_missing ''m'' GDefault (ctx0 [])"
  by (simp add: strict_missing_def getRunContextForStep_def gate_sample_rows gate_sample_fields
        gate_context_def isStrictMissing_def normalizeContextKnob_def get_or_empty_def trim_def
        trim_start_def trim_end_def lower_def)

lemma gate_sample_class:
  "parseFailureClass (formatLedgerGateRefusal host0 ev d) = Some ''refused_permanent''"
proof -
  have "first_line (join [newline] (''FAILURE_CLASS: refused_permanent'' # x # xs)) =
      ''FAILURE_CLASS: refused_permanent''" for x xs
    by (simp add: first_line_def newline_def Let_def)
  then have c: "parseFailureClass (join [newline] (''FAILURE_CLASS: refused_permanent'' # x # xs)) =
      Some ''refused_permanent''" for x xs
    unfolding parseFailureClass_def by (simp only:) code_simp
  have "\<exists>x xs. formatLedgerGateRefusal host0 ev d =
      join [newline] (''FAILURE_CLASS: refused_permanent'' # x # xs)"
    unfolding formatLedgerGateRefusal_def Let_def append_Cons by blast
  then show ?thesis using c by (elim exE) (simp only:)
qed

lemma gate_sample_missing:
  "snd (gate_refuse host0 (Native []) specs0 merge0 (RefMissing GDefault gate_key0) (ctx0 [])) = ORerouted"
proof -
  have p: "getOnFailPolicySync specs0 ''r'' ''finalize_merge'' (ctx0 []) = Some policy0"
    by (simp add: getOnFailPolicySync_def gate_sample_rows specs0_def)
  have n: "step_named ''r'' ''develop'' (ctx0 []) = Some loop0"
    by (simp add: step_named_def ctx0_def sample_defs eval_store set_step_status_def)
  have "snd (rerouteWithPolicy policy0 ''r'' ''finalize_merge'' ''m''
          (formatLedgerGateRefusal host0 (Native []) (RefMissing GDefault gate_key0)) True (ctx0 [])) = Rerouted"
    using n by (simp add: rerouteWithPolicy_def gate_sample_rows policy0_def Let_def
          gate_sample_class effective_shared_def cap_reroutes_def merge0_def loop0_def step0_def)
  then show ?thesis
    by (simp add: gate_refuse_def applyLedgerGateRefusalSync_def gate_attempt_def split_def Let_def p
          gate_sample_fields gate_sample_rows usesLedgerConcessionAllowance_def gate_sample_strict
          retry_target_def policy0_def is_missing_def)
qed

section \<open>What the gate lets through\<close>

lemma isAlreadyLanded_tables [simp]:
  "runs (snd (isAlreadyLanded h i out w)) = runs w"
  "steps (snd (isAlreadyLanded h i out w)) = steps w"
  "stories (snd (isAlreadyLanded h i out w)) = stories w"
  by (simp_all add: isAlreadyLanded_def Let_def split_def split: option.splits)

lemma isAlreadyLanded_finds [simp]:
  "find_step j (snd (isAlreadyLanded h i out w)) = find_step j w"
  "find_run r (snd (isAlreadyLanded h i out w)) = find_run r w"
  by (simp_all add: find_step_def find_run_def)

lemma gate_reads_tables:
  assumes "runs w' = runs w" "steps w' = steps w"
  shows "evaluateFinalizeMergeLedgerGate h ev i w' = evaluateFinalizeMergeLedgerGate h ev i w"
    "getTestCmdReviewRefusal r w' = getTestCmdReviewRefusal r w"
    "getLedgerGateRefusal i d w' = getLedgerGateRefusal i d w"
    "usesLedgerConcessionAllowance i ref w' = usesLedgerConcessionAllowance i ref w"
proof -
  have f: "find_step j w' = find_step j w" "find_run k w' = find_run k w"
    "upstream_outputs u w' = upstream_outputs u w" for j k u
    using assms by (simp_all add: find_step_def find_run_def upstream_outputs_def run_steps_def)
  show "evaluateFinalizeMergeLedgerGate h ev i w' = evaluateFinalizeMergeLedgerGate h ev i w"
    unfolding evaluateFinalizeMergeLedgerGate_def f ..
  show "getTestCmdReviewRefusal r w' = getTestCmdReviewRefusal r w"
    unfolding getTestCmdReviewRefusal_def f ..
  have m: "strict_missing j g w' = strict_missing j g w" for j g
    unfolding strict_missing_def getRunContextForStep_def f ..
  show "getLedgerGateRefusal i d w' = getLedgerGateRefusal i d w"
    unfolding getLedgerGateRefusal_def hasLedgerGateConcession_def f m ..
  show "usesLedgerConcessionAllowance i ref w' = usesLedgerConcessionAllowance i ref w"
    unfolding usesLedgerConcessionAllowance_def m ..
qed

definition mode_of :: "decision \<Rightarrow> gate_mode option" where
  "mode_of d = (case d of Inert _ \<Rightarrow> None | Overridden _ \<Rightarrow> Some GOff | Missing g _ \<Rightarrow> Some g
     | Green g _ _ \<Rightarrow> Some g | Red g _ _ \<Rightarrow> Some g)"

lemma evaluate_mode:
  assumes "evaluateFinalizeMergeLedgerGate h ev i w = d" "find_step i w = Some s"
    "find_run (s_run_id s) w = Some r" "mode_of d = Some g"
  shows "g = gateModeFromContext (gate_context (r_context r))"
  using assms
  by (auto simp: evaluateFinalizeMergeLedgerGate_def mode_of_def Let_def
           split: option.splits if_splits)

lemma evaluate_missing_mode:
  "evaluateFinalizeMergeLedgerGate h ev i w = Missing g k \<Longrightarrow> g \<noteq> GOff"
  "evaluateFinalizeMergeLedgerGate h ev i w = Red g k row \<Longrightarrow> g \<noteq> GOff \<and> lr_exit row \<noteq> 0"
  "evaluateFinalizeMergeLedgerGate h ev i w = Green g k row \<Longrightarrow>
     g \<noteq> GOff \<and> lr_exit row = 0 \<and> evidence_row ev k = Some row"
  by (auto simp: evaluateFinalizeMergeLedgerGate_def Let_def split: option.splits if_splits)

lemma landed_check_tables [simp]:
  "runs (snd (landed_check h s out w)) = runs w" "steps (snd (landed_check h s out w)) = steps w"
  by (auto simp: landed_check_def split: option.splits)

lemma conceded_allowance:
  "snd (gate_refuse h ev specs s ref w) = OConceded \<Longrightarrow> usesLedgerConcessionAllowance (s_id s) ref w"
  by (simp add: gate_refuse_def applyLedgerGateRefusalSync_def split_def Let_def split: if_splits)

text \<open>A claim that the gate lets through: the merge has landed before, or nothing is under review and
  the decision leads to no refusal, or to one that is conceded.\<close>

lemma gate_claim_eligible:
  assumes "fst (snd (gate_claim h ev specs s w))"
  shows "getTestCmdReviewRefusal (s_run_id s) w = None
    \<and> snd (snd (gate_claim h ev specs s w)) = Some (evaluateFinalizeMergeLedgerGate h ev (s_id s) w)
    \<and> (\<forall>ref. getLedgerGateRefusal (s_id s) (evaluateFinalizeMergeLedgerGate h ev (s_id s) w) w = Some ref
         \<longrightarrow> usesLedgerConcessionAllowance (s_id s) ref w)"
  using assms conceded_allowance
  by (auto simp: gate_claim_def Let_def split_def split: option.splits)

lemma enforce_eligible:
  assumes "enforceClaimLedgerGate h ev specs s w = (w', True, d)" "find_step (s_id s) w = Some c"
    "\<not> fst (landed_check h s (s_output c) w)"
  shows "getTestCmdReviewRefusal (s_run_id s) w = None
    \<and> d = Some (evaluateFinalizeMergeLedgerGate h ev (s_id s) w)
    \<and> (\<forall>ref. getLedgerGateRefusal (s_id s) (evaluateFinalizeMergeLedgerGate h ev (s_id s) w) w = Some ref
         \<longrightarrow> usesLedgerConcessionAllowance (s_id s) ref w)"
proof -
  let ?w1 = "snd (landed_check h s (s_output c) w)"
  have "gate_claim h ev specs s ?w1 = (w', True, d)"
    using assms by (auto simp: enforceClaimLedgerGate_def split_def Let_def split: if_splits)
  then show ?thesis
    using gate_claim_eligible [of h ev specs s ?w1]
    by (simp add: gate_reads_tables [of ?w1 w])
qed

text \<open>C9.  Under strict evidence a merge is claimed only on a green execution: when the run demands
  \<^verbatim>\<open>merge_gate: green\<close>, a claim the gate lets through either finds the merge already on the target
  branch, or no test-command rewrite is under review and the gate is inert or its evidence row, the
  one recorded for exactly the tested tree and command, has exit code 0.\<close>

theorem green_gate_needs_green_evidence:
  assumes "enforceClaimLedgerGate h ev specs s w = (w', True, d)"
    "find_step (s_id s) w = Some c" "find_run (s_run_id c) w = Some r"
    "gateModeFromContext (gate_context (r_context r)) = GGreen"
  shows "(\<exists>out. s_output c = Some out \<and> fst (isAlreadyLanded h (s_id s) out w))
    \<or> getTestCmdReviewRefusal (s_run_id s) w = None
      \<and> ((\<exists>reason. d = Some (Inert reason))
          \<or> (\<exists>k row. d = Some (Green GGreen k row) \<and> evidence_row ev k = Some row \<and> lr_exit row = 0))"
proof (cases "fst (landed_check h s (s_output c) w)")
  case True
  then show ?thesis by (auto simp: landed_check_def split: option.splits if_splits)
next
  case False
  let ?d = "evaluateFinalizeMergeLedgerGate h ev (s_id s) w"
  note el = enforce_eligible [OF assms(1,2) False]
  have mode: "mode_of ?d = Some g \<Longrightarrow> g = GGreen" for g
    using evaluate_mode [OF refl assms(2,3)] assms(4) by simp
  have strict: "strict_missing (s_id s) GGreen w"
    by (simp add: strict_missing_def isStrictMissing_def)
  show ?thesis
  proof (cases ?d)
    case (Missing g k)
    then show ?thesis using el mode strict
      by (auto simp: mode_of_def getLedgerGateRefusal_def usesLedgerConcessionAllowance_def)
  next
    case (Red g k row)
    then show ?thesis using el mode
      by (auto simp: mode_of_def getLedgerGateRefusal_def usesLedgerConcessionAllowance_def)
  next
    case (Green g k row)
    then show ?thesis using el mode evaluate_missing_mode(3) [OF Green] by (auto simp: mode_of_def)
  next
    case (Overridden k)
    then show ?thesis using mode by (auto simp: mode_of_def)
  next
    case (Inert x)
    then show ?thesis using el by auto
  qed
qed

lemma green_gate_needs_green_evidence_witness:
  "getTestCmdReviewRefusal ''r'' (ctx0 green_ctx) = None"
proof -
  obtain w' d where e: "enforceClaimLedgerGate host0 (Native [row0]) specs0 merge0 (ctx0 green_ctx) = (w', True, d)"
    using gate_sample_claim by blast
  let ?c = "merge0\<lparr>s_status := SPending, s_updated_at := Some 100\<rparr>"
  have "find_step (s_id merge0) (ctx0 green_ctx) = Some ?c"
    "find_run (s_run_id ?c) (ctx0 green_ctx) =
       Some (run0\<lparr>r_context := CtxObj (map_of green_ctx), r_updated_at := Some 100\<rparr>)"
    "s_output ?c = None" "s_run_id merge0 = ''r''"
    by (simp_all add: gate_sample_rows gate_sample_fields)
  from green_gate_needs_green_evidence [OF e this(1,2)] this(3,4) show ?thesis
    using gate_sample_texts(5) by (auto simp: gateModeFromContext_def gate_context_def)
qed


lemma record_concession_frame [simp]: "find_run r (record_concession i w) = find_run r w"
  by (simp add: record_concession_def)

lemma record_concession_find:
  "find_step j (record_concession i w) =
     (if j = i then map_option (\<lambda>s. s\<lparr>s_ledger_concession_count := Suc (s_ledger_concession_count s)\<rparr>)
                      (find_step i w)
      else find_step j w)"
  by (simp add: record_concession_def step_table.find_upd_same step_table.find_upd_other)

lemma gate_attempt_rerouted:
  "snd (gate_attempt specs s reason allowance w) = Rerouted \<Longrightarrow>
   \<exists>p. rerouteWithPolicy p (s_run_id s) (s_step_id s) (s_id s) reason allowance w =
         (fst (gate_attempt specs s reason allowance w), Rerouted)"
  by (auto simp: gate_attempt_def Let_def prod_eq_iff split: option.splits if_splits)

lemma gate_attempt_refused:
  "snd (gate_attempt specs s reason allowance w) \<noteq> Rerouted \<Longrightarrow>
   steps (fst (gate_attempt specs s reason allowance w)) = steps w
   \<and> stories (fst (gate_attempt specs s reason allowance w)) = stories w
   \<and> runs (fst (gate_attempt specs s reason allowance w)) = runs w"
  using refused_tables by (auto simp: gate_attempt_def Let_def split: option.splits if_splits)

lemma apply_rerouted:
  assumes "applyLedgerGateRefusalSync specs s reason records allowance w = (w', ORerouted)"
    "wf_store w" "find_step (s_id s) w = Some c"
  shows "\<exists>c'. find_step (s_id s) w' = Some c' \<and> s_status c' = SWaiting
    \<and> s_ledger_concession_count c' = s_ledger_concession_count c + (if records then 1 else 0)"
proof -
  let ?w1 = "fst (gate_attempt specs s reason allowance w)"
  have r: "snd (gate_attempt specs s reason allowance w) = Rerouted"
    and w': "w' = finalizeDrainingPause (s_run_id s)
       (call NudgeDispatch (if records then record_concession (s_id s) ?w1 else ?w1))"
    using assms(1) by (auto simp: applyLedgerGateRefusalSync_def split_def Let_def split: if_splits)
  obtain p where e: "rerouteWithPolicy p (s_run_id s) (s_step_id s) (s_id s) reason allowance w =
      (?w1, Rerouted)" using gate_attempt_rerouted [OF r] by blast
  obtain c1 where "find_step (s_id s) ?w1 = Some c1" "s_status c1 = SWaiting"
    "s_ledger_concession_count c1 = s_ledger_concession_count c"
    using rerouted_row(1) [OF e assms(2,3)] by simp
  then show ?thesis by (cases records) (simp_all add: w' record_concession_find)
qed

lemma apply_not_rerouted:
  assumes "applyLedgerGateRefusalSync specs s reason records allowance w = (w', res)"
    "res \<noteq> ORerouted"
  shows "\<exists>w1 n. steps w1 = steps w \<and> stories w1 = stories w \<and> runs w1 = runs w
    \<and> (if allowance then res = OConceded \<and> w' = w1
       else res = OFailed \<and> w' = fail_refused s n reason w1)"
proof -
  have "snd (gate_attempt specs s reason allowance w) \<noteq> Rerouted"
    using assms by (auto simp: applyLedgerGateRefusalSync_def split_def Let_def split: if_splits)
  then show ?thesis
    using assms gate_attempt_refused
    by (intro exI [of _ "fst (gate_attempt specs s reason allowance w)"])
       (auto simp: applyLedgerGateRefusalSync_def split_def Let_def split: if_splits)
qed

lemma fail_refused_effect:
  assumes "find_step (s_id s) w = Some c" "find_run (s_run_id s) w \<noteq> None"
  shows "step_status_of (s_id s) (fail_refused s n reason w) = Some SFailed"
    "map_option s_output (find_step (s_id s) (fail_refused s n reason w)) = Some (Some reason)"
    "run_status_of (s_run_id s) (fail_refused s n reason w) = Some RFailed"
proof -
  let ?u = "set_step (s_id s)
      (\<lambda>u. u\<lparr>s_status := SFailed, s_output := Some reason, s_retry_count := Suc n\<rparr>) w"
  have "run_status_of (s_run_id s) (fail_run (s_run_id s) ?u) = Some RFailed"
    using assms(2) by (simp add: loop_run_failed)
  moreover from this have "find_run (s_run_id s) (fail_run (s_run_id s) ?u) \<noteq> None"
    by (auto simp: run_status_of_def)
  ultimately show "run_status_of (s_run_id s) (fail_refused s n reason w) = Some RFailed"
    by (simp add: fail_refused_def Let_def failed_run_settled)
  show "step_status_of (s_id s) (fail_refused s n reason w) = Some SFailed"
    "map_option s_output (find_step (s_id s) (fail_refused s n reason w)) = Some (Some reason)"
    using assms(1) by (simp_all add: fail_refused_def Let_def step_status_of_def find_set_step)
qed

text \<open>C10.  A refusal ends in one of three ways: the merge step waits behind its producer; or, only for
  missing evidence that is allowed to be conceded, no row changes and the merge goes on; or the step
  fails with the refusal as its output and its run fails.\<close>

theorem gate_refusal_outcomes:
  assumes "applyLedgerGateRefusalSync specs s reason records allowance w = (w', res)"
    "wf_store w" "find_step (s_id s) w = Some c" "find_run (s_run_id s) w \<noteq> None"
  shows "case res of
      ORerouted \<Rightarrow> step_status_of (s_id s) w' = Some SWaiting
    | OConceded \<Rightarrow> allowance \<and> steps w' = steps w \<and> stories w' = stories w \<and> runs w' = runs w
    | OFailed \<Rightarrow> \<not> allowance \<and> step_status_of (s_id s) w' = Some SFailed
        \<and> map_option s_output (find_step (s_id s) w') = Some (Some reason)
        \<and> run_status_of (s_run_id s) w' = Some RFailed"
proof (cases res)
  case ORerouted
  with apply_rerouted [OF assms(1) [unfolded ORerouted] assms(2,3)] show ?thesis
    by (auto simp: step_status_of_def)
next
  case OConceded
  then show ?thesis using apply_not_rerouted [OF assms(1)] by (auto split: if_splits)
next
  case OFailed
  then obtain w1 n where w1: "\<not> allowance" "w' = fail_refused s n reason w1"
    "steps w1 = steps w" "runs w1 = runs w"
    using apply_not_rerouted [OF assms(1)] by (auto split: if_splits)
  then have "find_step (s_id s) w1 = Some c" "find_run (s_run_id s) w1 \<noteq> None"
    using assms(3,4) by (simp_all add: find_step_def find_run_def)
  then show ?thesis using fail_refused_effect w1 OFailed by simp
qed

lemma gate_refusal_outcomes_witness:
  "step_status_of ''m'' (fst (applyLedgerGateRefusalSync (\<lambda>_. None) merge0 ''no'' True False (ctx0 []))) = Some SFailed"
proof -
  have "applyLedgerGateRefusalSync (\<lambda>_. None) merge0 ''no'' True False (ctx0 []) =
      (fst (applyLedgerGateRefusalSync (\<lambda>_. None) merge0 ''no'' True False (ctx0 [])), OFailed)"
    by (simp add: applyLedgerGateRefusalSync_def gate_attempt_def getOnFailPolicySync_def
          gate_sample_rows gate_sample_fields)
  from gate_refusal_outcomes [OF this] show ?thesis
    by (simp add: gate_sample_rows gate_sample_fields)
qed


text \<open>Missing evidence sends a merge back at most once unless the run is strict: after one such
  reroute the step's concession is recorded, and from any later state that still has it the gate
  refuses missing evidence no more.\<close>

theorem missing_evidence_refused_once:
  assumes "gate_refuse h ev specs s (RefMissing g k) w = (w', ORerouted)" "wf_store w"
    "find_step (s_id s) w = Some c"
    "find_step (s_id s) w' = Some c1" "find_step (s_id s) w2 = Some c2"
    "s_ledger_concession_count c1 \<le> s_ledger_concession_count c2"
    "\<not> strict_missing (s_id s) g2 w2"
  shows "getLedgerGateRefusal (s_id s) (Missing g2 k2) w2 = None"
proof -
  from apply_rerouted [OF assms(1) [unfolded gate_refuse_def] assms(2,3)] assms(4)
  have "s_ledger_concession_count c1 \<ge> 1" by (auto simp: is_missing_def)
  then show ?thesis using assms(5-7)
    by (simp add: getLedgerGateRefusal_def hasLedgerGateConcession_def)
qed

lemma missing_evidence_refused_once_witness:
  "getLedgerGateRefusal ''m'' (Missing GDefault gate_key0) (record_concession ''m'' (ctx0 [])) = None"
proof -
  let ?w' = "fst (gate_refuse host0 (Native []) specs0 merge0 (RefMissing GDefault gate_key0) (ctx0 []))"
  let ?c = "merge0\<lparr>s_status := SPending, s_updated_at := Some 100\<rparr>"
  let ?c2 = "?c\<lparr>s_ledger_concession_count := 1\<rparr>"
  have e: "gate_refuse host0 (Native []) specs0 merge0 (RefMissing GDefault gate_key0) (ctx0 []) = (?w', ORerouted)"
    using gate_sample_missing by (metis prod.collapse)
  have c: "find_step (s_id merge0) (ctx0 []) = Some ?c" by (simp add: gate_sample_rows gate_sample_fields)
  obtain c' where c': "find_step (s_id merge0) ?w' = Some c'" "s_ledger_concession_count c' \<le> 1"
    using apply_rerouted [OF e [unfolded gate_refuse_def] gate_sample_rows(3) c]
    by (auto simp: gate_sample_fields is_missing_def gate_refuse_def)
  have c2: "find_step (s_id merge0) (record_concession ''m'' (ctx0 [])) = Some ?c2"
    by (simp add: record_concession_find gate_sample_rows gate_sample_fields)
  have s2: "\<not> strict_missing (s_id merge0) GDefault (record_concession ''m'' (ctx0 []))"
    using gate_sample_strict
    by (simp add: strict_missing_def getRunContextForStep_def record_concession_find gate_sample_rows
        gate_sample_fields)
  have "s_ledger_concession_count c' \<le> s_ledger_concession_count ?c2" using c'(2) by simp
  from missing_evidence_refused_once [OF e gate_sample_rows(3) c c'(1) c2 this s2]
  show ?thesis by (simp add: gate_sample_fields)
qed


text \<open>Native evidence is the most recent execution of exactly the key: same origin repository,
  tree and command, no matching row recorded later (or, at the same instant, with a greater id).\<close>

theorem native_evidence_latest:
  "case nativeEvidenceRow rows k of
     None \<Rightarrow> \<forall>r \<in> set rows.
       \<not> (sr_origin r = gk_origin k \<and> sr_tree r = gk_tree k \<and> sr_cmd r = gk_cmd_hash k)
   | Some row \<Rightarrow> \<exists>r \<in> set rows. row = ledger_row.truncate r
       \<and> sr_origin r = gk_origin k \<and> sr_tree r = gk_tree k \<and> sr_cmd r = gk_cmd_hash k
       \<and> (\<forall>r' \<in> set rows. sr_origin r' = gk_origin k \<and> sr_tree r' = gk_tree k
              \<and> sr_cmd r' = gk_cmd_hash k \<longrightarrow>
            (text_key (lr_created r'), lr_id r') \<le> (text_key (lr_created r), lr_id r))"
proof -
  let ?P = "\<lambda>r. sr_origin r = gk_origin k \<and> sr_tree r = gk_tree k \<and> sr_cmd r = gk_cmd_hash k"
  let ?key = "\<lambda>r::suite_result. (text_key (lr_created r), lr_id r)"
  show ?thesis
  proof (cases "first_max ?key (filter ?P rows)")
    case None
    then show ?thesis by (simp add: nativeEvidenceRow_def filter_empty_conv)
  next
    case (Some r)
    have "r \<in> set rows" "?P r" "\<forall>r' \<in> set rows. ?P r' \<longrightarrow> ?key r' \<le> ?key r"
      using first_max_Some [OF Some] by (simp_all del: less_eq_prod_simp)
    then show ?thesis unfolding nativeEvidenceRow_def Some by (simp del: less_eq_prod_simp) blast
  qed
qed

lemma native_evidence_latest_witness:
  "nativeEvidenceRow [row0] gate_key0 = None"
  using native_evidence_latest [of "[row0]" gate_key0]
  by (cases "nativeEvidenceRow [row0] gate_key0") (simp_all add: row0_def gate_key0_def)


end
