(* ===== verification/Claim_Context.thy ===== *)
theory Claim_Context
  imports Ledger_Ops Byte_Text Template Contract
begin

text \<open>
  What a step is given to work with (\<^verbatim>\<open>src/src/installer/step-ops.ts\<close>,
  \<^verbatim>\<open>src/src/lib/frontend-detect.ts\<close>, \<^verbatim>\<open>src/src/lib/id-prefix.ts\<close>): the context collected from the
  run and the steps before it, and what happens when a placeholder of its template has no value.

  Random record ids and the time stamps of events are left out of the event log.  A dash in a text
  of the source is a hyphen here.
\<close>

section \<open>The environment\<close>

record env =
  e_host :: host
  e_specs :: specs
  e_evidence :: evidence
  e_diff_names :: "string \<Rightarrow> string \<Rightarrow> string option"
  e_run_root :: string

section \<open>Identifiers\<close>

definition prefixRunId :: "string \<Rightarrow> string" where
  "prefixRunId uuid = ''run-'' @ uuid"

definition prefixStepId :: "string \<Rightarrow> string" where
  "prefixStepId uuid = ''step-'' @ uuid"

definition isRunPrefixed :: "string \<Rightarrow> bool" where
  "isRunPrefixed i \<longleftrightarrow> starts_with ''run-'' i"

definition isStepPrefixed :: "string \<Rightarrow> bool" where
  "isStepPrefixed i \<longleftrightarrow> starts_with ''step-'' i"

definition stripIdPrefix :: "string \<Rightarrow> string" where
  "stripIdPrefix i =
     (if isRunPrefixed i then drop 4 i else if isStepPrefixed i then drop 5 i else i)"

datatype id_kind = KRun | KStep

definition detectWrongPrefix :: "string \<Rightarrow> id_kind \<Rightarrow> string option" where
  "detectWrongPrefix i kind =
     (if kind = KRun \<and> isStepPrefixed i
      then Some (''that is a step id, not a run id - '' @ i)
      else if kind = KStep \<and> isRunPrefixed i
      then Some (''that is a run id, not a step id - step complete needs the stepId from your claim JSON (got ''
                 @ i @ '')'')
      else None)"

section \<open>Frontend changes\<close>

definition in_dir :: "string \<Rightarrow> string \<Rightarrow> bool" where
  "in_dir f d \<longleftrightarrow> starts_with (d @ ''/'') f \<or> str_includes (''/'' @ d @ ''/'') f"

definition frontend_suffixes :: "string list" where
  "frontend_suffixes =
     [''.css'', ''.scss'', ''.sass'', ''.less'', ''.styl'', ''.jsx'', ''.tsx'', ''.vue'', ''.svelte'',
      ''.html'', ''.htm'', ''.svg'', ''.ejs'', ''.hbs'', ''.handlebars'', ''.mustache'', ''.njk'',
      ''.twig'', ''.module.css'', ''.module.scss'', ''.ico'', ''.woff'', ''.woff2'', ''.ttf'', ''.eot'',
      ''tailwind.config.js'', ''tailwind.config.ts'', ''tailwind.config.cjs'', ''tailwind.config.mjs'',
      ''postcss.config.js'', ''postcss.config.ts'', ''postcss.config.cjs'', ''postcss.config.mjs'']"

definition frontend_dirs :: "string list" where
  "frontend_dirs =
     [''component'', ''components'', ''page'', ''pages'', ''view'', ''views'', ''layout'', ''layouts'',
      ''static'', ''public'', ''assets'', ''style'', ''styles'', ''css'', ''scss'', ''client'',
      ''frontend'', ''ui'']"

definition backend_dirs :: "string list" where
  "backend_dirs = [''api'', ''server'', ''backend'', ''dist'', ''build'', ''_generated'']"

definition frontend_file :: "string \<Rightarrow> bool" where
  "frontend_file f \<longleftrightarrow>
     (let n = map (\<lambda>c. if c = CHR 0x5C then CHR ''/'' else c) f
      in \<not> (ends_with ''.server.jsx'' n \<or> ends_with ''.server.tsx'' n \<or> list_ex (in_dir n) backend_dirs)
         \<and> (list_ex (\<lambda>x. ends_with x n) frontend_suffixes \<or> list_ex (in_dir n) frontend_dirs))"

definition isFrontendChange :: "string list \<Rightarrow> bool" where
  "isFrontendChange files \<longleftrightarrow> list_ex frontend_file files"

definition computeHasFrontendChanges :: "env \<Rightarrow> string \<Rightarrow> string \<Rightarrow> string" where
  "computeHasFrontendChanges e repo branch =
     (case e_diff_names e repo (''main..'' @ branch) of
        None \<Rightarrow> ''false''
      | Some out \<Rightarrow>
          if isFrontendChange (filter (\<lambda>f. f \<noteq> []) (split_on newline (trim out)))
          then ''true'' else ''false'')"

section \<open>Stories in a template\<close>

definition getStories :: "string \<Rightarrow> store \<Rightarrow> story list" where
  "getStories runId w = sort_key t_story_index (run_stories runId w)"

definition formatStoryForTemplate :: "story \<Rightarrow> string" where
  "formatStoryForTemplate t =
     ''Story '' @ t_story_id t @ '': '' @ t_title t @ [newline, newline] @ t_description t
     @ [newline, newline] @ ''Acceptance Criteria:'' @ [newline]
     @ join [newline]
         (map (\<lambda>(i, c). ''  '' @ nat_str (i + 1) @ ''. '' @ c) (enumerate 0 (t_acceptance t)))"

definition formatCompletedStories :: "story list \<Rightarrow> string" where
  "formatCompletedStories ts =
     (let done = filter (\<lambda>t. t_status t = TDone) ts
      in if done = [] then ''(none yet)''
         else join [newline] (map (\<lambda>t. ''- '' @ t_story_id t @ '': '' @ t_title t) done))"

definition getRunProgressPath :: "env \<Rightarrow> string \<Rightarrow> string" where
  "getRunProgressPath e runId = path_join [e_run_root e, runId, ''progress.txt'']"

definition progress_note :: "string \<Rightarrow> string" where
  "progress_note p =
     ''stored in the file '' @ p
     @ '' - read only what you need (grep for story ids; the Codebase Patterns section is at the top)''"

definition with_progress :: "string \<Rightarrow> ctx \<Rightarrow> ctx" where
  "with_progress p m = m(''progress'' \<mapsto> progress_note p, ''progress_file'' \<mapsto> p)"

text \<open>The guest's view of the progress file, for a step that runs in a sandbox.\<close>

definition renderWithProgressView :: "string option \<Rightarrow> ctx \<Rightarrow> ctx" where
  "renderWithProgressView guestFile m =
     (case guestFile of
        None \<Rightarrow> m
      | Some p \<Rightarrow> if m ''progress_file'' = None then m else with_progress p m)"

definition unfinished_count :: "story list \<Rightarrow> nat" where
  "unfinished_count ts = length (filter (\<lambda>t. t_status t = TPending \<or> t_status t = TRunning) ts)"

definition with_story :: "story \<Rightarrow> story list \<Rightarrow> string \<Rightarrow> ctx \<Rightarrow> ctx" where
  "with_story t ts p m =
     with_progress p
       (m(''current_story'' \<mapsto> formatStoryForTemplate t, ''current_story_id'' \<mapsto> t_story_id t,
          ''current_story_title'' \<mapsto> t_title t, ''completed_stories'' \<mapsto> formatCompletedStories ts,
          ''stories_remaining'' \<mapsto> nat_str (unfinished_count ts)))"

definition default_empty :: "string \<Rightarrow> ctx \<Rightarrow> ctx" where
  "default_empty k m = (if truthy m k then m else m(k \<mapsto> []))"

section \<open>The context of a step\<close>

text \<open>Texts of the store are 8-bit, so the tail that is kept of them is a suffix and stays 8-bit.\<close>

definition feedback_text :: "string option \<Rightarrow> nat \<Rightarrow> string" where
  "feedback_text raw n = map char_of (formatRetryFeedback (map_option units_of raw) n)"

definition output_keys :: "string option \<Rightarrow> ctx" where
  "output_keys out =
     (case out of
        None \<Rightarrow> Map.empty
      | Some s \<Rightarrow> (\<lambda>k. if k \<in> set RESERVED_CONTEXT_KEYS then None else parseOutputKeyValues s k))"

definition upstream_done :: "string \<Rightarrow> nat \<Rightarrow> store \<Rightarrow> step list" where
  "upstream_done runId i w =
     sort_key s_step_index
       (filter (\<lambda>u. s_step_index u < i \<and> (s_status u = SDone \<or> s_status u = SSkipped))
          (run_steps runId w))"

definition derived_keys :: "env \<Rightarrow> ctx \<Rightarrow> ctx" where
  "derived_keys e m =
     (let m1 = (if truthy m ''repo'' \<and> truthy m ''branch''
                then m(''has_frontend_changes'' \<mapsto>
                         computeHasFrontendChanges e (get_or_empty m ''repo'') (get_or_empty m ''branch''))
                else m)
      in if truthy m1 ''pr_url'' then m1(''has_pr'' \<mapsto> ''true'') else m1)"

definition story_keys :: "env \<Rightarrow> string \<Rightarrow> story \<Rightarrow> string option \<Rightarrow> store \<Rightarrow> ctx \<Rightarrow> ctx" where
  "story_keys e runId t progressFile w m =
     (let m1 = default_empty ''verify_feedback''
                 (with_story t (getStories runId w)
                    (case progressFile of Some p \<Rightarrow> p | None \<Rightarrow> getRunProgressPath e runId) m)
      in if truthy m1 ''retry_feedback''
         then m1(''retry_feedback'' \<mapsto>
                   feedback_text (Some (get_or_empty m1 ''retry_feedback'')) (t_retry_count t))
         else m1)"

definition resolveStepContext ::
    "env \<Rightarrow> string \<Rightarrow> nat \<Rightarrow> story option \<Rightarrow> string option \<Rightarrow> store \<Rightarrow> ctx \<times> store" where
  "resolveStepContext e runId stepIndex story progressFile w =
     (let (m0, w1) = (case find_run runId w of
                        None \<Rightarrow> (Map.empty, w)
                      | Some r \<Rightarrow> parseRunContext runId (r_context r) w);
          m1 = foldl (\<lambda>m u. m ++ output_keys (s_output u)) (m0(''run_id'' \<mapsto> runId))
                 (upstream_done runId stepIndex w1);
          m2 = derived_keys e m1
      in ((case story of None \<Rightarrow> m2 | Some t \<Rightarrow> story_keys e runId t progressFile w1 m2), w1))"

section \<open>Missing keys\<close>

definition findProducerForMissingKey :: "string \<Rightarrow> nat \<Rightarrow> string \<Rightarrow> store \<Rightarrow> step option" where
  "findProducerForMissingKey runId currentStepIndex missingKey w =
     List.find (\<lambda>u. lower missingKey \<in> set (parseExpectedKeys (s_input_template u)))
       (sort_key (\<lambda>u. - int (s_step_index u))
          (filter (\<lambda>u. s_step_index u < currentStepIndex \<and> s_status u = SDone) (run_steps runId w)))"

definition failRunForMissingTemplateKeys ::
    "string \<Rightarrow> string \<Rightarrow> string \<Rightarrow> string \<Rightarrow> string \<Rightarrow> store \<Rightarrow> store" where
  "failRunForMissingTemplateKeys stepRowId stepId runId agentId message w =
     (let wfid = getWorkflowId runId w;
          w1 = fail_run runId
                 (set_step stepRowId (\<lambda>s. s\<lparr>s_status := SFailed, s_output := Some message\<rparr>) w)
      in scheduleRunCronTeardown runId
           (emitRunTerminalEvent ''run.failed'' runId wfid (Some message) None
              (emit ''step.failed'' runId
                 (opt_str ''workflowId'' wfid
                  @ [(''stepId'', VStr stepId), (''agentId'', VStr agentId), (''detail'', VStr message)])
                 w1)))"

datatype key_action = Proceed | Rejected | Fatal string

definition exhausted_producer :: "step \<Rightarrow> bool" where
  "exhausted_producer p \<longleftrightarrow> s_retry_count p \<ge> s_max_retries p"

definition no_producer_keys :: "string \<Rightarrow> nat \<Rightarrow> string list \<Rightarrow> store \<Rightarrow> string list" where
  "no_producer_keys runId i keys w =
     filter (\<lambda>k. findProducerForMissingKey runId i k w = None) keys"

definition exhausted_details :: "string \<Rightarrow> nat \<Rightarrow> string list \<Rightarrow> store \<Rightarrow> string list" where
  "exhausted_details runId i keys w =
     concat (map (\<lambda>k. case findProducerForMissingKey runId i k w of
                        None \<Rightarrow> []
                      | Some p \<Rightarrow>
                          if exhausted_producer p
                          then [k @ '' (producer '' @ s_id p @ '' exhausted at ''
                                @ nat_str (s_retry_count p) @ ''/'' @ nat_str (s_max_retries p)
                                @ '' retries)'']
                          else []) keys)"

text \<open>The producers to run again, in the order their first key appears.\<close>

fun dedup_steps :: "string list \<Rightarrow> step list \<Rightarrow> step list" where
  "dedup_steps seen [] = []"
| "dedup_steps seen (p # ps) =
     (if s_id p \<in> set seen then dedup_steps seen ps else p # dedup_steps (s_id p # seen) ps)"

definition live_producers :: "string \<Rightarrow> nat \<Rightarrow> string list \<Rightarrow> store \<Rightarrow> step list" where
  "live_producers runId i keys w =
     dedup_steps []
       (concat (map (\<lambda>k. case findProducerForMissingKey runId i k w of
                           None \<Rightarrow> []
                         | Some p \<Rightarrow> if exhausted_producer p then [] else [p]) keys))"

definition key_rejected_event ::
    "string \<Rightarrow> string \<Rightarrow> string \<Rightarrow> string list \<Rightarrow> string \<Rightarrow> string \<Rightarrow> store \<Rightarrow> store" where
  "key_rejected_event runId rowId stepId keys prodId k w =
     emit ''dispatch.keys.rejected'' runId
       [(''stepRowId'', VStr rowId), (''stepId'', VStr stepId),
        (''claimId'', VStr (rowId @ '':missing-context'')), (''requiredKeys'', VList keys),
        (''unresolvedPlaceholderCount'', VNat 1), (''unresolvedKeys'', VList [k]),
        (''dispatched'', VBool False), (''producerStepRowId'', VStr prodId),
        (''transitionAction'', VStr ''reroute''), (''transitionTargetStepRowId'', VStr prodId)] w"

definition repend_for_keys ::
    "string \<Rightarrow> string \<Rightarrow> string \<Rightarrow> string \<Rightarrow> string option \<Rightarrow> string list \<Rightarrow> string list \<Rightarrow> string \<Rightarrow>
     step \<Rightarrow> store \<Rightarrow> store" where
  "repend_for_keys runId stepId rowId agentId wfid keys mine feedback p w =
     fold (key_rejected_event runId rowId stepId keys (s_id p)) mine
       (emit ''step.repended'' runId
          (opt_str ''workflowId'' wfid
           @ [(''stepId'', VStr (s_id p)), (''agentId'', VStr agentId),
              (''detail'', VStr (''Re-pended with retry_feedback: '' @ feedback))])
          (set_step (s_id p)
             (\<lambda>s. s\<lparr>s_status := SPending, s_retry_count := Suc (s_retry_count p),
                    s_output := Some feedback, s_claim_job_id := None, s_claim_pid := None,
                    s_claim_pgid := None\<rparr>) w))"

definition keys_of_producer :: "string \<Rightarrow> nat \<Rightarrow> string list \<Rightarrow> store \<Rightarrow> step \<Rightarrow> string list" where
  "keys_of_producer runId i keys w p =
     filter (\<lambda>k. map_option s_id (findProducerForMissingKey runId i k w) = Some (s_id p)) keys"

definition resolveMissingKeys ::
    "string \<Rightarrow> nat \<Rightarrow> string \<Rightarrow> string \<Rightarrow> string \<Rightarrow> string list \<Rightarrow> store \<Rightarrow> store \<times> key_action" where
  "resolveMissingKeys runId i stepId rowId agentId keys w =
     (if keys = [] then (w, Proceed)
      else
        (let unres = no_producer_keys runId i keys w; exh = exhausted_details runId i keys w;
             m1 = ''Run failed: step \"'' @ stepId @ ''\" requires template key(s) '' @ join '', '' unres
                  @ '' but no upstream DONE step declares them in its Reply-with block.'';
             m2 = ''Run failed: step \"'' @ stepId @ ''\" requires template key(s) '' @ join '', '' keys
                  @ '' but producer retries are exhausted: '' @ join ''; '' exh @ ''.'';
             feedback = ''Missing key(s) needed by downstream step \"'' @ stepId @ ''\": ''
                        @ join '', '' keys
         in if unres \<noteq> [] then (failRunForMissingTemplateKeys rowId stepId runId agentId m1 w, Fatal m1)
            else if exh \<noteq> [] then (failRunForMissingTemplateKeys rowId stepId runId agentId m2 w, Fatal m2)
            else (fold (\<lambda>p. repend_for_keys runId stepId rowId agentId (getWorkflowId runId w) keys
                              (keys_of_producer runId i keys w p) feedback p)
                    (live_producers runId i keys w) w,
                  Rejected)))"

end
