(* ===== verification/Instant.thy ===== *)
theory Instant
  imports Prelude
begin

text \<open>
  Instants and clocks (\<^verbatim>\<open>src/src/lib/instant.ts\<close>): reading and printing of UTC instants, ages of
  durable instants, and the monotonic stopwatch and deadline.  An instant is a count of milliseconds
  since the epoch.  The calendar is the proleptic Gregorian one of JavaScript's \<^verbatim>\<open>Date\<close>; its parser
  takes days up to 31 for every month and lets them run into the next one, takes 24:00:00 for the end
  of a day, keeps three digits of a fraction, and takes offsets up to 23:59.
\<close>

section \<open>The calendar\<close>

definition days_before_year :: "int \<Rightarrow> int" where
  "days_before_year y = 365 * y + (y + 3) div 4 - (y + 99) div 100 + (y + 399) div 400"

definition leap :: "int \<Rightarrow> bool" where
  "leap y \<longleftrightarrow> y mod 4 = 0 \<and> (y mod 100 \<noteq> 0 \<or> y mod 400 = 0)"

definition month_lengths :: "bool \<Rightarrow> int list" where
  "month_lengths l = [31, if l then 29 else 28, 31, 30, 31, 30, 31, 31, 30, 31, 30, 31]"

text \<open>Days from 1 January of the year 0 to a date; the epoch is day 719528.\<close>

definition day_number :: "int \<Rightarrow> nat \<Rightarrow> int \<Rightarrow> int" where
  "day_number y m d = days_before_year y + sum_list (take (m - 1) (month_lengths (leap y))) + d - 1"

definition year_of :: "int \<Rightarrow> int" where
  "year_of n =
     (let y = (400 * n) div 146097
      in if days_before_year (y + 1) \<le> n then y + 1
         else if n < days_before_year y then y - 1 else y)"

fun split_month :: "nat \<Rightarrow> int \<Rightarrow> int list \<Rightarrow> nat \<times> int" where
  "split_month m k [] = (m, k)"
| "split_month m k (l # ls) = (if k < l then (m, k) else split_month (Suc m) (k - l) ls)"

section \<open>Printing\<close>

fun fixed :: "nat \<Rightarrow> nat \<Rightarrow> string" where
  "fixed 0 n = []"
| "fixed (Suc k) n = fixed k (n div 10) @ [digit_char (n mod 10)]"

definition year_str :: "int \<Rightarrow> string" where
  "year_str y =
     (if 0 \<le> y \<and> y \<le> 9999 then fixed 4 (nat y)
      else (if y < 0 then ''-'' else ''+'') @ fixed 6 (nat \<bar>y\<bar>))"

text \<open>\<^verbatim>\<open>new Date(ms).toISOString()\<close>, what \<^verbatim>\<open>nowIso\<close> and \<^verbatim>\<open>SQL_NOW_ISO\<close> write.\<close>

definition to_iso :: "int \<Rightarrow> string" where
  "to_iso ms =
     (let n = ms div 86400000 + 719528; t = nat (ms mod 86400000); y = year_of n;
          (m, d) = split_month 1 (n - days_before_year y) (month_lengths (leap y))
      in year_str y @ ''-'' @ fixed 2 m @ ''-'' @ fixed 2 (nat (d + 1)) @ ''T''
         @ fixed 2 (t div 3600000) @ '':'' @ fixed 2 (t div 60000 mod 60) @ '':''
         @ fixed 2 (t div 1000 mod 60) @ ''.'' @ fixed 3 (t mod 1000) @ ''Z'')"

section \<open>Reading\<close>

definition read_num :: "string \<Rightarrow> nat" where
  "read_num s = foldl (\<lambda>a c. 10 * a + (code_of c - 48)) 0 s"

text \<open>Exactly \<open>k\<close> digits at the head of the text.\<close>

definition digits :: "nat \<Rightarrow> string \<Rightarrow> (nat \<times> string) option" where
  "digits k s =
     (if length (take k s) = k \<and> list_all is_digit (take k s) then Some (read_num (take k s), drop k s)
      else None)"

definition expect :: "char list \<Rightarrow> string \<Rightarrow> string option" where
  "expect cs s = (case s of [] \<Rightarrow> None | c # r \<Rightarrow> if c \<in> set cs then Some r else None)"

text \<open>\<^verbatim>\<open>(?:\.\d+)?\<close>, as milliseconds.\<close>

definition fraction :: "string \<Rightarrow> nat \<times> string" where
  "fraction s =
     (case s of
        [] \<Rightarrow> (0, s)
      | c # r \<Rightarrow>
          (let f = takeWhile is_digit r
           in if c = CHR ''.'' \<and> f \<noteq> []
              then (read_num (take 3 (f @ ''00'')), dropWhile is_digit r)
              else (0, s)))"

record civil =
  cv_year :: nat
  cv_month :: nat
  cv_day :: nat
  cv_hour :: nat
  cv_min :: nat
  cv_sec :: nat
  cv_ms :: nat

definition and_then :: "'a option \<Rightarrow> ('a \<Rightarrow> 'b option) \<Rightarrow> 'b option" where
  "and_then x f = (case x of None \<Rightarrow> None | Some a \<Rightarrow> f a)"

definition date_time :: "string \<Rightarrow> (civil \<times> string) option" where
  "date_time s0 =
     and_then (digits 4 s0) (\<lambda>(y, s1). and_then (expect ''-'' s1) (\<lambda>s2.
     and_then (digits 2 s2) (\<lambda>(mo, s3). and_then (expect ''-'' s3) (\<lambda>s4.
     and_then (digits 2 s4) (\<lambda>(d, s5). and_then (expect '' T'' s5) (\<lambda>s6.
     and_then (digits 2 s6) (\<lambda>(h, s7). and_then (expect '':'' s7) (\<lambda>s8.
     and_then (digits 2 s8) (\<lambda>(mi, s9). and_then (expect '':'' s9) (\<lambda>s10.
     and_then (digits 2 s10) (\<lambda>(se, s11).
       (let (ms, r) = fraction s11
        in Some (\<lparr>cv_year = y, cv_month = mo, cv_day = d, cv_hour = h, cv_min = mi, cv_sec = se,
                  cv_ms = ms\<rparr>, r)))))))))))))"

definition valid_civil :: "civil \<Rightarrow> bool" where
  "valid_civil c \<longleftrightarrow>
     1 \<le> cv_month c \<and> cv_month c \<le> 12 \<and> 1 \<le> cv_day c \<and> cv_day c \<le> 31
     \<and> cv_min c < 60 \<and> cv_sec c < 60
     \<and> (cv_hour c < 24 \<or> cv_hour c = 24 \<and> cv_min c = 0 \<and> cv_sec c = 0 \<and> cv_ms c = 0)"

definition epoch_ms :: "civil \<Rightarrow> int" where
  "epoch_ms c =
     (day_number (int (cv_year c)) (cv_month c) (int (cv_day c)) - 719528) * 86400000
     + int (cv_hour c) * 3600000 + int (cv_min c) * 60000 + int (cv_sec c) * 1000 + int (cv_ms c)"

text \<open>The zone of \<^verbatim>\<open>ZONED_ISO_RE\<close>, in milliseconds east of UTC.\<close>

definition zone :: "string \<Rightarrow> int option" where
  "zone r =
     (case r of
        [] \<Rightarrow> None
      | c # s0 \<Rightarrow>
          if c = CHR ''Z'' \<or> c = CHR ''z'' then (if s0 = [] then Some 0 else None)
          else if c = CHR ''+'' \<or> c = CHR ''-''
          then and_then (digits 2 s0) (\<lambda>(h, s1). and_then (expect '':'' s1) (\<lambda>s2.
               and_then (digits 2 s2) (\<lambda>(m, s3).
                 if s3 = [] \<and> h < 24 \<and> m < 60
                 then Some ((if c = CHR ''-'' then -1 else 1) * (int h * 3600000 + int m * 60000))
                 else None)))
          else None)"

definition parseInstant :: "string \<Rightarrow> int option" where
  "parseInstant value =
     and_then (date_time (trim value)) (\<lambda>(c, r).
       if \<not> valid_civil c then None
       else if r = [] then Some (epoch_ms c)
       else and_then (zone r) (\<lambda>off. Some (epoch_ms c - off)))"

datatype instant_style = IsoStyle | LogStyle

datatype instant_arg = NoInstant | DateArg "int option" | TextArg string

definition toValidInstant :: "instant_arg \<Rightarrow> int option" where
  "toValidInstant v = (case v of NoInstant \<Rightarrow> None | DateArg d \<Rightarrow> d | TextArg s \<Rightarrow> parseInstant s)"

definition formatInstant :: "instant_arg \<Rightarrow> instant_style \<Rightarrow> string option" where
  "formatInstant v style =
     (case toValidInstant v of
        None \<Rightarrow> None
      | Some ms \<Rightarrow>
          (let iso = to_iso ms
           in Some (if style = LogStyle then take 10 iso @ '' '' @ take 8 (drop 11 iso) @ ''Z'' else iso)))"

section \<open>Ages and deadlines\<close>

definition instantAgeMs :: "int option \<Rightarrow> int \<Rightarrow> int option" where
  "instantAgeMs instant nowMs = map_option (\<lambda>ms. nowMs - ms) instant"

definition isOlderThan :: "int option \<Rightarrow> int \<Rightarrow> int \<Rightarrow> int \<Rightarrow> bool" where
  "isOlderThan instant maxAgeMs nowMs toleranceMs =
     (case instantAgeMs instant nowMs of None \<Rightarrow> False | Some age \<Rightarrow> age > maxAgeMs + toleranceMs)"

text \<open>A monotonic clock reads numbers that never go back; a stopwatch keeps the reading at its start.\<close>

record stopwatch = origin_ms :: int

definition stopwatch_new :: "int \<Rightarrow> stopwatch" where
  "stopwatch_new clock = \<lparr>origin_ms = clock\<rparr>"

definition stopwatch_start :: "int \<Rightarrow> stopwatch \<Rightarrow> stopwatch" where
  "stopwatch_start clock s = s\<lparr>origin_ms := clock\<rparr>"

definition stopwatch_elapsed :: "int \<Rightarrow> stopwatch \<Rightarrow> int" where
  "stopwatch_elapsed clock s = clock - origin_ms s"

record deadline =
  budget_ms :: int
  dl_origin_ms :: int

definition deadline_new :: "int \<Rightarrow> int \<Rightarrow> deadline" where
  "deadline_new budget clock = \<lparr>budget_ms = budget, dl_origin_ms = clock\<rparr>"

definition remainingMs :: "int \<Rightarrow> deadline \<Rightarrow> int" where
  "remainingMs clock d = budget_ms d - (clock - dl_origin_ms d)"

definition expired :: "int \<Rightarrow> deadline \<Rightarrow> bool" where
  "expired clock d \<longleftrightarrow> remainingMs clock d \<le> 0"

section \<open>The year of a day\<close>

lemma div_le: "0 < k \<Longrightarrow> k * (x div k) \<le> x" for x k :: int
  using pos_mod_sign [of k x] mult_div_mod_eq [of k x] by linarith

lemma div_gt: "0 < k \<Longrightarrow> x < k * (x div k) + k" for x k :: int
  using pos_mod_bound [of k x] mult_div_mod_eq [of k x] by linarith


lemma div_step:
  fixes x k :: int
  assumes "0 < k"
  shows "(x + 1) div k = x div k + (if (x + 1) mod k = 0 then 1 else 0)"
proof (cases "x mod k = k - 1")
  case True
  then have "x + 1 = k * (x div k + 1)"
    using mult_div_mod_eq [of k x] by (simp add: distrib_left)
  then show ?thesis using assms by simp
next
  case False
  then have r: "0 \<le> x mod k + 1" "x mod k + 1 < k"
    using pos_mod_bound [OF assms, of x] pos_mod_sign [OF assms, of x] by linarith+
  have e: "x + 1 = k * (x div k) + (x mod k + 1)"
    using mult_div_mod_eq [of k x] by linarith
  have "(x + 1) div k = x div k" "(x + 1) mod k = x mod k + 1"
    using int_div_pos_eq [OF e r] int_mod_pos_eq [OF e r] by simp_all
  moreover have "x mod k + 1 \<noteq> 0" using pos_mod_sign [OF assms, of x] by linarith
  ultimately show ?thesis by simp
qed

lemma div_step': "0 < k \<Longrightarrow> (x + k) div k = (x + k - 1) div k + (if x mod k = 0 then 1 else 0)"
  for x k :: int
  using div_step [of k "x + k - 1"] by simp

lemma days_before_year_near:
  "146097 * y - 400 \<le> 400 * days_before_year y" "400 * days_before_year y \<le> 146097 * y + 700"
  unfolding days_before_year_def
  using div_le [of 4 "y + 3"] div_le [of 100 "y + 99"] div_le [of 400 "y + 399"]
    div_gt [of 4 "y + 3"] div_gt [of 100 "y + 99"] div_gt [of 400 "y + 399"]
  by simp_all

lemma days_before_year_mono: "y \<le> z \<Longrightarrow> days_before_year y \<le> days_before_year z"
proof (cases "y = z")
  case False
  assume "y \<le> z"
  with False have "y + 1 \<le> z" by simp
  then show ?thesis using days_before_year_near [of y] days_before_year_near [of z] by linarith
qed simp

lemma year_of_unique:
  assumes "days_before_year y \<le> n" "n < days_before_year (y + 1)"
  shows "year_of n = y"
proof -
  let ?e = "(400 * n) div 146097"
  have "146097 * y - 400 \<le> 400 * n" "400 * n \<le> 146097 * (y + 1) + 300"
    using assms days_before_year_near [of y] days_before_year_near [of "y + 1"] by linarith+
  then have "y - 1 \<le> ?e" "?e \<le> y + 1"
    using div_le [of 146097 "400 * n"] div_gt [of 146097 "400 * n"] by simp_all
  then consider "?e = y - 1" | "?e = y" | "?e = y + 1" by linarith
  then show ?thesis
  proof cases
    case 1
    then show ?thesis using assms by (simp add: year_of_def)
  next
    case 2
    then show ?thesis using assms by (simp add: year_of_def)
  next
    case 3
    then show ?thesis using assms days_before_year_mono [of "y + 1" "y + 1 + 1"]
      by (simp add: year_of_def)
  qed
qed

lemma year_exists: "\<exists>y. days_before_year y \<le> n \<and> n < days_before_year (y + 1)"
proof -
  let ?e = "(400 * n) div 146097"
  have "days_before_year (?e - 1) \<le> n" "n < days_before_year (?e + 2)"
    using div_le [of 146097 "400 * n"] div_gt [of 146097 "400 * n"] days_before_year_near [of "?e - 1"]
      days_before_year_near [of "?e + 2"] by simp_all
  moreover have "?e - 1 + 1 = ?e" "?e + 1 + 1 = ?e + 2" by simp_all
  ultimately show ?thesis by (metis not_less)
qed

lemma year_of_bounds: "days_before_year (year_of n) \<le> n" "n < days_before_year (year_of n + 1)"
  using year_exists [of n] year_of_unique by metis+

lemma year_length:
  "days_before_year (y + 1) - days_before_year y = sum_list (month_lengths (leap y))"
proof -
  define a b c where "a = (y + 3) div 4" and "b = (y + 99) div 100" and "c = (y + 399) div 400"
  have e: "y + 1 + 3 = y + 4" "y + 4 - 1 = y + 3" "y + 1 + 99 = y + 100" "y + 100 - 1 = y + 99"
    "y + 1 + 399 = y + 400" "y + 400 - 1 = y + 399" by simp_all
  have s4: "(y + 1 + 3) div 4 = a + (if y mod 4 = 0 then 1 else 0)"
    unfolding e a_def by (rule div_step' [of 4 y, unfolded e, OF zero_less_numeral])
  have s100: "(y + 1 + 99) div 100 = b + (if y mod 100 = 0 then 1 else 0)"
    unfolding e b_def by (rule div_step' [of 100 y, unfolded e, OF zero_less_numeral])
  have s400: "(y + 1 + 399) div 400 = c + (if y mod 400 = 0 then 1 else 0)"
    unfolding e c_def by (rule div_step' [of 400 y, unfolded e, OF zero_less_numeral])
  have n: "y mod 100 = 0 \<Longrightarrow> y mod 4 = 0" "y mod 400 = 0 \<Longrightarrow> y mod 100 = 0" by presburger+
  have d: "days_before_year (y + 1) - days_before_year y = 365 + (if y mod 4 = 0 then 1 else 0)
      - (if y mod 100 = 0 then 1 else 0) + (if y mod 400 = 0 then 1 else 0)"
    unfolding days_before_year_def s4 s100 s400 a_def [symmetric] b_def [symmetric] c_def [symmetric] by simp
  have l: "sum_list (month_lengths l) = (if l then 366 else 365)" for l
    by (simp add: month_lengths_def)
  show ?thesis unfolding d l leap_def using n
    by (cases "y mod 4 = 0"; cases "y mod 100 = 0"; cases "y mod 400 = 0") simp_all
qed

section \<open>Reading what was printed\<close>

lemma length_fixed [simp]: "length (fixed k n) = k"
  by (induction k arbitrary: n) simp_all

lemma is_digit_digit_char: "d < 10 \<Longrightarrow> is_digit (digit_char d)"
  by (simp add: is_digit_def in_range_def code_of_digit_char)

lemma fixed_digits: "list_all is_digit (fixed k n)"
  by (induction k arbitrary: n) (simp_all add: is_digit_digit_char)

lemma read_num_snoc: "read_num (s @ [c]) = 10 * read_num s + (code_of c - 48)"
  by (simp add: read_num_def)

lemma read_num_fixed: "n < 10 ^ k \<Longrightarrow> read_num (fixed k n) = n"
proof (induction k arbitrary: n)
  case 0
  then show ?case by (simp add: read_num_def)
next
  case (Suc k)
  have "n div 10 < 10 ^ k" using Suc.prems by (simp add: less_mult_imp_div_less mult.commute)
  then show ?case using Suc.IH [of "n div 10"]
    by (simp add: read_num_snoc code_of_digit_char)
qed

lemma digits_fixed: "n < 10 ^ k \<Longrightarrow> digits k (fixed k n @ r) = Some (n, r)"
  by (simp add: digits_def fixed_digits read_num_fixed)

lemma split_month_sum:
  assumes "split_month m k ls = (m', d)" "0 \<le> k" "k < sum_list ls"
  shows "m \<le> m' \<and> m' < m + length ls \<and> 0 \<le> d \<and> d < ls ! (m' - m)
    \<and> sum_list (take (m' - m) ls) + d = k"
  using assms
proof (induction m k ls rule: split_month.induct)
  case (1 m k)
  then show ?case by simp
next
  case (2 m k l ls)
  show ?case
  proof (cases "k < l")
    case True
    then show ?thesis using 2 by auto
  next
    case False
    with 2 have h: "Suc m \<le> m'" "m' < Suc m + length ls" "0 \<le> d" "d < ls ! (m' - Suc m)"
      "sum_list (take (m' - Suc m) ls) + d = k - l" by auto
    then obtain j where "m' - m = Suc j" "m' - Suc m = j"
      by (metis Suc_diff_Suc Suc_le_eq)
    then show ?thesis using h by auto
  qed
qed

lemma month_length_bound: "i < 12 \<Longrightarrow> month_lengths l ! i \<le> 31"
proof -
  have "\<forall>x \<in> set (month_lengths l). x \<le> 31" by (simp add: month_lengths_def)
  moreover have "length (month_lengths l) = 12" by (simp add: month_lengths_def)
  ultimately show "i < 12 \<Longrightarrow> ?thesis" by simp
qed

text \<open>The text of a date and time of day, read back.\<close>

definition civil_text :: "civil \<Rightarrow> string" where
  "civil_text c =
     fixed 4 (cv_year c) @ ''-'' @ fixed 2 (cv_month c) @ ''-'' @ fixed 2 (cv_day c) @ ''T''
     @ fixed 2 (cv_hour c) @ '':'' @ fixed 2 (cv_min c) @ '':'' @ fixed 2 (cv_sec c)
     @ ''.'' @ fixed 3 (cv_ms c) @ ''Z''"

lemma fraction_fixed: "n < 1000 \<Longrightarrow> fraction (CHR ''.'' # fixed 3 n @ ''Z'') = (n, ''Z'')"
proof -
  assume n: "n < 1000"
  have z: "\<not> is_digit (CHR ''Z'')" by (simp add: js_simps)
  have t: "takeWhile is_digit (fixed 3 n @ ''Z'') = fixed 3 n"
    "dropWhile is_digit (fixed 3 n @ ''Z'') = ''Z''"
    using fixed_digits [of 3 n] z
    by (simp_all add: takeWhile_append2 dropWhile_append2 list_all_iff)
  have "fixed 3 n \<noteq> []" using length_fixed [of 3 n] by force
  moreover have "read_num (fixed 3 n) = n" by (rule read_num_fixed) (use n in simp)
  ultimately show ?thesis by (simp add: fraction_def t)
qed

lemma date_time_text:
  assumes "cv_year c < 10000" "cv_month c < 100" "cv_day c < 100" "cv_hour c < 100"
    "cv_min c < 100" "cv_sec c < 100" "cv_ms c < 1000"
  shows "date_time (civil_text c) = Some (c, ''Z'')"
  using assms
  by (simp add: date_time_def civil_text_def digits_fixed and_then_def expect_def
        fraction_fixed [simplified])

lemma fixed_Cons: "0 < k \<Longrightarrow> \<exists>d r. fixed k n = d # r \<and> is_digit d"
  using length_fixed [of k n] fixed_digits [of k n] by (cases "fixed k n") auto

lemma trim_civil_text: "trim (civil_text c) = civil_text c"
proof -
  obtain d r where "fixed 4 (cv_year c) = d # r" "is_digit d" using fixed_Cons [of 4 "cv_year c"] by auto
  then have "hd (civil_text c) = d" "last (civil_text c) = CHR ''Z''"
    by (simp_all add: civil_text_def)
  moreover have "\<not> is_ws d" using \<open>is_digit d\<close> by (auto simp: char_class_defs)
  moreover have "\<not> is_ws (CHR ''Z'')" by (simp add: js_simps)
  ultimately show ?thesis by (intro trim_id) simp
qed

definition civil_of :: "int \<Rightarrow> civil" where
  "civil_of ms =
     (let n = ms div 86400000 + 719528; t = nat (ms mod 86400000); y = year_of n;
          (m, d) = split_month 1 (n - days_before_year y) (month_lengths (leap y))
      in \<lparr>cv_year = nat y, cv_month = m, cv_day = nat (d + 1), cv_hour = t div 3600000,
          cv_min = t div 60000 mod 60, cv_sec = t div 1000 mod 60, cv_ms = t mod 1000\<rparr>)"

definition four_digit_year :: "int \<Rightarrow> bool" where
  "four_digit_year ms \<longleftrightarrow>
     0 \<le> year_of (ms div 86400000 + 719528) \<and> year_of (ms div 86400000 + 719528) \<le> 9999"

lemma to_iso_civil: "four_digit_year ms \<Longrightarrow> to_iso ms = civil_text (civil_of ms)"
  by (simp add: to_iso_def civil_text_def civil_of_def four_digit_year_def year_str_def Let_def
        split_def)

lemma time_of_day:
  fixes t :: nat
  assumes "t < 86400000"
  shows "t div 3600000 < 24"
    "int (t div 3600000) * 3600000 + int (t div 60000 mod 60) * 60000 + int (t div 1000 mod 60) * 1000
     + int (t mod 1000) = int t"
proof -
  show "t div 3600000 < 24" using assms by (simp add: less_mult_imp_div_less)
  define a b c where "a = t div 1000" and "b = t div 60000" and "c = t div 3600000"
  have ab: "a div 60 = b" by (simp add: a_def b_def div_mult2_eq [symmetric])
  have bc: "b div 60 = c" by (simp add: b_def c_def div_mult2_eq [symmetric])
  have "1000 * a + t mod 1000 = t" unfolding a_def by (rule mult_div_mod_eq)
  moreover have "60 * b + a mod 60 = a" using mult_div_mod_eq [of 60 a] unfolding ab .
  moreover have "60 * c + b mod 60 = b" using mult_div_mod_eq [of 60 b] unfolding bc .
  moreover have "1000 * a' + r = t' \<Longrightarrow> 60 * b' + q = a' \<Longrightarrow> 60 * c' + p = b' \<Longrightarrow>
      c' * 3600000 + p * 60000 + q * 1000 + r = t'" for a' b' c' p q r t' :: nat by simp
  ultimately have "c * 3600000 + b mod 60 * 60000 + a mod 60 * 1000 + t mod 1000 = t" by blast
  then have "int (c * 3600000 + b mod 60 * 60000 + a mod 60 * 1000 + t mod 1000) = int t"
    by (rule arg_cong)
  then have "int c * 3600000 + int (b mod 60) * 60000 + int (a mod 60) * 1000 + int (t mod 1000) = int t"
    by (simp only: of_nat_add of_nat_mult of_nat_numeral)
  then show "int (t div 3600000) * 3600000 + int (t div 60000 mod 60) * 60000
     + int (t div 1000 mod 60) * 1000 + int (t mod 1000) = int t"
    by (simp only: a_def b_def c_def)
qed

lemma civil_of_ok:
  assumes "four_digit_year ms"
  shows "valid_civil (civil_of ms)" "epoch_ms (civil_of ms) = ms" "cv_year (civil_of ms) < 10000"
    "cv_hour (civil_of ms) < 24" "cv_ms (civil_of ms) < 1000"
proof -
  define n y t where "n = ms div 86400000 + 719528" and "y = year_of n" and "t = nat (ms mod 86400000)"
  obtain m d where md: "split_month 1 (n - days_before_year y) (month_lengths (leap y)) = (m, d)"
    by fastforce
  have y: "0 \<le> y" "y \<le> 9999" using assms by (simp_all add: four_digit_year_def n_def y_def)
  have b: "0 \<le> n - days_before_year y" "n - days_before_year y < sum_list (month_lengths (leap y))"
    using year_of_bounds [of n] year_length [of y] by (simp_all add: y_def)
  have l12: "length (month_lengths l) = 12" for l by (simp add: month_lengths_def)
  note s = split_month_sum [OF md b]
  then have m: "1 \<le> m" "m \<le> 12" "0 \<le> d"
    "sum_list (take (m - 1) (month_lengths (leap y))) + d = n - days_before_year y"
    using l12 [of "leap y"] by auto
  have "d < 31" using s month_length_bound [of "m - 1" "leap y"] l12 [of "leap y"] by linarith
  note m = m this
  have t: "t < 86400000" "int t = ms mod 86400000" by (simp_all add: t_def)
  have c: "civil_of ms = \<lparr>cv_year = nat y, cv_month = m, cv_day = nat (d + 1), cv_hour = t div 3600000,
          cv_min = t div 60000 mod 60, cv_sec = t div 1000 mod 60, cv_ms = t mod 1000\<rparr>"
    using md by (simp add: civil_of_def Let_def n_def y_def t_def)
  show "valid_civil (civil_of ms)" "cv_year (civil_of ms) < 10000"
    "cv_hour (civil_of ms) < 24" "cv_ms (civil_of ms) < 1000"
    using m y time_of_day(1) [OF t(1)] by (auto simp: c valid_civil_def)
  have "day_number y m (int (nat (d + 1))) = n" using m by (simp add: day_number_def)
  then have "epoch_ms (civil_of ms) = (n - 719528) * 86400000 + int t"
    using y time_of_day(2) [OF t(1)] by (simp add: c epoch_ms_def)
  then show "epoch_ms (civil_of ms) = ms" using t(2) by (simp add: n_def)
qed

text \<open>C11.  Every instant of the years 0 to 9999 is read back from the text it was stored as, to the
  millisecond.\<close>

theorem parseInstant_to_iso:
  assumes "0 \<le> year_of (ms div 86400000 + 719528)" "year_of (ms div 86400000 + 719528) \<le> 9999"
  shows "parseInstant (to_iso ms) = Some ms"
proof -
  have f: "four_digit_year ms" using assms by (simp add: four_digit_year_def)
  let ?c = "civil_of ms"
  have "date_time (civil_text ?c) = Some (?c, ''Z'')"
    by (rule date_time_text) (use civil_of_ok [OF f] in \<open>auto simp: valid_civil_def\<close>)
  then show ?thesis
    using civil_of_ok(1,2) [OF f]
    by (simp add: parseInstant_def to_iso_civil [OF f] trim_civil_text and_then_def zone_def)
qed

lemma parseInstant_to_iso_witness: "parseInstant (to_iso 1789500000123) = Some 1789500000123"
proof -
  have "year_of (1789500000123 div 86400000 + 719528) = 2026" by code_simp
  then show ?thesis by (intro parseInstant_to_iso) simp_all
qed

end
