(* ===== verification/Claim.thy ===== *)
theory Claim
  imports Claim_Context Instant
begin

text \<open>
  Giving work to an agent (\<^verbatim>\<open>src/src/installer/step-ops.ts\<close>): which step an agent may claim, the
  claim of a story of a loop, the claim of any other step, the step an agent already holds, and
  conditional steps that complete by themselves.

  \<^verbatim>\<open>JSON.parse\<close> of a malformed loop configuration throws; the recovery of a claim after an
  exception of the database or the file system is not modelled, no call of the model throws there.
\<close>

section \<open>Which step\<close>

record worker_ownership =
  wo_job :: string
  wo_pid :: int
  wo_pgid :: "int option"

text \<open>A loop that idles between two stories while a verifier works.\<close>

definition idle_loop :: "step \<Rightarrow> bool" where
  "idle_loop u \<longleftrightarrow> s_type u = TyLoop \<and> s_status u = SRunning \<and> s_current_story_id u = None"

definition verifies :: "step \<Rightarrow> step \<Rightarrow> bool" where
  "verifies v s \<longleftrightarrow>
     (case s_loop_config v of
        LcConfig lc \<Rightarrow> verify_each lc \<and> verify_step_id lc = Some (s_step_id s)
      | _ \<Rightarrow> False)"

text \<open>The verifier bypass: \<open>s\<close> is the verifier of an idling loop before the waiting step \<open>u\<close>.\<close>

definition verifier_bypass :: "step \<Rightarrow> step \<Rightarrow> store \<Rightarrow> bool" where
  "verifier_bypass s u w \<longleftrightarrow>
     s_status u = SWaiting
     \<and> list_ex (\<lambda>v. idle_loop v \<and> s_step_index v < s_step_index u \<and> verifies v s)
         (run_steps (s_run_id s) w)"

definition blocks :: "step \<Rightarrow> store \<Rightarrow> step \<Rightarrow> bool" where
  "blocks s w u \<longleftrightarrow>
     s_step_index u < s_step_index s \<and> s_status u \<noteq> SDone \<and> s_status u \<noteq> SSkipped
     \<and> \<not> idle_loop u \<and> \<not> verifier_bypass s u w"

definition claimable :: "string \<Rightarrow> string \<Rightarrow> store \<Rightarrow> step \<Rightarrow> bool" where
  "claimable agentId runId w s \<longleftrightarrow>
     s_agent_id s = agentId \<and> s_status s = SPending \<and> run_status_of runId w = Some RRunning
     \<and> \<not> list_ex (blocks s w) (run_steps runId w)"

text \<open>\<^verbatim>\<open>ORDER BY step_index ASC, step_id ASC LIMIT 1\<close>.\<close>

definition claim_order :: "step \<Rightarrow> nat \<times> nat list" where
  "claim_order s = (s_step_index s, text_key (s_step_id s))"

definition next_claimable :: "string \<Rightarrow> string \<Rightarrow> store \<Rightarrow> step option" where
  "next_claimable agentId runId w =
     first_min claim_order (filter (claimable agentId runId w) (run_steps runId w))"

datatype peek = HAS_WORK | NO_WORK

definition peekStep :: "string \<Rightarrow> string \<Rightarrow> store \<Rightarrow> peek" where
  "peekStep agentId runId w =
     (let rid = stripIdPrefix runId
      in if run_status_of rid w = Some RRunning
            \<and> list_ex (\<lambda>s. s_agent_id s = agentId \<and> s_status s = SPending) (run_steps rid w)
         then HAS_WORK else NO_WORK)"

definition findPendingStepForAgent :: "string \<Rightarrow> string \<Rightarrow> store \<Rightarrow> (string \<times> string) option" where
  "findPendingStepForAgent agentId runId w =
     map_option (\<lambda>s. (s_id s, s_step_id s))
       (first_min claim_order
          (filter (\<lambda>s. s_agent_id s = agentId \<and> s_status s = SPending)
             (run_steps (stripIdPrefix runId) w)))"

definition incrementPreclaimDeathCount :: "string \<Rightarrow> store \<Rightarrow> store \<times> nat" where
  "incrementPreclaimDeathCount stepId w =
     (let w1 = upd_step stepId (\<lambda>s. s\<lparr>s_preclaim_death_count := Suc (s_preclaim_death_count s)\<rparr>) w
      in (w1, case find_step stepId w1 of None \<Rightarrow> 0 | Some s \<Rightarrow> s_preclaim_death_count s))"

section \<open>Conditional steps\<close>

definition isRunContextFlagSet :: "string option \<Rightarrow> bool" where
  "isRunContextFlagSet value \<longleftrightarrow>
     (case value of
        None \<Rightarrow> False
      | Some s \<Rightarrow>
          (let v = lower (trim s)
           in v \<noteq> [] \<and> v \<notin> {''false'', ''0'', ''no'', ''off'', ''null'', ''undefined''}))"

definition conditional_ready :: "string \<Rightarrow> string \<Rightarrow> store \<Rightarrow> step \<Rightarrow> bool" where
  "conditional_ready agentId runId w s \<longleftrightarrow>
     s_agent_id s = agentId \<and> s_status s = SPending \<and> s_type s = TyConditional
     \<and> run_status_of runId w = Some RRunning
     \<and> \<not> list_ex (\<lambda>u. s_step_index u < s_step_index s \<and> s_status u \<noteq> SDone \<and> s_status u \<noteq> SSkipped
                     \<and> \<not> idle_loop u) (run_steps runId w)"

datatype auto_outcome = AutoCompleted | Dispatched | NoneAuto

definition auto_complete :: "string \<Rightarrow> string \<Rightarrow> step \<Rightarrow> string \<Rightarrow> store \<Rightarrow> store" where
  "auto_complete runId agentId s key w =
     (let reason = ''condition_unset:'' @ key;
          w1 = set_step (s_id s)
                 (\<lambda>u. u\<lparr>s_status := SDone, s_auto_completed := True,
                        s_auto_complete_reason := Some reason\<rparr>) w;
          wf = opt_str ''workflowId'' (getWorkflowId runId w1)
      in fst (advancePipeline runId
           (emit ''step.done'' runId
              (wf @ [(''stepId'', VStr (s_step_id s)), (''agentId'', VStr agentId)])
              (emit ''step.auto_completed'' runId
                 (wf @ [(''stepId'', VStr (s_step_id s)), (''agentId'', VStr agentId),
                        (''condition'', VStr key), (''reason'', VStr reason)]) w1))))"

text \<open>A condition named like an inherited property reads a function, on which \<^verbatim>\<open>trim\<close> throws.\<close>

definition conditional_flag ::
    "string \<Rightarrow> string \<Rightarrow> step \<Rightarrow> string \<Rightarrow> store \<Rightarrow> store \<times> (exn + auto_outcome)" where
  "conditional_flag runId agentId s key w =
     (let (m, w1) = (case find_run runId w of
                       None \<Rightarrow> (Map.empty, w)
                     | Some r \<Rightarrow> parseRunContext runId (r_context r) w)
      in if m key = None \<and> key \<in> set object_prototype_keys then (w1, Inl TypeError)
         else if isRunContextFlagSet (m key) then (w1, Inr Dispatched)
         else (auto_complete runId agentId s key w1, Inr AutoCompleted))"

definition autoCompleteConditionalStep ::
    "string \<Rightarrow> string \<Rightarrow> store \<Rightarrow> store \<times> (exn + auto_outcome)" where
  "autoCompleteConditionalStep runId0 agentId w =
     (let runId = stripIdPrefix runId0
      in case first_min claim_order (filter (conditional_ready agentId runId w) (run_steps runId w)) of
           None \<Rightarrow> (w, Inr NoneAuto)
         | Some s \<Rightarrow>
             if s_step_id s = ''deception_audit'' then (w, Inr Dispatched)
             else (case s_conditional_condition s of
                     None \<Rightarrow> (w, Inr Dispatched)
                   | Some key \<Rightarrow>
                       if trim key = [] then (w, Inr Dispatched)
                       else conditional_flag runId agentId s key w))"

section \<open>The held step\<close>

definition story_of_step :: "step \<Rightarrow> store \<Rightarrow> story option" where
  "story_of_step s w =
     (if s_type s = TyLoop
      then (case s_current_story_id s of
              None \<Rightarrow> None
            | Some i \<Rightarrow> if i = [] then None else find_story i w)
      else None)"

definition held_step :: "string \<Rightarrow> string \<Rightarrow> store \<Rightarrow> step option" where
  "held_step agentId runId w =
     (if run_status_of runId w = Some RRunning
      then List.find (\<lambda>s. s_agent_id s = agentId \<and> s_status s = SRunning) (run_steps runId w)
      else None)"

type_synonym claim = "string \<times> string \<times> string"

text \<open>A step without a loop configuration gives \<^verbatim>\<open>resolveStepContext\<close> no story keys.\<close>

definition stepCurrent ::
    "env \<Rightarrow> string \<Rightarrow> string \<Rightarrow> string option \<Rightarrow> store \<Rightarrow> store \<times> (exn + claim option)" where
  "stepCurrent e agentId runId guestFile w =
     (case held_step agentId (stripIdPrefix runId) w of
        None \<Rightarrow> (w, Inr None)
      | Some s \<Rightarrow>
          if s_loop_config s = LcMalformed then (w, Inl JsonParseError)
          else
            (let story = (if s_loop_config s = LcNull then None else story_of_step s w);
                 (m0, w1) = resolveStepContext e (s_run_id s) (s_step_index s) story guestFile w;
                 m = default_empty ''timeout_retry'' (default_empty ''verify_feedback'' m0);
                 render = (if truthy m ''repo''
                           then snd (wrapTestCmdInContext m (m ''repo'') (s_run_id s) (s_id s)) else m)
             in (w1, Inr (Some (s_id s, s_run_id s,
                    resolveTemplate (s_input_template s) (renderWithProgressView guestFile render))))))"

section \<open>Taking a step\<close>

definition claim_id :: "string \<Rightarrow> store \<Rightarrow> string" where
  "claim_id stepId w =
     (case find_step stepId w of
        None \<Rightarrow> stepId @ '':unknown''
      | Some s \<Rightarrow>
          (case s_claim_job_id s of
             Some j \<Rightarrow> j
           | None \<Rightarrow>
               stepId @ '':''
               @ (case (s_claim_updated_at s, s_updated_at s) of
                    (Some t, _) \<Rightarrow> to_iso t
                  | (None, Some t) \<Rightarrow> to_iso t
                  | _ \<Rightarrow> ''unknown'')))"

definition emitDispatchRenderingValidation :: "step \<Rightarrow> store \<Rightarrow> store" where
  "emitDispatchRenderingValidation s w =
     emit ''dispatch.render.validated'' (s_run_id s)
       [(''stepRowId'', VStr (s_id s)), (''stepId'', VStr (s_step_id s)),
        (''claimId'', VStr (claim_id (s_id s) w)), (''requiredKeys'', VList (templateKeys (s_input_template s))),
        (''unresolvedPlaceholderCount'', VNat 0), (''unresolvedKeys'', VList []),
        (''dispatched'', VBool True)] w"

text \<open>The guarded \<^verbatim>\<open>UPDATE .. WHERE id = ? AND status = 'pending'\<close>; \<open>None\<close> when it changes no row.\<close>

definition own_row :: "worker_ownership option \<Rightarrow> int \<Rightarrow> step \<Rightarrow> step" where
  "own_row owner t s =
     (case owner of
        None \<Rightarrow> s\<lparr>s_status := SRunning, s_preclaim_death_count := 0, s_claim_invalidated_by := None\<rparr>
      | Some o1 \<Rightarrow>
          s\<lparr>s_status := SRunning, s_preclaim_death_count := 0, s_claim_job_id := Some (wo_job o1),
            s_claim_pid := Some (wo_pid o1), s_claim_pgid := wo_pgid o1,
            s_claim_invalidated_by := None, s_claim_updated_at := Some t\<rparr>)"

definition take_step :: "worker_ownership option \<Rightarrow> string \<Rightarrow> store \<Rightarrow> store option" where
  "take_step owner i w =
     (if step_status_of i w = Some SPending then Some (set_step i (own_row owner (now w)) w) else None)"

definition release_claim :: "string \<Rightarrow> store \<Rightarrow> store" where
  "release_claim i w =
     set_step i (\<lambda>s. s\<lparr>s_status := SPending, s_claim_job_id := None, s_claim_pid := None,
                       s_claim_pgid := None\<rparr>) w"

definition fail_claimed_loop :: "step \<Rightarrow> string \<Rightarrow> string \<Rightarrow> string \<Rightarrow> string \<Rightarrow> store \<Rightarrow> store" where
  "fail_claimed_loop s agentId evStepId out detail w =
     (let rid = s_run_id s;
          w1 = fail_run rid (set_step (s_id s) (\<lambda>u. u\<lparr>s_status := SFailed, s_output := Some out\<rparr>) w);
          wf = getWorkflowId rid w1
      in scheduleRunCronTeardown rid
           (emitRunTerminalEvent ''run.failed'' rid wf (Some detail) None
              (emit ''step.failed'' rid
                 (opt_str ''workflowId'' wf
                  @ [(''stepId'', VStr evStepId), (''agentId'', VStr agentId), (''detail'', VStr detail)])
                 w1)))"

definition loop_all_done :: "step \<Rightarrow> string \<Rightarrow> store \<Rightarrow> store" where
  "loop_all_done s agentId w =
     (let rid = s_run_id s; wf = opt_str ''workflowId'' (getWorkflowId rid w);
          w1 = (if s_claim_invalidated_by s = Some ''reroute''
                then emit ''step.reroute_noop'' rid
                       (wf @ [(''stepId'', VStr (s_step_id s)),
                              (''detail'', VStr ''Rerouted loop step auto-completed without agent work - all stories were already done'')]) w
                else w)
      in fst (advancePipeline rid
           (emit ''step.done'' rid
              (wf @ [(''stepId'', VStr (s_step_id s)), (''agentId'', VStr agentId)])
              (set_step_status (s_id s) SDone w1))))"

definition next_story :: "string \<Rightarrow> store \<Rightarrow> story option" where
  "next_story runId w =
     first_min t_story_index (filter (\<lambda>t. t_status t = TPending) (run_stories runId w))"

definition start_story :: "worker_ownership option \<Rightarrow> string \<Rightarrow> step \<Rightarrow> story \<Rightarrow> store \<Rightarrow> store" where
  "start_story owner agentId s t w =
     (let rid = s_run_id s;
          w1 = set_step (s_id s) (\<lambda>u. (own_row owner (now w) u)\<lparr>s_current_story_id := Some (t_id t)\<rparr>)
                 (set_story (t_id t) (\<lambda>t. t\<lparr>t_status := TRunning\<rparr>) w);
          base = opt_str ''workflowId'' (getWorkflowId rid w1)
                 @ [(''stepId'', VStr (s_step_id s)), (''agentId'', VStr agentId)]
      in emit ''story.started'' rid
           (base @ [(''storyId'', VStr (t_story_id t)), (''storyTitle'', VStr (t_title t))])
           (emit ''step.running'' rid base w1))"

definition save_context :: "string \<Rightarrow> ctx \<Rightarrow> store \<Rightarrow> store" where
  "save_context runId m w = set_run runId (\<lambda>r. r\<lparr>r_context := CtxObj m\<rparr>) w"

definition loop_context :: "env \<Rightarrow> step \<Rightarrow> story \<Rightarrow> ctx \<Rightarrow> store \<Rightarrow> ctx" where
  "loop_context e s t m w =
     default_empty ''timeout_retry''
       (default_empty ''verify_feedback''
          (with_story t (getStories (s_run_id s) w) (getRunProgressPath e (s_run_id s)) m))"

definition unstart_story :: "step \<Rightarrow> story \<Rightarrow> store \<Rightarrow> store" where
  "unstart_story s t w =
     set_step (s_id s)
       (\<lambda>u. u\<lparr>s_status := SPending, s_current_story_id := None, s_claim_job_id := None,
              s_claim_pid := None, s_claim_pgid := None\<rparr>)
       (set_story (t_id t) (\<lambda>t. t\<lparr>t_status := TPending\<rparr>) w)"

text \<open>The story is taken and its input rendered, or its missing keys send a producer back.\<close>

definition claim_story ::
    "env \<Rightarrow> worker_ownership option \<Rightarrow> string \<Rightarrow> string option \<Rightarrow> step \<Rightarrow> story \<Rightarrow> ctx \<Rightarrow> store \<Rightarrow>
     store \<times> claim option" where
  "claim_story e owner agentId guestFile s t m w =
     (let w1 = start_story owner agentId s t w;
          m1 = loop_context e s t m w1;
          (m2, render) = wrapTestCmdInContext m1 (m1 ''repo'') (s_run_id s) (s_step_id s);
          (w2, act) = resolveMissingKeys (s_run_id s) (s_step_index s) (s_step_id s) (s_id s) agentId
                        (findMissingTemplateKeys (s_input_template s) m2) w1
      in case act of
           Rejected \<Rightarrow> (unstart_story s t w2, None)
         | Fatal _ \<Rightarrow> (w2, None)
         | Proceed \<Rightarrow>
             (let w3 = emitDispatchRenderingValidation s (save_context (s_run_id s) m2 w2);
                  w4 = (if truthy render ''timeout_retry''
                        then save_context (s_run_id s) (m2(''timeout_retry'' := None)) w3 else w3)
              in (w4, Some (s_id s, s_run_id s,
                    resolveTemplate (s_input_template s) (renderWithProgressView guestFile render)))))"

definition claim_loop ::
    "env \<Rightarrow> worker_ownership option \<Rightarrow> string \<Rightarrow> string option \<Rightarrow> step \<Rightarrow> ctx \<Rightarrow> store \<Rightarrow>
     store \<times> claim option" where
  "claim_loop e owner agentId guestFile s m w =
     (case take_step owner (s_id s) w of
        None \<Rightarrow> (w, None)
      | Some w1 \<Rightarrow>
          if \<not> runHasStories (s_run_id s) w1
          then (let msg = ''Loop cannot run because planning did not produce STORIES_JSON.''
                in (fail_claimed_loop s agentId (s_step_id s) msg msg w1, None))
          else (case next_story (s_run_id s) w1 of
                  Some t \<Rightarrow> claim_story e owner agentId guestFile s t m w1
                | None \<Rightarrow>
                    if has_story TFailed (s_run_id s) w1
                    then (fail_claimed_loop s agentId (s_id s)
                            ''Loop cannot continue because one or more stories failed''
                            ''Loop has failed stories and no pending stories'' w1, None)
                    else (loop_all_done s agentId w1, None)))"

definition gate_overridden_event :: "step \<Rightarrow> decision option \<Rightarrow> store \<Rightarrow> store" where
  "gate_overridden_event s d w =
     (case d of
        Some (Overridden k) \<Rightarrow>
          emit ''merge.gate_overridden'' (s_run_id s)
            (opt_str ''workflowId'' (getWorkflowId (s_run_id s) w)
             @ [(''stepId'', VStr (s_step_id s)), (''gateMode'', VStr ''off'')]
             @ opt_nat ''runNumber'' (map_option r_run_number (find_run (s_run_id s) w))
             @ (case find_run (s_run_id s) w of
                  None \<Rightarrow> []
                | Some r \<Rightarrow> opt_str ''launchTs'' (map_option to_iso (r_created_at r)))
             @ [(''origin'', VStr (gk_origin k)), (''treeHash'', VStr (gk_tree k)),
                (''cmdHash'', VStr (gk_cmd_hash k))]) w
      | _ \<Rightarrow> w)"

definition single_context :: "env \<Rightarrow> step \<Rightarrow> ctx \<Rightarrow> store \<Rightarrow> ctx" where
  "single_context e s m w =
     default_empty ''timeout_retry''
       (default_empty ''verify_feedback''
          (if runHasStories (s_run_id s) w then with_progress (getRunProgressPath e (s_run_id s)) m else m))"

definition claim_single ::
    "env \<Rightarrow> worker_ownership option \<Rightarrow> string \<Rightarrow> string option \<Rightarrow> step \<Rightarrow> ctx \<Rightarrow> decision option \<Rightarrow>
     store \<Rightarrow> store \<times> claim option" where
  "claim_single e owner agentId guestFile s m d w =
     (case take_step owner (s_id s) w of
        None \<Rightarrow> (w, None)
      | Some w1 \<Rightarrow>
          (let w2 = gate_overridden_event s d
                 (emit ''step.running'' (s_run_id s)
                    (opt_str ''workflowId'' (getWorkflowId (s_run_id s) w1)
                     @ [(''stepId'', VStr (s_step_id s)), (''agentId'', VStr agentId)]) w1);
               m1 = single_context e s m w2;
               (m2, render) = wrapTestCmdInContext m1 (m1 ''repo'') (s_run_id s) (s_step_id s);
               (w3, act) = resolveMissingKeys (s_run_id s) (s_step_index s) (s_step_id s) (s_id s)
                             agentId (findMissingTemplateKeys (s_input_template s) m2) w2
           in case act of
                Rejected \<Rightarrow> (release_claim (s_id s) w3, None)
              | Fatal _ \<Rightarrow> (w3, None)
              | Proceed \<Rightarrow>
                  (let w4 = emitDispatchRenderingValidation s w3;
                       w5 = (if truthy m ''timeout_retry''
                             then setRunContextKey (s_run_id s) ''timeout_retry'' [] w4 else w4)
                   in (w5, Some (s_id s, s_run_id s,
                         resolveTemplate (s_input_template s) (renderWithProgressView guestFile render))))))"

definition claim_base_context :: "env \<Rightarrow> step \<Rightarrow> store \<Rightarrow> ctx \<times> store" where
  "claim_base_context e s w =
     (let (m0, w1) = resolveStepContext e (s_run_id s) (s_step_index s) None None w;
          m1 = m0(''retry_feedback'' \<mapsto> feedback_text (s_output s) (s_retry_count s))
      in (m1(''has_frontend_changes'' \<mapsto>
               (if truthy m1 ''repo'' \<and> truthy m1 ''branch''
                then computeHasFrontendChanges e (get_or_empty m1 ''repo'') (get_or_empty m1 ''branch'')
                else ''false'')), w1))"

definition claim_gate :: "env \<Rightarrow> step \<Rightarrow> store \<Rightarrow> store \<times> bool \<times> decision option" where
  "claim_gate e s w =
     (if s_step_id s = ''finalize_merge''
      then enforceClaimLedgerGate (e_host e) (e_evidence e) (e_specs e) s w
      else (w, run_status_of (s_run_id s) w = Some RRunning, None))"

definition claim_new ::
    "env \<Rightarrow> worker_ownership option \<Rightarrow> string \<Rightarrow> string option \<Rightarrow> step \<Rightarrow> store \<Rightarrow>
     store \<times> (exn + claim option)" where
  "claim_new e owner agentId guestFile s w =
     (case claim_gate e s w of
        (w1, False, _) \<Rightarrow> (w1, Inr None)
      | (w1, True, d) \<Rightarrow>
          (let (m, w2) = claim_base_context e s w1;
               single = (\<lambda>_::unit. let (w3, c) = claim_single e owner agentId guestFile s m d w2
                                   in (w3, Inr c))
           in if s_type s = TyLoop
              then (case s_loop_config s of
                      LcMalformed \<Rightarrow> (w2, Inl JsonParseError)
                    | LcNull \<Rightarrow> single ()
                    | LcConfig lc \<Rightarrow>
                        if lc_over lc = ''stories''
                        then (let (w3, c) = claim_loop e owner agentId guestFile s m w2 in (w3, Inr c))
                        else single ())
              else single ()))"

text \<open>The claim once stale claims have been cleaned up: the step the agent holds, or a new one.\<close>

definition claim_step ::
    "env \<Rightarrow> string \<Rightarrow> string \<Rightarrow> worker_ownership option \<Rightarrow> string option \<Rightarrow> store \<Rightarrow>
     store \<times> (exn + claim option)" where
  "claim_step e agentId runId owner guestFile w =
     (case stepCurrent e agentId runId guestFile w of
        (w1, Inl x) \<Rightarrow> (w1, Inl x)
      | (w1, Inr (Some c)) \<Rightarrow> (w1, Inr (Some c))
      | (w1, Inr None) \<Rightarrow>
          (case next_claimable agentId (stripIdPrefix runId) w1 of
             None \<Rightarrow> (w1, Inr None)
           | Some s \<Rightarrow> claim_new e owner agentId guestFile s w1))"

end
