(* ===== verification/Recovery.thy ===== *)
theory Recovery
  imports Claim
begin

text \<open>
  Taking work back from agents that are gone (\<^verbatim>\<open>src/src/installer/step-ops.ts\<close>): steps and stories
  running for too long, the steps of a worker that ended, and the sweeps for dead processes and
  dead process groups.  Each function reads its rows once and then treats them one after the other
  in the store the earlier ones left.

  The probe of a process (\<^verbatim>\<open>process.kill(pid, 0)\<close>) is a parameter; a negative number stands for a
  process group.
\<close>

definition ABANDONED_THRESHOLD_MS :: int where
  "ABANDONED_THRESHOLD_MS = (21600 + 5 * 60) * 1000"

definition STEP_AGE_TOLERANCE_MS :: int where
  "STEP_AGE_TOLERANCE_MS = 0"

definition MAX_ABANDON_RESETS :: nat where
  "MAX_ABANDON_RESETS = 5"

definition ABANDON_STORY_MAX :: nat where
  "ABANDON_STORY_MAX = 8"

definition LIVENESS_GRACE_PERIOD_MS :: int where
  "LIVENESS_GRACE_PERIOD_MS = 30000"

section \<open>Abandoned stories\<close>

text \<open>\<^verbatim>\<open>GROUP BY reason ORDER BY cnt DESC\<close>, equal counts in the order of their reasons.\<close>

definition reason_counts :: "string \<Rightarrow> store \<Rightarrow> (string \<times> nat) list" where
  "reason_counts runId w =
     (let rs = map ab_reason (filter (\<lambda>a. ab_run_id a = runId) (abandonments w))
      in sort_key (\<lambda>(_, n). - int n)
           (map (\<lambda>r. (r, count_list rs r)) (sort_key text_key (remdups rs))))"

definition buildAbandonReasonAggregate :: "string \<Rightarrow> store \<Rightarrow> string" where
  "buildAbandonReasonAggregate runId w =
     (let cs = reason_counts runId w
      in if cs = []
         then ''abandon budget exhausted (>'' @ nat_str ABANDON_STORY_MAX
              @ ''); reasons: (no per-story abandonment records found)''
         else ''abandon budget exhausted ('' @ nat_str (sum_list (map snd cs)) @ ''/''
              @ nat_str ABANDON_STORY_MAX @ ''); reasons: ''
              @ join '', '' (map (\<lambda>(r, n). nat_str n @ ''x '' @ r) cs))"

definition abandon_label :: "nat \<Rightarrow> string" where
  "abandon_label n = nat_str n @ ''/'' @ nat_str ABANDON_STORY_MAX"

definition story_fields :: "step \<Rightarrow> story \<Rightarrow> store \<Rightarrow> (string \<times> ev_val) list" where
  "story_fields s t w =
     opt_str ''workflowId'' (getWorkflowId (s_run_id s) w)
     @ [(''stepId'', VStr (s_step_id s)), (''storyId'', VStr (t_story_id t)),
        (''storyTitle'', VStr (t_title t))]"

text \<open>The durable record of an abandonment and its event.\<close>

definition record_abandonment ::
    "string option \<Rightarrow> step \<Rightarrow> story \<Rightarrow> string \<Rightarrow> nat \<Rightarrow> store \<Rightarrow> store" where
  "record_abandonment agentId s t reason n w =
     emit ''story.abandoned'' (s_run_id s)
       (story_fields s t w @ opt_str ''agentId'' agentId
        @ [(''reason'', VStr reason), (''abandonedCount'', VNat n),
           (''detail'', VStr (''Story '' @ t_story_id t @ '' abandoned ('' @ abandon_label n
                              @ ''); reason: '' @ reason))])
       (w\<lparr>abandonments := abandonments w
            @ [\<lparr>ab_story_id = t_id t, ab_run_id = s_run_id s, ab_reason = reason, ab_count = n,
                ab_step_id = Some (s_id s)\<rparr>]\<rparr>)"

definition story_back :: "step \<Rightarrow> story \<Rightarrow> nat \<Rightarrow> store \<Rightarrow> store" where
  "story_back s t n w =
     set_step (s_id s) (\<lambda>u. u\<lparr>s_status := SPending, s_current_story_id := None\<rparr>)
       (set_story (t_id t) (\<lambda>x. x\<lparr>t_status := TPending, t_abandoned_count := n\<rparr>) w)"

text \<open>Past its budget the story fails, and with it the loop and the run.\<close>

definition story_lost ::
    "step \<Rightarrow> story \<Rightarrow> nat \<Rightarrow> string \<Rightarrow> (string \<Rightarrow> string) \<Rightarrow> (string \<Rightarrow> string) \<Rightarrow> store \<Rightarrow> store" where
  "story_lost s t n out story_detail step_detail w =
     (let rid = s_run_id s;
          w1 = fail_run rid
                 (set_step (s_id s)
                    (\<lambda>u. u\<lparr>s_status := SFailed, s_output := Some out, s_current_story_id := None\<rparr>)
                    (set_story (t_id t) (\<lambda>x. x\<lparr>t_status := TFailed, t_abandoned_count := n\<rparr>) w));
          agg = buildAbandonReasonAggregate rid w1; wf = getWorkflowId rid w1;
          d = step_detail agg
      in scheduleRunCronTeardown rid
           (emitRunTerminalEvent ''run.failed'' rid wf (Some d) None
              (emit ''step.failed'' rid
                 (opt_str ''workflowId'' wf @ [(''stepId'', VStr (s_step_id s)), (''detail'', VStr d)])
                 (emit ''story.failed'' rid
                    (story_fields s t w1 @ [(''detail'', VStr (story_detail agg))]) w1))))"

section \<open>Steps and stories running for too long\<close>

text \<open>A loop between stories whose verifier is at work is not abandoned.\<close>

definition verifier_at_work :: "step \<Rightarrow> store \<Rightarrow> bool" where
  "verifier_at_work s w \<longleftrightarrow>
     s_type s = TyLoop \<and> s_current_story_id s \<in> {None, Some []}
     \<and> (case s_loop_config s of
          LcConfig lc \<Rightarrow>
            (case verify_step_id lc of
               None \<Rightarrow> False
             | Some v \<Rightarrow>
                 verify_each lc \<and> v \<noteq> []
                 \<and> (case step_named (s_run_id s) v w of
                      None \<Rightarrow> False
                    | Some u \<Rightarrow> s_status u = SPending \<or> s_status u = SRunning))
        | _ \<Rightarrow> False)"

definition cleanup_story :: "step \<Rightarrow> story \<Rightarrow> store \<Rightarrow> store" where
  "cleanup_story s t w =
     (let n = Suc (t_abandoned_count t); w1 = record_abandonment None s t ''worker_timeout'' n w
      in if n > ABANDON_STORY_MAX
         then story_lost s t n ''Story abandoned - abandon budget exhausted''
                (\<lambda>agg. ''Abandoned - '' @ agg) (\<lambda>agg. ''Story abandoned - '' @ agg) w1
         else emit ''step.timeout'' (s_run_id s)
                (opt_str ''workflowId'' (getWorkflowId (s_run_id s) w)
                 @ [(''stepId'', VStr (s_step_id s)),
                    (''detail'', VStr (''Story '' @ t_story_id t
                       @ '' abandoned - reset to pending (story abandon '' @ abandon_label n @ '')''))])
                (story_back s t n w1))"

definition cleanup_reset :: "step \<Rightarrow> store \<Rightarrow> store" where
  "cleanup_reset s w =
     (let rid = s_run_id s; n = Suc (s_abandoned_count s);
          base = \<lambda>v. opt_str ''workflowId'' (getWorkflowId rid v) @ [(''stepId'', VStr (s_step_id s))]
      in if n \<ge> MAX_ABANDON_RESETS
         then (let w1 = fail_run rid
                 (set_step (s_id s)
                    (\<lambda>u. u\<lparr>s_status := SFailed, s_abandoned_count := n,
                           s_output := Some (''Agent abandoned step without completing ('' @ nat_str n
                                             @ '' times)'')\<rparr>) w)
               in scheduleRunCronTeardown rid
                    (emitRunTerminalEvent ''run.failed'' rid (getWorkflowId rid w1)
                       (Some ''Step abandoned and retries exhausted'') None
                       (emit ''step.failed'' rid
                          (base w1 @ [(''detail'', VStr ''Agent abandoned step without completing'')])
                          (emit ''step.timeout'' rid
                             (base w1 @ [(''detail'', VStr ''Retries exhausted - step failed'')]) w1))))
         else (let w1 = set_step (s_id s)
                          (\<lambda>u. u\<lparr>s_status := SPending, s_abandoned_count := n\<rparr>) w
               in emit ''step.timeout'' rid
                    (base w1 @ [(''detail'', VStr (''Reset to pending (abandon '' @ nat_str n @ ''/''
                                                   @ nat_str MAX_ABANDON_RESETS @ '')''))]) w1))"

text \<open>One row of the snapshot.\<close>

definition cleanup_step :: "step \<Rightarrow> store \<Rightarrow> store" where
  "cleanup_step s w =
     (if \<not> isOlderThan (s_updated_at s) ABANDONED_THRESHOLD_MS (now w) STEP_AGE_TOLERANCE_MS then w
      else if verifier_at_work s w then w
      else (case story_of_step s w of
              Some t \<Rightarrow> cleanup_story s t w
            | None \<Rightarrow> cleanup_reset s w))"

definition cleanup_orphan_story :: "story \<Rightarrow> store \<Rightarrow> store" where
  "cleanup_orphan_story t w =
     (if isOlderThan (t_updated_at t) ABANDONED_THRESHOLD_MS (now w) STEP_AGE_TOLERANCE_MS
      then set_story (t_id t) (\<lambda>x. x\<lparr>t_status := TPending\<rparr>) w else w)"

definition stuck_loop :: "store \<Rightarrow> step \<Rightarrow> bool" where
  "stuck_loop w s \<longleftrightarrow>
     s_type s = TyLoop \<and> s_status s = SDone \<and> run_status_of (s_run_id s) w = Some RRunning
     \<and> \<not> list_ex (\<lambda>u. s_step_index u > s_step_index s \<and> (s_status u = SPending \<or> s_status u = SRunning))
           (run_steps (s_run_id s) w)
     \<and> list_ex (\<lambda>u. s_step_index u > s_step_index s \<and> s_status u = SWaiting) (run_steps (s_run_id s) w)"

definition cleanupAbandonedSteps :: "store \<Rightarrow> store" where
  "cleanupAbandonedSteps w =
     (let w1 = fold cleanup_step (filter (\<lambda>s. s_status s = SRunning) (steps w)) w;
          w2 = fold cleanup_orphan_story (filter (\<lambda>t. t_status t = TRunning) (stories w1)) w1
      in fold (\<lambda>s u. fst (advancePipeline (s_run_id s) u)) (filter (stuck_loop w2) (steps w2)) w2)"

section \<open>The steps of a worker that ended\<close>

record worker_end =
  we_stale :: "int option"
  we_timeout_retry :: "string option"
  we_failure :: "string option"
  we_job :: "string option"
  we_abandon :: "string option"
  we_prefix :: "string option"
  we_exit :: "int option"
  we_signal :: "string option"
  we_stderr :: "string option"
  we_timed_out :: bool

record counts =
  recovered :: nat
  failed :: nat
  skipped :: nat

definition respawnReasonFor :: "string option \<Rightarrow> string option \<Rightarrow> bool \<Rightarrow> string" where
  "respawnReasonFor abandonReason workerJobId timedOut =
     (if abandonReason = Some ''paused_by_operator'' then ''paused_by_operator''
      else if workerJobId \<noteq> None \<and> timedOut then ''ceiling_expiry''
      else if abandonReason = Some ''no_work_release'' then ''no_work_release''
      else if workerJobId = None then ''timeout''
      else ''worker_lost'')"

definition ownership_text :: "step \<Rightarrow> string" where
  "ownership_text s =
     ''; prior worker pid '' @ (case s_claim_pid s of None \<Rightarrow> ''unknown'' | Some p \<Rightarrow> int_str p)
     @ '', round '' @ (case s_claim_job_id s of None \<Rightarrow> ''unknown'' | Some j \<Rightarrow> j)"

definition prefix_text :: "worker_end \<Rightarrow> string" where
  "prefix_text e =
     (case we_prefix e of None \<Rightarrow> [] | Some p \<Rightarrow> if p = [] then [] else ''['' @ p @ ''] '')"

definition exit_fields :: "worker_end \<Rightarrow> (string \<times> ev_val) list" where
  "exit_fields e =
     opt_int ''exitCode'' (we_exit e) @ opt_str ''signal'' (we_signal e) @ opt_str ''stderrTail'' (we_stderr e)"

definition respawned_event ::
    "worker_end \<Rightarrow> string \<Rightarrow> step \<Rightarrow> nat \<Rightarrow> string \<Rightarrow> store \<Rightarrow> store" where
  "respawned_event e agentId s retry what w =
     emit ''step.respawned'' (s_run_id s)
       (opt_str ''workflowId'' (getWorkflowId (s_run_id s) w)
        @ [(''stepId'', VStr (s_step_id s)), (''agentId'', VStr agentId)]
        @ opt_int ''priorPid'' (s_claim_pid s) @ opt_str ''priorRound'' (s_claim_job_id s)
        @ [(''reason'', VStr (respawnReasonFor (we_abandon e) (we_job e) (we_timed_out e))),
           (''retry'', VNat retry),
           (''detail'', VStr (''Step respawned after '' @ what @ ownership_text s))]) w"

definition recovery_event_name :: "worker_end \<Rightarrow> string" where
  "recovery_event_name e =
     (case we_job e of
        None \<Rightarrow> ''step.timeout''
      | Some _ \<Rightarrow> if we_timed_out e then ''step.ceiling_expiry'' else ''step.worker_lost'')"

definition count_recovery :: "worker_end \<Rightarrow> string \<Rightarrow> store \<Rightarrow> store" where
  "count_recovery e runId w =
     (if recovery_event_name e = ''step.ceiling_expiry''
      then upd_run runId (\<lambda>r. r\<lparr>r_ceiling_expiry_count := Suc (r_ceiling_expiry_count r)\<rparr>) w
      else if recovery_event_name e = ''step.worker_lost''
      then upd_run runId (\<lambda>r. r\<lparr>r_worker_lost_count := Suc (r_worker_lost_count r)\<rparr>) w
      else w)"

definition recovery_event :: "worker_end \<Rightarrow> step \<Rightarrow> string \<Rightarrow> store \<Rightarrow> store" where
  "recovery_event e s detail w =
     emit (recovery_event_name e) (s_run_id s)
       (opt_str ''workflowId'' (getWorkflowId (s_run_id s) w)
        @ [(''stepId'', VStr (s_step_id s)), (''detail'', VStr (prefix_text e @ detail))]
        @ (if recovery_event_name e = ''step.worker_lost'' then exit_fields e
           else if recovery_event_name e = ''step.ceiling_expiry''
           then (''timedOut'', VBool True) # exit_fields e else [])) w"

definition note_timeout_retry :: "worker_end \<Rightarrow> string \<Rightarrow> store \<Rightarrow> store" where
  "note_timeout_retry e runId w =
     (case we_timeout_retry e of
        None \<Rightarrow> w
      | Some r \<Rightarrow> if r = [] then w else setRunContextKey runId ''timeout_retry'' r w)"

definition paused_event ::
    "worker_end \<Rightarrow> string \<Rightarrow> step \<Rightarrow> (string \<times> ev_val) list \<Rightarrow> string \<Rightarrow> store \<Rightarrow> store" where
  "paused_event e agentId s story detail w =
     emit ''step.paused_kill'' (s_run_id s)
       (opt_str ''workflowId'' (getWorkflowId (s_run_id s) w)
        @ [(''stepId'', VStr (s_step_id s)), (''agentId'', VStr agentId)] @ story
        @ [(''retry'', VNat (s_retry_count s))] @ exit_fields e
        @ [(''detail'', VStr (prefix_text e @ detail))]) w"

definition recover_story_paused :: "worker_end \<Rightarrow> string \<Rightarrow> step \<Rightarrow> story \<Rightarrow> store \<Rightarrow> store" where
  "recover_story_paused e agentId s t w =
     respawned_event e agentId s (s_retry_count s)
       (''step.paused_kill (story '' @ t_story_id t @ '')'')
       (paused_event e agentId s
          [(''storyId'', VStr (t_story_id t)), (''storyTitle'', VStr (t_title t))]
          (''Operator pause killed the worker without completing story '' @ t_story_id t
           @ ''; reset to pending (no abandon charged; story abandon ''
           @ abandon_label (t_abandoned_count t) @ '')'')
          (set_step (s_id s) (\<lambda>u. u\<lparr>s_status := SPending, s_current_story_id := None\<rparr>)
             (set_story (t_id t) (\<lambda>x. x\<lparr>t_status := TPending\<rparr>) w)))"

definition story_recovery_detail :: "worker_end \<Rightarrow> story \<Rightarrow> nat \<Rightarrow> string" where
  "story_recovery_detail e t n =
     (let tail = '' reset to pending (story abandon '' @ abandon_label n @ '')''
      in case we_job e of
           None \<Rightarrow> ''Agent terminated; story '' @ t_story_id t @ tail
         | Some j \<Rightarrow>
             ''Worker '' @ j
             @ (if we_timed_out e then '' hit the worker time ceiling'' else '' exited'')
             @ '' without completing story '' @ t_story_id t @ '';'' @ tail)"

definition recover_story_charged ::
    "worker_end \<Rightarrow> string \<Rightarrow> step \<Rightarrow> story \<Rightarrow> store \<Rightarrow> store \<times> bool" where
  "recover_story_charged e agentId s t w =
     (let n = Suc (t_abandoned_count t);
          reason = (case we_abandon e of None \<Rightarrow> ''worker_lost'' | Some r \<Rightarrow> r);
          w1 = record_abandonment (Some agentId) s t reason n w
      in if n > ABANDON_STORY_MAX
         then (story_lost s t n ''Agent terminated without completing story; abandon budget exhausted''
                 (\<lambda>agg. ''Agent terminated - '' @ agg)
                 (\<lambda>agg. ''Agent terminated without completing story; '' @ agg) w1, False)
         else (note_timeout_retry e (s_run_id s)
                 (respawned_event e agentId s (s_retry_count s)
                    (recovery_event_name e @ '' (story '' @ t_story_id t @ '')'')
                    (recovery_event e s (story_recovery_detail e t n)
                       (count_recovery e (s_run_id s) (story_back s t n w1)))), True))"

definition recover_story ::
    "worker_end \<Rightarrow> string \<Rightarrow> step \<Rightarrow> story \<Rightarrow> store \<Rightarrow> store \<times> bool" where
  "recover_story e agentId s t w =
     (if we_abandon e = Some ''paused_by_operator''
      then (recover_story_paused e agentId s t w, True)
      else recover_story_charged e agentId s t w)"

definition retry_label :: "nat \<Rightarrow> step \<Rightarrow> string" where
  "retry_label n s = nat_str n @ ''/'' @ nat_str (s_max_retries s)"

definition recover_step_paused :: "worker_end \<Rightarrow> string \<Rightarrow> step \<Rightarrow> store \<Rightarrow> store" where
  "recover_step_paused e agentId s w =
     respawned_event e agentId s (s_retry_count s) ''step.paused_kill''
       (paused_event e agentId s []
          (''Operator pause killed the worker without completing step; reset to pending (retry ''
           @ retry_label (s_retry_count s) s @ '', no retry charged)'')
          (set_step_status (s_id s) SPending w))"

definition step_recovery_detail :: "worker_end \<Rightarrow> step \<Rightarrow> nat \<Rightarrow> string" where
  "step_recovery_detail e s n =
     (let tail = '' without completing step; reset to pending (retry '' @ retry_label n s @ '')''
      in case we_job e of
           None \<Rightarrow> ''Agent terminated'' @ tail
         | Some j \<Rightarrow>
             ''Worker '' @ j
             @ (if we_timed_out e then '' hit the worker time ceiling'' else '' exited'') @ tail)"

definition recover_step_retry :: "worker_end \<Rightarrow> string \<Rightarrow> step \<Rightarrow> store \<Rightarrow> store" where
  "recover_step_retry e agentId s w =
     (let n = Suc (s_retry_count s);
          w1 = set_step (s_id s)
                 (\<lambda>u. u\<lparr>s_status := SPending, s_retry_count := n,
                        s_output := (case we_failure e of
                                       None \<Rightarrow> s_output u
                                     | Some r \<Rightarrow> if r = [] then s_output u else Some r)\<rparr>) w
      in note_timeout_retry e (s_run_id s)
           (respawned_event e agentId s n (recovery_event_name e)
              (recovery_event e s (step_recovery_detail e s n) (count_recovery e (s_run_id s) w1))))"

definition orphan_reason :: string where
  "orphan_reason = ''Agent terminated without completing step; retries exhausted''"

definition fail_orphan :: "step \<Rightarrow> string \<Rightarrow> store \<Rightarrow> store" where
  "fail_orphan s reason w =
     (let rid = s_run_id s;
          w1 = fail_run rid
                 (set_step (s_id s)
                    (\<lambda>u. u\<lparr>s_status := SFailed, s_retry_count := Suc (s_retry_count s),
                           s_output := Some reason\<rparr>) w);
          wf = getWorkflowId rid w1;
          base = opt_str ''workflowId'' wf @ [(''stepId'', VStr (s_step_id s)), (''detail'', VStr reason)]
      in scheduleRunCronTeardown rid
           (emitRunTerminalEvent ''run.failed'' rid wf (Some ''Step terminated and retries exhausted'') None
              (emit ''step.failed'' rid base (emit ''step.timeout'' rid base w1))))"

definition recover_step_exhausted :: "specs \<Rightarrow> step \<Rightarrow> store \<Rightarrow> store \<times> bool" where
  "recover_step_exhausted specs s w =
     (case rerouteStepSync specs (s_run_id s) (s_step_id s) (s_id s) orphan_reason w of
        (w1, Rerouted) \<Rightarrow> (w1, True)
      | (w1, r) \<Rightarrow>
          (fail_orphan s
             (if r = TargetMovedExhausted
              then buildTargetMovedExhaustedReason (s_id s)
                     (getOnFailPolicySync specs (s_run_id s) (s_step_id s) w1) orphan_reason w1
              else orphan_reason) w1, False))"

definition recover_step ::
    "specs \<Rightarrow> worker_end \<Rightarrow> string \<Rightarrow> step \<Rightarrow> store \<Rightarrow> store \<times> bool" where
  "recover_step specs e agentId s w =
     (if we_abandon e = Some ''paused_by_operator'' then (recover_step_paused e agentId s w, True)
      else if Suc (s_retry_count s) > s_max_retries s then recover_step_exhausted specs s w
      else (recover_step_retry e agentId s w, True))"

definition recover_one ::
    "specs \<Rightarrow> worker_end \<Rightarrow> string \<Rightarrow> step \<Rightarrow> store \<times> counts \<Rightarrow> store \<times> counts" where
  "recover_one specs e agentId s wc =
     (let (w, c) = wc
      in if verifier_at_work s w then (w, c\<lparr>skipped := Suc (skipped c)\<rparr>)
         else
           (let w1 = call (ReleaseSuiteClaims (s_run_id s) (s_step_id s)) w;
                (w2, ok) = (case story_of_step s w1 of
                              Some t \<Rightarrow> recover_story e agentId s t w1
                            | None \<Rightarrow> recover_step specs e agentId s w1)
            in (w2, if ok then c\<lparr>recovered := Suc (recovered c)\<rparr> else c\<lparr>failed := Suc (failed c)\<rparr>)))"

definition orphans :: "worker_end \<Rightarrow> string \<Rightarrow> string \<Rightarrow> store \<Rightarrow> step list" where
  "orphans e agentId runId w =
     filter
       (\<lambda>s. s_agent_id s = agentId \<and> s_status s = SRunning
            \<and> (case we_job e of None \<Rightarrow> True | Some j \<Rightarrow> s_claim_job_id s = None \<or> s_claim_job_id s = Some j)
            \<and> (case we_stale e of
                 None \<Rightarrow> True
               | Some th \<Rightarrow>
                   (case instantAgeMs (s_updated_at s) (now w) of
                      None \<Rightarrow> False
                    | Some age \<Rightarrow> age \<ge> th + STEP_AGE_TOLERANCE_MS)))
       (run_steps runId w)"

definition recoverOrphanedStepsForAgent ::
    "specs \<Rightarrow> worker_end \<Rightarrow> string \<Rightarrow> string \<Rightarrow> store \<Rightarrow> store \<times> counts" where
  "recoverOrphanedStepsForAgent specs e agentId runId w =
     fold (recover_one specs e agentId) (orphans e agentId runId w)
       (w, \<lparr>recovered = 0, failed = 0, skipped = 0\<rparr>)"

section \<open>Dead processes\<close>

datatype probe = Alive | NoSuchProcess | ProbeError

definition plain_end :: worker_end where
  "plain_end = \<lparr>we_stale = None, we_timeout_retry = None, we_failure = None, we_job = None,
                we_abandon = None, we_prefix = None, we_exit = None, we_signal = None,
                we_stderr = None, we_timed_out = False\<rparr>"

text \<open>The totals of a sweep and the runs it touched, in order.\<close>

type_synonym sweep = "store \<times> counts \<times> string list"

definition note_run :: "string \<Rightarrow> counts \<Rightarrow> string list \<Rightarrow> string list" where
  "note_run r c rs = (if (recovered c > 0 \<or> failed c > 0) \<and> r \<notin> set rs then rs @ [r] else rs)"

definition sweep_dead_worker :: "(int \<Rightarrow> probe) \<Rightarrow> specs \<Rightarrow> step \<Rightarrow> sweep \<Rightarrow> sweep" where
  "sweep_dead_worker probe specs s sw =
     (let (w, c, rs) = sw; pid = (case s_claim_pid s of None \<Rightarrow> 0 | Some p \<Rightarrow> p)
      in if probe pid \<noteq> NoSuchProcess then sw
         else if (case s_claim_pgid s of None \<Rightarrow> False | Some g \<Rightarrow> g > 0 \<and> probe (- g) \<noteq> NoSuchProcess)
         then (w, c\<lparr>skipped := Suc (skipped c)\<rparr>, rs)
         else
           (let e = plain_end\<lparr>we_failure := Some (''Worker process '' @ int_str pid
                       @ '' died without reporting (daemon restart or crash); step requeued.''),
                      we_job := s_claim_job_id s, we_abandon := Some ''worker_died''\<rparr>;
                (w1, d) = recoverOrphanedStepsForAgent specs e (s_agent_id s) (s_run_id s) w
            in (w1, c\<lparr>recovered := recovered c + recovered d, failed := failed c + failed d,
                      skipped := skipped c + skipped d\<rparr>, note_run (s_run_id s) d rs)))"

definition recoverStepsWithDeadWorkers :: "(int \<Rightarrow> probe) \<Rightarrow> specs \<Rightarrow> store \<Rightarrow> sweep" where
  "recoverStepsWithDeadWorkers probe specs w =
     fold (sweep_dead_worker probe specs)
       (filter (\<lambda>s. s_status s = SRunning \<and> s_claim_pid s \<noteq> None
                    \<and> run_status_of (s_run_id s) w = Some RRunning) (steps w))
       (w, \<lparr>recovered = 0, failed = 0, skipped = 0\<rparr>, [])"

text \<open>The daemon's children at work, by their job.\<close>

type_synonym children = "string \<Rightarrow> (int \<times> bool) option"

definition child_at_work :: "(int \<Rightarrow> probe) \<Rightarrow> children \<Rightarrow> step \<Rightarrow> bool" where
  "child_at_work probe kids s \<longleftrightarrow>
     (case s_claim_job_id s of
        None \<Rightarrow> False
      | Some j \<Rightarrow>
          j \<noteq> [] \<and> (case kids j of None \<Rightarrow> False | Some (pid, killed) \<Rightarrow> \<not> killed \<and> probe pid = Alive))"

definition sweep_liveness :: "(int \<Rightarrow> probe) \<Rightarrow> children \<Rightarrow> specs \<Rightarrow> step \<Rightarrow> sweep \<Rightarrow> sweep" where
  "sweep_liveness probe kids specs s sw =
     (let (w, c, rs) = sw; g = (case s_claim_pgid s of None \<Rightarrow> 0 | Some p \<Rightarrow> p);
          skip = (w, c\<lparr>skipped := Suc (skipped c)\<rparr>, rs)
      in if probe (- g) \<noteq> NoSuchProcess then sw
         else (case instantAgeMs (s_claim_updated_at s) (now w) of
                 None \<Rightarrow> skip
               | Some age \<Rightarrow>
                   if age < LIVENESS_GRACE_PERIOD_MS + STEP_AGE_TOLERANCE_MS then skip
                   else if child_at_work probe kids s then skip
                   else
                     (let e = plain_end\<lparr>we_failure := Some (''Worker process group '' @ int_str g
                                 @ '' detected as dead by liveness watchdog; step requeued.''),
                                we_job := s_claim_job_id s, we_abandon := Some ''liveness_detected'',
                                we_prefix := Some ''liveness-detected''\<rparr>;
                          (w1, d) = recoverOrphanedStepsForAgent specs e (s_agent_id s) (s_run_id s) w
                      in (w1, c\<lparr>recovered := recovered c + recovered d, failed := failed c + failed d\<rparr>,
                          note_run (s_run_id s) d rs))))"

definition checkRunningWorkersLiveness :: "(int \<Rightarrow> probe) \<Rightarrow> children \<Rightarrow> specs \<Rightarrow> store \<Rightarrow> sweep" where
  "checkRunningWorkersLiveness probe kids specs w =
     fold (sweep_liveness probe kids specs)
       (filter (\<lambda>s. s_status s = SRunning
                    \<and> (case s_claim_pgid s of None \<Rightarrow> False | Some g \<Rightarrow> g > 0)
                    \<and> run_status_of (s_run_id s) w = Some RRunning) (steps w))
       (w, \<lparr>recovered = 0, failed = 0, skipped = 0\<rparr>, [])"

section \<open>The claim of an agent\<close>

definition CLEANUP_THROTTLE_MS :: int where
  "CLEANUP_THROTTLE_MS = 5 * 60 * 1000"

text \<open>The time of the last clean-up on the monotonic clock, and whether one is due.\<close>

definition shouldRunCleanup :: "int \<Rightarrow> int option \<Rightarrow> int option \<times> bool" where
  "shouldRunCleanup nowMs lastCleanupTime =
     (case lastCleanupTime of
        None \<Rightarrow> (Some nowMs, True)
      | Some t \<Rightarrow> if nowMs - t \<ge> CLEANUP_THROTTLE_MS then (Some nowMs, True) else (Some t, False))"

definition claimStep ::
    "env \<Rightarrow> int \<Rightarrow> int option \<Rightarrow> string \<Rightarrow> string \<Rightarrow> worker_ownership option \<Rightarrow> string option \<Rightarrow> store \<Rightarrow>
     int option \<times> store \<times> (exn + claim option)" where
  "claimStep e clock lastCleanupTime agentId runId owner guestFile w =
     (let (lastt, due) = shouldRunCleanup clock lastCleanupTime;
          w1 = (if due then cleanupAbandonedSteps w else w)
      in (lastt, claim_step e agentId (stripIdPrefix runId) owner guestFile w1))"

end
