(* ===== verification/Recovery_Props.thy ===== *)
theory Recovery_Props
  imports Recovery Reroute_Props "HOL-Library.Multiset"
begin

text \<open>
  What is proved of recovery: what an abandoned story and an orphaned step become within and past
  their budgets, how often a story can be put back, that an operator's pause costs nothing, that
  recovery stays in its run, and that the sweeps take no work that is still alive or fresh.
\<close>

section \<open>What the parts leave alone\<close>

lemma log_only [simp]:
  "steps (respawned_event e a s n d w) = steps w" "stories (respawned_event e a s n d w) = stories w"
  "runs (respawned_event e a s n d w) = runs w" "now (respawned_event e a s n d w) = now w"
  "abandonments (respawned_event e a s n d w) = abandonments w"
  "steps (paused_event e a s x d w) = steps w" "stories (paused_event e a s x d w) = stories w"
  "runs (paused_event e a s x d w) = runs w" "now (paused_event e a s x d w) = now w"
  "abandonments (paused_event e a s x d w) = abandonments w"
  "steps (recovery_event e s d w) = steps w" "stories (recovery_event e s d w) = stories w"
  "runs (recovery_event e s d w) = runs w" "now (recovery_event e s d w) = now w"
  "abandonments (recovery_event e s d w) = abandonments w"
  by (simp_all add: respawned_event_def paused_event_def recovery_event_def)

lemma record_abandonment_simps [simp]:
  "steps (record_abandonment a s t r n w) = steps w" "stories (record_abandonment a s t r n w) = stories w"
  "runs (record_abandonment a s t r n w) = runs w" "now (record_abandonment a s t r n w) = now w"
  "effects (record_abandonment a s t r n w) = effects w"
  by (simp_all add: record_abandonment_def)

lemma record_abandonment_adds [simp]:
  "abandonments (record_abandonment a s t r n w) = abandonments w
     @ [\<lparr>ab_story_id = t_id t, ab_run_id = s_run_id s, ab_reason = r, ab_count = n,
         ab_step_id = Some (s_id s)\<rparr>]"
  by (simp add: record_abandonment_def)

lemma count_recovery_simps [simp]:
  "steps (count_recovery e r w) = steps w" "stories (count_recovery e r w) = stories w"
  "now (count_recovery e r w) = now w" "abandonments (count_recovery e r w) = abandonments w"
  by (simp_all add: count_recovery_def)

lemma setRunContextKey_simps [simp]:
  "steps (setRunContextKey r k v w) = steps w" "stories (setRunContextKey r k v w) = stories w"
  "now (setRunContextKey r k v w) = now w" "abandonments (setRunContextKey r k v w) = abandonments w"
  by (simp_all add: setRunContextKey_def split_def Let_def split: option.splits)

lemma note_timeout_retry_simps [simp]:
  "steps (note_timeout_retry e r w) = steps w" "stories (note_timeout_retry e r w) = stories w"
  "now (note_timeout_retry e r w) = now w" "abandonments (note_timeout_retry e r w) = abandonments w"
  by (simp_all add: note_timeout_retry_def split: option.splits)

lemma terminal_event_abandonments [simp]:
  "abandonments (emitRunTerminalEvent n r a b c w) = abandonments w"
  "abandonments (scheduleRunCronTeardown r w) = abandonments w"
  "abandonments (fail_run r w) = abandonments w"
  by (simp_all add: emitRunTerminalEvent_def scheduleRunCronTeardown_def fail_run_def Let_def
           split: option.splits)

lemma fail_run_simps [simp]:
  "steps (fail_run r w) = steps w" "stories (fail_run r w) = stories w" "now (fail_run r w) = now w"
  "find_step i (fail_run r w) = find_step i w" "find_story i (fail_run r w) = find_story i w"
  by (simp_all add: fail_run_def)

lemma fail_run_status:
  "run_status_of r (fail_run rid w) =
     (if r = rid then map_option (\<lambda>_. RFailed) (run_status_of rid w) else run_status_of r w)"
  by (simp add: run_status_of_def fail_run_def find_set option.map_comp comp_def)

lemma run_status_frame [simp]:
  "run_status_of r (emit n i f w) = run_status_of r w" "run_status_of r (call e w) = run_status_of r w"
  "run_status_of r (set_step i g w) = run_status_of r w"
  "run_status_of r (set_step_status i st w) = run_status_of r w"
  "run_status_of r (set_story i h w) = run_status_of r w"
  "run_status_of r (emitRunTerminalEvent n i a b c w) = run_status_of r w"
  "run_status_of r (scheduleRunCronTeardown i w) = run_status_of r w"
  "run_status_of r (respawned_event x ag s k d w) = run_status_of r w"
  "run_status_of r (paused_event x ag s y d w) = run_status_of r w"
  "run_status_of r (recovery_event x s d w) = run_status_of r w"
  "run_status_of r (record_abandonment ao s t q k w) = run_status_of r w"
  by (simp_all add: scheduleRunCronTeardown_status set_step_status_def)
     (simp_all add: run_status_of_def respawned_event_def paused_event_def recovery_event_def
        record_abandonment_def find_run_def)

lemma count_recovery_status [simp]: "run_status_of r (count_recovery e i w) = run_status_of r w"
  by (cases "r = i")
     (simp_all add: count_recovery_def run_status_of_def run_table.find_upd_same
        run_table.find_upd_other option.map_comp comp_def)

lemma setRunContextKey_status [simp]:
  "run_status_of r (setRunContextKey i k v w) = run_status_of r w"
  by (cases "find_run i w")
     (auto simp: setRunContextKey_def run_status_of_def split_def Let_def find_set option.map_comp comp_def)

lemma note_timeout_retry_status [simp]:
  "run_status_of r (note_timeout_retry e i w) = run_status_of r w"
  by (simp add: note_timeout_retry_def split: option.splits)

text \<open>Lookups only depend on the table.\<close>

lemma find_step_cong: "steps w = steps w' \<Longrightarrow> find_step i w = find_step i w'"
  by (simp add: find_step_def)

lemma find_story_cong: "stories w = stories w' \<Longrightarrow> find_story i w = find_story i w'"
  by (simp add: find_story_def)

section \<open>The budget of a story\<close>

lemma story_back_find:
  "find_step i (story_back s t n w) =
     (if i = s_id s
      then map_option (\<lambda>u. u\<lparr>s_status := SPending, s_current_story_id := None,
                             s_updated_at := Some (now w)\<rparr>) (find_step i w)
      else find_step i w)"
  "find_story j (story_back s t n w) =
     (if j = t_id t
      then map_option (\<lambda>x. x\<lparr>t_status := TPending, t_abandoned_count := n,
                             t_updated_at := Some (now w)\<rparr>) (find_story j w)
      else find_story j w)"
  by (simp_all add: story_back_def find_set)

lemma story_back_simps [simp]:
  "runs (story_back s t n w) = runs w" "now (story_back s t n w) = now w"
  "abandonments (story_back s t n w) = abandonments w"
  "run_status_of r (story_back s t n w) = run_status_of r w"
  by (simp_all add: story_back_def)

lemma story_lost_find:
  "find_step i (story_lost s t n out f g w) =
     (if i = s_id s
      then map_option (\<lambda>u. u\<lparr>s_status := SFailed, s_output := Some out, s_current_story_id := None,
                             s_updated_at := Some (now w)\<rparr>) (find_step i w)
      else find_step i w)"
  "find_story j (story_lost s t n out f g w) =
     (if j = t_id t
      then map_option (\<lambda>x. x\<lparr>t_status := TFailed, t_abandoned_count := n,
                             t_updated_at := Some (now w)\<rparr>) (find_story j w)
      else find_story j w)"
  by (simp_all add: story_lost_def Let_def find_set)

lemma story_lost_simps [simp]:
  "abandonments (story_lost s t n out f g w) = abandonments w" "now (story_lost s t n out f g w) = now w"
  "run_status_of r (story_lost s t n out f g w) =
     (if r = s_run_id s then map_option (\<lambda>_. RFailed) (run_status_of r w) else run_status_of r w)"
  by (simp_all add: story_lost_def Let_def fail_run_status)

text \<open>The two ways to charge a story: the clean-up of old rows and the recovery of a lost worker.\<close>

inductive charged :: "step \<Rightarrow> story \<Rightarrow> store \<Rightarrow> store \<Rightarrow> bool" for s t w where
  too_old: "charged s t w (cleanup_story s t w)"
| worker_gone: "we_abandon e \<noteq> Some ''paused_by_operator'' \<Longrightarrow>
                  charged s t w (fst (recover_story e a s t w))"

lemmas recovered_defs = cleanup_story_def recover_story_def recover_story_charged_def Let_def

lemma charged_rows:
  assumes "charged s t w w'"
  obtains out where
    "t_abandoned_count t < ABANDON_STORY_MAX \<Longrightarrow>
       find_step i w' = find_step i (story_back s t (Suc (t_abandoned_count t)) w)"
    "\<not> t_abandoned_count t < ABANDON_STORY_MAX \<Longrightarrow>
       find_step i w' = find_step i (story_lost s t (Suc (t_abandoned_count t)) out id id w)"
    "find_story j w' = find_story j
       (if t_abandoned_count t < ABANDON_STORY_MAX
        then story_back s t (Suc (t_abandoned_count t)) w
        else story_lost s t (Suc (t_abandoned_count t)) out id id w)"
    "run_status_of r w' =
       (if \<not> t_abandoned_count t < ABANDON_STORY_MAX \<and> r = s_run_id s
        then map_option (\<lambda>_. RFailed) (run_status_of r w) else run_status_of r w)"
    "length (abandonments w') = Suc (length (abandonments w))"
proof -
  have st: "find_step i (record_abandonment a s t q n w) = find_step i w"
    "find_story j (record_abandonment a s t q n w) = find_story j w" for a q n i j
    by (rule find_step_cong find_story_cong; simp)+
  have fr: "find_step i (recovery_event e s d v) = find_step i v"
    "find_step i (count_recovery e r v) = find_step i v"
    "find_step i (respawned_event e a s n d v) = find_step i v"
    "find_step i (note_timeout_retry e r v) = find_step i v"
    "find_story j (recovery_event e s d v) = find_story j v"
    "find_story j (count_recovery e r v) = find_story j v"
    "find_story j (respawned_event e a s n d v) = find_story j v"
    "find_story j (note_timeout_retry e r v) = find_story j v" for e d v r a n i j
    by (rule find_step_cong find_story_cong; simp)+
  from assms show ?thesis
  proof cases
    case too_old
    show ?thesis
      by (rule that [where out = "''Story abandoned - abandon budget exhausted''"])
         (simp_all add: too_old recovered_defs story_back_find story_lost_find st)
  next
    case (worker_gone e a)
    show ?thesis
      by (rule that [where out = "''Agent terminated without completing story; abandon budget exhausted''"])
         (simp_all add: worker_gone recovered_defs story_back_find story_lost_find st fr)
  qed
qed

text \<open>C17.  A story taken back from a lost agent, or from one that ran for too long, is charged one
  abandonment, on record.  While it has been abandoned less than eight times before, it and its loop
  become pending again and no run changes its status; after that the story, the loop and the run
  have failed.  The retries of the loop are never charged, and other steps and stories stay.\<close>

theorem story_abandon_budget:
  assumes "charged s t w w'" "find_step (s_id s) w = Some s" "find_story (t_id t) w = Some t"
  shows "map_option t_abandoned_count (find_story (t_id t) w') = Some (Suc (t_abandoned_count t))
    \<and> length (abandonments w') = Suc (length (abandonments w))
    \<and> map_option s_current_story_id (find_step (s_id s) w') = Some None
    \<and> map_option s_retry_count (find_step (s_id s) w') = Some (s_retry_count s)
    \<and> (i \<noteq> s_id s \<longrightarrow> find_step i w' = find_step i w)
    \<and> (j \<noteq> t_id t \<longrightarrow> find_story j w' = find_story j w)
    \<and> (if t_abandoned_count t < 8
       then step_status_of (s_id s) w' = Some SPending
         \<and> map_option t_status (find_story (t_id t) w') = Some TPending
         \<and> (\<forall>r. run_status_of r w' = run_status_of r w)
       else step_status_of (s_id s) w' = Some SFailed
         \<and> map_option t_status (find_story (t_id t) w') = Some TFailed
         \<and> run_status_of (s_run_id s) w' = map_option (\<lambda>_. RFailed) (run_status_of (s_run_id s) w))"
proof (cases "t_abandoned_count t < ABANDON_STORY_MAX")
  case True
  have "find_step k w' = find_step k (story_back s t (Suc (t_abandoned_count t)) w)
      \<and> find_story l w' = find_story l (story_back s t (Suc (t_abandoned_count t)) w)
      \<and> run_status_of r w' = run_status_of r w
      \<and> length (abandonments w') = Suc (length (abandonments w))" for k l r
    by (rule charged_rows [OF assms(1), of k l r]) (use True in simp)
  then show ?thesis using True assms(2,3)
    by (simp add: ABANDON_STORY_MAX_def story_back_find step_status_of_def)
next
  case False
  have rows: "\<exists>out. find_step k w' = find_step k (story_lost s t (Suc (t_abandoned_count t)) out id id w)
      \<and> find_story l w' = find_story l (story_lost s t (Suc (t_abandoned_count t)) out id id w)
      \<and> run_status_of (s_run_id s) w' = map_option (\<lambda>_. RFailed) (run_status_of (s_run_id s) w)
      \<and> length (abandonments w') = Suc (length (abandonments w))" for k l
    by (rule charged_rows [OF assms(1), of k l "s_run_id s"]) (use False in auto)
  show ?thesis using False assms(2,3) rows [of "s_id s" "t_id t"] rows [of i j]
    by (auto simp: ABANDON_STORY_MAX_def story_lost_find step_status_of_def)
qed

definition loop1 :: step where
  "loop1 = loop0\<lparr>s_status := SRunning, s_current_story_id := Some ''t''\<rparr>"

definition story1 :: "nat \<Rightarrow> story" where
  "story1 n = story0\<lparr>t_status := TRunning, t_abandoned_count := n\<rparr>"

definition store2 :: "nat \<Rightarrow> store" where
  "store2 n = store0\<lparr>steps := [step0, loop1, merge0\<lparr>s_status := SWaiting\<rparr>], stories := [story1 n]\<rparr>"

lemma store2_finds:
  "find_step (s_id loop1) (store2 n) = Some loop1"
  "find_story (t_id (story1 n)) (store2 n) = Some (story1 n)"
  by (simp_all add: store2_def loop1_def story1_def sample_defs eval_store)

lemma story_abandon_budget_witness:
  "step_status_of ''d'' (cleanup_story loop1 (story1 8) (store2 8)) = Some SFailed
   \<and> step_status_of ''d'' (cleanup_story loop1 (story1 7) (store2 7)) = Some SPending"
proof -
  have "s_id loop1 = ''d''" "t_abandoned_count (story1 n) = n" for n
    by (simp_all add: loop1_def story1_def sample_defs)
  then show ?thesis
    using story_abandon_budget [OF charged.too_old store2_finds(1), of "story1 8" 8]
      story_abandon_budget [OF charged.too_old store2_finds(1), of "story1 7" 7] store2_finds(2) by simp
qed


text \<open>A history of the store in which a story was put back \<open>n\<close> times.  In between anything may
  happen that leaves its abandonments alone.\<close>

inductive putting_back :: "string \<Rightarrow> nat \<Rightarrow> store \<Rightarrow> store \<Rightarrow> bool" for i where
  start: "putting_back i 0 w w"
| other: "putting_back i n w w1 \<Longrightarrow>
            map_option t_abandoned_count (find_story i w2) = map_option t_abandoned_count (find_story i w1) \<Longrightarrow>
            putting_back i n w w2"
| again: "putting_back i n w w1 \<Longrightarrow> find_step (s_id s) w1 = Some s \<Longrightarrow> find_story i w1 = Some t \<Longrightarrow>
            charged s t w1 w2 \<Longrightarrow> map_option t_status (find_story i w2) = Some TPending \<Longrightarrow>
            putting_back i (Suc n) w w2"

lemma charged_outcome:
  assumes "charged s t w w'" "find_story (t_id t) w = Some t"
  shows "map_option t_abandoned_count (find_story (t_id t) w') = Some (Suc (t_abandoned_count t))
    \<and> (map_option t_status (find_story (t_id t) w') = Some TPending \<longrightarrow>
       t_abandoned_count t < ABANDON_STORY_MAX)"
  by (rule charged_rows [OF assms(1), of undefined "t_id t" undefined])
     (use assms(2) in \<open>auto simp: story_back_find story_lost_find split: if_splits\<close>)

lemma putting_back_count:
  assumes "putting_back i n w w'" "map_option t_abandoned_count (find_story i w) = Some k"
  shows "map_option t_abandoned_count (find_story i w') = Some (k + n)
    \<and> (n \<noteq> 0 \<longrightarrow> k + n \<le> ABANDON_STORY_MAX)"
  using assms
proof (induction rule: putting_back.induct)
  case (again n w w1 s t w2)
  have "t_id t = i" using story_table.find_key [of i w1 t] again(3) by simp
  then show ?case using again charged_outcome [of s t w1 w2] by auto
qed auto

text \<open> Between two resets of its count a story that was abandoned \<open>k\<close> times is put back into the
  queue at most \<open>8 - k\<close> times: abandoned work does not go round for ever.\<close>

theorem abandons_bounded:
  assumes "putting_back i n w w'" "map_option t_abandoned_count (find_story i w) = Some k"
  shows "n \<le> 8 - k"
  using putting_back_count [OF assms] by (cases n) (auto simp: ABANDON_STORY_MAX_def)

lemma abandons_bounded_witness:
  "putting_back ''t'' (Suc 0) (store2 0) (cleanup_story loop1 (story1 0) (store2 0)) \<and> Suc 0 \<le> 8 - 0"
proof -
  have i: "t_id (story1 0) = ''t''" by (simp add: story1_def sample_defs)
  have "map_option t_status (find_story ''t'' (cleanup_story loop1 (story1 0) (store2 0))) = Some TPending"
    by (rule charged_rows [OF charged.too_old [of loop1 "story1 0" "store2 0"], of undefined "''t''" undefined])
       (use store2_finds(2) [of 0] i in
         \<open>simp add: story_back_find ABANDON_STORY_MAX_def story1_def [of 0] sample_defs\<close>)
  then have p: "putting_back ''t'' (Suc 0) (store2 0) (cleanup_story loop1 (story1 0) (store2 0))"
    using store2_finds(2) [of 0] i
    by (intro putting_back.again [OF putting_back.start store2_finds(1) _ charged.too_old]) simp_all
  show ?thesis using p abandons_bounded [OF p, of 0]
    store2_finds(2) [of 0] i by (simp add: story1_def sample_defs)
qed


section \<open>Recovery stays in its run\<close>

lemma story_of_run_only_run:
  assumes "only_run rid w w'" "story_of_run rid i w"
  shows "story_of_run rid i w'"
proof -
  have "set (filter (\<lambda>t. t_run_id t \<noteq> rid) (stories w')) = set (filter (\<lambda>t. t_run_id t \<noteq> rid) (stories w))"
    using assms(1) by (simp add: only_run_def)
  then have "t \<in> set (stories w') \<Longrightarrow> t_run_id t \<noteq> rid \<Longrightarrow> t \<in> set (stories w)" for t
    by auto
  then show ?thesis using assms(2) by (auto simp: story_of_run_def)
qed

lemma only_run_upd_run [frame]:
  assumes "only_run rid w w'" "\<And>r. r_id (f r) = r_id r"
  shows "only_run rid w (upd_run rid f w')"
proof -
  have "filter (\<lambda>r. r_id r \<noteq> rid) (runs (upd_run rid f w')) = filter (\<lambda>r. r_id r \<noteq> rid) (runs w')"
    unfolding run_table.rows_upd by (rule filter_upd_where_frame) (simp_all add: assms(2))
  moreover have "map r_id (runs (upd_run rid f w')) = map r_id (runs w')"
    by (rule run_table.keys_upd) (rule assms(2))
  ultimately show ?thesis using assms(1) by (simp add: only_run_def)
qed

lemma only_run_set_context [frame]:
  "only_run rid w w' \<Longrightarrow> only_run rid w (setRunContextKey rid k v w')"
  by (auto simp: setRunContextKey_def split_def Let_def intro!: frame split: option.splits)

lemma only_run_log [frame]:
  "only_run rid w w' \<Longrightarrow> only_run rid w (respawned_event e a s n d w')"
  "only_run rid w w' \<Longrightarrow> only_run rid w (paused_event e a s x d w')"
  "only_run rid w w' \<Longrightarrow> only_run rid w (recovery_event e s d w')"
  "only_run rid w w' \<Longrightarrow> only_run rid w (count_recovery e rid w')"
  "only_run rid w w' \<Longrightarrow> only_run rid w (note_timeout_retry e rid w')"
  "only_run rid w w' \<Longrightarrow> only_run rid w (record_abandonment ao s t q n w')"
  by (auto simp: respawned_event_def paused_event_def recovery_event_def count_recovery_def
        note_timeout_retry_def intro!: frame split: option.splits)
     (simp add: only_run_def)

lemma only_run_story_back [frame]:
  "only_run rid w w' \<Longrightarrow> step_of_run rid (s_id s) w' \<Longrightarrow> story_of_run rid (t_id t) w' \<Longrightarrow>
   only_run rid w (story_back s t n w')"
  unfolding story_back_def by (intro frame) simp_all

lemma only_run_story_lost [frame]:
  "only_run rid w w' \<Longrightarrow> step_of_run rid (s_id s) w' \<Longrightarrow> story_of_run rid (t_id t) w' \<Longrightarrow>
   s_run_id s = rid \<Longrightarrow> only_run rid w (story_lost s t n out f g w')"
  unfolding story_lost_def Let_def by (simp, intro frame) simp_all

lemma of_run_same_tables:
  "steps w' = steps w \<Longrightarrow> step_of_run rid i w' = step_of_run rid i w"
  "stories w' = stories w \<Longrightarrow> story_of_run rid j w' = story_of_run rid j w"
  by (simp_all add: step_of_run_def story_of_run_def)

lemma only_run_recover_story:
  assumes "step_of_run (s_run_id s) (s_id s) w" "story_of_run (s_run_id s) (t_id t) w"
  shows "only_run (s_run_id s) w (fst (recover_story e a s t w))"
proof -
  have "only_run (s_run_id s) w (recover_story_paused e a s t w)"
    unfolding recover_story_paused_def by (intro frame) (simp_all add: assms)
  moreover have "only_run (s_run_id s) w (fst (recover_story_charged e a s t w))"
    by (cases "ABANDON_STORY_MAX < Suc (t_abandoned_count t)"; simp add: recover_story_charged_def Let_def;
        intro frame) (simp_all add: assms of_run_same_tables)
  ultimately show ?thesis by (simp add: recover_story_def)
qed

lemma only_run_recover_step:
  assumes "wf_store w" "step_of_run (s_run_id s) (s_id s) w"
  shows "only_run (s_run_id s) w (fst (recover_step specs e a s w))"
proof -
  have rr: "only_run (s_run_id s) w (fst (rerouteStepSync specs (s_run_id s) x (s_id s) y w))" for x y
  proof -
    have "consumer_of (s_id s) (s_run_id s) w"
      using assms(2) step_table.find_key by (fastforce simp: consumer_of_def step_of_run_def)
    then show ?thesis using assms(1)
      by (auto simp: rerouteStepSync_def only_run_reroute split: option.splits)
  qed
  have fo: "only_run (s_run_id s) w (fail_orphan s r w')"
    if "only_run (s_run_id s) w w'" for r w'
    using that step_of_run_only_run [OF that, of "s_run_id s" "s_id s"] assms(2)
    unfolding fail_orphan_def Let_def by (intro frame) simp_all
  have "only_run (s_run_id s) w (fst (recover_step_exhausted specs s w))"
    unfolding recover_step_exhausted_def
    using rr [of "s_step_id s" orphan_reason] fo
    by (auto split: prod.splits reroute_result.splits)
  then show ?thesis using assms(2)
    by (auto simp: recover_step_def recover_step_paused_def recover_step_retry_def Let_def intro!: frame)
qed

lemma story_of_step_find: "story_of_step s w = Some t \<Longrightarrow> \<exists>i. s_current_story_id s = Some i \<and> find_story i w = Some t"
  by (auto simp: story_of_step_def split: option.splits if_splits)

definition own_stories :: "string \<Rightarrow> store \<Rightarrow> bool" where
  "own_stories rid w \<longleftrightarrow>
     (\<forall>s \<in> set (run_steps rid w). \<forall>i. s_current_story_id s = Some i \<longrightarrow> story_of_run rid i w)"

lemma only_run_recover_one:
  assumes "wf_store w" "step_of_run (s_run_id s) (s_id s) w"
    "\<And>i. s_current_story_id s = Some i \<Longrightarrow> story_of_run (s_run_id s) i w"
  shows "only_run (s_run_id s) w (fst (recover_one specs e a s (w, c)))"
proof -
  let ?w1 = "call (ReleaseSuiteClaims (s_run_id s) (s_step_id s)) w"
  have w1: "only_run (s_run_id s) w ?w1" by (simp add: frame)
  have st: "only_run (s_run_id s) w (fst (recover_step specs e a s ?w1))"
    using only_run_trans [OF w1 only_run_recover_step] assms(1,2) only_run_wf [OF w1] by simp
  have "only_run (s_run_id s) w (fst (recover_story e a s t ?w1))"
    if t: "story_of_step s ?w1 = Some t" for t
  proof -
    from story_of_step_find [OF t] obtain i where i: "s_current_story_id s = Some i"
      "find_story i ?w1 = Some t" by blast
    then have "t_id t = i" using story_table.find_key by blast
    then show ?thesis
      using only_run_trans [OF w1 only_run_recover_story] assms(2,3) i(1) by simp
  qed
  then show ?thesis using st
    by (auto simp: recover_one_def Let_def split_def split: option.splits)
qed

lemma only_run_recover_fold:
  assumes "only_run rid w0 w" "wf_store w0"
    "\<And>s. s \<in> set ss \<Longrightarrow> s_run_id s = rid \<and> step_of_run rid (s_id s) w0
       \<and> (\<forall>i. s_current_story_id s = Some i \<longrightarrow> story_of_run rid i w0)"
  shows "only_run rid w0 (fst (fold (recover_one specs e a) ss (w, c)))"
  using assms
proof (induction ss arbitrary: w c)
  case (Cons s ss)
  obtain w1 c1 where 1: "recover_one specs e a s (w, c) = (w1, c1)" by fastforce
  have s: "s_run_id s = rid" using Cons.prems(3) by simp
  have "only_run rid w w1"
    using only_run_recover_one [OF only_run_wf [OF Cons.prems(1,2)], of s specs e a c] 1 Cons.prems(3) s
      step_of_run_only_run [OF Cons.prems(1)] story_of_run_only_run [OF Cons.prems(1)] by fastforce
  then have "only_run rid w0 w1" by (rule only_run_trans [OF Cons.prems(1)])
  then have "only_run rid w0 (fst (fold (recover_one specs e a) ss (w1, c1)))"
    using Cons.prems(2,3) by (intro Cons.IH) auto
  then show ?case using 1 by simp
qed simp

lemma orphans_in: "s \<in> set (orphans e a rid w) \<Longrightarrow> s \<in> set (run_steps rid w) \<and> s_run_id s = rid
    \<and> s_status s = SRunning"
  by (auto simp: orphans_def run_steps_def)

interpretation recovery: run_operation own_stories
    "\<lambda>rid w. fst (recoverOrphanedStepsForAgent specs e a rid w)" for specs e a
proof
  fix w rid
  assume "wf_store w" "own_stories rid w"
  then show "only_run rid w (fst (recoverOrphanedStepsForAgent specs e a rid w))"
    unfolding recoverOrphanedStepsForAgent_def
    by (intro only_run_recover_fold) (auto simp: own_stories_def dest!: orphans_in intro: in_run_steps_of_run)
qed


section \<open>An operator's pause\<close>

definition step_budget :: "step \<Rightarrow> nat \<times> nat \<times> nat \<times> string option" where
  "step_budget s = (s_retry_count s, s_abandoned_count s, s_reroute_count s, s_output s)"

definition story_budget :: "story \<Rightarrow> nat \<times> nat" where
  "story_budget t = (t_retry_count t, t_abandoned_count t)"

lemma map_set_step:
  "(\<And>s. g ((f s)\<lparr>s_updated_at := Some (now w)\<rparr>) = g s) \<Longrightarrow>
   map g (steps (set_step i f w)) = map g (steps w)"
  unfolding set_step_def step_table.rows_upd by (rule map_upd_where)

lemma map_set_story:
  "(\<And>t. g ((f t)\<lparr>t_updated_at := Some (now w)\<rparr>) = g t) \<Longrightarrow>
   map g (stories (set_story i f w)) = map g (stories w)"
  unfolding set_story_def story_table.rows_upd by (rule map_upd_where)

text \<open>What a recovery after a pause leaves alone.\<close>

definition unpaid :: "store \<Rightarrow> store \<Rightarrow> bool" where
  "unpaid w w' \<longleftrightarrow>
     map step_budget (steps w') = map step_budget (steps w) \<and> map s_id (steps w') = map s_id (steps w)
     \<and> map story_budget (stories w') = map story_budget (stories w)
     \<and> runs w' = runs w \<and> abandonments w' = abandonments w"

lemma recover_one_paused:
  assumes "we_abandon e = Some ''paused_by_operator''"
    "recover_one specs e a s (w, c) = (w', c')"
  shows "unpaid w w'" "failed c' = failed c"
    "recovered c' + skipped c' = Suc (recovered c + skipped c)"
    "i \<noteq> s_id s \<Longrightarrow> find_step i w' = find_step i w"
    "step_status_of i w = Some SPending \<Longrightarrow> step_status_of i w' = Some SPending"
    "s_type s \<noteq> TyLoop \<Longrightarrow> find_step (s_id s) w \<noteq> None \<Longrightarrow>
       step_status_of (s_id s) w' = Some SPending"
proof -
  have fs: "find_step j (respawned_event e a s n d v) = find_step j v"
    "find_step j (paused_event e a s x d v) = find_step j v" for j n d v x
    by (rule find_step_cong; simp)+
  have cases: "w' = w \<and> c' = c\<lparr>skipped := Suc (skipped c)\<rparr> \<and> s_type s = TyLoop
     \<or> c' = c\<lparr>recovered := Suc (recovered c)\<rparr>
       \<and> (w' = recover_step_paused e a s (call (ReleaseSuiteClaims (s_run_id s) (s_step_id s)) w)
          \<or> s_type s = TyLoop \<and> (\<exists>t. w' = recover_story_paused e a s t
                (call (ReleaseSuiteClaims (s_run_id s) (s_step_id s)) w)))"
    using assms(2)
    by (auto simp: recover_one_def Let_def recover_story_def recover_step_def assms(1)
           verifier_at_work_def story_of_step_def split: if_splits option.splits)
  show "unpaid w w'"
    using cases
    by (elim disjE conjE exE)
       (simp_all add: unpaid_def recover_step_paused_def recover_story_paused_def set_step_status_def
          step_budget_def story_budget_def map_set_step map_set_story)
  show "failed c' = failed c" "recovered c' + skipped c' = Suc (recovered c + skipped c)"
    using cases by auto
  show "i \<noteq> s_id s \<Longrightarrow> find_step i w' = find_step i w"
    using cases
    by (auto simp: recover_step_paused_def recover_story_paused_def set_step_status_def fs find_set)
  show "step_status_of i w = Some SPending \<Longrightarrow> step_status_of i w' = Some SPending"
    using cases
    by (auto simp: recover_step_paused_def recover_story_paused_def set_step_status_def fs find_set
           step_status_of_def)
  show "s_type s \<noteq> TyLoop \<Longrightarrow> find_step (s_id s) w \<noteq> None \<Longrightarrow> step_status_of (s_id s) w' = Some SPending"
    using cases
    by (auto simp: recover_step_paused_def set_step_status_def fs find_set step_status_of_def)
qed

lemma unpaid_refl [simp]: "unpaid w w"
  by (simp add: unpaid_def)

lemma unpaid_trans: "unpaid a b \<Longrightarrow> unpaid b c \<Longrightarrow> unpaid a c"
  by (simp add: unpaid_def)

lemma unpaid_find: "unpaid w w' \<Longrightarrow> find_step i w' = None \<longleftrightarrow> find_step i w = None"
proof -
  have "find_step i u = None \<longleftrightarrow> i \<notin> set (map s_id (steps u))" for u
    by (auto simp: find_step_def find_None_iff)
  then show "unpaid w w' \<Longrightarrow> find_step i w' = None \<longleftrightarrow> find_step i w = None"
    by (simp add: unpaid_def del: set_map)
qed

lemma recover_fold_paused:
  assumes "we_abandon e = Some ''paused_by_operator''"
    "fold (recover_one specs e a) ss (w, c) = (w', c')"
  shows "unpaid w w' \<and> failed c' = failed c
    \<and> recovered c' + skipped c' = recovered c + skipped c + length ss
    \<and> (\<forall>i. i \<notin> s_id ` set ss \<longrightarrow> find_step i w' = find_step i w)
    \<and> (\<forall>i. step_status_of i w = Some SPending \<longrightarrow> step_status_of i w' = Some SPending)
    \<and> (\<forall>s \<in> set ss. s_type s \<noteq> TyLoop \<longrightarrow> find_step (s_id s) w \<noteq> None \<longrightarrow>
         step_status_of (s_id s) w' = Some SPending)"
  using assms(2)
proof (induction ss arbitrary: w c)
  case (Cons s ss)
  obtain w1 c1 where 1: "recover_one specs e a s (w, c) = (w1, c1)" by fastforce
  note one = recover_one_paused [OF assms(1) 1]
  have ih: "unpaid w1 w' \<and> failed c' = failed c1
    \<and> recovered c' + skipped c' = recovered c1 + skipped c1 + length ss
    \<and> (\<forall>i. i \<notin> s_id ` set ss \<longrightarrow> find_step i w' = find_step i w1)
    \<and> (\<forall>i. step_status_of i w1 = Some SPending \<longrightarrow> step_status_of i w' = Some SPending)
    \<and> (\<forall>s \<in> set ss. s_type s \<noteq> TyLoop \<longrightarrow> find_step (s_id s) w1 \<noteq> None \<longrightarrow>
         step_status_of (s_id s) w' = Some SPending)"
    using Cons.IH [of w1 c1] Cons.prems 1 by simp
  then show ?case
    using one(1-5) one(6) unpaid_trans [OF one(1)] unpaid_find [OF one(1)] by auto
qed simp

text \<open>An operator's pause costs the run nothing: every orphan of the agent is recovered or left
  to its verifier, none fails, plain steps are pending again, no retry, abandonment or reroute is
  charged, no output is written, no run changes, and the other steps stay as they are.\<close>

theorem pause_charges_nothing:
  assumes "we_abandon e = Some ''paused_by_operator''"
    "recoverOrphanedStepsForAgent specs e a rid w = (w', c)" "wf_store w"
  shows "failed c = 0 \<and> recovered c + skipped c = length (orphans e a rid w)
    \<and> map step_budget (steps w') = map step_budget (steps w)
    \<and> map story_budget (stories w') = map story_budget (stories w)
    \<and> runs w' = runs w \<and> abandonments w' = abandonments w
    \<and> (\<forall>s \<in> set (orphans e a rid w). s_type s \<noteq> TyLoop \<longrightarrow> step_status_of (s_id s) w' = Some SPending)
    \<and> (\<forall>i. i \<notin> s_id ` set (orphans e a rid w) \<longrightarrow> find_step i w' = find_step i w)"
proof -
  have "find_step (s_id s) w \<noteq> None" if "s \<in> set (orphans e a rid w)" for s
    using that orphans_in [of s e a rid w] step_table.find_in_rows [of w s] assms(3)
    by (auto simp: wf_store_def run_steps_def)
  then show ?thesis
    using recover_fold_paused [OF assms(1,2) [unfolded recoverOrphanedStepsForAgent_def]]
    by (simp add: unpaid_def)
qed

definition pause_end :: worker_end where
  "pause_end = plain_end\<lparr>we_job := Some ''j'', we_abandon := Some ''paused_by_operator''\<rparr>"

lemma orphans0: "orphans pause_end ''merger'' ''r'' store0 = [merge0]"
  by (simp add: orphans_def pause_end_def plain_end_def sample_defs eval_store)

lemma pause_charges_nothing_witness:
  "map step_budget (steps (fst (recoverOrphanedStepsForAgent (\<lambda>_. None) pause_end ''merger'' ''r'' store0)))
     = map step_budget (steps store0)
   \<and> step_status_of ''m'' (fst (recoverOrphanedStepsForAgent (\<lambda>_. None) pause_end ''merger'' ''r'' store0))
     = Some SPending"
proof -
  obtain w' c where r: "recoverOrphanedStepsForAgent (\<lambda>_. None) pause_end ''merger'' ''r'' store0 = (w', c)"
    by fastforce
  have "wf_store store0" by (rule store0_facts(1))
  moreover have "we_abandon pause_end = Some ''paused_by_operator''" by (simp add: pause_end_def)
  ultimately show ?thesis
    using pause_charges_nothing [OF _ r] r by (simp add: orphans0) (simp add: merge0_def step0_def)
qed

section \<open>Live and fresh work\<close>

text \<open>A running step the clean-up must not take: not known to be old.\<close>

definition fresh :: "step \<Rightarrow> store \<Rightarrow> bool" where
  "fresh s w \<longleftrightarrow> \<not> isOlderThan (s_updated_at s) ABANDONED_THRESHOLD_MS (now w) STEP_AGE_TOLERANCE_MS"

lemma cleanup_step_other:
  "i \<noteq> s_id s \<Longrightarrow> find_step i (cleanup_step s w) = find_step i w"
  by (auto simp: cleanup_step_def cleanup_story_def cleanup_reset_def Let_def story_back_find
        story_lost_find find_set find_step_cong [of "record_abandonment a b c d e f" f for a b c d e f]
        split: option.splits)

lemma cleanup_step_fresh: "fresh s w \<Longrightarrow> cleanup_step s w = w"
  by (simp add: cleanup_step_def fresh_def)

lemma map_id_set_step:
  "(\<And>s. s_id (f s) = s_id s) \<Longrightarrow> map s_id (steps (set_step i f w)) = map s_id (steps w)"
  by (rule map_set_step) simp

lemma cleanup_step_ids [simp]:
  "map s_id (steps (cleanup_step s w)) = map s_id (steps w)" "now (cleanup_step s w) = now w"
  by (auto simp: cleanup_step_def cleanup_story_def cleanup_reset_def Let_def story_back_def
        story_lost_def map_id_set_step split: option.splits)

lemma cleanup_fold:
  assumes "distinct (map s_id (steps w))" "find_step i w = Some s" "fresh s w"
    "\<And>u. u \<in> set ss \<Longrightarrow> s_id u = i \<Longrightarrow> u = s"
  shows "find_step i (fold cleanup_step ss w) = Some s
    \<and> map s_id (steps (fold cleanup_step ss w)) = map s_id (steps w)"
  using assms
proof (induction ss arbitrary: w)
  case (Cons u ss)
  have "find_step i (cleanup_step u w) = Some s"
    using Cons.prems(2,3) Cons.prems(4) [of u] cleanup_step_fresh [of s w] cleanup_step_other [of i u w]
    by (cases "s_id u = i") auto
  then show ?case using Cons.IH [of "cleanup_step u w"] Cons.prems by (simp add: fresh_def)
qed simp

lemma cleanup_orphan_simps [simp]: "steps (fold cleanup_orphan_story ts w) = steps w"
  by (induction ts arbitrary: w) (simp_all add: cleanup_orphan_story_def)

lemma advance_keeps_running:
  assumes "distinct (map s_id (steps w))" "find_step i w = Some s" "s_status s = SRunning"
  shows "find_step i (fst (advancePipeline r w)) = Some s
    \<and> map s_id (steps (fst (advancePipeline r w))) = map s_id (steps w)"
proof -
  have "s_id n \<noteq> i" if "next_waiting r w = Some n" for n
    using next_waiting_SomeD [OF that] step_table.find_in_rows [of w n] assms
    by (auto simp: run_steps_def)
  then show ?thesis using assms(2)
    by (auto simp: advancePipeline_def set_step_status_def find_set map_id_set_step
          find_step_cong [of "promote_step a b c" "set_step_status (s_id b) SPending c" for a b c]
          find_step_cong [of "complete_run a c" c for a c] split: option.splits)
qed

lemma advance_fold:
  assumes "distinct (map s_id (steps w))" "find_step i w = Some s" "s_status s = SRunning"
  shows "find_step i (fold (\<lambda>u v. fst (advancePipeline (s_run_id u) v)) us w) = Some s"
  using assms
proof (induction us arbitrary: w)
  case (Cons u us)
  then show ?case
    using advance_keeps_running [OF Cons.prems, of "s_run_id u"] by simp
qed simp

text \<open> The clean-up of abandoned work, whatever else it resets, fails or advances, leaves every
  running step exactly as it is whose last update is not older than the longest role timeout and
  five minutes, or is not a readable instant.\<close>

theorem fresh_work_kept:
  assumes "wf_store w" "find_step i w = Some s" "s_status s = SRunning"
    "\<not> isOlderThan (s_updated_at s) ((21600 + 300) * 1000) (now w) 0"
  shows "find_step i (cleanupAbandonedSteps w) = Some s"
proof -
  let ?w1 = "fold cleanup_step (filter (\<lambda>s. s_status s = SRunning) (steps w)) w"
  have d: "distinct (map s_id (steps w))" using assms(1) by (simp add: wf_store_def)
  have 1: "find_step i ?w1 = Some s \<and> map s_id (steps ?w1) = map s_id (steps w)"
  proof (rule cleanup_fold [OF d assms(2)])
    show "fresh s w" using assms(4)
      by (simp add: fresh_def ABANDONED_THRESHOLD_MS_def STEP_AGE_TOLERANCE_MS_def)
    show "u = s" if "u \<in> set (filter (\<lambda>s. s_status s = SRunning) (steps w))" "s_id u = i" for u
      using that step_table.find_in_rows [OF d, of u] assms(2) by auto
  qed
  let ?w2 = "fold cleanup_orphan_story (filter (\<lambda>t. t_status t = TRunning) (stories ?w1)) ?w1"
  have "find_step i ?w2 = Some s" "distinct (map s_id (steps ?w2))"
    using 1 d find_step_cong [of ?w2 ?w1 i] by simp_all
  then show ?thesis
    unfolding cleanupAbandonedSteps_def Let_def using assms(3) by (intro advance_fold)
qed

lemma fresh_work_kept_witness:
  "find_step ''m'' (cleanupAbandonedSteps store0) = Some merge0"
  by (rule fresh_work_kept)
     (simp_all add: store0_facts, simp_all add: sample_defs isOlderThan_def instantAgeMs_def)

text \<open>What each sweep takes for alive.\<close>

definition worker_alive :: "(int \<Rightarrow> probe) \<Rightarrow> step \<Rightarrow> bool" where
  "worker_alive probe s \<longleftrightarrow>
     (case s_claim_pid s of None \<Rightarrow> True | Some p \<Rightarrow> probe p \<noteq> NoSuchProcess)
     \<or> (case s_claim_pgid s of None \<Rightarrow> False | Some g \<Rightarrow> g > 0 \<and> probe (- g) \<noteq> NoSuchProcess)"

definition group_alive :: "(int \<Rightarrow> probe) \<Rightarrow> children \<Rightarrow> step \<Rightarrow> int \<Rightarrow> bool" where
  "group_alive probe kids s t \<longleftrightarrow>
     (case s_claim_pgid s of None \<Rightarrow> True | Some g \<Rightarrow> g \<le> 0 \<or> probe (- g) \<noteq> NoSuchProcess)
     \<or> (case s_claim_updated_at s of None \<Rightarrow> True | Some c \<Rightarrow> t - c < 30000)
     \<or> child_at_work probe kids s"

lemma sweep_dead_alive:
  "worker_alive probe s \<Longrightarrow> s_claim_pid s \<noteq> None \<Longrightarrow>
   fst (sweep_dead_worker probe specs s sw) = fst sw
   \<and> snd (snd (sweep_dead_worker probe specs s sw)) = snd (snd sw)"
  by (cases sw) (auto simp: sweep_dead_worker_def worker_alive_def Let_def split: option.splits)

lemma sweep_liveness_alive:
  "group_alive probe kids s (now (fst sw)) \<Longrightarrow> s_claim_pgid s = Some g \<Longrightarrow> g > 0 \<Longrightarrow>
   fst (sweep_liveness probe kids specs s sw) = fst sw
   \<and> snd (snd (sweep_liveness probe kids specs s sw)) = snd (snd sw)"
  by (cases sw) (auto simp: sweep_liveness_def group_alive_def Let_def instantAgeMs_def
        LIVENESS_GRACE_PERIOD_MS_def STEP_AGE_TOLERANCE_MS_def split: option.splits)

lemma fold_keeps:
  "(\<And>s sw. s \<in> set ss \<Longrightarrow> fst sw = w \<Longrightarrow> fst (f s sw) = fst sw \<and> snd (snd (f s sw)) = snd (snd sw)) \<Longrightarrow>
   fst (fold f ss (w, c, rs)) = w \<and> snd (snd (fold f ss (w, c, rs))) = rs"
proof (induction ss arbitrary: c)
  case (Cons s ss)
  have "fst (f s (w, c, rs)) = w" "snd (snd (f s (w, c, rs))) = rs" using Cons.prems [of s "(w, c, rs)"] by simp_all
  then obtain c' where "f s (w, c, rs) = (w, c', rs)" by (metis prod.collapse)
  then show ?case using Cons.IH [of c'] Cons.prems by simp
qed simp



text \<open>The sweep finds a dead worker by its row, and recovers by agent, run and job: a second step of
  that agent in that run, claimed without a job, is taken along although nothing is known of its
  worker.\<close>

definition legacy_store :: store where
  "legacy_store =
     store0\<lparr>steps := [step0, loop0\<lparr>s_type := TySingle, s_status := SRunning, s_agent_id := ''merger''\<rparr>,
                      merge0\<lparr>s_claim_pid := Some 7, s_claim_job_id := Some ''j''\<rparr>]\<rparr>"

lemma sweep_takes_unclaimed_step:
  "step_status_of ''d'' (fst (recoverStepsWithDeadWorkers (\<lambda>_. NoSuchProcess) (\<lambda>_. None) legacy_store))
     = Some SPending
   \<and> map_option s_claim_pid (find_step ''d'' legacy_store) = Some None"
  by code_simp

section \<open>Steps past their retries\<close>

lemma rerouteStepSync_Rerouted:
  assumes "rerouteStepSync specs rid cid row err w = (w', Rerouted)" "wf_store w" "find_step row w = Some c"
  shows "map_option (\<lambda>s. (s_status s, s_retry_count s)) (find_step row w') = Some (SWaiting, 0)"
  using assms rerouted_row(1) [of _ rid cid row err False w w' c]
  by (auto simp: rerouteStepSync_def split: option.splits if_splits)

lemma rerouteStepSync_refused:
  "snd (rerouteStepSync specs rid cid row err w) \<noteq> Rerouted \<Longrightarrow>
   steps (fst (rerouteStepSync specs rid cid row err w)) = steps w
   \<and> runs (fst (rerouteStepSync specs rid cid row err w)) = runs w"
  using refused_tables by (auto simp: rerouteStepSync_def split: option.splits if_splits)

lemma fail_orphan_find:
  "find_step (s_id s) (fail_orphan s r w) =
     map_option (\<lambda>u. u\<lparr>s_status := SFailed, s_retry_count := Suc (s_retry_count s), s_output := Some r,
                        s_updated_at := Some (now w)\<rparr>) (find_step (s_id s) w)"
  "run_status_of (s_run_id s) (fail_orphan s r w) = map_option (\<lambda>_. RFailed) (run_status_of (s_run_id s) w)"
  by (simp_all add: fail_orphan_def Let_def find_set fail_run_status)

text \<open>C18.  A plain step whose worker was lost becomes pending again with one more retry while its
  retries last, and no run changes its status.  Once they are used up it is either rerouted, and then
  waits with its retries afresh, or it fails and its run with it.\<close>

theorem orphan_step_settles:
  assumes "recover_step specs e a s w = (w', ok)" "wf_store w" "find_step (s_id s) w = Some s"
    "we_abandon e \<noteq> Some ''paused_by_operator''"
  shows "map_option (\<lambda>u. (s_status u, s_retry_count u)) (find_step (s_id s) w') =
      Some (if s_retry_count s < s_max_retries s then (SPending, Suc (s_retry_count s))
            else if ok then (SWaiting, 0) else (SFailed, Suc (s_retry_count s)))
    \<and> (s_retry_count s < s_max_retries s \<longrightarrow> ok \<and> (\<forall>r. run_status_of r w' = run_status_of r w))
    \<and> (\<not> ok \<longrightarrow> run_status_of (s_run_id s) w' = map_option (\<lambda>_. RFailed) (run_status_of (s_run_id s) w))"
proof (cases "s_retry_count s < s_max_retries s")
  case True
  have fs: "find_step j (recovery_event e s d v) = find_step j v"
    "find_step j (count_recovery e r v) = find_step j v"
    "find_step j (respawned_event e a s n d v) = find_step j v"
    "find_step j (note_timeout_retry e r v) = find_step j v" for d v r n j
    by (rule find_step_cong; simp)+
  from True assms(1,4) have "w' = recover_step_retry e a s w" "ok"
    by (simp_all add: recover_step_def)
  then show ?thesis using True assms(3)
    by (simp add: recover_step_retry_def Let_def fs find_set)
next
  case False
  obtain w1 res where r: "rerouteStepSync specs (s_run_id s) (s_step_id s) (s_id s) orphan_reason w = (w1, res)"
    by fastforce
  from False assms(1,4) have x: "recover_step_exhausted specs s w = (w', ok)"
    by (simp add: recover_step_def)
  show ?thesis
  proof (cases "res = Rerouted")
    case True
    then have "w' = w1" "ok" using x r by (simp_all add: recover_step_exhausted_def)
    then show ?thesis
      using False rerouteStepSync_Rerouted [OF r [unfolded True] assms(2,3)] by simp
  next
    case no: False
    then have "steps w1 = steps w" "runs w1 = runs w"
      using rerouteStepSync_refused [of specs "s_run_id s" "s_step_id s" "s_id s" orphan_reason w] r by simp_all
    then have same: "find_step j w1 = find_step j w" "run_status_of q w1 = run_status_of q w" for j q
      by (simp_all add: find_step_def run_status_of_def find_run_def)
    obtain d where "w' = fail_orphan s d w1" "\<not> ok"
      using x r no by (cases res) (auto simp: recover_step_exhausted_def)
    then show ?thesis using False assms(3)
      by (simp add: fail_orphan_find same)
  qed
qed

lemma orphan_step_settles_witness:
  "step_status_of ''m'' (fst (recover_step (\<lambda>_. None) plain_end ''merger'' merge0 store0)) = Some SPending"
proof -
  obtain w' ok where r: "recover_step (\<lambda>_. None) plain_end ''merger'' merge0 store0 = (w', ok)" by fastforce
  have m: "s_id merge0 = ''m''" "s_retry_count merge0 < s_max_retries merge0"
    by (simp_all add: merge0_def step0_def)
  have "we_abandon plain_end \<noteq> Some ''paused_by_operator''" by (simp add: plain_end_def)
  from orphan_step_settles [OF r store0_facts(1) _ this] show ?thesis
    using m store0_facts(2) r by (auto simp: step_status_of_def)
qed

section \<open>The reasons of the abandonments\<close>

lemma sum_counts: "distinct rs \<Longrightarrow> set rs = set xs \<Longrightarrow> sum_list (map (count_list xs) rs) = length xs"
  by (simp add: sum_list_distinct_conv_sum_set sum_count_set)

text \<open>The counts by reason add up to the abandonments on record for the run.\<close>

lemma reason_counts_total:
  "sum_list (map snd (reason_counts rid w)) = length (filter (\<lambda>a. ab_run_id a = rid) (abandonments w))"
proof -
  let ?rs = "map ab_reason (filter (\<lambda>a. ab_run_id a = rid) (abandonments w))"
  have "sum_list (map snd (reason_counts rid w)) =
      sum_mset (mset (map snd (map (\<lambda>r. (r, count_list ?rs r)) (sort_key text_key (remdups ?rs)))))"
    unfolding reason_counts_def Let_def
    by (simp only: sum_mset_sum_list [symmetric] mset_map mset_sort)
  also have "\<dots> = sum_list (map (count_list ?rs) (sort_key text_key (remdups ?rs)))"
    by (simp only: sum_mset_sum_list map_map comp_def snd_conv)
  also have "\<dots> = length ?rs" by (rule sum_counts) auto
  finally show ?thesis by simp
qed

end
