(* ===== verification/Fail.thy ===== *)
theory Fail
  imports Recovery_Props Claim_Context
begin

text \<open>
  Failing, releasing and resuming (\<^verbatim>\<open>src/src/installer/step-ops.ts\<close>): \<^verbatim>\<open>failStep\<close> charges a failure to
  the story or the step, reroutes it or ends the run; \<^verbatim>\<open>releaseStep\<close> takes a claim from a worker;
  \<^verbatim>\<open>resetFailedStoriesForResume\<close> puts the failed stories of a run back to work.

  \<^verbatim>\<open>failStep\<close> awaits the workflow file before it reroutes or fails a step.  The parameter \<open>between\<close> is
  whatever the other operations of the program do to the store during that wait; the step row read
  before it is the stale one, as in the code.
\<close>

section \<open>The authority of a claim\<close>

record claim_evidence =
  ce_row :: string
  ce_step :: string
  ce_run :: string
  ce_status :: step_status
  ce_job :: "string option"
  ce_pid :: "int option"
  ce_pgid :: "int option"
  ce_claim_updated :: "int option"
  ce_updated :: "int option"
  ce_invalidated :: "string option"

type_synonym authority = "claim_evidence \<Rightarrow> string option"

definition evidence_of :: "step \<Rightarrow> claim_evidence" where
  "evidence_of s =
     \<lparr>ce_row = s_id s, ce_step = s_step_id s, ce_run = s_run_id s, ce_status = s_status s,
      ce_job = s_claim_job_id s, ce_pid = s_claim_pid s, ce_pgid = s_claim_pgid s,
      ce_claim_updated = s_claim_updated_at s, ce_updated = s_updated_at s,
      ce_invalidated = s_claim_invalidated_by s\<rparr>"

definition refusal_of :: "authority option \<Rightarrow> step \<Rightarrow> string option" where
  "refusal_of auth s = (case auth of None \<Rightarrow> None | Some f \<Rightarrow> f (evidence_of s))"

definition fresh_refusal :: "authority option \<Rightarrow> string \<Rightarrow> store \<Rightarrow> string option" where
  "fresh_refusal auth i w =
     (case auth of
        None \<Rightarrow> None
      | Some f \<Rightarrow>
          (case find_step i w of
             None \<Rightarrow> Some (''authoritative step row '' @ i @ '' no longer exists at fail re-check'')
           | Some s \<Rightarrow> f (evidence_of s)))"

datatype outcome = OutBlocked | OutFailed | OutRetrying | OutRerouted | OutAdvanced | OutCompleted

definition not_found_text :: "string \<Rightarrow> string \<Rightarrow> string" where
  "not_found_text verb i =
     ''Step not found: '' @ i @ [newline]
     @ ''If you lost your step id, run: tamandua step current <agent-id> --run-id <run-id>'' @ [newline]
     @ ''If this is a run id, step '' @ verb
     @ '' expects a step id - you may have passed the wrong identifier.''"

section \<open>A failed story\<close>

definition fail_story_lost :: "step \<Rightarrow> story \<Rightarrow> string \<Rightarrow> store \<Rightarrow> store" where
  "fail_story_lost s t err w =
     (let rid = s_run_id s;
          w1 = fail_run rid
                 (set_step (s_id s)
                    (\<lambda>u. u\<lparr>s_status := SFailed, s_output := Some err, s_current_story_id := None\<rparr>)
                    (set_story (t_id t)
                       (\<lambda>u. u\<lparr>t_status := TFailed, t_retry_count := Suc (t_retry_count t)\<rparr>) w));
          wf = opt_str ''workflowId'' (getWorkflowId rid w1)
      in finalizeDrainingPause rid
           (scheduleRunCronTeardown rid
              (emitRunTerminalEvent ''run.failed'' rid (getWorkflowId rid w1)
                 (Some ''Story retries exhausted'') None
                 (emit ''step.failed'' rid
                    (wf @ [(''stepId'', VStr (s_id s)), (''detail'', VStr err)])
                    (emit ''story.failed'' rid
                       (wf @ [(''stepId'', VStr (s_id s)), (''storyId'', VStr (t_story_id t)),
                              (''storyTitle'', VStr (t_title t)), (''detail'', VStr err)]) w1)))))"

definition fail_story_retry :: "step \<Rightarrow> story \<Rightarrow> store \<Rightarrow> store" where
  "fail_story_retry s t w =
     finalizeDrainingPause (s_run_id s)
       (set_step (s_id s) (\<lambda>u. u\<lparr>s_status := SPending, s_current_story_id := None\<rparr>)
          (set_story (t_id t)
             (\<lambda>u. u\<lparr>t_status := TPending, t_retry_count := Suc (t_retry_count t)\<rparr>) w))"

definition fail_story :: "step \<Rightarrow> story \<Rightarrow> string \<Rightarrow> store \<Rightarrow> store \<times> outcome" where
  "fail_story s t err w =
     (if Suc (t_retry_count t) > t_max_retries t then (fail_story_lost s t err w, OutFailed)
      else (fail_story_retry s t w, OutRetrying))"

section \<open>A failed step\<close>

text \<open>The reroute tried once the retries are used up: a terminal failure is rerouted at most once.\<close>

definition terminal_spent :: "string \<Rightarrow> on_fail option \<Rightarrow> step \<Rightarrow> bool" where
  "terminal_spent err policy s \<longleftrightarrow>
     getFailureRerouteMode err policy = TerminalMode \<and> s_terminal_reroute_count s \<ge> 1"

definition fail_attempt ::
    "on_fail option \<Rightarrow> step \<Rightarrow> string \<Rightarrow> store \<Rightarrow> store \<times> reroute_result" where
  "fail_attempt policy s err w =
     (if terminal_spent err policy s then (w, BudgetExhausted)
      else (case policy of
              None \<Rightarrow> (w, NotFound)
            | Some p \<Rightarrow>
                if retry_target policy = None then (w, NotFound)
                else rerouteWithPolicy p (s_run_id s) (s_step_id s) (s_id s) err False w))"

definition fail_reason :: "on_fail option \<Rightarrow> step \<Rightarrow> string \<Rightarrow> reroute_result \<Rightarrow> store \<Rightarrow> string" where
  "fail_reason policy s err r w =
     (if r = InvalidTarget
      then ''Run failed: step \"'' @ s_step_id s @ ''\" declares on_fail.retry_step \"''
           @ (case policy of None \<Rightarrow> ''?''
              | Some p \<Rightarrow> (case of_retry_step p of None \<Rightarrow> ''?'' | Some t \<Rightarrow> t))
           @ ''\" which is not a valid upstream step (must have lower step_index).''
      else if r = TargetMovedExhausted then buildTargetMovedExhaustedReason (s_id s) policy err w
      else err)"

definition fail_for_good :: "step \<Rightarrow> string \<Rightarrow> string \<Rightarrow> store \<Rightarrow> store" where
  "fail_for_good s err detail w =
     (let rid = s_run_id s;
          w1 = fail_run rid
                 (set_step (s_id s)
                    (\<lambda>u. u\<lparr>s_status := SFailed, s_output := Some err,
                           s_retry_count := Suc (s_retry_count s)\<rparr>) w);
          wf = getWorkflowId rid w1;
          w2 = finalizeDrainingPause rid
                 (scheduleRunCronTeardown rid
                    (emitRunTerminalEvent ''run.failed'' rid wf (Some detail) None
                       (emit ''step.failed'' rid
                          (opt_str ''workflowId'' wf
                           @ [(''stepId'', VStr (s_id s)), (''detail'', VStr err)]) w1)))
      in if s_type s \<noteq> TyLoop then call (CheckRugpull rid) w2 else w2)"

definition fail_exhausted ::
    "on_fail option \<Rightarrow> authority option \<Rightarrow> step \<Rightarrow> string \<Rightarrow> store \<Rightarrow> store \<times> outcome" where
  "fail_exhausted policy auth s err w =
     (if fresh_refusal auth (s_id s) w \<noteq> None then (w, OutBlocked)
      else
        (let (w1, r) = fail_attempt policy s err w; reason = fail_reason policy s err r w1
         in if r = Rerouted
            then (finalizeDrainingPause (s_run_id s) (call NudgeDispatch w1), OutRerouted)
            else if fresh_refusal auth (s_id s) w1 \<noteq> None then (w1, OutBlocked)
            else (fail_for_good s reason
                    (if terminal_spent err policy s \<or> r = TargetMovedExhausted then reason
                     else ''Step retries exhausted'') w1, OutFailed)))"

definition fail_retry :: "step \<Rightarrow> string \<Rightarrow> store \<Rightarrow> store" where
  "fail_retry s err w =
     finalizeDrainingPause (s_run_id s)
       (set_step (s_id s)
          (\<lambda>u. u\<lparr>s_status := SPending, s_output := Some err,
                 s_retry_count := Suc (s_retry_count s)\<rparr>) w)"

definition current_story_of :: "step \<Rightarrow> store \<Rightarrow> story option" where
  "current_story_of s w =
     (case s_current_story_id s of
        None \<Rightarrow> None
      | Some i \<Rightarrow> if i = [] then None else find_story i w)"

definition failStepInternal ::
    "specs \<Rightarrow> (store \<Rightarrow> store) \<Rightarrow> authority option \<Rightarrow> string \<Rightarrow> string \<Rightarrow> store \<Rightarrow>
     store \<times> (exn + outcome)" where
  "failStepInternal specs between auth stepId err w =
     (let i = stripIdPrefix stepId
      in case find_step i w of
           None \<Rightarrow> (w, Inl (ErrorText (not_found_text ''fail'' i)))
         | Some s \<Rightarrow>
             if refusal_of auth s \<noteq> None then (w, Inr OutBlocked)
             else
               (case (if s_type s = TyLoop then current_story_of s w else None) of
                  Some t \<Rightarrow> map_prod id Inr (fail_story s t err w)
                | None \<Rightarrow>
                    if Suc (s_retry_count s) > s_max_retries s
                    then map_prod id Inr
                           (fail_exhausted (getOnFailPolicySync specs (s_run_id s) (s_step_id s) w)
                              auth s err (between w))
                    else (fail_retry s err w, Inr OutRetrying)))"

definition failStep ::
    "specs \<Rightarrow> (store \<Rightarrow> store) \<Rightarrow> authority option \<Rightarrow> string \<Rightarrow> string \<Rightarrow> store \<Rightarrow>
     store \<times> (exn + outcome)" where
  "failStep specs between auth stepId err w =
     (let (w1, r) = failStepInternal specs between auth (stripIdPrefix stepId) err w
      in (if r = Inr OutRetrying then call NudgeDispatch w1 else w1, r))"

section \<open>Releasing a claim\<close>

record claimed_step =
  cs_step :: string
  cs_agent :: string
  cs_pid :: "int option"

datatype release =
  Released string
| NothingRunning string
| NotAmongRunning string
| SeveralRunning string "claimed_step list"
| WorkerAlive string string int
| WorkerUnknown string string int

definition claimed_steps :: "string \<Rightarrow> store \<Rightarrow> step list" where
  "claimed_steps runId w =
     sort_key s_step_index (filter (\<lambda>s. s_status s = SRunning) (run_steps runId w))"

definition release_now :: "string \<Rightarrow> bool \<Rightarrow> step \<Rightarrow> store \<Rightarrow> store" where
  "release_now runId force s w =
     emit ''step.released'' runId
       (opt_str ''workflowId'' (getWorkflowId runId w)
        @ [(''stepId'', VStr (s_id s)), (''agentId'', VStr (s_agent_id s)),
           (''detail'', VStr (if force then ''Force-released by operator'' else ''Released by operator''))])
       (set_step (s_id s)
          (\<lambda>u. u\<lparr>s_status := SPending, s_claim_job_id := None, s_claim_pid := None,
                 s_claim_pgid := None, s_claim_updated_at := None\<rparr>) w)"

definition release_target ::
    "(int \<Rightarrow> probe) \<Rightarrow> string \<Rightarrow> bool \<Rightarrow> step \<Rightarrow> store \<Rightarrow> store \<times> release" where
  "release_target probe runId force s w =
     (let short = take 8 (s_id s)
      in case s_claim_pid s of
           None \<Rightarrow> (release_now runId force s w, Released (s_id s))
         | Some p \<Rightarrow>
             if p \<le> 0 \<or> force \<or> probe p = NoSuchProcess
             then (release_now runId force s w, Released (s_id s))
             else if probe p = Alive
             then (w, WorkerAlive (s_id s)
                        (''Worker for step '' @ short @ '' ('' @ s_agent_id s @ '') is still alive (PID ''
                         @ int_str p @ ''). Use --force to release anyway.'') p)
             else (w, WorkerUnknown (s_id s)
                        (''Cannot determine liveness of worker for step '' @ short @ '' (PID '' @ int_str p
                         @ ''). Use --force to release anyway.'') p))"

definition releaseStep ::
    "(int \<Rightarrow> probe) \<Rightarrow> string \<Rightarrow> string option \<Rightarrow> bool \<Rightarrow> store \<Rightarrow> store \<times> release" where
  "releaseStep probe runId stepId force w =
     (let cs = claimed_steps runId w;
          wanted = (case stepId of None \<Rightarrow> None | Some i \<Rightarrow> if i = [] then None else Some (stripIdPrefix i))
      in if cs = [] then (w, NothingRunning (''No running steps found for run '' @ take 8 runId))
         else (case wanted of
                 Some (c # rest) \<Rightarrow>
                   (case List.find (\<lambda>s. s_id s = c # rest \<or> starts_with (c # rest) (s_id s)) cs of
                      None \<Rightarrow> (w, NotAmongRunning (''Step \"'' @ (c # rest)
                                @ ''\" not found among running steps in run '' @ take 8 runId))
                    | Some s \<Rightarrow> release_target probe runId force s w)
               | _ \<Rightarrow>
                   if length cs > 1
                   then (w, SeveralRunning
                              ''Multiple running steps found. Specify which step to release with step-id:''
                              (map (\<lambda>s. \<lparr>cs_step = s_id s, cs_agent = s_agent_id s, cs_pid = s_claim_pid s\<rparr>) cs))
                   else release_target probe runId force (hd cs) w))"

section \<open>Resuming and listing stories\<close>

definition stories_loop :: "string \<Rightarrow> store \<Rightarrow> step option" where
  "stories_loop runId w =
     (case first_min s_step_index
             (filter (\<lambda>s. s_type s = TyLoop \<and> s_loop_config s \<noteq> LcNull) (run_steps runId w)) of
        None \<Rightarrow> None
      | Some s \<Rightarrow> if loop_over_stories s then Some s else None)"

definition reset_story :: "string \<Rightarrow> string option \<Rightarrow> string \<Rightarrow> story \<Rightarrow> store \<times> nat \<Rightarrow> store \<times> nat" where
  "reset_story runId wfid loopStep t wn =
     (let (w, n) = wn
      in if map_option t_status (find_story (t_id t) w) \<noteq> Some TFailed then (w, n)
         else
           (emit ''story.reset_for_resume'' runId
              (opt_str ''workflowId'' wfid
               @ [(''stepId'', VStr loopStep), (''storyId'', VStr (t_story_id t)),
                  (''storyTitle'', VStr (t_title t)), (''priorFailures'', VNat (Suc (t_resume_reset_count t))),
                  (''detail'', VStr (''Story '' @ t_story_id t @ '' reset to pending for resume (prior failures: ''
                                     @ nat_str (Suc (t_resume_reset_count t)) @ '')''))])
              (set_story (t_id t)
                 (\<lambda>u. u\<lparr>t_status := TPending, t_retry_count := 0, t_output := None,
                        t_resume_reset_count := Suc (t_resume_reset_count u)\<rparr>) w), Suc n))"

definition failed_stories :: "string \<Rightarrow> store \<Rightarrow> story list" where
  "failed_stories runId w =
     sort_key t_story_index (filter (\<lambda>t. t_status t = TFailed) (run_stories runId w))"

definition resetFailedStoriesForResume :: "string \<Rightarrow> store \<Rightarrow> store \<times> nat" where
  "resetFailedStoriesForResume runId w =
     (case stories_loop runId w of
        None \<Rightarrow> (w, 0)
      | Some l \<Rightarrow>
          fold (reset_story runId (getWorkflowId runId w) (s_step_id l)) (failed_stories runId w) (w, 0))"

record story_entry =
  se_story :: string
  se_title :: string
  se_status :: story_status
  se_abandoned :: "nat option"
  se_updated :: "int option"

definition buildStoriesJson :: "story list \<Rightarrow> story_entry list" where
  "buildStoriesJson ts =
     map (\<lambda>t. \<lparr>se_story = t_story_id t, se_title = t_title t, se_status = t_status t,
               se_abandoned = (if t_abandoned_count t = 0 then None else Some (t_abandoned_count t)),
               se_updated = t_updated_at t\<rparr>) ts"

definition getCurrentStory :: "string \<Rightarrow> store \<Rightarrow> story option" where
  "getCurrentStory stepId w =
     (case find_step stepId w of None \<Rightarrow> None | Some s \<Rightarrow> current_story_of s w)"

end
