(* ===== verification/Progress.thy ===== *)
theory Progress
  imports Claim_Context Stories_Json
begin

text \<open>
  The progress file of a run (\<^verbatim>\<open>src/src/installer/step-ops.ts\<close>): where it is read from, how the story
  plan is merged into it, and its archive.  The file system is a parameter: what a path holds, and
  whether a path can be written.  A host that keeps the document itself hands in an accessor, which
  is given by the document's current text.  What is written is an effect of the store.
\<close>

record files =
  text_at :: "string \<Rightarrow> string option"
  exists_at :: "string \<Rightarrow> bool"
  can_write :: "string \<Rightarrow> bool"
  pi_state_dir :: string

record progress_access =
  pa_guest :: string
  pa_text :: "string option"
  pa_ok :: bool

section \<open>The workspace of an agent\<close>

text \<open>Looking into \<^verbatim>\<open>null\<close> throws, which the caller turns into no workspace; a workspace is a string.\<close>

fun find_agent :: "string \<Rightarrow> json list \<Rightarrow> json option" where
  "find_agent i [] = None"
| "find_agent i (a # as) =
     (if a = JNull then None
      else if prop_of a ''id'' = Some (JStr i) then Some a else find_agent i as)"

definition getAgentWorkspacePath :: "js_host \<Rightarrow> files \<Rightarrow> string \<Rightarrow> string option" where
  "getAgentWorkspacePath h fs agentId =
     (case text_at fs (path_join [pi_state_dir fs, ''agents.json'']) of
        None \<Rightarrow> None
      | Some raw \<Rightarrow>
          (case json_parse (wide_unit h) raw of
             Some (JArr as) \<Rightarrow>
               (case find_agent agentId as of
                  None \<Rightarrow> None
                | Some a \<Rightarrow> (case prop_of a ''workspace'' of Some (JStr p) \<Rightarrow> Some p | _ \<Rightarrow> None))
           | _ \<Rightarrow> None))"

definition first_loop :: "string \<Rightarrow> store \<Rightarrow> step option" where
  "first_loop runId w = List.find (\<lambda>s. s_run_id s = runId \<and> s_type s = TyLoop) (steps w)"

definition workspace_of_run :: "js_host \<Rightarrow> files \<Rightarrow> string \<Rightarrow> store \<Rightarrow> string option" where
  "workspace_of_run h fs runId w =
     (case first_loop runId w of
        None \<Rightarrow> None
      | Some l \<Rightarrow>
          (case getAgentWorkspacePath h fs (s_agent_id l) of
             None \<Rightarrow> None
           | Some p \<Rightarrow> if p = [] then None else Some p))"

definition workspace_progress :: "files \<Rightarrow> string \<Rightarrow> string \<Rightarrow> string" where
  "workspace_progress fs runId p =
     (let scoped = path_join [p, ''progress-'' @ runId @ ''.txt'']
      in if exists_at fs scoped then scoped else path_join [p, ''progress.txt''])"

definition readProgressFile ::
    "env \<Rightarrow> js_host \<Rightarrow> files \<Rightarrow> string \<Rightarrow> progress_access option \<Rightarrow> store \<Rightarrow> string" where
  "readProgressFile e h fs runId access w =
     (case access of
        Some a \<Rightarrow> (case pa_text a of Some x \<Rightarrow> x | None \<Rightarrow> ''(no progress file)'')
      | None \<Rightarrow>
          (case text_at fs (getRunProgressPath e runId) of
             Some x \<Rightarrow> x
           | None \<Rightarrow>
               (case workspace_of_run h fs runId w of
                  None \<Rightarrow> ''(no progress file)''
                | Some p \<Rightarrow>
                    (case text_at fs (workspace_progress fs runId p) of
                       Some x \<Rightarrow> x
                     | None \<Rightarrow> ''(no progress yet)''))))"

section \<open>The story plan\<close>

definition story_plan_entry :: "story \<Rightarrow> string" where
  "story_plan_entry t =
     ''### '' @ t_story_id t @ '': '' @ t_title t @ [newline, newline]
     @ ''**Description:** '' @ t_description t @ [newline, newline]
     @ ''**Acceptance Criteria:**'' @ [newline]
     @ concat (map (\<lambda>c. ''- '' @ c @ [newline]) (t_acceptance t)) @ [newline]"

definition buildStoryPlanSection :: "story list \<Rightarrow> string" where
  "buildStoryPlanSection ts =
     ''## Story Plan'' @ [newline, newline] @ concat (map story_plan_entry ts)"

definition plan_mark :: string where
  "plan_mark = newline # ''## Story Plan'' @ [newline]"

definition heading_mark :: string where
  "heading_mark = newline # ''## ''"

text \<open>\<^verbatim>\<open>/^(# .+?\n)/\<close>\<close>

definition title_line :: "string \<Rightarrow> string option" where
  "title_line s =
     (let t = takeWhile (\<lambda>c. \<not> is_line_term c) (drop 2 s); r = drop (length t) (drop 2 s)
      in if starts_with ''# '' s \<and> t \<noteq> [] \<and> r \<noteq> [] \<and> hd r = newline
         then Some (''# '' @ t @ [newline]) else None)"

definition mergeStoryPlanIntoProgress :: "string \<Rightarrow> string \<Rightarrow> string" where
  "mergeStoryPlanIntoProgress c plan =
     (case index_of plan_mark c of
        Some idx \<Rightarrow>
          (let rest = drop (idx + length plan_mark) c
           in case index_of heading_mark rest of
                Some n \<Rightarrow> take idx c @ newline # trim_end plan @ drop n rest
              | None \<Rightarrow> take idx c @ newline # trim_end plan @ [newline])
      | None \<Rightarrow>
          if trim c \<noteq> []
          then (case title_line c of
                  Some t \<Rightarrow> t @ newline # plan @ drop (length t) c
                | None \<Rightarrow> plan @ newline # c)
          else ''# Progress Log'' @ [newline, newline] @ plan)"

text \<open>Writing the plan twice is not writing it once: without a title it is put in again, and under a title
  the notes that follow it go.\<close>

lemma plan_written_twice:
  fixes plan :: string
  defines "plan \<equiv> ''## Story Plan'' @ [newline]"
  shows "mergeStoryPlanIntoProgress (mergeStoryPlanIntoProgress ''notes'' plan) plan
      = plan @ [newline] @ plan @ [newline] @ ''notes''"
    "mergeStoryPlanIntoProgress (mergeStoryPlanIntoProgress (''# T'' @ [newline] @ ''notes'') plan) plan
      = ''# T'' @ [newline, newline] @ plan"
  unfolding assms by code_simp+

definition planned_event :: "string \<Rightarrow> nat \<Rightarrow> store \<Rightarrow> store" where
  "planned_event runId n w =
     emit ''stories.planned'' runId
       (opt_str ''workflowId'' (getWorkflowId runId w)
        @ [(''detail'', VStr (''Wrote '' @ nat_str n @ '' stories to progress file''))]) w"

text \<open>\<^verbatim>\<open>path.dirname\<close> of a path below a directory.\<close>

definition dir_name :: "string \<Rightarrow> string" where
  "dir_name p = rev (drop 1 (dropWhile (\<lambda>c. c \<noteq> CHR ''/'') (rev p)))"

text \<open>A failing write is only logged.\<close>

definition writeStoryPlanToProgress ::
    "env \<Rightarrow> files \<Rightarrow> string \<Rightarrow> progress_access option \<Rightarrow> store \<Rightarrow> store" where
  "writeStoryPlanToProgress e fs runId access w =
     (if \<not> runHasStories runId w then w
      else
        (let ts = getStories runId w; plan = buildStoryPlanSection ts
         in case access of
              Some a \<Rightarrow>
                if pa_ok a
                then planned_event runId (length ts)
                       (call (CommitDocument (mergeStoryPlanIntoProgress
                                (case pa_text a of Some x \<Rightarrow> x | None \<Rightarrow> []) plan)) w)
                else w
            | None \<Rightarrow>
                (let p = getRunProgressPath e runId;
                     old = (case text_at fs p of Some x \<Rightarrow> x | None \<Rightarrow> [])
                 in if can_write fs p
                    then planned_event runId (length ts)
                           (call (WriteText p (mergeStoryPlanIntoProgress old plan))
                              (call (MakeDir (dir_name p)) w))
                    else w)))"

section \<open>The archive\<close>

definition archive_file :: "string \<Rightarrow> string \<Rightarrow> store \<Rightarrow> store" where
  "archive_file src dir w =
     call (RemoveFile src) (call (CopyFile src (path_join [dir, ''progress.txt'']))
       (call (MakeDir dir) w))"

definition archiveRunProgress ::
    "env \<Rightarrow> js_host \<Rightarrow> files \<Rightarrow> string \<Rightarrow> progress_access option \<Rightarrow> store \<Rightarrow> store" where
  "archiveRunProgress e h fs runId access w =
     (let dir = path_join [e_run_root e, runId, ''archive''];
          p = getRunProgressPath e runId
      in case access of
           Some a \<Rightarrow> call (ArchiveDocument dir) w
         | None \<Rightarrow>
             if exists_at fs p then archive_file p dir w
             else (case workspace_of_run h fs runId w of
                     None \<Rightarrow> w
                   | Some ws \<Rightarrow>
                       (let q = workspace_progress fs runId ws
                        in if exists_at fs q then archive_file q (path_join [ws, ''archive'', runId]) w
                           else w)))"

end
