(* ===== verification/Complete.thy ===== *)
theory Complete
  imports Fail Progress
begin

text \<open>
  Completing a step (\<^verbatim>\<open>completeStep\<close> and what it calls in \<^verbatim>\<open>src/src/installer/step-ops.ts\<close>): the
  guards against late and stale replies, the merge gate, the check of the reply, the merge of its
  keys into the run context, the stories it plans, the story of a loop it finishes, the verdicts of
  verifiers, reviewers and auditors, and the landing of the step.

  The whole mutation is one database transaction: an exception undoes it, events included.
\<close>

record surroundings =
  sr_env :: env
  sr_js :: js_host
  sr_rx :: rx_test
  sr_files :: files

definition sr_specs :: "surroundings \<Rightarrow> specs" where
  "sr_specs c = e_specs (sr_env c)"

record complete_opts =
  co_authority :: "authority option"
  co_reject_paused :: bool
  co_access :: "progress_access option"

type_synonym reply = "outcome \<times> string option"

fun step_status_name :: "step_status \<Rightarrow> string" where
  "step_status_name SWaiting = ''waiting''"
| "step_status_name SPending = ''pending''"
| "step_status_name SRunning = ''running''"
| "step_status_name SDone = ''done''"
| "step_status_name SFailed = ''failed''"
| "step_status_name SSkipped = ''skipped''"
| "step_status_name SCanceled = ''canceled''"

fun run_status_name :: "run_status \<Rightarrow> string" where
  "run_status_name RRunning = ''running''"
| "run_status_name RPaused = ''paused''"
| "run_status_name RCompleted = ''completed''"
| "run_status_name RFailed = ''failed''"
| "run_status_name RCanceled = ''canceled''"

fun gate_mode_name :: "gate_mode \<Rightarrow> string" where
  "gate_mode_name GDefault = ''default''"
| "gate_mode_name GGreen = ''green''"
| "gate_mode_name GOff = ''off''"

section \<open>Ends of a reply\<close>

text \<open>The retries of a step as its row has them now.\<close>

definition retries_of :: "string \<Rightarrow> store \<Rightarrow> nat \<times> nat" where
  "retries_of i w =
     (case find_step i w of None \<Rightarrow> (0, 0) | Some u \<Rightarrow> (s_retry_count u, s_max_retries u))"

definition round_text :: "nat \<Rightarrow> nat \<Rightarrow> string" where
  "round_text n m = nat_str n @ ''/'' @ nat_str m"

text \<open>The step and its run fail; \<open>retries\<close> is written when it is given.\<close>

definition end_run :: "step \<Rightarrow> string \<Rightarrow> nat option \<Rightarrow> string \<Rightarrow> string \<Rightarrow> store \<Rightarrow> store" where
  "end_run s out retries stepDetail runDetail w =
     (let rid = s_run_id s;
          w1 = fail_run rid
                 (set_step (s_id s)
                    (\<lambda>u. u\<lparr>s_status := SFailed, s_output := Some out,
                           s_retry_count := (case retries of None \<Rightarrow> s_retry_count u | Some n \<Rightarrow> n)\<rparr>) w);
          wf = getWorkflowId rid w1
      in finalizeDrainingPause rid
           (scheduleRunCronTeardown rid
              (emitRunTerminalEvent ''run.failed'' rid wf (Some runDetail) None
                 (emit ''step.failed'' rid
                    (opt_str ''workflowId'' wf
                     @ [(''stepId'', VStr (s_step_id s)), (''detail'', VStr stepDetail)]) w1))))"

definition retry_event :: "step \<Rightarrow> string \<Rightarrow> store \<Rightarrow> store" where
  "retry_event s detail w =
     emit ''step.retry'' (s_run_id s)
       (opt_str ''workflowId'' (getWorkflowId (s_run_id s) w)
        @ [(''stepId'', VStr (s_step_id s)), (''detail'', VStr detail)]) w"

definition again :: "step \<Rightarrow> string \<Rightarrow> nat \<Rightarrow> string option \<Rightarrow> store \<Rightarrow> store" where
  "again s out n detail w =
     (let w1 = set_step (s_id s)
                 (\<lambda>u. u\<lparr>s_status := SPending, s_output := Some out, s_retry_count := n\<rparr>) w
      in finalizeDrainingPause (s_run_id s)
           (case detail of None \<Rightarrow> w1 | Some d \<Rightarrow> retry_event s d w1))"

text \<open>A rejected reply without a reroute: another round with a retry charged, or the end of the run.
  The text written names the round.\<close>

definition bounce ::
    "step \<Rightarrow> string \<Rightarrow> string \<Rightarrow> bool \<Rightarrow> string \<Rightarrow> store \<Rightarrow> store \<times> outcome \<times> string" where
  "bounce s before after announced runDetail w =
     (let (n, m) = retries_of (s_id s) w; d = before @ round_text (Suc n) m @ after
      in if Suc n > m then (end_run s d (Some (Suc n)) d runDetail w, OutFailed, d)
         else (again s d (Suc n) (if announced then Some d else None) w, OutRetrying, d))"

text \<open>A reply whose retries are used up is rerouted where the workflow says so.\<close>

definition try_reroute :: "specs \<Rightarrow> step \<Rightarrow> string \<Rightarrow> store \<Rightarrow> store \<times> bool \<times> string" where
  "try_reroute specs s reason w =
     (let (w1, r) = rerouteStepSync specs (s_run_id s) (s_step_id s) (s_id s) reason w
      in (w1, r = Rerouted,
          if r = TargetMovedExhausted
          then buildTargetMovedExhaustedReason (s_id s)
                 (getOnFailPolicySync specs (s_run_id s) (s_step_id s) w1) reason w1
          else reason))"

section \<open>The guards\<close>

definition paused_detail :: "run \<Rightarrow> string" where
  "paused_detail r =
     ''run is '' @ run_status_name (r_status r)
     @ (case r_scheduling_status r of
          None \<Rightarrow> []
        | Some x \<Rightarrow> if x = [] then [] else '' (scheduling_status='' @ x @ '')'')
     @ '' - scheduler auto-complete refused''"

definition settled :: "step_status \<Rightarrow> bool" where
  "settled st \<longleftrightarrow> st \<noteq> SPending \<and> st \<noteq> SRunning"

definition noop_event :: "step \<Rightarrow> store \<Rightarrow> store" where
  "noop_event s w =
     emit ''step.reroute_noop'' (s_run_id s)
       (opt_str ''workflowId'' (getWorkflowId (s_run_id s) w)
        @ [(''stepId'', VStr (s_step_id s)),
           (''detail'', VStr ''Rerouted producer completed without agent work - no claim after reroute'')]) w"

definition run_refusal :: "complete_opts \<Rightarrow> step \<Rightarrow> store \<Rightarrow> reply option" where
  "run_refusal opts s w =
     (case find_run (s_run_id s) w of
        None \<Rightarrow> None
      | Some r \<Rightarrow>
          if r_status r = RFailed \<or> r_status r = RCanceled then Some (OutBlocked, None)
          else if co_reject_paused opts
                  \<and> (r_status r = RPaused \<or> r_scheduling_status r = Some ''draining_pause'')
          then Some (OutBlocked, Some (paused_detail r))
          else None)"

text \<open>\<open>Some reply\<close> refuses the completion.\<close>

definition completion_guard :: "complete_opts \<Rightarrow> step \<Rightarrow> store \<Rightarrow> store \<times> reply option" where
  "completion_guard opts s w =
     (case refusal_of (co_authority opts) s of
        Some d \<Rightarrow> (w, Some (OutBlocked, Some d))
      | None \<Rightarrow>
          (case run_refusal opts s w of
             Some r \<Rightarrow> (w, Some r)
           | None \<Rightarrow>
               if settled (s_status s)
               then (w, Some (OutBlocked, Some (''step already '' @ step_status_name (s_status s))))
               else if s_status s = SPending \<and> s_claim_invalidated_by s = Some ''reroute''
               then ((if s_claim_updated_at s = None then noop_event s w else w),
                     Some (OutBlocked, Some ''stale completion blocked - step was rerouted''))
               else (w, None)))"

section \<open>The gate\<close>

definition review_pending ::
    "host \<Rightarrow> step \<Rightarrow> string \<Rightarrow> store \<Rightarrow> (string option \<times> string option) option \<times> store" where
  "review_pending h s out w =
     (if s_step_id s \<noteq> ''finalize_merge'' then (None, w)
      else (let (landed, w1) = isAlreadyLanded h (s_id s) out w
            in (if landed then None else getTestCmdReviewRefusal (s_run_id s) w1, w1)))"

fun refusal_result :: "refusal_outcome \<Rightarrow> outcome option" where
  "refusal_result ORerouted = Some OutRerouted"
| "refusal_result OFailed = Some OutFailed"
| "refusal_result OConceded = None"

definition landed_event :: "step \<Rightarrow> store \<Rightarrow> store" where
  "landed_event s w =
     emit ''merge.accepted_already_landed'' (s_run_id s)
       (opt_str ''workflowId'' (getWorkflowId (s_run_id s) w)
        @ [(''stepId'', VStr (s_step_id s)),
           (''detail'', VStr ''Acceptance gate refusal skipped - target already at attested MERGED_COMMIT'')]) w"

definition acceptance_refused ::
    "env \<Rightarrow> step \<Rightarrow> string \<Rightarrow> refusal \<Rightarrow> store \<Rightarrow> store \<times> reply option" where
  "acceptance_refused e s out ref w =
     (let (landed, w1) = isAlreadyLanded (e_host e) (s_id s) out w
      in if landed then (landed_event s w1, None)
         else
           (let text1 = formatLedgerGateRefusal (e_host e) (e_evidence e) ref;
                (w2, res) = applyLedgerGateRefusalSync (e_specs e) s text1 (is_missing ref)
                              (usesLedgerConcessionAllowance (s_id s) ref w1) w1
            in (w2, map_option (\<lambda>r. (r, Some text1)) (refusal_result res))))"

definition acceptance_gate ::
    "env \<Rightarrow> step \<Rightarrow> string \<Rightarrow> store \<Rightarrow> store \<times> (reply + decision)" where
  "acceptance_gate e s out w =
     (case review_pending (e_host e) s out w of
        (Some ref, w1) \<Rightarrow>
          (emitTestCmdReviewRefusal s ref w1,
           Inl (OutBlocked, Some (formatTestCmdReviewRefusal ref)))
      | (None, w1) \<Rightarrow>
          (let d = evaluateFinalizeMergeLedgerGate (e_host e) (e_evidence e) (s_id s) w1
           in case getLedgerGateRefusal (s_id s) d w1 of
                None \<Rightarrow> (w1, Inr d)
              | Some ref \<Rightarrow>
                  (case acceptance_refused e s out ref w1 of
                     (w2, None) \<Rightarrow> (w2, Inr d)
                   | (w2, Some r) \<Rightarrow> (w2, Inl r))))"

section \<open>The check of the reply\<close>

definition reply_invalid :: "specs \<Rightarrow> step \<Rightarrow> string \<Rightarrow> store \<Rightarrow> store \<times> reply" where
  "reply_invalid specs s err w =
     (let (n, m) = retries_of (s_id s) w
      in if Suc n > m then
           (let (w1, rerouted, reason) = try_reroute specs s err w
            in if rerouted
               then (w1, OutRerouted, Some ''Rerouted to upstream producer via on_fail.retry_step'')
               else (end_run s reason (Some (Suc n)) reason
                       ''Expects validation failed and retries exhausted'' w1, OutFailed, None))
         else (again s err (Suc n) (Some err) w, OutRetrying, Some err))"

section \<open>The run context\<close>

definition leading_quotes :: "char list" where
  "leading_quotes = [CHR 0x60, CHR 0x27, CHR 0x22]"

text \<open>Prose, or an echo of the wrapper, is no test command.\<close>

definition wrapper_shaped :: "string \<Rightarrow> bool" where
  "wrapper_shaped v \<longleftrightarrow>
     newline \<in> set (trim v)
     \<or> starts_with ''tamandua-test'' (dropWhile (\<lambda>c. is_ws c \<or> c \<in> set leading_quotes) (trim v))
     \<or> str_includes ''tamandua-test --repo'' (trim v)"

definition established_cmd :: "run \<Rightarrow> ctx \<Rightarrow> string option" where
  "established_cmd r m =
     (case r_test_cmd_established r of
        Some c \<Rightarrow> Some c
      | None \<Rightarrow> (case m ''test_cmd_raw'' of Some c \<Rightarrow> Some c | None \<Rightarrow> m ''test_cmd''))"

definition withdraw_review :: "string \<Rightarrow> ctx \<Rightarrow> ctx" where
  "withdraw_review stepId m =
     (if m ''test_cmd_review_required'' = Some ''true'' \<and> m ''test_cmd_rewriter_step'' = Some stepId
      then m(''test_cmd_review_required'' := None, ''test_cmd_review_candidate'' := None,
             ''test_cmd_review_established'' := None, ''test_cmd_rewriter_step'' := None)
      else m)"

definition with_test_cmd :: "string \<Rightarrow> ctx \<Rightarrow> ctx" where
  "with_test_cmd v m = m(''test_cmd'' \<mapsto> v, ''test_cmd_raw'' \<mapsto> v)"

definition rewrite_event :: "run \<Rightarrow> step \<Rightarrow> string \<Rightarrow> string \<Rightarrow> store \<Rightarrow> store" where
  "rewrite_event r s old v w =
     (let n = Suc (fst (retries_of (s_id s) w))
      in emit ''test_cmd.rewrite_detected'' (s_run_id s)
           (opt_str ''workflowId'' (getWorkflowId (s_run_id s) w)
            @ [(''stepId'', VStr (s_step_id s)), (''oldTestCmd'', VStr old), (''newTestCmd'', VStr v),
               (''round'', VNat n), (''runNumber'', VNat (r_run_number r)),
               (''detail'', VStr (''TEST_CMD rewrite detected: '' @ [CHR 0x27] @ old @ [CHR 0x27] @ '' -> ''
                  @ [CHR 0x27] @ v @ [CHR 0x27] @ '' (step '' @ s_step_id s @ '', round '' @ nat_str n @ '')''))]) w)"

definition establish_cmd :: "string \<Rightarrow> string \<Rightarrow> string \<Rightarrow> store \<Rightarrow> store" where
  "establish_cmd runId v source w =
     set_run runId (\<lambda>r. r\<lparr>r_test_cmd_established := Some v, r_test_cmd_source := Some source\<rparr>) w"

text \<open>The first test command of a run is adopted; a different one later is only put up for review.\<close>

definition merge_test_cmd :: "run \<Rightarrow> step \<Rightarrow> string \<Rightarrow> ctx \<Rightarrow> store \<Rightarrow> ctx \<times> store" where
  "merge_test_cmd r s v m w =
     (if wrapper_shaped v then (m, w)
      else (case established_cmd r m of
              None \<Rightarrow> (with_test_cmd v m, establish_cmd (s_run_id s) v (s_step_id s) w)
            | Some old \<Rightarrow>
                if v = old then (withdraw_review (s_step_id s) (with_test_cmd v m), w)
                else (m(''test_cmd_review_required'' \<mapsto> ''true'', ''test_cmd_review_candidate'' \<mapsto> v,
                        ''test_cmd_review_established'' \<mapsto> old, ''test_cmd_rewriter_step'' \<mapsto> s_step_id s),
                      rewrite_event r s old v w)))"

text \<open>The keys of the reply.  The test command comes last: its case reads and writes, next to its own
  key, only keys no reply can set, so the order of the reply's keys does not matter.\<close>

definition merge_reply :: "run \<Rightarrow> step \<Rightarrow> string \<Rightarrow> ctx \<Rightarrow> store \<Rightarrow> ctx \<times> store" where
  "merge_reply r s out m w =
     (let m1 = m ++ (output_keys (Some out))(''test_cmd'' := None)
      in case parseOutputKeyValues out ''test_cmd'' of
           None \<Rightarrow> (m1, w)
         | Some v \<Rightarrow> merge_test_cmd r s v m1 w)"

definition default_key :: "string \<Rightarrow> ctx \<Rightarrow> ctx" where
  "default_key k m = (if m k = None then m(k \<mapsto> []) else m)"

definition fix_keys :: "step \<Rightarrow> store \<Rightarrow> ctx \<Rightarrow> ctx" where
  "fix_keys s w m =
     (if s_step_id s = ''fix'' \<and> list_ex (\<lambda>u. s_step_id u = ''deception_audit'') (run_steps (s_run_id s) w)
      then default_key ''cannot_reproduce'' (default_key ''repro_evidence'' m) else m)"

definition merge_context :: "run \<Rightarrow> step \<Rightarrow> string \<Rightarrow> store \<Rightarrow> ctx \<times> store" where
  "merge_context r s out w =
     (let (m0, w1) = parseRunContext (s_run_id s) (r_context r) w;
          (m1, w2) = merge_reply r s out m0 w1;
          m2 = fix_keys s w2 m1
      in (m2, save_context (s_run_id s) m2 w2))"

section \<open>Planned stories\<close>

text \<open>\<open>None\<close>: the reply goes on; a planner without valid stories is sent back.\<close>

definition plan_stories :: "js_host \<Rightarrow> step \<Rightarrow> string \<Rightarrow> store \<Rightarrow> store \<times> reply option" where
  "plan_stories h s out w =
     (case parseAndInsertStories h out (s_run_id s) w of
        (w1, None) \<Rightarrow> (w1, None)
      | (w1, Some reason) \<Rightarrow>
          (let (w2, res, d) = bounce s (reason @ '' Resetting to pending for retry '') ''.'' True
                                ''STORIES_JSON validation failed and retries exhausted'' w1
           in (w2, Some (res, if res = OutFailed then None else Some d))))"

definition next_loop :: "step \<Rightarrow> store \<Rightarrow> step option" where
  "next_loop s w =
     (let loops = filter (\<lambda>u. s_type u = TyLoop) (run_steps (s_run_id s) w)
      in case List.find (\<lambda>u. s_step_index u = Suc (s_step_index s)) loops of
           Some l \<Rightarrow> Some l
         | None \<Rightarrow>
             if str_includes ''STORIES_JSON'' (s_input_template s)
             then first_min s_step_index (filter (\<lambda>u. s_step_index u > s_step_index s) loops)
             else None)"

definition no_plan :: "step \<Rightarrow> store \<Rightarrow> store \<times> reply option" where
  "no_plan s w =
     (if s_type s = TyLoop then (w, None)
      else (case next_loop s w of
              None \<Rightarrow> (w, None)
            | Some l \<Rightarrow>
                if loop_over_stories l \<and> \<not> runHasStories (s_run_id s) w
                then (let (w1, res, d) =
                            bounce s (''Step output had no STORIES_JSON block, but the next step (''
                                @ s_step_id l @ '') is a loop over stories. The agent must emit a literal ''
                                @ ''\"STORIES_JSON: [ ... ]\" line with at least one story. Resetting to pending for retry '')
                              ''.'' False ''Plan step never produced STORIES_JSON'' w
                      in (w1, Some (res, if res = OutFailed then None else Some d)))
                else (w, None)))"

section \<open>A story of a loop\<close>

definition story_done :: "step \<Rightarrow> string \<Rightarrow> string \<Rightarrow> store \<Rightarrow> store" where
  "story_done s storyRow out w =
     (let w1 = set_story storyRow (\<lambda>t. t\<lparr>t_status := TDone, t_output := Some out\<rparr>) w;
          row = find_story storyRow w
      in set_step (s_id s) (\<lambda>u. u\<lparr>s_current_story_id := None, s_output := Some out\<rparr>)
           (emit ''story.done'' (s_run_id s)
              (opt_str ''workflowId'' (getWorkflowId (s_run_id s) w1)
               @ [(''stepId'', VStr (s_step_id s))]
               @ opt_str ''storyId'' (map_option t_story_id row)
               @ opt_str ''storyTitle'' (map_option t_title row)) w1))"

definition verify_target :: "step \<Rightarrow> store \<Rightarrow> step option" where
  "verify_target s w =
     (case s_loop_config s of
        LcConfig lc \<Rightarrow>
          if verify_each lc
          then (case verify_step_id lc of
                  Some (c # v) \<Rightarrow> step_named (s_run_id s) (c # v) w
                | _ \<Rightarrow> None)
          else None
      | _ \<Rightarrow> None)"

definition hand_to_verifier :: "step \<Rightarrow> step \<Rightarrow> store \<Rightarrow> store" where
  "hand_to_verifier s v w = set_step_status (s_id s) SRunning (set_step_status (s_id v) SPending w)"

definition advance_outcome :: "advance \<Rightarrow> outcome" where
  "advance_outcome a = (if runCompleted a then OutCompleted else OutAdvanced)"

definition complete_story :: "step \<Rightarrow> string \<Rightarrow> string \<Rightarrow> store \<Rightarrow> store \<times> (exn + reply)" where
  "complete_story s storyRow out w =
     (let w1 = story_done s storyRow out w
      in if s_loop_config s = LcMalformed then (w1, Inl JsonParseError)
         else (case verify_target s w1 of
                 Some v \<Rightarrow> (hand_to_verifier s v w1, Inr (OutAdvanced, None))
               | None \<Rightarrow>
                   (case checkLoopContinuation (s_run_id s) (s_id s) w1 of
                      (w2, Inl x) \<Rightarrow> (w2, Inl x)
                    | (w2, Inr a) \<Rightarrow> (w2, Inr (advance_outcome a, None)))))"

section \<open>The verdict of a verifier\<close>

text \<open>\<^verbatim>\<open>/^STATUS:[ \t]*([A-Za-z0-9_]+)[ \t]*$/\<close> on a line without its carriage return.\<close>

definition verdict_word :: "string \<Rightarrow> string option" where
  "verdict_word raw =
     (let l = (if raw \<noteq> [] \<and> last raw = CHR 0x0D then butlast raw else raw);
          r = dropWhile is_blank_tab (drop 7 l); v = takeWhile is_word r
      in if starts_with ''STATUS:'' l \<and> v \<noteq> [] \<and> list_all is_blank_tab (dropWhile is_word r)
         then Some (lower v) else None)"

text \<open>The verdicts in order, up to the first word that is none.\<close>

fun verdict_words :: "string list \<Rightarrow> string + verdict list" where
  "verdict_words [] = Inr []"
| "verdict_words (l # ls) =
     (case verdict_word l of
        None \<Rightarrow> verdict_words ls
      | Some v \<Rightarrow>
          if v \<noteq> ''done'' \<and> v \<noteq> ''retry''
          then Inl (''invalid verifier STATUS verdict \"'' @ v
                    @ ''\" - the full-line STATUS control must be exactly '' @ [CHR 0x27] @ ''done''
                    @ [CHR 0x27] @ '' or '' @ [CHR 0x27] @ ''retry'' @ [CHR 0x27])
          else map_sum id ((#) (if v = ''done'' then VDone else VRetry)) (verdict_words ls))"

fun verdict_name :: "verdict \<Rightarrow> string" where
  "verdict_name VDone = ''done''"
| "verdict_name VRetry = ''retry''"

definition one_control :: string where
  "one_control = [CHR 0x27] @ ''STATUS: done'' @ [CHR 0x27] @ '' or '' @ [CHR 0x27]
     @ ''STATUS: retry'' @ [CHR 0x27] @ '' control field''"

definition extractVerifierVerdict :: "string \<Rightarrow> string + verdict" where
  "extractVerifierVerdict out =
     (case verdict_words (split_on newline out) of
        Inl e \<Rightarrow> Inl e
      | Inr [] \<Rightarrow>
          Inl (''missing verifier STATUS verdict - the output must carry exactly one full-line '' @ one_control)
      | Inr (v # vs) \<Rightarrow>
          (case filter (\<lambda>u. u \<noteq> v) vs of
             [] \<Rightarrow> Inr v
           | u # _ \<Rightarrow>
               Inl (''conflicting verifier STATUS verdicts ('' @ verdict_name v @ '', '' @ verdict_name u
                    @ '') - the output must carry exactly one unambiguous full-line '' @ one_control)))"

definition rejectVerifyEachCompletionForInvalidVerdict :: "step \<Rightarrow> string \<Rightarrow> store \<Rightarrow> store \<times> reply" where
  "rejectVerifyEachCompletionForInvalidVerdict s reason w =
     (let (w1, res, d) =
            bounce s (''Verifier verdict rejected: '' @ reason
                      @ ''. The story was NOT verified - resubmit with exactly one full-line \"STATUS: done\" or \"STATUS: retry\" verdict (retry '')
              '').'' True ''Verifier STATUS verdict missing/invalid/conflicting and retries exhausted'' w
      in (w1, res, Some d))"

definition judges_stories :: "step \<Rightarrow> step \<Rightarrow> bool" where
  "judges_stories l s \<longleftrightarrow>
     (case s_loop_config l of
        LcConfig lc \<Rightarrow> verify_each lc \<and> verify_step_id lc = Some (s_step_id s)
      | _ \<Rightarrow> False)"

definition complete_verifier :: "step \<Rightarrow> step \<Rightarrow> string \<Rightarrow> ctx \<Rightarrow> store \<Rightarrow> store \<times> reply" where
  "complete_verifier l s out m w =
     (case extractVerifierVerdict out of
        Inl e \<Rightarrow> rejectVerifyEachCompletionForInvalidVerdict s e w
      | Inr v \<Rightarrow>
          (let (w1, a) = handleVerifyEachCompletion s (s_id l) out m v w
           in (finalizeDrainingPause (s_run_id s) w1, advance_outcome a, None)))"

section \<open>A verdict that asks for another round\<close>

definition retry_verdict :: "specs \<Rightarrow> step \<Rightarrow> string \<Rightarrow> store \<Rightarrow> store \<times> reply" where
  "retry_verdict specs s out w =
     (let (n, m) = retries_of (s_id s) w; d = ''STATUS: retry verdict (retry '' @ round_text (Suc n) m @ '')''
      in if Suc n > m then
           (let (w1, rerouted, reason) = try_reroute specs s out w
            in if rerouted
               then (w1, OutRerouted,
                     Some ''STATUS: retry verdict - rerouted to upstream producer via on_fail.retry_step'')
               else (end_run s reason (Some (Suc n))
                       (''STATUS: retry verdict - retries exhausted ('' @ round_text (Suc n) m @ '')'')
                       ''STATUS: retry verdict - retries exhausted'' w1, OutFailed, None))
         else (again s out (Suc n) (Some d) w, OutRetrying, Some d))"

section \<open>The verdicts of reviewers and auditors\<close>

text \<open>\<^verbatim>\<open>toUpperCase\<close>, for comparison with a word of ASCII capitals.\<close>

definition upper :: "string \<Rightarrow> string" where
  "upper s = map (\<lambda>c. if is_lower c then char_of (code_of c - 32) else c) s"

definition or_empty :: "string option \<Rightarrow> string" where
  "or_empty v = (case v of None \<Rightarrow> [] | Some x \<Rightarrow> x)"

definition quoted :: "string \<Rightarrow> string" where
  "quoted x = CHR 0x27 # x @ [CHR 0x27]"

definition change_text :: "string option \<Rightarrow> string option \<Rightarrow> string" where
  "change_text old new = quoted (or_empty old) @ '' -> '' @ quoted (or_empty new)"

definition reroutes_allowed :: "on_fail option \<Rightarrow> int" where
  "reroutes_allowed p =
     (case p of None \<Rightarrow> 2 | Some q \<Rightarrow> (case of_max_reroutes q of None \<Rightarrow> 2 | Some n \<Rightarrow> n))"

definition judge_policy :: "on_fail option \<Rightarrow> string \<Rightarrow> on_fail" where
  "judge_policy p target =
     \<lparr>of_retry_step = Some target, of_max_reroutes = Some (reroutes_allowed p),
      of_max_target_moved_reroutes = None, of_retry_on = None\<rparr>"

text \<open>A judged step goes back to the step that answers for it, or the run ends with \<open>why\<close>.\<close>

definition send_back ::
    "on_fail option \<Rightarrow> step \<Rightarrow> string \<Rightarrow> string \<Rightarrow> string \<Rightarrow> (reroute_result \<Rightarrow> string) \<Rightarrow> string \<Rightarrow> store \<Rightarrow>
     store \<times> reply" where
  "send_back p s target reason sent why runDetail w =
     (let (w1, r) = rerouteWithPolicy (judge_policy p target) (s_run_id s) (s_step_id s) (s_id s) reason
                      False w
      in if r = Rerouted then (w1, OutRerouted, Some sent)
         else (end_run s (why r) None (why r) runDetail w1, OutFailed, Some (why r)))"

definition review_old :: "string \<Rightarrow> ctx \<Rightarrow> store \<Rightarrow> string option" where
  "review_old runId m w =
     (case m ''test_cmd_review_established'' of
        Some c \<Rightarrow> Some c
      | None \<Rightarrow>
          (case Option.bind (find_run runId w) r_test_cmd_established of
             Some c \<Rightarrow> Some c
           | None \<Rightarrow> (case m ''test_cmd_raw'' of Some c \<Rightarrow> Some c | None \<Rightarrow> m ''test_cmd'')))"

definition review_accepted :: "step \<Rightarrow> ctx \<Rightarrow> string option \<Rightarrow> string \<Rightarrow> store \<Rightarrow> store" where
  "review_accepted s m old new w =
     (let rid = s_run_id s;
          m1 = (with_test_cmd new m)(''test_cmd_review_required'' := None, ''test_cmd_rewriter_step'' := None);
          w1 = save_context rid m1 (establish_cmd rid new ''reviewer'' w)
      in emit ''test_cmd.review_accepted'' rid
           (opt_str ''workflowId'' (getWorkflowId rid w1)
            @ [(''stepId'', VStr (s_step_id s))] @ opt_str ''oldTestCmd'' old
            @ [(''newTestCmd'', VStr new),
               (''detail'', VStr (''TEST_CMD review ACCEPTED: '' @ change_text old (Some new)
                                  @ '' (step '' @ s_step_id s @ '')''))]) w1)"

definition review_rejected ::
    "specs \<Rightarrow> step \<Rightarrow> ctx \<Rightarrow> string option \<Rightarrow> string option \<Rightarrow> string \<Rightarrow> store \<Rightarrow> store \<times> reply" where
  "review_rejected specs s m old new finding w =
     (let rid = s_run_id s; p = getOnFailPolicySync specs rid (s_step_id s) w;
          target = (case m ''test_cmd_rewriter_step'' of
                      Some t \<Rightarrow> Some t
                    | None \<Rightarrow> (case p of None \<Rightarrow> None | Some q \<Rightarrow> of_retry_step q));
          w1 = emit ''test_cmd.review_rejected'' rid
                 (opt_str ''workflowId'' (getWorkflowId rid w) @ [(''stepId'', VStr (s_step_id s))]
                  @ opt_str ''oldTestCmd'' old @ opt_str ''newTestCmd'' new
                  @ [(''finding'', VStr finding),
                     (''detail'', VStr (''TEST_CMD review REJECTED: '' @ change_text old new
                                        @ '' (step '' @ s_step_id s @ '')''))]) w
      in case target of
           Some (c # t) \<Rightarrow>
             send_back p s (c # t)
               (''TEST_CMD review REJECTED by '' @ s_step_id s
                @ (if old \<noteq> None \<or> new \<noteq> None then '': '' @ change_text old new else [])
                @ ''. FINDING: '' @ finding)
               (''TEST_CMD review REJECTED - rerouted to '' @ (c # t) @ '' with the finding'')
               (\<lambda>r. if r = BudgetExhausted
                    then ''TEST_CMD review rejected and reroute budget exhausted (max_reroutes=''
                         @ int_str (reroutes_allowed p) @ '') - rewrite never accepted. FINDING: '' @ finding
                    else if r = InvalidTarget
                    then ''TEST_CMD review rejected but reroute target \"'' @ (c # t)
                         @ ''\" is not a valid upstream step - cannot retry the rewriting step. FINDING: ''
                         @ finding
                    else ''TEST_CMD review rejected but the reroute could not be performed. FINDING: ''
                         @ finding)
               ''TEST_CMD review rejected and retry budget exhausted'' w1
         | _ \<Rightarrow>
             (let (w2, res, d) =
                    bounce s ''TEST_CMD review REJECTED but no rewriting step is recorded in run context - retry ''
                      (''. FINDING: '' @ finding) True
                      ''TEST_CMD review rejected with no rewriter target and retries exhausted'' w1
              in (w2, res, Some d)))"

definition routeTestCmdReviewVerdict ::
    "specs \<Rightarrow> step \<Rightarrow> ctx \<Rightarrow> ctx \<Rightarrow> store \<Rightarrow> store \<times> reply option" where
  "routeTestCmdReviewVerdict specs s m parsed w =
     (let v = map_option upper (parsed ''verdict'');
          old = review_old (s_run_id s) m w; new = m ''test_cmd_review_candidate'';
          d = ''TEST_CMD review ACCEPT but no review candidate is recorded in run context - refusing to adopt an unknown contract''
      in if s_step_id s \<noteq> ''test_cmd_review'' \<or> m ''test_cmd_review_required'' \<noteq> Some ''true'' then (w, None)
         else if v = Some ''ACCEPT''
         then (case non_blank new of
                 None \<Rightarrow>
                   (end_run s d None d ''TEST_CMD review accepted with no candidate'' w,
                    Some (OutFailed, Some d))
               | Some c \<Rightarrow> (review_accepted s m old c w, None))
         else if v = Some ''REJECT''
         then map_prod id Some
                (review_rejected specs s m old new
                   (case map_option trim (parsed ''finding'') of
                      Some (c # f) \<Rightarrow> c # f | _ \<Rightarrow> ''(no FINDING provided)'') w)
         else (w, None))"

definition hasQuotableAuditFinding :: "string \<Rightarrow> bool" where
  "hasQuotableAuditFinding f \<longleftrightarrow> list_ex (\<lambda>c. c \<in> set leading_quotes) (trim f)"

definition audit_passed :: "step \<Rightarrow> ctx \<Rightarrow> bool \<Rightarrow> store \<Rightarrow> store" where
  "audit_passed s m ignored w =
     (let rid = s_run_id s; w1 = save_context rid (m(''deception_audit_required'' := None)) w
      in emit ''deception_audit.passed'' rid
           (opt_str ''workflowId'' (getWorkflowId rid w1)
            @ [(''stepId'', VStr (s_step_id s)),
               (''detail'', VStr (if ignored
                  then ''Deception audit passed (DECEPTION verdict ignored - no quotable evidence)''
                  else ''Deception audit passed (VERDICT: HONEST)''))]) w1)"

definition audit_target :: "on_fail option \<Rightarrow> string \<Rightarrow> store \<Rightarrow> string option" where
  "audit_target p runId w =
     (case retry_target p of
        Some t \<Rightarrow> Some t
      | None \<Rightarrow> if step_named runId ''fix'' w = None then None else Some ''fix'')"

definition audit_failed :: "specs \<Rightarrow> step \<Rightarrow> string \<Rightarrow> store \<Rightarrow> store \<times> reply" where
  "audit_failed specs s finding w =
     (let rid = s_run_id s; p = getOnFailPolicySync specs rid (s_step_id s) w;
          reason = ''Deception audit DECEPTION found by '' @ s_step_id s @ ''. FINDING: '' @ finding;
          w1 = emit ''deception_audit.deception_found'' rid
                 (opt_str ''workflowId'' (getWorkflowId rid w)
                  @ [(''stepId'', VStr (s_step_id s)), (''finding'', VStr finding),
                     (''detail'', VStr reason)]) w
      in case audit_target p rid w of
           None \<Rightarrow>
             (let (w2, res, d) =
                    bounce s ''Deception audit found deception but no fix step is recorded in run context - retry ''
                      (''. FINDING: '' @ finding) True
                      ''Deception audit found deception with no fix target and retries exhausted'' w1
              in (w2, res, Some d))
         | Some t \<Rightarrow>
             send_back p s t reason
               (''Deception audit DECEPTION - rerouted to '' @ t @ '' with the finding'')
               (\<lambda>r. if r = BudgetExhausted
                    then ''Deception audit found deception and reroute budget exhausted (max_reroutes=''
                         @ int_str (reroutes_allowed p) @ '') - fix never accepted as honest. FINDING: '' @ finding
                    else if r = InvalidTarget
                    then ''Deception audit found deception but reroute target \"'' @ t
                         @ ''\" is not a valid upstream step - cannot retry the fix step. FINDING: '' @ finding
                    else ''Deception audit found deception but the reroute could not be performed. FINDING: ''
                         @ finding)
               ''Deception audit found deception and retry budget exhausted'' w1)"

definition routeDeceptionAuditVerdict ::
    "specs \<Rightarrow> step \<Rightarrow> ctx \<Rightarrow> ctx \<Rightarrow> store \<Rightarrow> store \<times> reply option" where
  "routeDeceptionAuditVerdict specs s m parsed w =
     (let v = map_option upper (parsed ''verdict''); f = trim (get_or_empty parsed ''finding'')
      in if s_step_id s \<noteq> ''deception_audit'' \<or> v \<noteq> Some ''HONEST'' \<and> v \<noteq> Some ''DECEPTION'' then (w, None)
         else if v = Some ''DECEPTION'' \<and> hasQuotableAuditFinding f
         then map_prod id Some (audit_failed specs s f w)
         else (audit_passed s m (v = Some ''DECEPTION'') w, None))"

section \<open>Landing\<close>

definition reviewed_cmds :: "string \<Rightarrow> store \<Rightarrow> (string \<times> ev_val) list" where
  "reviewed_cmds stepId w =
     (let m = (case getRunContextForStep stepId w of None \<Rightarrow> Map.empty | Some m \<Rightarrow> m)
      in opt_str ''oldTestCmd'' (m ''test_cmd_review_established'')
         @ opt_str ''newTestCmd'' (m ''test_cmd_review_candidate''))"

definition key_fields :: "gate_key \<Rightarrow> (string \<times> ev_val) list" where
  "key_fields k =
     [(''origin'', VStr (gk_origin k)), (''treeHash'', VStr (gk_tree k)), (''cmdHash'', VStr (gk_cmd_hash k))]"

definition landing_event :: "step \<Rightarrow> decision \<Rightarrow> store \<Rightarrow> store" where
  "landing_event s d w =
     (let base = opt_str ''workflowId'' (getWorkflowId (s_run_id s) w) @ [(''stepId'', VStr (s_step_id s))]
      in case d of
           Red GDefault k row \<Rightarrow>
             emit ''merge.landed_over_red_suite'' (s_run_id s)
               (base @ key_fields k
                @ [(''ledgerRowId'', VInt (lr_id row)), (''exitCode'', VInt (lr_exit row)),
                   (''ledgerCreatedAt'', VStr (lr_created row)), (''durationMs'', VInt (lr_duration row))]
                @ reviewed_cmds (s_id s) w) w
         | Missing mode k \<Rightarrow>
             emit ''merge.landed_without_suite_evidence'' (s_run_id s)
               (base @ [(''gateMode'', VStr (gate_mode_name mode))] @ key_fields k
                @ reviewed_cmds (s_id s) w) w
         | _ \<Rightarrow> w)"

definition step_done :: "step \<Rightarrow> string \<Rightarrow> store \<Rightarrow> store" where
  "step_done s out w =
     (let w1 = set_step (s_id s) (\<lambda>u. u\<lparr>s_status := SDone, s_output := Some out\<rparr>) w
      in emit ''step.done'' (s_run_id s)
           (opt_str ''workflowId'' (getWorkflowId (s_run_id s) w1)
            @ [(''stepId'', VStr (s_step_id s))]) w1)"

definition land_step :: "step \<Rightarrow> string \<Rightarrow> decision \<Rightarrow> store \<Rightarrow> store \<times> reply" where
  "land_step s out d w =
     (let (w1, a) = advancePipeline (s_run_id s) (step_done s out (landing_event s d w))
      in (finalizeDrainingPause (s_run_id s) w1, advance_outcome a, None))"

definition judge_reply ::
    "specs \<Rightarrow> step \<Rightarrow> string \<Rightarrow> ctx \<Rightarrow> decision \<Rightarrow> store \<Rightarrow> store \<times> reply" where
  "judge_reply specs s out m d w =
     (let parsed = parseOutputKeyValues out
      in if map_option lower (parsed ''status'') = Some ''retry'' then retry_verdict specs s out w
         else (case routeTestCmdReviewVerdict specs s m parsed w of
                 (w1, Some r) \<Rightarrow> (w1, r)
               | (w1, None) \<Rightarrow>
                   (case routeDeceptionAuditVerdict specs s m parsed w1 of
                      (w2, Some r) \<Rightarrow> (w2, r)
                    | (w2, None) \<Rightarrow> land_step s out d w2)))"

section \<open>The completion\<close>

text \<open>The reply is valid and its context merged.\<close>

definition settle_reply ::
    "surroundings \<Rightarrow> step \<Rightarrow> string \<Rightarrow> ctx \<Rightarrow> decision \<Rightarrow> store \<Rightarrow> store \<times> (exn + reply)" where
  "settle_reply c s out m d w =
     (if s_type s = TyLoop \<and> s_current_story_id s \<notin> {None, Some []}
      then complete_story s (or_empty (s_current_story_id s)) out w
      else (case first_loop (s_run_id s) w of
              Some l \<Rightarrow>
                if s_loop_config l = LcMalformed then (w, Inl JsonParseError)
                else if judges_stories l s then map_prod id Inr (complete_verifier l s out m w)
                else map_prod id Inr (judge_reply (sr_specs c) s out m d w)
            | None \<Rightarrow> map_prod id Inr (judge_reply (sr_specs c) s out m d w)))"

definition accept_reply ::
    "surroundings \<Rightarrow> step \<Rightarrow> string \<Rightarrow> decision \<Rightarrow> store \<Rightarrow> store \<times> (exn + reply)" where
  "accept_reply c s out d w =
     (case find_run (s_run_id s) w of
        None \<Rightarrow> (w, Inl TypeError)
      | Some r \<Rightarrow>
          (let (m, w1) = merge_context r s out w
           in case plan_stories (sr_js c) s out w1 of
                (w2, Some r) \<Rightarrow> (w2, Inr r)
              | (w2, None) \<Rightarrow>
                  (case no_plan s w2 of
                     (w3, Some r) \<Rightarrow> (w3, Inr r)
                   | (w3, None) \<Rightarrow> settle_reply c s out m d w3)))"

definition complete_body ::
    "surroundings \<Rightarrow> complete_opts \<Rightarrow> step \<Rightarrow> string \<Rightarrow> store \<Rightarrow> store \<times> (exn + reply)" where
  "complete_body c opts s out w =
     (case completion_guard opts s w of
        (w1, Some r) \<Rightarrow> (w1, Inr r)
      | (w1, None) \<Rightarrow>
          (case acceptance_gate (sr_env c) s out w1 of
             (w2, Inl r) \<Rightarrow> (w2, Inr r)
           | (w2, Inr d) \<Rightarrow>
               (case validateExpects (sr_rx c) out (s_expects s) of
                  Some e \<Rightarrow>
                    map_prod id Inr (reply_invalid (sr_specs c) s (expects_error_text e) w2)
                | None \<Rightarrow> accept_reply c s out d w2)))"

definition completeStepInternal ::
    "surroundings \<Rightarrow> complete_opts \<Rightarrow> string \<Rightarrow> string \<Rightarrow> store \<Rightarrow> store \<times> (exn + reply)" where
  "completeStepInternal c opts stepId out w =
     (case find_step stepId w of
        None \<Rightarrow> (w, Inl (ErrorText (not_found_text ''complete'' stepId)))
      | Some s \<Rightarrow>
          (case complete_body c opts s out w of
             (w1, Inl x) \<Rightarrow> (w, Inl x)
           | (w1, Inr r) \<Rightarrow> (w1, Inr r)))"

definition moved_on :: "outcome \<Rightarrow> bool" where
  "moved_on r \<longleftrightarrow> r = OutAdvanced \<or> r = OutCompleted \<or> r = OutRerouted"

definition completeStep ::
    "surroundings \<Rightarrow> complete_opts \<Rightarrow> string \<Rightarrow> string \<Rightarrow> store \<Rightarrow> store \<times> (exn + reply)" where
  "completeStep c opts stepId out w =
     (case completeStepInternal c opts (stripIdPrefix stepId) out w of
        (w1, Inl x) \<Rightarrow> (w1, Inl x)
      | (w1, Inr r) \<Rightarrow>
          (let w2 = (if moved_on (fst r)
                     then (case find_step (stripIdPrefix stepId) w1 of
                             None \<Rightarrow> w1
                           | Some s \<Rightarrow>
                               writeStoryPlanToProgress (sr_env c) (sr_files c) (s_run_id s)
                                 (co_access opts) w1)
                     else w1);
               w3 = (if fst r \<in> {OutAdvanced, OutRetrying, OutRerouted} then call NudgeDispatch w2 else w2)
           in (w3, Inr r)))"

end
