(* ===== verification/Claim_Props.thy ===== *)
theory Claim_Props
  imports Claim
begin

text \<open>
  What is proved of claims: a claim takes a pending step and no other, its input is complete, missing
  keys send back producers within their retry budget or fail the run, and no reply of a step can
  set a reserved key of the context.
\<close>

section \<open>What a claim leaves alone\<close>

lemma own_row_ids [simp]:
  "s_id (own_row owner t s) = s_id s" "s_run_id (own_row owner t s) = s_run_id s"
  "s_status (own_row owner t s) = SRunning" "s_claim_invalidated_by (own_row owner t s) = None"
  by (simp_all add: own_row_def split: option.splits)

lemma own_row_job: "owner = Some o1 \<Longrightarrow> s_claim_job_id (own_row owner t s) = Some (wo_job o1)"
  by (simp add: own_row_def)

lemma resolveStepContext_tables [simp]:
  "steps (snd (resolveStepContext e r i t p w)) = steps w"
  "stories (snd (resolveStepContext e r i t p w)) = stories w"
  "runs (snd (resolveStepContext e r i t p w)) = runs w"
  by (auto simp: resolveStepContext_def split_def Let_def split: option.splits)

lemma claim_base_context_tables [simp]:
  "steps (snd (claim_base_context e s w)) = steps w"
  "runs (snd (claim_base_context e s w)) = runs w"
  by (simp_all add: claim_base_context_def split_def Let_def)

lemma setRunContextKey_tables [simp]:
  "steps (setRunContextKey r k v w) = steps w" "stories (setRunContextKey r k v w) = stories w"
  by (auto simp: setRunContextKey_def split_def Let_def split: option.splits)

lemma event_tables [simp]:
  "steps (emitDispatchRenderingValidation s w) = steps w"
  "steps (gate_overridden_event s d w) = steps w"
  "steps (save_context r m w) = steps w"
  by (simp_all add: emitDispatchRenderingValidation_def gate_overridden_event_def save_context_def
        split: option.splits decision.splits)

lemma find_step_steps: "steps w' = steps w \<Longrightarrow> find_step i w' = find_step i w"
  by (simp add: find_step_def)

lemma resolveMissingKeys_Proceed:
  "resolveMissingKeys r i sid row a keys w = (w', Proceed) \<Longrightarrow> keys = [] \<and> w' = w"
  by (auto simp: resolveMissingKeys_def Let_def split: if_splits)

lemma take_step_SomeD:
  "take_step owner i w = Some w1 \<Longrightarrow>
   step_status_of i w = Some SPending \<and> w1 = set_step i (own_row owner (now w)) w"
  by (simp add: take_step_def split: if_splits)

lemma wrap_known:
  "own_value m k \<noteq> None \<Longrightarrow> wrapTestCmdInContext m0 repo r s = (m, render) \<Longrightarrow>
   own_value (renderWithProgressView g render) k \<noteq> None"
  by (auto simp: wrapTestCmdInContext_def own_value_def renderWithProgressView_def with_progress_def Let_def
           split: if_splits option.splits list.splits)

text \<open>A claim took the pending step \<open>s\<close> and no other.\<close>

definition took :: "worker_ownership option \<Rightarrow> step \<Rightarrow> store \<Rightarrow> store \<Rightarrow> bool" where
  "took owner s w w' \<longleftrightarrow>
     step_status_of (s_id s) w = Some SPending
     \<and> (\<exists>c. find_step (s_id s) w' = Some c \<and> s_status c = SRunning \<and> s_claim_invalidated_by c = None
          \<and> (\<forall>o1. owner = Some o1 \<longrightarrow> s_claim_job_id c = Some (wo_job o1)))
     \<and> (\<forall>j. j \<noteq> s_id s \<longrightarrow> find_step j w' = find_step j w)"

definition complete_input :: "step \<Rightarrow> string \<Rightarrow> bool" where
  "complete_input s input \<longleftrightarrow> (\<exists>m. subst_pieces m (pieces (s_input_template s)) = Some input)"

definition plain_holes :: "step \<Rightarrow> bool" where
  "plain_holes s \<longleftrightarrow> (\<forall>k \<in> set (holes (s_input_template s)). k \<notin> set object_prototype_keys)"

lemma complete_inputI:
  assumes "findMissingTemplateKeys (s_input_template s) m = []" "plain_holes s"
    "wrapTestCmdInContext m0 repo r sid = (m, render)"
  shows "complete_input s (resolveTemplate (s_input_template s) (renderWithProgressView g render))"
  unfolding complete_input_def
  by (rule exI, rule resolveTemplate_known)
     (use assms no_missing_known [OF assms(1)] wrap_known [OF _ assms(3)] in \<open>auto simp: plain_holes_def\<close>)

lemma took_own:
  assumes "step_status_of (s_id s) w = Some SPending"
    "steps w' = steps (set_step (s_id s) (own_row owner (now w)) w)"
  shows "took owner s w w'"
proof -
  obtain c where c: "find_step (s_id s) w = Some c" using assms(1) by (auto simp: step_status_of_def)
  show ?thesis
    using assms(1) c own_row_job by (auto simp: took_def find_step_steps [OF assms(2)] find_set_step)
qed

lemma claim_single_Some:
  assumes "claim_single e owner a g s m d w = (w', Some (i, r, input))" "plain_holes s"
  shows "i = s_id s \<and> r = s_run_id s \<and> took owner s w w' \<and> complete_input s input"
proof -
  from assms(1) obtain w1 where w1: "take_step owner (s_id s) w = Some w1"
    by (auto simp: claim_single_def split: option.splits)
  define w2 where "w2 = gate_overridden_event s d
      (emit ''step.running'' (s_run_id s)
        (opt_str ''workflowId'' (getWorkflowId (s_run_id s) w1)
          @ [(''stepId'', VStr (s_step_id s)), (''agentId'', VStr a)]) w1)"
  define m1 where "m1 = single_context e s m w2"
  obtain m2 render where wr: "wrapTestCmdInContext m1 (m1 ''repo'') (s_run_id s) (s_step_id s) = (m2, render)"
    by fastforce
  obtain w3 act where rk: "resolveMissingKeys (s_run_id s) (s_step_index s) (s_step_id s) (s_id s) a
      (findMissingTemplateKeys (s_input_template s) m2) w2 = (w3, act)" by fastforce
  have eq: "claim_single e owner a g s m d w = (case act of
      Rejected \<Rightarrow> (release_claim (s_id s) w3, None) | Fatal _ \<Rightarrow> (w3, None)
    | Proceed \<Rightarrow> (let w4 = emitDispatchRenderingValidation s w3;
                      w5 = (if truthy m ''timeout_retry''
                            then setRunContextKey (s_run_id s) ''timeout_retry'' [] w4 else w4)
        in (w5, Some (s_id s, s_run_id s,
              resolveTemplate (s_input_template s) (renderWithProgressView g render)))))"
    using rk wr by (cases act) (simp_all add: claim_single_def w1 Let_def w2_def m1_def)
  have act: "act = Proceed" using assms(1) eq by (cases act) simp_all
  note p = resolveMissingKeys_Proceed [OF rk [unfolded act]]
  have st: "steps w' = steps w1" using assms(1) eq p by (auto simp: act Let_def w2_def)
  have "i = s_id s" "r = s_run_id s"
    "input = resolveTemplate (s_input_template s) (renderWithProgressView g render)"
    using assms(1) eq by (simp_all add: act Let_def)
  then show ?thesis
    using p complete_inputI [OF _ assms(2) wr] took_own [of s w w' owner] st take_step_SomeD [OF w1] by simp
qed

lemma claim_loop_Some:
  assumes "claim_loop e owner a g s m w = (w', Some (i, r, input))" "plain_holes s"
  shows "i = s_id s \<and> r = s_run_id s \<and> took owner s w w' \<and> complete_input s input"
proof -
  from assms(1) obtain w1 t where w1: "take_step owner (s_id s) w = Some w1"
    and cs: "claim_story e owner a g s t m w1 = (w', Some (i, r, input))"
    by (auto simp: claim_loop_def Let_def split: option.splits if_splits)
  define m1 where "m1 = loop_context e s t m (start_story owner a s t w1)"
  obtain m2 render where wr: "wrapTestCmdInContext m1 (m1 ''repo'') (s_run_id s) (s_step_id s) = (m2, render)"
    by fastforce
  obtain w2 act where rk: "resolveMissingKeys (s_run_id s) (s_step_index s) (s_step_id s) (s_id s) a
      (findMissingTemplateKeys (s_input_template s) m2) (start_story owner a s t w1) = (w2, act)" by fastforce
  have eq: "claim_story e owner a g s t m w1 = (case act of
           Rejected \<Rightarrow> (unstart_story s t w2, None)
         | Fatal _ \<Rightarrow> (w2, None)
         | Proceed \<Rightarrow>
             (let w3 = emitDispatchRenderingValidation s (save_context (s_run_id s) m2 w2);
                  w4 = (if truthy render ''timeout_retry''
                        then save_context (s_run_id s) (m2(''timeout_retry'' := None)) w3 else w3)
              in (w4, Some (s_id s, s_run_id s,
                    resolveTemplate (s_input_template s) (renderWithProgressView g render)))))"
    using rk wr by (cases act) (simp_all add: claim_story_def Let_def m1_def)
  have act: "act = Proceed" using cs eq by (cases act) simp_all
  note p = resolveMissingKeys_Proceed [OF rk [unfolded act]]
  have st: "steps w' = steps (start_story owner a s t w1)"
    using cs eq p by (auto simp: act Let_def split: if_splits)
  obtain c where c: "find_step (s_id s) w = Some c" "s_status c = SPending"
    using take_step_SomeD [OF w1] by (auto simp: step_status_of_def)
  have f: "find_step j w' = find_step j (start_story owner a s t w1)" for j
    by (rule find_step_steps [OF st])
  have "took owner s w w'"
    using c take_step_SomeD [OF w1] own_row_job
    by (auto simp: took_def f start_story_def Let_def find_set_step)
  moreover have "i = s_id s" "r = s_run_id s"
    "input = resolveTemplate (s_input_template s) (renderWithProgressView g render)"
    using cs eq by (simp_all add: act Let_def)
  ultimately show ?thesis using p complete_inputI [OF _ assms(2) wr] by simp
qed

section \<open>Claims\<close>

lemma gate_claim_tables:
  assumes "gate_claim h ev specs s w = (w', True, d)"
  shows "steps w' = steps w \<and> runs w' = runs w"
proof (cases "getTestCmdReviewRefusal (s_run_id s) w")
  case (Some ref)
  then show ?thesis using assms by (simp add: gate_claim_def)
next
  case None
  let ?d = "evaluateFinalizeMergeLedgerGate h ev (s_id s) w"
  show ?thesis
  proof (cases "getLedgerGateRefusal (s_id s) ?d w")
    case n2: None
    then show ?thesis using assms None by (simp add: gate_claim_def)
  next
    case (Some ref)
    then have r: "gate_refuse h ev specs s ref w = (w', OConceded)"
      using assms None by (simp add: gate_claim_def split_def Let_def prod_eq_iff)
    show ?thesis using apply_not_rerouted [OF r [unfolded gate_refuse_def]]
      by (auto split: if_splits)
  qed
qed

lemma claim_gate_tables:
  assumes "claim_gate e s w = (w', True, d)"
  shows "steps w' = steps w \<and> runs w' = runs w"
proof (cases "s_step_id s = ''finalize_merge''")
  case False
  then show ?thesis using assms by (simp add: claim_gate_def)
next
  case True
  then obtain c where c: "find_step (s_id s) w = Some c"
    and e: "enforceClaimLedgerGate (e_host e) (e_evidence e) (e_specs e) s w = (w', True, d)"
    using assms by (auto simp: claim_gate_def enforceClaimLedgerGate_def split: option.splits)
  let ?w1 = "snd (landed_check (e_host e) s (s_output c) w)"
  have "w' = ?w1 \<or> gate_claim (e_host e) (e_evidence e) (e_specs e) s ?w1 = (w', True, d)"
    using e c by (auto simp: enforceClaimLedgerGate_def split_def Let_def split: if_splits)
  then show ?thesis using gate_claim_tables by fastforce
qed

lemma claim_new_Some:
  assumes "claim_new e owner a g s w = (w', Inr (Some (i, r, input)))" "plain_holes s"
  shows "i = s_id s \<and> r = s_run_id s \<and> took owner s w w' \<and> complete_input s input"
proof -
  obtain w1 d where g: "claim_gate e s w = (w1, True, d)"
    using assms(1) by (cases "claim_gate e s w") (auto simp: claim_new_def split: bool.splits)
  obtain m w2 where c: "claim_base_context e s w1 = (m, w2)" by fastforce
  have "steps w2 = steps w1" using claim_base_context_tables(1) [of e s w1] c by simp
  then have st: "steps w2 = steps w" using claim_gate_tables [OF g] by simp
  have "claim_single e owner a g s m d w2 = (w', Some (i, r, input))
      \<or> claim_loop e owner a g s m w2 = (w', Some (i, r, input))"
    using assms(1) g c
    by (auto simp: claim_new_def Let_def split_def prod_eq_iff split: if_splits loop_col.splits)
  then have "i = s_id s \<and> r = s_run_id s \<and> took owner s w2 w' \<and> complete_input s input"
    using claim_single_Some [OF _ assms(2), of e owner a g m d w2 w' i r input]
      claim_loop_Some [OF _ assms(2), of e owner a g m w2 w' i r input] by blast
  then show ?thesis using find_step_steps [OF st] by (simp add: took_def step_status_of_def)
qed

lemma stepCurrent_none:
  "held_step a (stripIdPrefix rid) w = None \<Longrightarrow> stepCurrent e a rid g w = (w, Inr None)"
  by (simp add: stepCurrent_def)


lemma claim_single_ready:
  assumes "step_status_of (s_id s) w = Some SPending" "holes (s_input_template s) = []"
  shows "\<exists>w' i r input. claim_single e owner a g s m d w = (w', Some (i, r, input))"
proof -
  have k: "findMissingTemplateKeys (s_input_template s) x = []" for x
    by (simp add: findMissingTemplateKeys_def assms(2))
  have r: "resolveMissingKeys x1 x2 x3 x4 x5 [] u = (u, Proceed)" for x1 x2 x3 x4 x5 u
    by (simp add: resolveMissingKeys_def)
  show ?thesis
    unfolding claim_single_def take_step_def assms(1) k r Let_def split_def by simp
qed

definition env0 :: env where
  "env0 = \<lparr>e_host = host0, e_specs = specs0, e_evidence = Native [], e_diff_names = (\<lambda>_ _. None),
           e_run_root = ''/x''\<rparr>"

definition step1 :: step where "step1 = step0\<lparr>s_status := SPending\<rparr>"

definition store1 :: store where "store1 = store0\<lparr>steps := [step1]\<rparr>"

lemma pieces_plain: "pieces ''do it'' = map Lit ''do it''"
  by (simp add: pieces.simps match_hole_def js_simps)

lemma claim_sample_facts:
  "stripIdPrefix ''r'' = ''r''" "run_steps ''r'' store1 = [step1]" "run_status_of ''r'' store1 = Some RRunning"
  "held_step ''planner'' ''r'' store1 = None" "next_claimable ''planner'' ''r'' store1 = Some step1"
  "step_status_of ''p'' store1 = Some SPending" "holes ''do it'' = []"
  by (simp_all add: store1_def step1_def sample_defs eval_store stripIdPrefix_def isRunPrefixed_def
      isStepPrefixed_def run_status_of_def held_step_def next_claimable_def claimable_def blocks_def
      step_status_of_def holes_def pieces_plain)

lemma claim_sample:
  "\<exists>w' i r input. claim_step env0 ''planner'' ''r'' None None store1 = (w', Inr (Some (i, r, input)))"
proof -
  have f: "s_run_id step1 = ''r''" "s_id step1 = ''p''" "s_step_id step1 = ''plan''" "s_type step1 = TySingle"
    "s_input_template step1 = ''do it''" by (simp_all add: step1_def step0_def)
  obtain m w2 where b: "claim_base_context env0 step1 store1 = (m, w2)" by fastforce
  then have "steps w2 = steps store1" using claim_base_context_tables(1) [of env0 step1 store1] by simp
  from find_step_steps [OF this] have p: "step_status_of ''p'' w2 = Some SPending"
    using claim_sample_facts(6) by (simp add: step_status_of_def)
  have "\<exists>w' i r input. claim_single env0 None ''planner'' None step1 m None w2 = (w', Some (i, r, input))"
    by (rule claim_single_ready) (use p in \<open>simp_all add: f claim_sample_facts\<close>)
  then obtain w' i r input where c: "claim_single env0 None ''planner'' None step1 m None w2 = (w', Some (i, r, input))"
    by blast
  have g: "claim_gate env0 step1 store1 = (store1, True, None)"
    unfolding claim_gate_def f claim_sample_facts by simp
  have "claim_new env0 None ''planner'' None step1 store1 = (w', Inr (Some (i, r, input)))"
    unfolding claim_new_def g by (simp add: b f c)
  moreover have "stepCurrent env0 ''planner'' ''r'' None store1 = (store1, Inr None)"
    by (rule stepCurrent_none) (simp only: claim_sample_facts)
  ultimately have "claim_step env0 ''planner'' ''r'' None None store1 = (w', Inr (Some (i, r, input)))"
    unfolding claim_step_def claim_sample_facts by (simp add: claim_sample_facts)
  then show ?thesis by blast
qed



section \<open>Missing keys\<close>

lemma key_rejected_fold [simp]:
  "steps (fold (key_rejected_event r row sid keys pid) ks w) = steps w"
  "now (fold (key_rejected_event r row sid keys pid) ks w) = now w"
  by (induction ks arbitrary: w) (simp_all add: key_rejected_event_def)

abbreviation repended :: "string \<Rightarrow> step \<Rightarrow> int \<Rightarrow> step \<Rightarrow> step" where
  "repended feedback p t s \<equiv>
     s\<lparr>s_status := SPending, s_retry_count := Suc (s_retry_count p), s_output := Some feedback,
       s_claim_job_id := None, s_claim_pid := None, s_claim_pgid := None, s_updated_at := Some t\<rparr>"

lemma repend_for_keys_find:
  "find_step j (repend_for_keys r sid row a wi keys mine fb p w) =
     (if j = s_id p then map_option (repended fb p (now w)) (find_step j w) else find_step j w)"
  "now (repend_for_keys r sid row a wi keys mine fb p w) = now w"
  by (auto simp: repend_for_keys_def find_step_steps [OF key_rejected_fold(1)] find_set_step)

lemma fold_repend_find:
  "distinct (map s_id ps) \<Longrightarrow>
   find_step j (fold (\<lambda>p. repend_for_keys r sid row a wi keys (mine p) fb p) ps w) =
     (case List.find (\<lambda>p. s_id p = j) ps of
        None \<Rightarrow> find_step j w
      | Some p \<Rightarrow> map_option (repended fb p (now w)) (find_step j w))"
proof (induction ps arbitrary: w)
  case Nil
  then show ?case by simp
next
  case (Cons p ps)
  have "List.find (\<lambda>q. s_id q = s_id p) ps = None"
    using Cons.prems by (simp add: find_None_iff) (metis imageI)
  then show ?case using Cons by (auto simp: repend_for_keys_find split: option.splits)
qed

lemma dedup_steps_ids: "distinct (map s_id (dedup_steps seen ps))
    \<and> set seen \<inter> s_id ` set (dedup_steps seen ps) = {}"
  by (induction seen ps rule: dedup_steps.induct) auto

lemma dedup_steps_set: "set (dedup_steps seen ps) \<subseteq> set ps"
  by (induction seen ps rule: dedup_steps.induct) auto

lemma dedup_steps_covers: "p \<in> set ps \<Longrightarrow> s_id p \<in> set seen \<union> s_id ` set (dedup_steps seen ps)"
  by (induction seen ps rule: dedup_steps.induct) auto

lemma producer_in:
  "findProducerForMissingKey r i k w = Some p \<Longrightarrow>
   p \<in> set (run_steps r w) \<and> s_status p = SDone \<and> s_step_index p < i"
proof -
  assume "findProducerForMissingKey r i k w = Some p"
  then have "p \<in> set (sort_key (\<lambda>u. - int (s_step_index u))
      (filter (\<lambda>u. s_step_index u < i \<and> s_status u = SDone) (run_steps r w)))"
    unfolding findProducerForMissingKey_def by (auto simp: find_Some_iff in_set_conv_nth simp del: set_sort)
  then show ?thesis by simp
qed

lemma live_producer_repended:
  assumes "wf_store w" "findProducerForMissingKey r i k w = Some p" "\<not> exhausted_producer p"
    "k \<in> set keys"
  shows "List.find (\<lambda>q. s_id q = s_id p) (live_producers r i keys w) = Some p"
proof -
  let ?all = "concat (map (\<lambda>k. case findProducerForMissingKey r i k w of None \<Rightarrow> []
      | Some p \<Rightarrow> if exhausted_producer p then [] else [p]) keys)"
  have "p \<in> set ?all" using assms(2-4) by force
  then have "s_id p \<in> s_id ` set (live_producers r i keys w)"
    using dedup_steps_covers [of p ?all "[]"] by (simp add: live_producers_def)
  then obtain q where q: "List.find (\<lambda>q. s_id q = s_id p) (live_producers r i keys w) = Some q"
    by (cases "List.find (\<lambda>q. s_id q = s_id p) (live_producers r i keys w)") (auto simp: find_None_iff)
  then have qi: "q \<in> set (live_producers r i keys w)" "s_id q = s_id p"
    by (auto simp: find_Some_iff in_set_conv_nth)
  then have "q \<in> set ?all" unfolding live_producers_def by (blast dest: subsetD [OF dedup_steps_set])
  then obtain k' where "findProducerForMissingKey r i k' w = Some q"
    by (auto split: option.splits if_splits)
  then have "q \<in> set (steps w)" "p \<in> set (steps w)"
    using producer_in assms(2) by (auto simp: run_steps_def)
  then have "q = p" using qi(2) assms(1) by (auto simp: wf_store_def distinct_map dest: inj_onD)
  then show ?thesis using q by simp
qed

lemma fail_missing_effect:
  assumes "find_step row w \<noteq> None" "find_run r w \<noteq> None"
  shows "step_status_of row (failRunForMissingTemplateKeys row sid r a msg w) = Some SFailed"
    "run_status_of r (failRunForMissingTemplateKeys row sid r a msg w) = Some RFailed"
proof -
  show "step_status_of row (failRunForMissingTemplateKeys row sid r a msg w) = Some SFailed"
    using assms(1) by (auto simp: failRunForMissingTemplateKeys_def Let_def step_status_of_def find_set_step)
  show "run_status_of r (failRunForMissingTemplateKeys row sid r a msg w) = Some RFailed"
    using assms(2) by (simp add: failRunForMissingTemplateKeys_def Let_def scheduleRunCronTeardown_status loop_run_failed)
qed

text \<open>C13.  Missing keys never reach an agent.  Either every one has a finished upstream producer with
  retries left, and exactly these producers are pending again with one more retry, within their
  budget; or some key has no producer or an exhausted one, and the step and its run fail.\<close>

theorem missing_keys_resolved:
  assumes "resolveMissingKeys r i sid row a keys w = (w', act)" "keys \<noteq> []" "wf_store w"
    "find_step row w \<noteq> None" "find_run r w \<noteq> None"
  shows "case act of
      Proceed \<Rightarrow> False
    | Rejected \<Rightarrow>
        (\<forall>k \<in> set keys. \<exists>p c. findProducerForMissingKey r i k w = Some p
           \<and> find_step (s_id p) w' = Some c \<and> s_status c = SPending
           \<and> s_retry_count c = s_retry_count p + 1 \<and> s_retry_count c \<le> s_max_retries p)
        \<and> (\<forall>j. j \<notin> s_id ` set (live_producers r i keys w) \<longrightarrow> find_step j w' = find_step j w)
    | Fatal _ \<Rightarrow>
        (\<exists>k \<in> set keys. findProducerForMissingKey r i k w = None
           \<or> (\<exists>p. findProducerForMissingKey r i k w = Some p \<and> s_max_retries p \<le> s_retry_count p))
        \<and> step_status_of row w' = Some SFailed \<and> run_status_of r w' = Some RFailed"
proof -
  let ?un = "no_producer_keys r i keys w" and ?ex = "exhausted_details r i keys w"
  have un: "?un \<noteq> [] \<Longrightarrow> \<exists>k \<in> set keys. findProducerForMissingKey r i k w = None"
    by (auto simp: no_producer_keys_def filter_empty_conv)
  have ex: "?ex \<noteq> [] \<Longrightarrow> \<exists>k \<in> set keys. \<exists>p. findProducerForMissingKey r i k w = Some p
      \<and> s_max_retries p \<le> s_retry_count p"
    by (auto simp: exhausted_details_def exhausted_producer_def split: option.splits if_splits)
  show ?thesis
  proof (cases act)
    case Proceed
    then show ?thesis using resolveMissingKeys_Proceed assms(1,2) by blast
  next
    case (Fatal msg)
    have "\<exists>m. w' = failRunForMissingTemplateKeys row sid r a m w" "?un \<noteq> [] \<or> ?ex \<noteq> []"
      using assms(1,2) Fatal by (auto simp: resolveMissingKeys_def Let_def split: if_splits)
    then show ?thesis using un ex fail_missing_effect [OF assms(4,5)] Fatal by auto
  next
    case Rejected
    let ?fb = "''Missing key(s) needed by downstream step \"'' @ sid @ ''\": '' @ join '', '' keys"
    have none: "?un = []" "?ex = []"
      and w': "w' = fold (\<lambda>p. repend_for_keys r sid row a (getWorkflowId r w) keys
                  (keys_of_producer r i keys w p) ?fb p) (live_producers r i keys w) w"
      using assms(1,2) Rejected by (auto simp: resolveMissingKeys_def Let_def split: if_splits)
    have f: "find_step j w' = (case List.find (\<lambda>p. s_id p = j) (live_producers r i keys w) of
        None \<Rightarrow> find_step j w | Some p \<Rightarrow> map_option (repended ?fb p (now w)) (find_step j w))" for j
      unfolding w' by (rule fold_repend_find) (simp add: live_producers_def dedup_steps_ids)
    have "\<exists>p c. findProducerForMissingKey r i k w = Some p \<and> find_step (s_id p) w' = Some c
       \<and> s_status c = SPending \<and> s_retry_count c = s_retry_count p + 1
       \<and> s_retry_count c \<le> s_max_retries p" if k: "k \<in> set keys" for k
    proof -
      obtain p where p: "findProducerForMissingKey r i k w = Some p"
        using none(1) k by (auto simp: no_producer_keys_def filter_empty_conv)
      then have live: "\<not> exhausted_producer p"
        using none(2) k by (force simp: exhausted_details_def split: option.splits if_splits)
      have "find_step (s_id p) w = Some p"
        using step_table.find_in_rows [of w p] assms(3) producer_in [OF p]
        by (simp add: wf_store_def run_steps_def)
      then show ?thesis
        using f [of "s_id p"] live_producer_repended [OF assms(3) p live k] p live
        by (simp add: exhausted_producer_def)
    qed
    moreover have "find_step j w' = find_step j w"
      if "j \<notin> s_id ` set (live_producers r i keys w)" for j
    proof -
      have "List.find (\<lambda>p. s_id p = j) (live_producers r i keys w) = None"
        using that by (auto simp: find_None_iff)
      then show ?thesis by (simp add: f)
    qed
    ultimately show ?thesis using Rejected by simp
  qed
qed

lemma missing_keys_resolved_witness:
  "run_status_of ''r'' (fst (resolveMissingKeys ''r'' 0 ''plan'' ''p'' ''planner'' [''k''] store1)) = Some RFailed"
proof -
  let ?R = "resolveMissingKeys ''r'' 0 ''plan'' ''p'' ''planner'' [''k''] store1"
  have n: "findProducerForMissingKey ''r'' 0 ''k'' store1 = None"
    by (simp add: findProducerForMissingKey_def claim_sample_facts)
  have e: "?R = (fst ?R, snd ?R)" by simp
  have "\<exists>m. snd ?R = Fatal m"
    by (simp add: resolveMissingKeys_def Let_def no_producer_keys_def n)
  moreover have "wf_store store1" "find_step ''p'' store1 \<noteq> None" "find_run ''r'' store1 \<noteq> None"
    by (simp_all add: store1_def step1_def sample_defs wf_store_def eval_store)
  ultimately show ?thesis using missing_keys_resolved [OF e] by auto
qed


section \<open>Reserved keys\<close>

lemma foldl_reserved:
  "k \<in> set RESERVED_CONTEXT_KEYS \<Longrightarrow> foldl (\<lambda>m u. m ++ output_keys (s_output u)) m us k = m k"
proof (induction us arbitrary: m)
  case (Cons u us)
  have "output_keys (s_output u) k = None"
    using Cons.prems by (simp add: output_keys_def split: option.splits)
  then show ?case using Cons by (simp add: map_add_def)
qed simp

lemma story_keys_other:
  "k \<notin> {''progress'', ''progress_file'', ''current_story'', ''current_story_id'',
       ''current_story_title'', ''completed_stories'', ''stories_remaining'', ''verify_feedback'',
       ''retry_feedback''} \<Longrightarrow>
   story_keys e r t p w m k = m k"
  by (simp add: story_keys_def default_empty_def with_story_def with_progress_def Let_def)

text \<open>What earlier steps have output never sets a reserved key of the context a step is given: but for the run's
  id it has the value the run's own context holds.\<close>

lemma step_context_reserved:
  assumes "k \<in> set RESERVED_CONTEXT_KEYS" "k \<noteq> ''run_id''"
  shows "fst (resolveStepContext e r i story p w) k =
     (case find_run r w of None \<Rightarrow> None | Some x \<Rightarrow> gate_context (r_context x) k)"
proof -
  have n: "k \<notin> {''progress'', ''progress_file'', ''current_story'', ''current_story_id'',
       ''current_story_title'', ''completed_stories'', ''stories_remaining'', ''verify_feedback'',
       ''retry_feedback''}" "k \<noteq> ''has_frontend_changes''" "k \<noteq> ''has_pr''"
    using assms(1) by (auto simp: RESERVED_CONTEXT_KEYS_def)
  have d: "derived_keys e m k = m k" for m
    using n(2,3) by (simp add: derived_keys_def Let_def)
  show ?thesis
    using assms n(1)
    by (auto simp: resolveStepContext_def split_def Let_def d story_keys_other foldl_reserved
             parseRunContext_def gate_context_def split: option.splits ctx_col.splits)
qed

end
