(* ===== verification/Complete_Props.thy ===== *)
theory Complete_Props
  imports Complete Claim_Props
begin

text \<open>
  What is proved of a completion: a rejected reply costs exactly one retry and is not accepted past
  the budget, a reply that arrives late or twice changes nothing, and the test command of a run is
  only replaced by a reviewer.
\<close>

section \<open>What the parts leave alone\<close>

lemma map_prod_pair [simp]: "map_prod id f x = (a, b) \<longleftrightarrow> (\<exists>y. x = (a, y) \<and> b = f y)"
  by (cases x) auto

lemma refusal_result_None [simp]: "refusal_result r = None \<longleftrightarrow> r = OConceded"
  by (cases r) simp_all

lemma again_find:
  "find_step i (again s out n d w) =
     (if i = s_id s
      then map_option (\<lambda>u. u\<lparr>s_status := SPending, s_output := Some out, s_retry_count := n,
                             s_updated_at := Some (now w)\<rparr>) (find_step i w)
      else find_step i w)"
  by (simp add: again_def Let_def retry_event_def find_set split: option.splits)

lemma end_run_find:
  "find_step i (end_run s out n d r w) =
     (if i = s_id s
      then map_option (\<lambda>u. u\<lparr>s_status := SFailed, s_output := Some out,
                             s_retry_count := (case n of None \<Rightarrow> s_retry_count u | Some k \<Rightarrow> k),
                             s_updated_at := Some (now w)\<rparr>) (find_step i w)
      else find_step i w)"
  by (simp add: end_run_def Let_def find_set)

lemma apply_conceded:
  assumes "applyLedgerGateRefusalSync specs s reason records allow w = (w', OConceded)"
  shows "steps w' = steps w \<and> stories w' = stories w \<and> runs w' = runs w"
  using apply_not_rerouted [OF assms] by (auto split: if_splits)

lemma gate_goes_on:
  assumes "acceptance_gate e s out w = (w', Inr d)"
  shows "steps w' = steps w \<and> stories w' = stories w \<and> runs w' = runs w"
proof -
  have p: "steps (snd (review_pending h s out w)) = steps w"
    "stories (snd (review_pending h s out w)) = stories w"
    "runs (snd (review_pending h s out w)) = runs w" for h
    by (simp_all add: review_pending_def split_def Let_def)
  have r: "steps w2 = steps v \<and> stories w2 = stories v \<and> runs w2 = runs v"
    if "acceptance_refused e s out ref v = (w2, None)" for ref v w2
  proof -
    let ?v1 = "snd (isAlreadyLanded (e_host e) (s_id s) out v)"
    have "fst (isAlreadyLanded (e_host e) (s_id s) out v) \<and> w2 = landed_event s ?v1
      \<or> (\<exists>reason allow. applyLedgerGateRefusalSync (e_specs e) s reason (is_missing ref) allow ?v1
            = (w2, OConceded))"
      using that by (auto simp: acceptance_refused_def Let_def split: prod.splits if_splits)
    then show ?thesis
      using apply_conceded [of "e_specs e" s _ "is_missing ref" _ ?v1 w2]
      by (auto simp: landed_event_def)
  qed
  obtain q w1 where q: "review_pending (e_host e) s out w = (q, w1)" by fastforce
  then have w1: "steps w1 = steps w" "stories w1 = stories w" "runs w1 = runs w"
    using p [of "e_host e"] by simp_all
  have "q = None" using assms q by (auto simp: acceptance_gate_def split: option.splits)
  then show ?thesis
    using assms q w1 r
    by (auto simp: acceptance_gate_def Let_def split: option.splits prod.splits dest!: r)
qed

lemma merge_context_tables:
  "steps (snd (merge_context r s out w)) = steps w" "stories (snd (merge_context r s out w)) = stories w"
  by (simp_all add: merge_context_def merge_reply_def merge_test_cmd_def rewrite_event_def
        establish_cmd_def save_context_def split_def Let_def split: option.splits)

lemma insert_stories_tables:
  "steps (fst (insert_stories h rid i ss w)) = steps w" "runs (fst (insert_stories h rid i ss w)) = runs w"
  by (induction h rid i ss w rule: insert_stories.induct) (simp_all split: option.splits)

lemma parseAndInsertStories_tables:
  "steps (fst (parseAndInsertStories h out rid w)) = steps w"
  "runs (fst (parseAndInsertStories h out rid w)) = runs w"
  by (simp_all add: parseAndInsertStories_def insert_stories_tables split: option.splits json.splits)

lemma audit_goes_on:
  "routeDeceptionAuditVerdict specs s m parsed w = (w', None) \<Longrightarrow>
   steps w' = steps w \<and> stories w' = stories w"
  by (auto simp: routeDeceptionAuditVerdict_def Let_def audit_passed_def save_context_def split: if_splits)

lemma review_goes_on:
  "routeTestCmdReviewVerdict specs s m parsed w = (w', None) \<Longrightarrow>
   steps w' = steps w \<and> stories w' = stories w"
  by (auto simp: routeTestCmdReviewVerdict_def Let_def review_accepted_def save_context_def
        establish_cmd_def split: if_splits option.splits)

section \<open>A rejected reply\<close>

text \<open>The step is pending again with one more retry, within its budget.\<close>

definition sent_back :: "string \<Rightarrow> store \<Rightarrow> store \<Rightarrow> bool" where
  "sent_back i w w' \<longleftrightarrow>
     (case find_step i w of
        None \<Rightarrow> False
      | Some u \<Rightarrow>
          (case find_step i w' of
             None \<Rightarrow> False
           | Some u' \<Rightarrow>
               s_status u' = SPending \<and> s_retry_count u' = Suc (s_retry_count u)
               \<and> s_max_retries u' = s_max_retries u \<and> s_retry_count u' \<le> s_max_retries u'))"

lemma sent_back_steps: "steps v = steps w \<Longrightarrow> sent_back i v w' = sent_back i w w'"
  by (simp add: sent_back_def find_step_cong [of v w])

lemma again_sent_back:
  assumes "find_step (s_id s) w = Some u" "retries_of (s_id s) w = (n, m)" "\<not> Suc n > m"
  shows "sent_back (s_id s) w (again s out (Suc n) d w)"
  using assms by (simp add: sent_back_def again_find retries_of_def)

lemma bounce_sent_back:
  assumes "bounce s a b an rd w = (w', OutRetrying, d)" "find_step (s_id s) w = Some u"
  shows "sent_back (s_id s) w w'"
  using assms again_sent_back
  by (auto simp: bounce_def Let_def split: prod.splits if_splits)

lemma reply_invalid_sent_back:
  assumes "reply_invalid specs s e w = (w', OutRetrying, d)" "find_step (s_id s) w = Some u"
  shows "sent_back (s_id s) w w'"
  using assms again_sent_back
  by (auto simp: reply_invalid_def Let_def split: prod.splits if_splits)

lemma retry_verdict_sent_back:
  assumes "retry_verdict specs s out w = (w', OutRetrying, d)" "find_step (s_id s) w = Some u"
  shows "sent_back (s_id s) w w'"
  using assms again_sent_back
  by (auto simp: retry_verdict_def Let_def split: prod.splits if_splits)

lemma send_back_not_retrying: "send_back p s t reason sent why rd w = (w', OutRetrying, d) \<longleftrightarrow> False"
  by (simp add: send_back_def split_def Let_def)

lemma review_rejected_sent_back:
  assumes "review_rejected specs s m old new f w = (w', OutRetrying, d)" "find_step (s_id s) w = Some u"
  shows "sent_back (s_id s) w w'"
proof -
  have b: "sent_back (s_id s) w v" if "bounce s x y True z (emit n r fs w) = (v, OutRetrying, q)" for x y z n r fs v q
    using bounce_sent_back [OF that] assms(2) sent_back_steps [of "emit n r fs w" w] by simp
  show ?thesis
    using assms(1)
    by (auto simp: review_rejected_def Let_def send_back_not_retrying
        split: prod.splits option.splits list.splits dest: b)
qed

lemma audit_failed_sent_back:
  assumes "audit_failed specs s f w = (w', OutRetrying, d)" "find_step (s_id s) w = Some u"
  shows "sent_back (s_id s) w w'"
proof -
  have b: "sent_back (s_id s) w v" if "bounce s x y True z (emit n r fs w) = (v, OutRetrying, q)" for x y z n r fs v q
    using bounce_sent_back [OF that] assms(2) sent_back_steps [of "emit n r fs w" w] by simp
  show ?thesis
    using assms(1)
    by (auto simp: audit_failed_def Let_def send_back_not_retrying
        split: prod.splits option.splits dest: b)
qed

lemma review_answer:
  "routeTestCmdReviewVerdict specs s m parsed w = (w', Some (OutRetrying, d)) \<Longrightarrow>
   \<exists>old new f. review_rejected specs s m old new f w = (w', OutRetrying, d)"
  by (auto simp: routeTestCmdReviewVerdict_def Let_def split: if_splits option.splits)

lemma audit_answer:
  "routeDeceptionAuditVerdict specs s m parsed w = (w', Some (OutRetrying, d)) \<Longrightarrow>
   \<exists>f. audit_failed specs s f w = (w', OutRetrying, d)"
  by (auto simp: routeDeceptionAuditVerdict_def Let_def split: if_splits)

lemma land_step_outcome: "fst (snd (land_step s out d w)) \<noteq> OutRetrying"
  by (simp add: land_step_def split_def Let_def advance_outcome_def)

lemma judge_reply_sent_back:
  assumes "judge_reply specs s out m d w = (w', OutRetrying, x)" "find_step (s_id s) w = Some u"
  shows "sent_back (s_id s) w w'"
proof (cases "map_option lower (parseOutputKeyValues out ''status'') = Some ''retry''")
  case True
  then show ?thesis using assms retry_verdict_sent_back by (simp add: judge_reply_def)
next
  case False
  let ?p = "parseOutputKeyValues out"
  obtain w1 r where r: "routeTestCmdReviewVerdict specs s m ?p w = (w1, r)" by fastforce
  show ?thesis
  proof (cases r)
    case (Some a)
    then have "routeTestCmdReviewVerdict specs s m ?p w = (w', Some (OutRetrying, x))"
      using assms(1) r False by (auto simp: judge_reply_def Let_def split: if_splits)
    then show ?thesis using review_answer review_rejected_sent_back assms(2) by blast
  next
    case None
    then have w1: "steps w1 = steps w" using review_goes_on r by blast
    obtain w2 q where q: "routeDeceptionAuditVerdict specs s m ?p w1 = (w2, q)" by fastforce
    then have "q = Some (OutRetrying, x) \<and> w2 = w'"
      using assms(1) r None False land_step_outcome [of s out d w2]
      by (auto simp: judge_reply_def Let_def split: option.splits if_splits)
    then obtain f where "audit_failed specs s f w1 = (w', OutRetrying, x)" using audit_answer q by blast
    then have "sent_back (s_id s) w1 w'"
      by (rule audit_failed_sent_back) (simp add: find_step_cong [OF w1] assms(2))
    then show ?thesis by (simp only: sent_back_steps [OF w1])
  qed
qed

lemma complete_verifier_sent_back:
  assumes "complete_verifier l s out m w = (w', OutRetrying, x)" "find_step (s_id s) w = Some u"
  shows "sent_back (s_id s) w w'"
  using assms bounce_sent_back
  by (auto simp: complete_verifier_def rejectVerifyEachCompletionForInvalidVerdict_def Let_def
        advance_outcome_def split: sum.splits prod.splits if_splits)

lemma complete_story_outcome: "complete_story s t out w = (w', Inr (OutRetrying, x)) \<longleftrightarrow> False"
  by (auto simp: complete_story_def Let_def advance_outcome_def
        split: option.splits prod.splits sum.splits if_splits)

lemma settle_reply_sent_back:
  assumes "settle_reply c s out m d w = (w', Inr (OutRetrying, x))" "find_step (s_id s) w = Some u"
  shows "sent_back (s_id s) w w'"
  using assms complete_verifier_sent_back judge_reply_sent_back
  by (auto simp: settle_reply_def complete_story_outcome split: option.splits if_splits)

lemma plan_goes_on:
  "plan_stories h s out w = (w', None) \<Longrightarrow> steps w' = steps w"
  using parseAndInsertStories_tables(1) [of h out "s_run_id s" w]
  by (auto simp: plan_stories_def Let_def split: prod.splits option.splits)

lemma plan_stories_sent_back:
  assumes "plan_stories h s out w = (w', Some (OutRetrying, x))" "find_step (s_id s) w = Some u"
  shows "sent_back (s_id s) w w'"
proof -
  obtain w1 e where e: "parseAndInsertStories h out (s_run_id s) w = (w1, e)" by fastforce
  then have w1: "steps w1 = steps w" using parseAndInsertStories_tables(1) [of h out "s_run_id s" w] by simp
  have "sent_back (s_id s) w1 w'"
    using assms e bounce_sent_back [where s = s] find_step_cong [OF w1]
    by (auto simp: plan_stories_def Let_def split: prod.splits option.splits)
  then show ?thesis using sent_back_steps [OF w1] by simp
qed

lemma no_plan_goes_on: "no_plan s w = (w', None) \<Longrightarrow> w' = w"
  by (auto simp: no_plan_def Let_def split: prod.splits option.splits if_splits)

lemma no_plan_sent_back:
  assumes "no_plan s w = (w', Some (OutRetrying, x))" "find_step (s_id s) w = Some u"
  shows "sent_back (s_id s) w w'"
  using assms bounce_sent_back [where s = s]
  by (auto simp: no_plan_def Let_def split: prod.splits option.splits if_splits)

lemma accept_reply_sent_back:
  assumes "accept_reply c s out d w = (w', Inr (OutRetrying, x))" "find_step (s_id s) w = Some u"
  shows "sent_back (s_id s) w w'"
proof -
  obtain r where r: "find_run (s_run_id s) w = Some r"
    using assms(1) by (cases "find_run (s_run_id s) w") (simp_all add: accept_reply_def)
  obtain m w1 where w1: "merge_context r s out w = (m, w1)" by fastforce
  then have s1: "steps w1 = steps w" using merge_context_tables(1) [of r s out w] by simp
  obtain w2 p where w2: "plan_stories (sr_js c) s out w1 = (w2, p)" by fastforce
  note base = sent_back_steps [OF s1] find_step_cong [OF s1] assms(2)
  show ?thesis
  proof (cases p)
    case (Some a)
    then show ?thesis using assms(1) r w1 w2 plan_stories_sent_back [of "sr_js c" s out w1] base
      by (auto simp: accept_reply_def)
  next
    case None
    then have s2: "steps w2 = steps w1" using plan_goes_on w2 by blast
    note base2 = sent_back_steps [OF s2] find_step_cong [OF s2] base
    obtain w3 q where w3: "no_plan s w2 = (w3, q)" by fastforce
    show ?thesis
    proof (cases q)
      case (Some a)
      then show ?thesis using assms(1) r w1 w2 w3 None no_plan_sent_back [of s w2] base2
        by (auto simp: accept_reply_def)
    next
      case q: None
      then have "settle_reply c s out m d w2 = (w', Inr (OutRetrying, x))"
        using assms(1) r w1 w2 w3 None no_plan_goes_on [of s w2 w3] by (auto simp: accept_reply_def)
      then show ?thesis using settle_reply_sent_back [of c s out m d w2] base2 by auto
    qed
  qed
qed

lemma guard_goes_on: "completion_guard opts s w = (w', None) \<Longrightarrow> w' = w"
  by (auto simp: completion_guard_def split: option.splits if_splits)

lemma guard_outcome: "completion_guard opts s w = (w', Some r) \<Longrightarrow> fst r = OutBlocked"
  by (auto simp: completion_guard_def run_refusal_def split: option.splits if_splits)

lemma refusal_result_outcome: "refusal_result r \<noteq> Some OutRetrying"
  by (cases r) simp_all

lemma gate_outcome: "acceptance_gate e s out w \<noteq> (w', Inl (OutRetrying, x))"
  using refusal_result_outcome
  by (auto simp: acceptance_gate_def acceptance_refused_def Let_def
        split: prod.splits option.splits if_splits)

lemma complete_body_sent_back:
  assumes "complete_body c opts s out w = (w', Inr (OutRetrying, x))" "find_step (s_id s) w = Some u"
  shows "sent_back (s_id s) w w'"
proof -
  obtain w1 r where g: "completion_guard opts s w = (w1, r)" by fastforce
  then have "r = None" using assms(1)
    by (cases r) (auto simp: complete_body_def dest: guard_outcome)
  with g have w1: "w1 = w" using guard_goes_on by blast
  obtain w2 q where q: "acceptance_gate (sr_env c) s out w = (w2, q)" by fastforce
  obtain d where d: "q = Inr d"
    using assms(1) g \<open>r = None\<close> w1 q gate_outcome [of "sr_env c" s out w]
    by (cases q) (auto simp: complete_body_def)
  then have s2: "steps w2 = steps w" using gate_goes_on q by blast
  show ?thesis
    using assms g \<open>r = None\<close> w1 q d accept_reply_sent_back [of c s out d w2]
      reply_invalid_sent_back [of "sr_specs c" s _ w2] sent_back_steps [OF s2] find_step_cong [OF s2]
    by (auto simp: complete_body_def split: option.splits)
qed

lemma planned_event_steps [simp]: "steps (planned_event r n w) = steps w"
  by (simp add: planned_event_def)

lemma writeStoryPlan_steps [simp]: "steps (writeStoryPlanToProgress e fs r a w) = steps w"
  by (simp add: writeStoryPlanToProgress_def Let_def split: option.splits)

lemma completeStep_sent_back:
  assumes "completeStep c opts i out w = (w', Inr (OutRetrying, x))"
  shows "sent_back (stripIdPrefix i) w w'"
proof -
  let ?i = "stripIdPrefix i"
  obtain w1 r where w1: "completeStepInternal c opts ?i out w = (w1, r)" by fastforce
  then have r: "r = Inr (OutRetrying, x)" and s1: "steps w' = steps w1"
    using assms by (auto simp: completeStep_def Let_def moved_on_def split: sum.splits)
  obtain s where s: "find_step ?i w = Some s" "s_id s = ?i"
    using w1 r step_table.find_key by (cases "find_step ?i w") (auto simp: completeStepInternal_def)
  then have "complete_body c opts s out w = (w1, Inr (OutRetrying, x))"
    using w1 r by (auto simp: completeStepInternal_def split: prod.splits sum.splits)
  then have "sent_back ?i w w1" using complete_body_sent_back s by metis
  then show ?thesis unfolding sent_back_def find_step_cong [OF s1] .
qed

lemma sent_back_retries:
  "sent_back i w w' \<Longrightarrow>
   retries_of i w' = (Suc (fst (retries_of i w)), snd (retries_of i w))
   \<and> Suc (fst (retries_of i w)) \<le> snd (retries_of i w)"
  by (auto simp: sent_back_def retries_of_def split: option.splits)

text \<open>Rejected replies of one step, \<open>n\<close> of them, with any operations in between that leave the
  retries of the step alone, a claim for example.\<close>

inductive bouncing :: "string \<Rightarrow> nat \<Rightarrow> store \<Rightarrow> store \<Rightarrow> bool" for i where
  at_first: "bouncing i 0 w w"
| rejected: "bouncing i n w w1 \<Longrightarrow> completeStep c opts i out w1 = (w2, Inr (OutRetrying, x)) \<Longrightarrow>
    bouncing i (Suc n) w w2"
| meanwhile: "bouncing i n w w1 \<Longrightarrow> retries_of (stripIdPrefix i) w2 = retries_of (stripIdPrefix i) w1 \<Longrightarrow>
    bouncing i n w w2"

inductive_cases bouncing_SucE: "bouncing i (Suc n) w w'"

text \<open>C20.  A step's replies are sent back at most as often as it has retries left, and every reply that
  is sent back charges exactly one, whatever the reason: its contract, a malformed or missing story
  plan, a verifier's, reviewer's or auditor's verdict.\<close>

theorem replies_rejected_bounded:
  assumes "bouncing i n w w'" "retries_of (stripIdPrefix i) w = (r, m)"
  shows "retries_of (stripIdPrefix i) w' = (r + n, m) \<and> n \<le> m - r"
  using assms
proof (induction rule: bouncing.induct)
  case (rejected n w w1 c opts out w2 x)
  from sent_back_retries [OF completeStep_sent_back [OF rejected.hyps(2)]] rejected.IH [OF rejected.prems]
  show ?case by auto
qed simp_all

definition surroundings0 :: surroundings where
  "surroundings0 =
     \<lparr>sr_env = env0,
      sr_js = \<lparr>wide_unit = (\<lambda>_. CHR ''?''), number_text = (\<lambda>n. n), syntax_message = (\<lambda>_. []),
               null_message = [], bind_message = [], uuid = (\<lambda>n. CHR ''u'' # nat_str n)\<rparr>,
      sr_rx = (\<lambda>_ _. None),
      sr_files = \<lparr>text_at = (\<lambda>_. None), exists_at = (\<lambda>_. False), can_write = (\<lambda>_. True),
                  pi_state_dir = ''/p''\<rparr>\<rparr>"

definition opts0 :: complete_opts where
  "opts0 = \<lparr>co_authority = None, co_reject_paused = False, co_access = None\<rparr>"

definition plan_running :: store where
  "plan_running = set_step_status ''p'' SRunning store0"

lemma sample_reply_rejected:
  "snd (completeStep surroundings0 opts0 ''p'' ''no'' plan_running)
     = Inr (OutRetrying, Some ''Output missing expects string: \"STATUS: done\"'')"
  by code_simp

lemma replies_rejected_bounded_witness:
  "retries_of ''p'' (fst (completeStep surroundings0 opts0 ''p'' ''no'' plan_running)) = (1, 2)"
proof -
  let ?w = "fst (completeStep surroundings0 opts0 ''p'' ''no'' plan_running)"
  have "completeStep surroundings0 opts0 ''p'' ''no'' plan_running =
      (?w, Inr (OutRetrying, Some ''Output missing expects string: \"STATUS: done\"''))"
    using sample_reply_rejected by (simp add: prod_eq_iff)
  then have "bouncing ''p'' (Suc 0) plan_running ?w" by (rule rejected [OF at_first])
  moreover have "retries_of (stripIdPrefix ''p'') plan_running = (0, 2)" by code_simp
  moreover have "stripIdPrefix ''p'' = ''p''" by code_simp
  ultimately show ?thesis using replies_rejected_bounded [of "''p''" "Suc 0" plan_running ?w 0 2] by simp
qed

section \<open>A reply that comes twice\<close>

lemma first_loop_Some:
  "first_loop rid w = Some l \<Longrightarrow> l \<in> set (steps w) \<and> s_type l = TyLoop \<and> s_run_id l = rid"
  by (auto simp: first_loop_def find_Some_iff in_set_conv_nth)

lemma retry_frames:
  "find_step i (verify_retry_exhausted vs l st w) =
     (if i = l then map_option (\<lambda>u. u\<lparr>s_status := SFailed, s_updated_at := Some (now w)\<rparr>) (find_step i w)
      else find_step i w)"
  "find_step i (verify_retry_story vs out m st w) = find_step i w"
  by (simp_all add: verify_retry_exhausted_def verify_retry_story_def Let_def find_step_set_status)

lemma continuation_settles:
  assumes "distinct (map s_id (steps w))" "find_step (s_id s) w = Some u" "s_status u = SWaiting"
    "s_run_id u = rid" "s_step_id u = sid" "find_step l w = Some lrow" "l \<noteq> s_id s"
    "s_loop_config lrow = LcConfig lc" "verify_each lc" "verify_step_id lc = Some sid" "sid \<noteq> []"
  shows "\<exists>w' a x. checkLoopContinuation rid l w = (w', Inr a) \<and> find_step (s_id s) w' = Some x
    \<and> settled (s_status x)"
proof -
  let ?w1 = "set_step_status l SDone w"
  let ?w2 = "mark_verifier_done rid sid ?w1"
  have d: "distinct (map s_id (steps ?w2))"
    using assms(1)
    by (simp add: mark_verifier_done_def map_upd_where set_step_status_def set_step_def step_table.keys_upd)
  have "\<exists>x. find_step (s_id s) ?w2 = Some x \<and> s_status x = SDone"
    using assms(2-7) by (auto simp: find_step_mark_verifier find_step_set_status)
  then have adv: "\<exists>x. find_step (s_id s) (fst (advancePipeline rid ?w2)) = Some x \<and> s_status x = SDone"
    using advance_keeps_row [OF d] by fastforce
  obtain z where c: "find_step l ?w1 = Some z" "s_loop_config z = LcConfig lc"
    using assms(6,8) by (simp add: find_step_set_status)
  consider "has_story TPending rid w" | "\<not> has_story TPending rid w" "has_story TFailed rid w"
    | "\<not> has_story TPending rid w" "\<not> has_story TFailed rid w" by blast
  then show ?thesis
  proof cases
    case 1
    then show ?thesis using assms(2,3,7)
      by (simp add: checkLoopContinuation_def find_step_set_status settled_def)
  next
    case 2
    then show ?thesis using assms(2,3,7)
      by (simp add: checkLoopContinuation_def fail_loop_def Let_def find_set settled_def)
  next
    case 3
    then have "checkLoopContinuation rid l w = (fst (advancePipeline rid ?w2), Inr (snd (advancePipeline rid ?w2)))"
      using c assms(9-11) by (simp add: checkLoopContinuation_def Let_def split_def)
    then show ?thesis using adv by (auto simp: settled_def)
  qed
qed

lemma verifier_settles:
  assumes "distinct (map s_id (steps w))" "find_step (s_id s) w = Some s" "first_loop (s_run_id s) w = Some l"
    "judges_stories l s" "s_type s \<noteq> TyLoop" "s_step_id s \<noteq> []"
  shows "\<exists>u. find_step (s_id s) (fst (handleVerifyEachCompletion s (s_id l) out m v w)) = Some u
    \<and> settled (s_status u)"
proof -
  note l0 = first_loop_Some [OF assms(3)]
  then have l: "find_step (s_id l) w = Some l" using step_table.find_in_rows [OF assms(1)] by blast
  have ne: "s_id l \<noteq> s_id s" using l l0 assms(2,5) by (metis option.inject)
  obtain lc where lc: "s_loop_config l = LcConfig lc" "verify_each lc" "verify_step_id lc = Some (s_step_id s)"
    using assms(4) by (auto simp: judges_stories_def split: loop_col.splits)
  let ?w1 = "set_step (s_id s) (\<lambda>u. u\<lparr>s_status := SWaiting, s_retry_count := 0, s_output := Some out\<rparr>) w"
  have d1: "distinct (map s_id (steps ?w1))"
    using assms(1) by (simp add: set_step_def step_table.keys_upd)
  obtain u where u: "find_step (s_id s) ?w1 = Some u" "s_status u = SWaiting" "s_run_id u = s_run_id s"
    "s_step_id u = s_step_id s" using assms(2) by (simp add: find_set)
  have l1: "find_step (s_id l) ?w1 = Some l" using l ne by (simp add: find_set)
  show ?thesis
  proof (cases v)
    case VRetry
    have "fst (handleVerifyEachCompletion s (s_id l) out m v w) =
        (case last_done_story (s_run_id s) ?w1 of
           None \<Rightarrow> set_step_status (s_id l) SPending ?w1
         | Some st \<Rightarrow>
             if t_max_retries st < Suc (t_retry_count st)
             then verify_retry_exhausted s (s_id l) st ?w1
             else set_step_status (s_id l) SPending (verify_retry_story s out m st ?w1))"
      using VRetry by (simp add: handleVerifyEachCompletion_def Let_def split: option.split)
    then show ?thesis using u(1,2) ne
      by (cases "last_done_story (s_run_id s) ?w1")
        (simp_all add: retry_frames find_step_set_status settled_def)
  next
    case VDone
    define w3 where "w3 = set_run (s_run_id s) (\<lambda>r. r\<lparr>r_context := CtxObj (m(''verify_feedback'' := None))\<rparr>)
      (emit ''story.verified'' (s_run_id s) (opt_str ''workflowId'' (getWorkflowId (s_run_id s) ?w1)
         @ [(''stepId'', VStr (s_step_id s))]) ?w1)"
    have w3: "steps w3 = steps ?w1" by (simp add: w3_def)
    then obtain w' a x where "checkLoopContinuation (s_run_id s) (s_id l) w3 = (w', Inr a)"
      "find_step (s_id s) w' = Some x" "settled (s_status x)"
      using continuation_settles [of w3 s u "s_run_id s" "s_step_id s" "s_id l" l lc] d1 u l1 lc ne assms(6)
        find_step_cong [OF w3] by auto
    then show ?thesis using VDone by (simp add: handleVerifyEachCompletion_def Let_def w3_def [symmetric])
  qed
qed

lemma land_settles:
  assumes "distinct (map s_id (steps w))" "find_step (s_id s) w = Some u"
  shows "\<exists>x. find_step (s_id s) (fst (land_step s out d w)) = Some x \<and> settled (s_status x)"
proof -
  let ?w1 = "step_done s out (landing_event s d w)"
  have l: "steps (landing_event s d w) = steps w"
    by (simp add: landing_event_def Let_def split: decision.splits gate_mode.splits)
  then have "distinct (map s_id (steps ?w1))"
    using assms(1) by (simp add: step_done_def Let_def set_step_def step_table.keys_upd)
  moreover have "\<exists>x. find_step (s_id s) ?w1 = Some x \<and> s_status x = SDone"
    using assms(2) find_step_cong [OF l] by (simp add: step_done_def Let_def find_set)
  ultimately have "\<exists>x. find_step (s_id s) (fst (advancePipeline (s_run_id s) ?w1)) = Some x \<and> s_status x = SDone"
    using advance_keeps_row by fastforce
  then show ?thesis by (auto simp: land_step_def Let_def split_def settled_def)
qed

definition moving :: "outcome \<Rightarrow> bool" where
  "moving r \<longleftrightarrow> r = OutAdvanced \<or> r = OutCompleted"

lemma moving_simps [simp]:
  "\<not> moving OutBlocked" "\<not> moving OutFailed" "\<not> moving OutRetrying" "\<not> moving OutRerouted"
  by (simp_all add: moving_def)

lemma bounce_moving: "bounce s a b an rd w = (w', r, d) \<Longrightarrow> \<not> moving r"
  by (auto simp: bounce_def Let_def split: prod.splits if_splits)

lemma send_back_moving: "send_back p s t reason sent why rd w = (w', r, d) \<Longrightarrow> \<not> moving r"
  by (auto simp: send_back_def Let_def split: prod.splits if_splits)

lemma review_rejected_moving: "review_rejected specs s m old new f w = (w', r, d) \<Longrightarrow> \<not> moving r"
  by (auto simp: review_rejected_def Let_def dest: bounce_moving send_back_moving
      split: option.splits list.splits prod.splits)

lemma audit_failed_moving: "audit_failed specs s f w = (w', r, d) \<Longrightarrow> \<not> moving r"
  by (auto simp: audit_failed_def Let_def dest: bounce_moving send_back_moving
      split: option.splits prod.splits)

lemma review_moving: "routeTestCmdReviewVerdict specs s m parsed w = (w', Some (r, d)) \<Longrightarrow> \<not> moving r"
  by (auto simp: routeTestCmdReviewVerdict_def Let_def dest: review_rejected_moving
      split: if_splits option.splits)

lemma audit_moving: "routeDeceptionAuditVerdict specs s m parsed w = (w', Some (r, d)) \<Longrightarrow> \<not> moving r"
  by (auto simp: routeDeceptionAuditVerdict_def Let_def dest: audit_failed_moving split: if_splits)

lemma judge_reply_lands:
  assumes "judge_reply specs s out m d w = (w', r, x)" "moving r"
  shows "\<exists>w2. steps w2 = steps w \<and> land_step s out d w2 = (w', r, x)"
proof -
  let ?p = "parseOutputKeyValues out"
  have nr: "map_option lower (?p ''status'') \<noteq> Some ''retry''"
    using assms by (auto simp: judge_reply_def retry_verdict_def Let_def split: prod.splits if_splits)
  obtain w1 q where q: "routeTestCmdReviewVerdict specs s m ?p w = (w1, q)" by fastforce
  then have "q = None"
    using assms nr review_moving by (cases q) (auto simp: judge_reply_def Let_def split: if_splits)
  obtain w2 z where z: "routeDeceptionAuditVerdict specs s m ?p w1 = (w2, z)" by fastforce
  then have "z = None"
    using assms nr q \<open>q = None\<close> audit_moving by (cases z) (auto simp: judge_reply_def Let_def split: if_splits)
  have "steps w2 = steps w"
    using review_goes_on audit_goes_on q z \<open>q = None\<close> \<open>z = None\<close> by metis
  moreover have "land_step s out d w2 = (w', r, x)"
    using assms(1) nr q z \<open>q = None\<close> \<open>z = None\<close> by (auto simp: judge_reply_def Let_def split: if_splits)
  ultimately show ?thesis by blast
qed

lemma settle_reply_settles:
  assumes "settle_reply c s out m d w = (w', Inr (r, x))" "moving r" "distinct (map s_id (steps w))"
    "find_step (s_id s) w = Some s" "s_type s \<noteq> TyLoop" "s_step_id s \<noteq> []"
  shows "\<exists>u. find_step (s_id s) w' = Some u \<and> settled (s_status u)"
proof (cases "\<exists>l. first_loop (s_run_id s) w = Some l \<and> judges_stories l s")
  case True
  then obtain l where l: "first_loop (s_run_id s) w = Some l" "judges_stories l s" by blast
  then have "s_loop_config l \<noteq> LcMalformed" by (auto simp: judges_stories_def)
  then have v: "complete_verifier l s out m w = (w', r, x)"
    using assms(1,5) l by (auto simp: settle_reply_def)
  obtain v0 where "extractVerifierVerdict out = Inr v0"
    using v assms(2)
    by (cases "extractVerifierVerdict out")
      (auto simp: complete_verifier_def rejectVerifyEachCompletionForInvalidVerdict_def
        dest: bounce_moving split: prod.splits)
  then have "w' = finalizeDrainingPause (s_run_id s) (fst (handleVerifyEachCompletion s (s_id l) out m v0 w))"
    using v by (simp add: complete_verifier_def Let_def split_def)
  then show ?thesis using verifier_settles [OF assms(3,4) l assms(5,6)] by simp
next
  case False
  then have "judge_reply (sr_specs c) s out m d w = (w', r, x)"
    using assms(1,5) by (auto simp: settle_reply_def split: option.splits if_splits)
  then obtain w2 where w2: "steps w2 = steps w" "land_step s out d w2 = (w', r, x)"
    using judge_reply_lands assms(2) by blast
  then show ?thesis
    using land_settles [of w2 s s out d] assms(3,4) find_step_cong [OF w2(1)] by simp
qed

lemma plan_moving: "plan_stories h s out w = (w', Some (r, x)) \<Longrightarrow> \<not> moving r"
  by (auto simp: plan_stories_def Let_def dest: bounce_moving split: prod.splits option.splits)

lemma no_plan_moving: "no_plan s w = (w', Some (r, x)) \<Longrightarrow> \<not> moving r"
  by (auto simp: no_plan_def Let_def dest: bounce_moving split: prod.splits option.splits if_splits)

lemma gate_moving: "acceptance_gate e s out w = (w', Inl (r, x)) \<Longrightarrow> \<not> moving r"
proof -
  have "refusal_result q = Some r \<Longrightarrow> \<not> moving r" for q by (cases q) auto
  then show "acceptance_gate e s out w = (w', Inl (r, x)) \<Longrightarrow> \<not> moving r"
    by (auto simp: acceptance_gate_def acceptance_refused_def Let_def
        split: prod.splits option.splits if_splits)
qed

text \<open>A reply that moves the pipeline on has passed the guards, the gate, its contract and the check of
  the story plan.\<close>

lemma accept_reply_parts:
  assumes "accept_reply c s out d w = (w', Inr (r, x))" "moving r"
  shows "\<exists>q m w1 v. find_run (s_run_id s) w = Some q \<and> merge_context q s out w = (m, w1)
    \<and> plan_stories (sr_js c) s out w1 = (v, None) \<and> no_plan s v = (v, None)
    \<and> settle_reply c s out m d v = (w', Inr (r, x))"
proof -
  obtain q where q: "find_run (s_run_id s) w = Some q"
    using assms(1) by (cases "find_run (s_run_id s) w") (simp_all add: accept_reply_def)
  obtain m w1 where w1: "merge_context q s out w = (m, w1)" by fastforce
  obtain v p where v: "plan_stories (sr_js c) s out w1 = (v, p)" by fastforce
  have p: "p = None"
    using assms q w1 v plan_moving by (cases p) (auto simp: accept_reply_def)
  obtain w3 n where w3: "no_plan s v = (w3, n)" by fastforce
  have n: "n = None"
    using assms q w1 v p w3 no_plan_moving by (cases n) (auto simp: accept_reply_def)
  then have "w3 = v" using w3 no_plan_goes_on by blast
  then show ?thesis using assms(1) q w1 v p w3 n by (auto simp: accept_reply_def)
qed

lemma complete_parts:
  assumes "completeStepInternal c opts i out w = (w', Inr (r, x))" "moving r" "find_step i w = Some s"
  shows "\<exists>d w1. completion_guard opts s w = (w, None) \<and> acceptance_gate (sr_env c) s out w = (w1, Inr d)
    \<and> validateExpects (sr_rx c) out (s_expects s) = None
    \<and> accept_reply c s out d w1 = (w', Inr (r, x))"
proof -
  have b: "complete_body c opts s out w = (w', Inr (r, x))"
    using assms(1,3) by (auto simp: completeStepInternal_def split: prod.splits sum.splits)
  obtain v g where g: "completion_guard opts s w = (v, g)" by fastforce
  have "g = None"
  proof (cases g)
    case (Some a)
    then have "r = OutBlocked" using b g guard_outcome [of opts s w v a] by (simp add: complete_body_def)
    then show ?thesis using assms(2) by simp
  qed
  with g have v: "v = w" using guard_goes_on by blast
  obtain w1 q where q: "acceptance_gate (sr_env c) s out w = (w1, q)" by fastforce
  obtain d where d: "q = Inr d"
    using b g \<open>g = None\<close> v q gate_moving assms(2) by (cases q) (auto simp: complete_body_def)
  have "reply_invalid sp s e w1 = (w', r, x) \<Longrightarrow> False" for sp e
    using assms(2) by (auto simp: reply_invalid_def Let_def split: prod.splits if_splits)
  then show ?thesis
    using b g \<open>g = None\<close> v q d by (auto simp: complete_body_def split: option.splits)
qed

lemma settled_blocks:
  assumes "find_step i w = Some u" "settled (s_status u)"
  shows "\<exists>d. completeStepInternal c opts i out w = (w, Inr (OutBlocked, d))"
  using assms
  by (auto simp: completeStepInternal_def complete_body_def completion_guard_def run_refusal_def
      split: option.splits)

lemma completeStep_moving:
  assumes "completeStep c opts i out w = (w', Inr (r, x))" "moving r"
  shows "\<exists>w1. completeStepInternal c opts (stripIdPrefix i) out w = (w1, Inr (r, x)) \<and> steps w' = steps w1"
  using assms by (auto simp: completeStep_def Let_def split: prod.splits sum.splits option.splits if_splits)

lemma completed_settled:
  assumes "completeStep c opts i out w = (w', Inr (r, x))" "moving r"
    "find_step (stripIdPrefix i) w = Some s" "distinct (map s_id (steps w))"
    "s_type s \<noteq> TyLoop" "s_step_id s \<noteq> []"
  shows "\<exists>u. find_step (stripIdPrefix i) w' = Some u \<and> settled (s_status u)"
proof -
  let ?i = "stripIdPrefix i"
  obtain w1 where w1: "completeStepInternal c opts ?i out w = (w1, Inr (r, x))" "steps w' = steps w1"
    using completeStep_moving [OF assms(1,2)] by blast
  obtain d w2 where w2: "acceptance_gate (sr_env c) s out w = (w2, Inr d)"
    "accept_reply c s out d w2 = (w1, Inr (r, x))" using complete_parts [OF w1(1) assms(2,3)] by blast
  obtain q m w3 v where v: "merge_context q s out w2 = (m, w3)" "plan_stories (sr_js c) s out w3 = (v, None)"
    "settle_reply c s out m d v = (w1, Inr (r, x))" using accept_reply_parts [OF w2(2) assms(2)] by blast
  have st: "steps v = steps w"
    using gate_goes_on [OF w2(1)] merge_context_tables(1) [of q s out w2] v(1) plan_goes_on [OF v(2)] by simp
  have i: "s_id s = ?i" using step_table.find_key [OF assms(3)] by simp
  have "\<exists>u. find_step (s_id s) w1 = Some u \<and> settled (s_status u)"
    using settle_reply_settles [OF v(3) assms(2)] assms(3-6) st i find_step_cong [OF st] by simp
  then show ?thesis using i find_step_cong [OF w1(2)] by simp
qed

text \<open>C21.  Delivery is at least once, completion at most once: after a reply that moved the pipeline on,
  no further reply for the same step, whoever sends it and whatever it says, changes anything.  The step is
  not a loop: a loop takes one reply per story, and a repeated one is not recognised (the sample
  below).\<close>

theorem completed_at_most_once:
  assumes "completeStep c opts i out w = (w', Inr (r, x))" "r = OutAdvanced \<or> r = OutCompleted"
    "find_step (stripIdPrefix i) w = Some s" "distinct (map s_id (steps w))"
    "s_type s \<noteq> TyLoop" "s_step_id s \<noteq> []"
  shows "\<exists>d. completeStep c' opts' i out' w' = (w', Inr (OutBlocked, d))"
proof -
  obtain u where "find_step (stripIdPrefix i) w' = Some u" "settled (s_status u)"
    using completed_settled [OF assms(1) _ assms(3-6)] assms(2) by (auto simp: moving_def)
  from settled_blocks [OF this, of c' opts' out'] show ?thesis
    by (auto simp: completeStep_def Let_def moved_on_def)
qed

lemma sample_reply_accepted:
  "snd (completeStep surroundings0 opts0 ''p'' ''STATUS: done'' plan_running) = Inr (OutAdvanced, None)"
  by code_simp

lemma completed_at_most_once_witness:
  "\<exists>w' d. completeStep surroundings0 opts0 ''p'' ''STATUS: retry'' w' = (w', Inr (OutBlocked, d))"
proof -
  let ?w = "fst (completeStep surroundings0 opts0 ''p'' ''STATUS: done'' plan_running)"
  let ?s = "step0\<lparr>s_status := SRunning, s_updated_at := Some 100\<rparr>"
  have "completeStep surroundings0 opts0 ''p'' ''STATUS: done'' plan_running = (?w, Inr (OutAdvanced, None))"
    using sample_reply_accepted by (simp add: prod_eq_iff)
  moreover have "stripIdPrefix ''p'' = ''p''" by code_simp
  moreover have "find_step ''p'' plan_running = Some ?s" "distinct (map s_id (steps plan_running))"
    by (simp_all add: plan_running_def sample_defs eval_store set_step_status_def)
  moreover have "s_type ?s \<noteq> TyLoop" "s_step_id ?s \<noteq> []" by (simp_all add: step0_def)
  ultimately show ?thesis
    using completed_at_most_once [of surroundings0 opts0 "''p''" "''STATUS: done''" plan_running ?w OutAdvanced
        None ?s surroundings0 opts0 "''STATUS: retry''"] by auto
qed

text \<open>A loop between two stories: the reply for the first has landed, the second is not claimed yet.  When the reply
  arrives once more the loop is done and its successor pending, with the second story still to do.\<close>

definition between_stories :: store where
  "between_stories = store0\<lparr>
     steps := [step0, loop0\<lparr>s_status := SPending\<rparr>, merge0\<lparr>s_step_id := ''test'', s_status := SWaiting\<rparr>],
     stories := [story0, story0\<lparr>t_id := ''u'', t_story_index := 1, t_story_id := ''US-2'', t_status := TPending\<rparr>]\<rparr>"

lemma repeated_story_reply_ends_loop:
  "(let (w, r) = completeStep surroundings0 opts0 ''d'' ''STATUS: done'' between_stories
      in (r, map s_status (steps w), map t_status (stories w)))
    = (Inr (OutAdvanced, None), [SDone, SDone, SPending], [TDone, TPending])"
  by code_simp

end
