(* ===== verification/Columns.thy ===== *)
theory Columns
  imports Complete_Props
begin

text \<open>
  The columns no operation rewrites.  A row of the store has columns that are set when it is inserted
  (its keys, the definition of the step, the text of the story) and columns that move.  The locale
  \<open>columns\<close> takes any reading of the rows that ignores the moving columns and proves, operation by
  operation, that it never changes; \<open>open_columns\<close> adds the operations that establish the test command
  of a run.
\<close>

definition columns_of :: "(step \<Rightarrow> 'a) \<Rightarrow> (run \<Rightarrow> 'b) \<Rightarrow> (story \<Rightarrow> 'c) \<Rightarrow> store \<Rightarrow> 'a list \<times> 'b list \<times> 'c list" where
  "columns_of sc rc tc w = (map sc (steps w), map rc (runs w), map tc (stories w))"

text \<open>The rows a completion appends: planned stories of one run, under the keys the host draws.\<close>

definition appended :: "js_host \<Rightarrow> string \<Rightarrow> story list \<Rightarrow> bool" where
  "appended h rid ts \<longleftrightarrow>
     map t_id ts = map (uuid h) [0..<length ts] \<and> (\<forall>t \<in> set ts. t_run_id t = rid)"

definition columns_grow ::
    "(step \<Rightarrow> 'a) \<Rightarrow> (run \<Rightarrow> 'b) \<Rightarrow> (story \<Rightarrow> 'c) \<Rightarrow> js_host \<Rightarrow> string \<Rightarrow> store \<Rightarrow> store \<Rightarrow> bool" where
  "columns_grow sc rc tc h rid w w' \<longleftrightarrow>
     map sc (steps w') = map sc (steps w) \<and> map rc (runs w') = map rc (runs w)
     \<and> (\<exists>ts. appended h rid ts \<and> map tc (stories w') = map tc (stories w) @ map tc ts)"

lemma columns_grow_same:
  "columns_of sc rc tc b = columns_of sc rc tc a \<Longrightarrow>
   columns_grow sc rc tc h rid b c \<longleftrightarrow> columns_grow sc rc tc h rid a c"
  "columns_of sc rc tc c = columns_of sc rc tc b \<Longrightarrow>
   columns_grow sc rc tc h rid a c \<longleftrightarrow> columns_grow sc rc tc h rid a b"
  by (simp_all add: columns_of_def columns_grow_def)

lemma columns_of_grow:
  "columns_of sc rc tc w' = columns_of sc rc tc w \<Longrightarrow> columns_grow sc rc tc h rid w w'"
  by (auto simp: columns_of_def columns_grow_def appended_def intro: exI [of _ "[]"])

lemma insert_stories_appends:
  "\<exists>ts. stories (fst (insert_stories h rid k ss w)) = stories w @ ts
     \<and> map t_id ts = map (uuid h) [k..<k + length ts] \<and> (\<forall>t \<in> set ts. t_run_id t = rid)"
proof (induction h rid k ss w rule: insert_stories.induct)
  case (2 h rid k s ss w)
  show ?case
  proof (cases "bound_text h (prop_of s ''id'')")
    case None
    then show ?thesis by simp
  next
    case (Some sid)
    let ?row = "story_row h rid k sid s (now w)"
    obtain ts where "stories (fst (insert_stories h rid (Suc k) ss (w\<lparr>stories := stories w @ [?row]\<rparr>)))
        = stories w @ ?row # ts" "map t_id ts = map (uuid h) [Suc k..<Suc k + length ts]"
      "\<forall>t \<in> set ts. t_run_id t = rid"
      using "2.IH" [OF Some] by auto
    moreover have "t_id ?row = uuid h k" "t_run_id ?row = rid" by (simp_all add: story_row_def)
    moreover have "[k..<k + length (?row # ts)] = k # [Suc k..<Suc k + length ts]"
      by (simp add: upt_conv_Cons del: upt_Suc)
    ultimately show ?thesis using Some
      by (intro exI [of _ "?row # ts"]) (simp del: upt_Suc)
  qed
qed simp

lemma planned_stories_appended:
  "\<exists>ts. appended h rid ts \<and> stories (fst (parseAndInsertStories h out rid w)) = stories w @ ts"
proof -
  have "\<exists>ts. appended h rid ts \<and> stories (fst (insert_stories h rid 0 ss v)) = stories v @ ts" for ss v
    using insert_stories_appends [of h rid 0 ss v] by (auto simp: appended_def)
  moreover have "appended h rid []" by (simp add: appended_def)
  ultimately show ?thesis
    by (auto simp: parseAndInsertStories_def split: option.split json.split)
qed

locale columns =
  fixes sc :: "step \<Rightarrow> 'a" and rc :: "run \<Rightarrow> 'b" and tc :: "story \<Rightarrow> 'c"
  assumes step_moves:
    "sc (s_status_update a1 s) = sc s" "sc (s_output_update a2 s) = sc s"
    "sc (s_retry_count_update a3 s) = sc s" "sc (s_current_story_id_update a4 s) = sc s"
    "sc (s_abandoned_count_update a5 s) = sc s" "sc (s_updated_at_update a6 s) = sc s"
    "sc (s_claim_job_id_update a7 s) = sc s" "sc (s_claim_pid_update a8 s) = sc s"
    "sc (s_claim_pgid_update a9 s) = sc s" "sc (s_claim_updated_at_update b1 s) = sc s"
    "sc (s_claim_invalidated_by_update b2 s) = sc s" "sc (s_reroute_count_update b3 s) = sc s"
    "sc (s_terminal_reroute_count_update b4 s) = sc s"
    "sc (s_target_moved_reroute_count_update b5 s) = sc s"
    "sc (s_ledger_concession_count_update b6 s) = sc s"
    "sc (s_preclaim_death_count_update b7 s) = sc s" "sc (s_auto_completed_update b8 s) = sc s"
    "sc (s_auto_complete_reason_update b9 s) = sc s"
  and run_moves:
    "rc (r_status_update c1 r) = rc r" "rc (r_context_update c2 r) = rc r"
    "rc (r_scheduling_status_update c3 r) = rc r" "rc (r_worker_lost_count_update c4 r) = rc r"
    "rc (r_ceiling_expiry_count_update c5 r) = rc r" "rc (r_updated_at_update c6 r) = rc r"
  and story_moves:
    "tc (t_status_update d1 t) = tc t" "tc (t_output_update d2 t) = tc t"
    "tc (t_retry_count_update d3 t) = tc t" "tc (t_abandoned_count_update d4 t) = tc t"
    "tc (t_resume_reset_count_update d5 t) = tc t" "tc (t_updated_at_update d6 t) = tc t"
begin

abbreviation "cols \<equiv> columns_of sc rc tc"

lemmas moves [simp] = step_moves run_moves story_moves

section \<open>The primitive updates\<close>

lemma cols_tables: "steps v = steps w \<Longrightarrow> runs v = runs w \<Longrightarrow> stories v = stories w \<Longrightarrow> cols v = cols w"
  by (simp add: columns_of_def)

lemma cols_log [simp]: "cols (emit n r f w) = cols w" "cols (call e w) = cols w"
  by (simp_all add: columns_of_def)

lemma cols_upd_step [simp]: "(\<And>s. sc (f s) = sc s) \<Longrightarrow> cols (upd_step i f w) = cols w"
  by (simp add: columns_of_def upd_step_def map_upd_where)

lemma cols_upd_run [simp]: "(\<And>r. rc (f r) = rc r) \<Longrightarrow> cols (upd_run i f w) = cols w"
  by (simp add: columns_of_def upd_run_def map_upd_where)

lemma cols_set_step [simp]: "(\<And>s. sc (f s) = sc s) \<Longrightarrow> cols (set_step i f w) = cols w"
  by (simp add: set_step_def)

lemma cols_set_run [simp]: "(\<And>r. rc (f r) = rc r) \<Longrightarrow> cols (set_run i f w) = cols w"
  by (simp add: set_run_def)

lemma cols_set_story [simp]: "(\<And>t. tc (f t) = tc t) \<Longrightarrow> cols (set_story i f w) = cols w"
  by (simp add: columns_of_def set_story_def upd_story_def map_upd_where)

lemma cols_fold: "(\<And>x w. cols (f x w) = cols w) \<Longrightarrow> cols (fold f xs w) = cols w"
  by (induction xs arbitrary: w) simp_all

section \<open>The pipeline\<close>

lemma cols_context [simp]:
  "cols (snd (parseRunContext r c w)) = cols w" "cols (setRunContextKey r k v w) = cols w"
  "cols (removeRunContextKey r k w) = cols w"
proof -
  show p: "cols (snd (parseRunContext r c w)) = cols w" for r c w
    by (rule cols_tables) simp_all
  show "cols (setRunContextKey r k v w) = cols w"
    by (simp add: setRunContextKey_def split_def Let_def p split: option.split)
  show "cols (removeRunContextKey r k w) = cols w"
    by (simp add: removeRunContextKey_def split_def Let_def p split: option.split)
qed

lemma cols_end [simp]:
  "cols (emitRunTerminalEvent n r a b c w) = cols w" "cols (scheduleRunCronTeardown r w) = cols w"
  "cols (finalizeDrainingPause r w) = cols w" "cols (fail_run r w) = cols w"
  by (simp_all add: emitRunTerminalEvent_def scheduleRunCronTeardown_def finalizeDrainingPause_def
        fail_run_def Let_def split_def split: option.split)

lemma cols_status [simp]: "cols (set_step_status i st w) = cols w"
  by (simp add: set_step_status_def)

lemma cols_advance [simp]:
  "cols (promote_step r s w) = cols w" "cols (complete_run r w) = cols w"
  "cols (fst (advancePipeline r w)) = cols w"
proof -
  show p: "cols (promote_step r s w) = cols w" for r s w by (simp add: promote_step_def Let_def)
  show c: "cols (complete_run r w) = cols w" for r w by (simp add: complete_run_def)
  show "cols (fst (advancePipeline r w)) = cols w"
    by (simp add: advancePipeline_def p c split: option.split)
qed

lemma cols_mark [simp]: "cols (mark_verifier_done r v w) = cols w"
  by (simp add: columns_of_def mark_verifier_done_def map_upd_where)

lemma cols_loop [simp]:
  "cols (fail_loop r l w) = cols w" "cols (fst (checkLoopContinuation r l w)) = cols w"
proof -
  show f: "cols (fail_loop r l w) = cols w" for r l w by (simp add: fail_loop_def Let_def)
  show "cols (fst (checkLoopContinuation r l w)) = cols w"
    by (simp add: checkLoopContinuation_def Let_def split_def f
        split: option.split loop_col.split bool.split)
qed

lemma cols_verify [simp]:
  "cols (verify_retry_exhausted s l t w) = cols w" "cols (verify_retry_story s out m t w) = cols w"
  "cols (fst (handleVerifyEachCompletion s l out m v w)) = cols w"
proof -
  show e: "cols (verify_retry_exhausted s l t w) = cols w" for s l t w
    by (simp add: verify_retry_exhausted_def Let_def)
  show r: "cols (verify_retry_story s out m t w) = cols w" for s out m t w
    by (simp add: verify_retry_story_def Let_def)
  have c: "checkLoopContinuation r i u = (u', x) \<Longrightarrow> cols u' = cols u" for r i u u' x
    using cols_loop(2) [of r i u] by simp
  show "cols (fst (handleVerifyEachCompletion s l out m v w)) = cols w"
    by (simp add: handleVerifyEachCompletion_def Let_def e r split: option.split)
      (auto dest!: c split: prod.split sum.split)
qed

section \<open>Reroutes\<close>

lemma cols_charge [simp]: "cols (charge_story r f i t w) = cols w"
  by (simp add: charge_story_def Let_def)

lemma cols_reset_named [simp]: "cols (fst (reset_named r f i us w)) = cols w"
  by (induction r f i us w rule: reset_named.induct) (simp_all add: split_def Let_def split: option.split)

lemma cols_reroute_parts [simp]:
  "cols (resetStoriesOnReroute r s x f w) = cols w" "cols (writeRerouteFeedbackContext r s x w) = cols w"
  "cols (exhausted_event n r i fc c p d w) = cols w" "cols (repend_producer i x w) = cols w"
  "cols (park_consumer i a b c' w) = cols w"
  by (simp_all add: resetStoriesOnReroute_def writeRerouteFeedbackContext_def exhausted_event_def
        repend_producer_def park_consumer_def Let_def split_def split: option.split)

lemma cols_reroute [simp]:
  "cols (do_reroute p r x y c s e u w) = cols w"
  "cols (fst (rerouteWithPolicy p r x y e g w)) = cols w"
  "cols (fst (rerouteStepSync sp r x y e w)) = cols w"
proof -
  show d: "cols (do_reroute p r x y c s e u w) = cols w" for p r x y c s e u w
    by (simp add: do_reroute_def Let_def)
  show r: "cols (fst (rerouteWithPolicy p r x y e g w)) = cols w" for p r x y e g w
    by (simp add: rerouteWithPolicy_def Let_def d split: option.split)
  show "cols (fst (rerouteStepSync sp r x y e w)) = cols w"
    by (simp add: rerouteStepSync_def r split: option.split)
qed

section \<open>The merge gate\<close>

lemma cols_landed [simp]:
  "cols (snd (isAlreadyLanded h i out w)) = cols w" "cols (snd (landed_check h s o' w)) = cols w"
  "cols (emitTestCmdReviewRefusal s ref w) = cols w" "cols (record_concession i w) = cols w"
  "cols (fail_refused s n x w) = cols w"
proof -
  show l: "cols (snd (isAlreadyLanded h i out w)) = cols w" for out i by (rule cols_tables) simp_all
  show "cols (snd (landed_check h s o' w)) = cols w"
    by (simp add: landed_check_def l split: option.split)
qed (simp_all add: emitTestCmdReviewRefusal_def record_concession_def fail_refused_def Let_def)

lemma cols_gate [simp]:
  "cols (fst (gate_attempt sp s x a w)) = cols w"
  "cols (fst (applyLedgerGateRefusalSync sp s x r a w)) = cols w"
  "cols (fst (gate_refuse h ev sp s ref w)) = cols w" "cols (fst (gate_claim h ev sp s w)) = cols w"
  "cols (fst (enforceClaimLedgerGate h ev sp s w)) = cols w"
proof -
  show a: "cols (fst (gate_attempt sp s x a w)) = cols w" for x a w
    by (simp add: gate_attempt_def Let_def split: option.split)
  show b: "cols (fst (applyLedgerGateRefusalSync sp s x r a w)) = cols w" for x r a w
    by (simp add: applyLedgerGateRefusalSync_def Let_def split_def a)
  show c: "cols (fst (gate_refuse h ev sp s ref w)) = cols w" for ref w
    by (simp add: gate_refuse_def b)
  show d: "cols (fst (gate_claim h ev sp s w)) = cols w" for w
    by (simp add: gate_claim_def Let_def split_def c split: option.split)
  show "cols (fst (enforceClaimLedgerGate h ev sp s w)) = cols w"
    by (simp add: enforceClaimLedgerGate_def Let_def split_def d split: option.split)
qed

section \<open>Claims\<close>

lemma cols_resolve [simp]: "cols (snd (resolveStepContext e r i t f w)) = cols w"
  by (simp add: resolveStepContext_def Let_def split_def split: option.split)

lemma cols_missing [simp]:
  "cols (failRunForMissingTemplateKeys a b c d x w) = cols w"
  "cols (repend_for_keys r i row a f ks mine fb p w) = cols w"
  "cols (fst (resolveMissingKeys r n i row a ks w)) = cols w"
proof -
  show f: "cols (failRunForMissingTemplateKeys a b c d x w) = cols w" for a b c d x w
    by (simp add: failRunForMissingTemplateKeys_def Let_def)
  show g: "cols (repend_for_keys r i row a f ks mine fb p w) = cols w" for r i row a f ks mine fb p w
    by (simp add: repend_for_keys_def key_rejected_event_def cols_fold)
  show "cols (fst (resolveMissingKeys r n i row a ks w)) = cols w"
    by (simp add: resolveMissingKeys_def Let_def f g cols_fold)
qed

lemma cols_row [simp]: "sc (own_row owner t s) = sc s"
  by (simp add: own_row_def split: option.split)

lemma cols_take: "take_step owner i w = Some w' \<Longrightarrow> cols w' = cols w"
  by (auto simp: take_step_def split: if_splits)

lemma cols_claim_parts [simp]:
  "cols (fst (incrementPreclaimDeathCount i w)) = cols w" "cols (auto_complete r a s k w) = cols w"
  "cols (emitDispatchRenderingValidation s w) = cols w" "cols (release_claim i w) = cols w"
  "cols (fail_claimed_loop s a i x d w) = cols w" "cols (loop_all_done s a w) = cols w"
  "cols (start_story owner a s t w) = cols w" "cols (save_context r m w) = cols w"
  "cols (unstart_story s t w) = cols w" "cols (gate_overridden_event s dec w) = cols w"
  "cols (snd (claim_base_context e s w)) = cols w" "cols (fst (claim_gate e s w)) = cols w"
  by (simp_all add: incrementPreclaimDeathCount_def auto_complete_def emitDispatchRenderingValidation_def
        release_claim_def fail_claimed_loop_def loop_all_done_def start_story_def save_context_def
        unstart_story_def gate_overridden_event_def claim_base_context_def claim_gate_def Let_def split_def
        split: option.split decision.split)

lemma cols_conditional [simp]: "cols (fst (autoCompleteConditionalStep r a w)) = cols w"
proof -
  have "cols (fst (conditional_flag r a s k w)) = cols w" for r s k
    by (simp add: conditional_flag_def Let_def split_def split: option.split)
  then show ?thesis by (simp add: autoCompleteConditionalStep_def Let_def split: option.split)
qed

lemma cols_current [simp]: "cols (fst (stepCurrent e a r g w)) = cols w"
  by (simp add: stepCurrent_def Let_def split_def split: option.split)

lemma cols_claim_story [simp]: "cols (fst (claim_story e owner a g s t m w)) = cols w"
  by (simp add: claim_story_def Let_def split_def split: key_action.split)

lemma cols_claim_loop [simp]: "cols (fst (claim_loop e owner a g s m w)) = cols w"
  by (auto simp: claim_loop_def Let_def dest: cols_take split: option.split)

lemma cols_claim_single [simp]: "cols (fst (claim_single e owner a g s m d w)) = cols w"
  by (auto simp: claim_single_def Let_def split_def dest: cols_take split: option.split key_action.split)

lemma cols_claim_new [simp]: "cols (fst (claim_new e owner a g s w)) = cols w"
proof -
  obtain w1 b d where c: "claim_gate e s w = (w1, b, d)" by (cases "claim_gate e s w") auto
  then have "cols w1 = cols w" using cols_claim_parts(12) [of e s w] by simp
  then show ?thesis using c
    by (cases b) (simp_all add: claim_new_def Let_def split_def split: loop_col.split)
qed

lemma cols_claim_step [simp]: "cols (fst (claim_step e a r owner g w)) = cols w"
proof -
  obtain w1 x where c: "stepCurrent e a r g w = (w1, x)" by fastforce
  then have "cols w1 = cols w" using cols_current [of e a r g w] by simp
  then show ?thesis using c
    by (simp add: claim_step_def split: sum.split option.split)
qed

section \<open>Recovery\<close>

lemma cols_log_more [simp]:
  "cols (respawned_event e a s n d w) = cols w" "cols (paused_event e a s x d w) = cols w"
  "cols (recovery_event e s d w) = cols w" "cols (record_abandonment ao s t y n w) = cols w"
  by (rule cols_tables; simp)+

lemma cols_recovery_parts [simp]:
  "cols (story_back s t n w) = cols w" "cols (story_lost s t n out f g w) = cols w"
  "cols (count_recovery e r w) = cols w" "cols (note_timeout_retry e r w) = cols w"
  "cols (fail_orphan s y w) = cols w"
  by (simp_all add: story_back_def story_lost_def count_recovery_def note_timeout_retry_def fail_orphan_def
        Let_def split: option.split)

lemma cols_cleanup [simp]:
  "cols (cleanup_step s w) = cols w" "cols (cleanup_orphan_story t w) = cols w"
  "cols (cleanupAbandonedSteps w) = cols w"
proof -
  show a: "cols (cleanup_step s w) = cols w" for s w
    by (simp add: cleanup_step_def cleanup_story_def cleanup_reset_def Let_def split: option.split)
  show b: "cols (cleanup_orphan_story t w) = cols w" for t w
    by (simp add: cleanup_orphan_story_def)
  show "cols (cleanupAbandonedSteps w) = cols w"
    by (simp add: cleanupAbandonedSteps_def Let_def cols_fold a b)
qed

lemma cols_recover_story [simp]: "cols (fst (recover_story e a s t w)) = cols w"
  by (simp add: recover_story_def recover_story_paused_def recover_story_charged_def Let_def)

lemma cols_recover_step [simp]: "cols (fst (recover_step sp e a s w)) = cols w"
proof -
  obtain w1 r where c: "rerouteStepSync sp (s_run_id s) (s_step_id s) (s_id s) orphan_reason w = (w1, r)"
    by fastforce
  then have "cols w1 = cols w"
    using cols_reroute(3) [of sp "s_run_id s" "s_step_id s" "s_id s" orphan_reason w] by simp
  then show ?thesis using c
    by (simp add: recover_step_def recover_step_paused_def recover_step_retry_def recover_step_exhausted_def
        Let_def split: reroute_result.split)
qed

lemma cols_recover_one [simp]: "cols (fst (recover_one sp e a s wc)) = cols (fst wc)"
  by (simp add: recover_one_def Let_def split_def split: option.split)

lemma cols_recover_all [simp]: "cols (fst (recoverOrphanedStepsForAgent sp e a r w)) = cols w"
proof -
  have "cols (fst (fold (recover_one sp e a) xs wc)) = cols (fst wc)" for xs wc
    by (induction xs arbitrary: wc) simp_all
  then show ?thesis by (simp add: recoverOrphanedStepsForAgent_def)
qed

lemma cols_sweeps [simp]:
  "cols (fst (recoverStepsWithDeadWorkers probe sp w)) = cols w"
  "cols (fst (checkRunningWorkersLiveness probe kids sp w)) = cols w"
proof -
  have d: "cols (fst (sweep_dead_worker probe sp s sw)) = cols (fst sw)" for s sw
    by (simp add: sweep_dead_worker_def Let_def split_def)
  have "cols (fst (fold (sweep_dead_worker probe sp) xs sw)) = cols (fst sw)" for xs sw
    by (induction xs arbitrary: sw) (simp_all add: d)
  then show "cols (fst (recoverStepsWithDeadWorkers probe sp w)) = cols w"
    by (simp add: recoverStepsWithDeadWorkers_def)
  have l: "cols (fst (sweep_liveness probe kids sp s sw)) = cols (fst sw)" for s sw
    by (simp add: sweep_liveness_def Let_def split_def split: option.split)
  have "cols (fst (fold (sweep_liveness probe kids sp) xs sw)) = cols (fst sw)" for xs sw
    by (induction xs arbitrary: sw) (simp_all add: l)
  then show "cols (fst (checkRunningWorkersLiveness probe kids sp w)) = cols w"
    by (simp add: checkRunningWorkersLiveness_def)
qed

lemma cols_claim [simp]: "cols (fst (snd (claimStep e clock lst a r owner g w))) = cols w"
  by (simp add: claimStep_def Let_def split_def)

section \<open>Failures, releases and resets\<close>

lemma cols_fail_parts [simp]:
  "cols (fst (fail_story s t x w)) = cols w" "cols (fail_for_good s x d w) = cols w"
  "cols (fst (fail_attempt p s x w)) = cols w" "cols (fail_retry s x w) = cols w"
  "cols (fst (fail_exhausted p auth s x w)) = cols w"
proof -
  show a: "cols (fst (fail_story s t x w)) = cols w"
    by (simp add: fail_story_def fail_story_lost_def fail_story_retry_def Let_def)
  show b: "cols (fail_for_good s x d w) = cols w" for x d w by (simp add: fail_for_good_def Let_def)
  show c: "cols (fst (fail_attempt p s x w)) = cols w"
    by (simp add: fail_attempt_def split: option.split)
  show "cols (fail_retry s x w) = cols w" by (simp add: fail_retry_def)
  show "cols (fst (fail_exhausted p auth s x w)) = cols w"
    by (simp add: fail_exhausted_def Let_def split_def b c)
qed

text \<open>A failure goes on from the store it was reported in, or from the one it awaited.\<close>

lemma cols_fail:
  "cols (fst (failStep sp between auth i x w)) = cols w
   \<or> cols (fst (failStep sp between auth i x w)) = cols (between w)"
proof -
  have "cols (fst (failStepInternal sp between auth j x w)) = cols w
      \<or> cols (fst (failStepInternal sp between auth j x w)) = cols (between w)" for j
    by (simp add: failStepInternal_def Let_def split: option.split)
  then show ?thesis by (simp add: failStep_def Let_def split_def)
qed

lemma cols_release [simp]: "cols (fst (releaseStep probe r i force w)) = cols w"
proof -
  have "cols (release_now r force s w) = cols w" for s by (simp add: release_now_def)
  then have "cols (fst (release_target probe r force s w)) = cols w" for s
    by (simp add: release_target_def Let_def split: option.split)
  then show ?thesis by (simp add: releaseStep_def Let_def split: option.split list.split)
qed

lemma cols_resume [simp]: "cols (fst (resetFailedStoriesForResume r w)) = cols w"
proof -
  have r: "cols (fst (reset_story r f l t wn)) = cols (fst wn)" for f l t wn
    by (simp add: reset_story_def split_def)
  have "cols (fst (fold (reset_story r f l) ts wn)) = cols (fst wn)" for f l ts wn
    by (induction ts arbitrary: wn) (simp_all add: r)
  then show ?thesis by (simp add: resetFailedStoriesForResume_def split: option.split)
qed

section \<open>Completions\<close>

lemma cols_reply_ends [simp]:
  "cols (end_run s x n d y w) = cols w" "cols (again s x m d' w) = cols w"
  "cols (fst (bounce s x y an d w)) = cols w" "cols (fst (try_reroute sp s x w)) = cols w"
  "cols (noop_event s w) = cols w"
proof -
  show a: "cols (end_run s x n d y w) = cols w" for x n d y w by (simp add: end_run_def Let_def)
  show b: "cols (again s x m d' w) = cols w" for x m d' w
    by (simp add: again_def retry_event_def Let_def split: option.split)
  show "cols (fst (bounce s x y an d w)) = cols w"
    by (simp add: bounce_def Let_def split_def a b)
  show "cols (fst (try_reroute sp s x w)) = cols w"
    by (simp add: try_reroute_def Let_def split_def)
  show "cols (noop_event s w) = cols w" by (simp add: noop_event_def)
qed

lemma cols_guard [simp]: "cols (fst (completion_guard opts s w)) = cols w"
  by (simp add: completion_guard_def split: option.split)

lemma cols_acceptance [simp]: "cols (fst (acceptance_gate e s out w)) = cols w"
proof -
  have p: "cols (snd (review_pending h s out w)) = cols w" for h w
    by (simp add: review_pending_def Let_def split_def)
  have r: "cols (fst (acceptance_refused e s out ref w)) = cols w" for ref w
    by (simp add: acceptance_refused_def landed_event_def Let_def split_def)
  obtain q w1 where q: "review_pending (e_host e) s out w = (q, w1)" by fastforce
  then have w1: "cols w1 = cols w" using p [of "e_host e" w] by simp
  have "cols v = cols w" if "acceptance_refused e s out ref w1 = (v, x)" for ref v x
    using r [of ref w1] w1 that by simp
  then show ?thesis using q w1
    by (auto simp: acceptance_gate_def Let_def split: option.split prod.split)
qed

lemma cols_invalid [simp]:
  "cols (fst (reply_invalid sp s x w)) = cols w" "cols (fst (retry_verdict sp s x w)) = cols w"
  by (simp_all add: reply_invalid_def retry_verdict_def Let_def split_def)

lemma cols_verifier [simp]: "cols (fst (complete_verifier l s out m w)) = cols w"
  by (simp add: complete_verifier_def rejectVerifyEachCompletionForInvalidVerdict_def Let_def split_def
      split: sum.split)

lemma cols_no_plan [simp]: "cols (fst (no_plan s w)) = cols w"
  by (simp add: no_plan_def Let_def split_def split: option.split)

lemma cols_story [simp]: "cols (fst (complete_story s t out w)) = cols w"
proof -
  have d: "cols (story_done s t out w) = cols w" by (simp add: story_done_def Let_def)
  have "cols (fst (checkLoopContinuation r i u)) = cols u" for r i u by simp
  then have c: "checkLoopContinuation r i u = (v, x) \<Longrightarrow> cols v = cols u" for r i u v x
    by (metis fst_conv)
  show ?thesis using d
    by (auto simp: complete_story_def hand_to_verifier_def Let_def dest!: c
        split: option.split prod.split sum.split)
qed

lemma cols_judges [simp]:
  "cols (fst (send_back p s t x y f d w)) = cols w"
  "cols (fst (review_rejected sp s m old new x w)) = cols w"
  "cols (fst (routeDeceptionAuditVerdict sp s m parsed w)) = cols w"
  "cols (fst (land_step s out dec w)) = cols w"
proof -
  show a: "cols (fst (send_back p s t x y f d w)) = cols w" for p t x y f d w
    by (simp add: send_back_def Let_def split_def)
  show "cols (fst (review_rejected sp s m old new x w)) = cols w"
    by (simp add: review_rejected_def Let_def split_def a split: option.split list.split)
  show "cols (fst (routeDeceptionAuditVerdict sp s m parsed w)) = cols w"
    by (simp add: routeDeceptionAuditVerdict_def audit_failed_def audit_passed_def Let_def split_def a
        split: option.split)
  show "cols (fst (land_step s out dec w)) = cols w"
    by (simp add: land_step_def step_done_def landing_event_def Let_def split_def
        split: decision.split gate_mode.split)
qed

lemma cols_progress [simp]: "cols (writeStoryPlanToProgress e fs r a w) = cols w"
  by (simp add: writeStoryPlanToProgress_def planned_event_def Let_def split: option.split)

section \<open>A whole completion\<close>

text \<open>What a completion does to the columns depends on two of its parts, the merge of the reply and the
  reviewer's verdict.\<close>

abbreviation "grows \<equiv> columns_grow sc rc tc"

lemma grows_plan: "grows h (s_run_id s) w (fst (plan_stories h s out w))"
proof -
  obtain ts where "appended h (s_run_id s) ts"
    "stories (fst (parseAndInsertStories h out (s_run_id s) w)) = stories w @ ts"
    using planned_stories_appended by blast
  then have "grows h (s_run_id s) w (fst (parseAndInsertStories h out (s_run_id s) w))"
    using parseAndInsertStories_tables [of h out "s_run_id s" w] by (auto simp: columns_grow_def)
  moreover obtain w1 e where "parseAndInsertStories h out (s_run_id s) w = (w1, e)" by fastforce
  ultimately show ?thesis
    by (simp add: plan_stories_def Let_def split_def columns_grow_same(2) [OF cols_reply_ends(3)]
        split: option.split)
qed

lemma cols_judge:
  assumes "\<And>w m p. cols (fst (routeTestCmdReviewVerdict sp s m p w)) = cols w"
  shows "cols (fst (judge_reply sp s out m d w)) = cols w"
proof -
  let ?p = "parseOutputKeyValues out"
  obtain w1 a where a: "routeTestCmdReviewVerdict sp s m ?p w = (w1, a)" by fastforce
  obtain w2 b where b: "routeDeceptionAuditVerdict sp s m ?p w1 = (w2, b)" by fastforce
  have "cols w1 = cols w" "cols w2 = cols w1"
    using assms [of m ?p w] cols_judges(3) [of sp s m ?p w1] a b by simp_all
  then show ?thesis using a b
    by (simp add: judge_reply_def Let_def split: option.split)
qed

lemma grows_complete:
  assumes merge: "\<And>q w1. steps w1 = steps w \<Longrightarrow> runs w1 = runs w \<Longrightarrow> find_run (s_run_id s) w = Some q \<Longrightarrow>
      cols (snd (merge_context q s out w1)) = cols w1"
    and review: "\<And>w m p. cols (fst (routeTestCmdReviewVerdict (sr_specs c) s m p w)) = cols w"
  shows "grows (sr_js c) (s_run_id s) w (fst (complete_body c opts s out w))"
proof -
  obtain v g where g: "completion_guard opts s w = (v, g)" by fastforce
  have v: "cols v = cols w" using cols_guard [of opts s w] g by simp
  show ?thesis
  proof (cases g)
    case (Some a)
    then show ?thesis using g v by (simp add: complete_body_def columns_of_grow)
  next
    case None
    then have "v = w" using g guard_goes_on by blast
    obtain w1 q where q: "acceptance_gate (sr_env c) s out w = (w1, q)" by fastforce
    have w1: "cols w1 = cols w" using cols_acceptance [of "sr_env c" s out w] q by simp
    have acc: "grows (sr_js c) (s_run_id s) w (fst (accept_reply c s out d w1))" if "q = Inr d" for d
    proof -
      have same: "steps w1 = steps w" "runs w1 = runs w" using gate_goes_on q that by blast+
      show ?thesis
      proof (cases "find_run (s_run_id s) w1")
        case None
        then show ?thesis using w1 by (simp add: accept_reply_def columns_of_grow)
      next
        case (Some r)
        obtain m w2 where w2: "merge_context r s out w1 = (m, w2)" by fastforce
        have "find_run (s_run_id s) w = Some r" using Some same(2) by (simp add: find_run_def)
        then have c2: "cols w2 = cols w" using merge [OF same] w2 w1 by (metis snd_conv)
        obtain w3 x where w3: "plan_stories (sr_js c) s out w2 = (w3, x)" by fastforce
        have g3: "grows (sr_js c) (s_run_id s) w w3"
          using grows_plan [of "sr_js c" s w2 out] w3 columns_grow_same(1) [OF c2] by simp
        obtain w4 y where w4: "no_plan s w3 = (w4, y)" by fastforce
        have g4: "grows (sr_js c) (s_run_id s) w w4"
          using cols_no_plan [of s w3] w4 g3 columns_grow_same(2) [of sc rc tc w4 w3] by simp
        have "cols (fst (settle_reply c s out m d w4)) = cols w4"
          using cols_judge [OF review]
          by (simp add: settle_reply_def split: option.split)
        then have "grows (sr_js c) (s_run_id s) w (fst (settle_reply c s out m d w4))"
          using g4 columns_grow_same(2) by blast
        then show ?thesis using Some w2 w3 w4 g3 g4
          by (simp add: accept_reply_def split: option.split)
      qed
    qed
    have "grows (sr_js c) (s_run_id s) w (fst (reply_invalid sp s e w1))" for sp e
      using w1 by (simp add: columns_of_grow)
    then show ?thesis using g None \<open>v = w\<close> q w1 acc
      by (cases q) (simp_all add: complete_body_def columns_of_grow split: option.split)
  qed
qed

lemma grows_completeStep:
  assumes "\<And>s. find_step (stripIdPrefix i) w = Some s \<Longrightarrow> grows (sr_js c) rid w (fst (complete_body c opts s out w))"
  shows "grows (sr_js c) rid w (fst (completeStep c opts i out w))"
proof -
  let ?i = "stripIdPrefix i"
  obtain w1 r where w1: "completeStepInternal c opts ?i out w = (w1, r)" by fastforce
  have g: "grows (sr_js c) rid w w1"
  proof (cases "find_step ?i w")
    case None
    then show ?thesis using w1 by (simp add: completeStepInternal_def columns_of_grow)
  next
    case (Some s)
    obtain w2 x where "complete_body c opts s out w = (w2, x)" by fastforce
    then show ?thesis using w1 Some assms [OF Some]
      by (cases x) (auto simp: completeStepInternal_def columns_of_grow)
  qed
  have "cols (fst (completeStep c opts i out w)) = cols w1"
    using w1 by (cases r) (simp_all add: completeStep_def Let_def split: option.split)
  then show ?thesis using g columns_grow_same(2) by blast
qed

end

section \<open>The test command\<close>

text \<open>A run whose test command is established keeps it in the merge of a reply.\<close>

context columns begin

lemma cols_merge_closed:
  assumes "r_test_cmd_established q \<noteq> None"
  shows "cols (snd (merge_context q s out w)) = cols w"
  using assms
  by (auto simp: merge_context_def merge_reply_def merge_test_cmd_def established_cmd_def rewrite_event_def
      Let_def split_def split: option.split)

lemma cols_review_closed:
  "s_step_id s \<noteq> ''test_cmd_review'' \<Longrightarrow> cols (fst (routeTestCmdReviewVerdict sp s m p w)) = cols w"
  by (simp add: routeTestCmdReviewVerdict_def)

lemma grows_closed:
  assumes "\<And>s. find_step (stripIdPrefix i) w = Some s \<Longrightarrow> s_step_id s \<noteq> ''test_cmd_review''
      \<and> (\<forall>q. find_run (s_run_id s) w = Some q \<longrightarrow> r_test_cmd_established q \<noteq> None)"
    and "\<And>s. find_step (stripIdPrefix i) w = Some s \<Longrightarrow> s_run_id s = rid"
  shows "grows (sr_js c) rid w (fst (completeStep c opts i out w))"
proof (rule grows_completeStep)
  fix s assume s: "find_step (stripIdPrefix i) w = Some s"
  then have "grows (sr_js c) (s_run_id s) w (fst (complete_body c opts s out w))"
    using assms(1) by (intro grows_complete cols_merge_closed cols_review_closed) blast+
  then show "grows (sr_js c) rid w (fst (complete_body c opts s out w))" using assms(2) [OF s] by simp
qed

end

locale open_columns = columns +
  assumes run_opens: "rc (r_test_cmd_established_update a r) = rc r" "rc (r_test_cmd_source_update b r) = rc r"
begin

lemmas opens [simp] = run_opens

lemma cols_merge: "cols (snd (merge_context q s out w)) = cols w"
  by (auto simp: merge_context_def merge_reply_def merge_test_cmd_def establish_cmd_def rewrite_event_def
      Let_def split_def split: option.split)

lemma cols_review: "cols (fst (routeTestCmdReviewVerdict sp s m p w)) = cols w"
  by (simp add: routeTestCmdReviewVerdict_def review_accepted_def establish_cmd_def Let_def split: option.split)

lemma grows_open:
  assumes "\<And>s. find_step (stripIdPrefix i) w = Some s \<Longrightarrow> s_run_id s = rid"
  shows "grows (sr_js c) rid w (fst (completeStep c opts i out w))"
proof (rule grows_completeStep)
  fix s assume s: "find_step (stripIdPrefix i) w = Some s"
  have "grows (sr_js c) (s_run_id s) w (fst (complete_body c opts s out w))"
    by (intro grows_complete cols_merge cols_review)
  then show "grows (sr_js c) rid w (fst (complete_body c opts s out w))" using assms [OF s] by simp
qed

end

end
