(* ===== verification/Lifecycle.thy ===== *)
theory Lifecycle
  imports Columns
begin

text \<open>
  Whole histories: every operation the agents, the scheduler and the operator may perform, in any
  order, with time passing in between.  What a row is (its keys, the definition of the step, the text
  of the story) never changes, keys stay unique and references valid; the test command of a run stays
  what it was established as unless a reviewer accepts another.
\<close>

section \<open>What a row is\<close>

definition step_fixed :: "step \<Rightarrow> (string \<times> string) \<times> string \<times> string \<times> nat \<times> string \<times> string \<times> nat \<times> step_type
    \<times> loop_col \<times> string option" where
  "step_fixed s = ((s_id s, s_run_id s), s_step_id s, s_agent_id s, s_step_index s, s_input_template s,
     s_expects s, s_max_retries s, s_type s, s_loop_config s, s_conditional_condition s)"

definition run_fixed :: "run \<Rightarrow> string \<times> nat \<times> string \<times> int option" where
  "run_fixed r = (r_id r, r_run_number r, r_workflow_id r, r_created_at r)"

definition run_contract :: "run \<Rightarrow> string \<times> string option \<times> string option" where
  "run_contract r = (r_id r, r_test_cmd_established r, r_test_cmd_source r)"

definition story_fixed :: "story \<Rightarrow> (string \<times> string) \<times> nat \<times> string \<times> string \<times> string \<times> string list \<times> nat" where
  "story_fixed t = ((t_id t, t_run_id t), t_story_index t, t_story_id t, t_title t, t_description t,
     t_acceptance t, t_max_retries t)"

interpretation fixed: open_columns step_fixed run_fixed story_fixed
  by unfold_locales (simp_all add: step_fixed_def run_fixed_def story_fixed_def)

interpretation contract: columns step_fixed run_contract story_fixed
  by unfold_locales (simp_all add: step_fixed_def run_contract_def story_fixed_def)

lemma same_contract:
  assumes "map run_contract rs' = map run_contract rs"
  shows "map_option run_contract (List.find (\<lambda>r. r_id r = i) rs')
    = map_option run_contract (List.find (\<lambda>r. r_id r = i) rs)"
  using assms
proof (induction rs' arbitrary: rs)
  case (Cons r' rs')
  then obtain r rest where "rs = r # rest" "run_contract r' = run_contract r"
    "map run_contract rs' = map run_contract rest" by (cases rs) auto
  moreover from this have "r_id r' = r_id r" by (simp add: run_contract_def)
  ultimately show ?case using Cons.IH [of rest] by simp
qed simp

text \<open>C22.  Once a run has its test command, only a reviewer can replace it: a reply to any other step,
  whatever it says of \<^verbatim>\<open>TEST_CMD\<close>, leaves the established command of every run and its source as they
  were.\<close>

theorem test_command_kept:
  assumes "find_step (stripIdPrefix i) w = Some s" "s_step_id s \<noteq> ''test_cmd_review''"
    "find_run (s_run_id s) w = Some r" "r_test_cmd_established r \<noteq> None"
  shows "map_option run_contract (find_run k (fst (completeStep c opts i out w)))
    = map_option run_contract (find_run k w)"
proof -
  obtain cmd where cmd: "r_test_cmd_established r = Some cmd" using assms(4) by blast
  have "columns_grow step_fixed run_contract story_fixed (sr_js c) (s_run_id s) w
      (fst (completeStep c opts i out w))"
  proof (rule contract.grows_closed)
    fix u assume "find_step (stripIdPrefix i) w = Some u"
    then have "u = s" using assms(1) by (metis option.inject)
    then show "s_step_id u \<noteq> ''test_cmd_review''
        \<and> (\<forall>q. find_run (s_run_id u) w = Some q \<longrightarrow> r_test_cmd_established q \<noteq> None)"
      and "s_run_id u = s_run_id s" using assms(2,3) cmd by simp_all
  qed
  then have "map run_contract (runs (fst (completeStep c opts i out w))) = map run_contract (runs w)"
    by (simp add: columns_grow_def)
  then show ?thesis unfolding find_run_def by (rule same_contract)
qed

section \<open>Histories\<close>

inductive reach :: "store \<Rightarrow> store \<Rightarrow> bool" where
  here: "reach w w"
| time: "reach w v \<Longrightarrow> now v \<le> t \<Longrightarrow> reach w (v\<lparr>now := t\<rparr>)"
| claim: "reach w v \<Longrightarrow> reach w (fst (snd (claimStep e clock lst a r owner g v)))"
| look: "reach w v \<Longrightarrow> reach w (fst (stepCurrent e a r g v))"
| complete: "reach w v \<Longrightarrow> inj (uuid (sr_js c)) \<Longrightarrow> \<forall>k. uuid (sr_js c) k \<notin> t_id ` set (stories v) \<Longrightarrow>
    reach w (fst (completeStep c opts i out v))"
| conditional: "reach w v \<Longrightarrow> reach w (fst (autoCompleteConditionalStep r a v))"
| fail: "reach w v \<Longrightarrow> reach v u \<Longrightarrow> reach w (fst (failStep sp (\<lambda>_. u) auth i x v))"
| release: "reach w v \<Longrightarrow> reach w (fst (releaseStep probe r j force v))"
| recover: "reach w v \<Longrightarrow> reach w (fst (recoverOrphanedStepsForAgent sp we a r v))"
| sweep: "reach w v \<Longrightarrow> reach w (fst (recoverStepsWithDeadWorkers probe sp v))"
| watch: "reach w v \<Longrightarrow> reach w (fst (checkRunningWorkersLiveness probe kids sp v))"
| resume: "reach w v \<Longrightarrow> reach w (fst (resetFailedStoriesForResume r v))"
| death: "reach w v \<Longrightarrow> reach w (fst (incrementPreclaimDeathCount i v))"
| flag: "reach w v \<Longrightarrow> reach w (setRunContextKey r k x v)"
| unflag: "reach w v \<Longrightarrow> reach w (removeRunContextKey r k v)"
| drain: "reach w v \<Longrightarrow> reach w (finalizeDrainingPause r v)"

text \<open>Keys are unique and references valid.\<close>

definition typed_store :: "store \<Rightarrow> bool" where
  "typed_store w \<longleftrightarrow> wf_store w
     \<and> (\<forall>s \<in> set (steps w). s_run_id s \<in> r_id ` set (runs w))
     \<and> (\<forall>t \<in> set (stories w). t_run_id t \<in> r_id ` set (runs w))"

definition keys_of :: "store \<Rightarrow> (string \<times> string) list \<times> string list \<times> (string \<times> string) list" where
  "keys_of w = (map (\<lambda>s. (s_id s, s_run_id s)) (steps w), map r_id (runs w),
     map (\<lambda>t. (t_id t, t_run_id t)) (stories w))"

lemma typed_keys:
  "typed_store w \<longleftrightarrow>
     (case keys_of w of (ss, rs, ts) \<Rightarrow>
        distinct (map fst ss) \<and> distinct rs \<and> distinct (map fst ts)
        \<and> snd ` set ss \<subseteq> set rs \<and> snd ` set ts \<subseteq> set rs)"
  by (simp add: typed_store_def keys_of_def wf_store_def comp_def image_image image_subset_iff)

lemma fixed_keys:
  "map (\<lambda>s. (s_id s, s_run_id s)) ss = map fst (map step_fixed ss)"
  "map r_id rs = map fst (map run_fixed rs)"
  "map (\<lambda>t. (t_id t, t_run_id t)) ts = map fst (map story_fixed ts)"
  by (simp_all add: step_fixed_def run_fixed_def story_fixed_def)

abbreviation "grown \<equiv> columns_grow step_fixed run_fixed story_fixed"

text \<open>One operation: nothing is rewritten, and what is appended fits in.\<close>

definition evolves :: "store \<Rightarrow> store \<Rightarrow> bool" where
  "evolves w w' \<longleftrightarrow>
     (typed_store w \<longrightarrow> typed_store w')
     \<and> map step_fixed (steps w') = map step_fixed (steps w)
     \<and> map run_fixed (runs w') = map run_fixed (runs w)
     \<and> (\<exists>more. map story_fixed (stories w') = map story_fixed (stories w) @ more)"

lemma evolves_trans: "evolves a b \<Longrightarrow> evolves b c \<Longrightarrow> evolves a c"
  by (auto simp: evolves_def)

lemma evolves_same:
  assumes "fixed.cols w' = fixed.cols w"
  shows "evolves w w'"
proof -
  have "keys_of w' = keys_of w"
    using assms unfolding keys_of_def fixed_keys columns_of_def by (simp only: prod.inject)
  then show ?thesis using assms by (auto simp: evolves_def typed_keys columns_of_def)
qed

lemma evolves_grown:
  assumes "grown h rid w w'" "inj (uuid h)" "\<forall>k. uuid h k \<notin> t_id ` set (stories w)"
    "rid \<in> s_run_id ` set (steps w) \<or> fixed.cols w' = fixed.cols w"
  shows "evolves w w'"
proof (cases "fixed.cols w' = fixed.cols w")
  case True
  then show ?thesis by (rule evolves_same)
next
  case False
  obtain ts where ts: "appended h rid ts"
    "map story_fixed (stories w') = map story_fixed (stories w) @ map story_fixed ts"
    using assms(1) by (auto simp: columns_grow_def)
  obtain ss rs us where k: "keys_of w = (ss, rs, us)" by (cases "keys_of w") auto
  have k': "keys_of w' = (ss, rs, us @ map (\<lambda>t. (t_id t, t_run_id t)) ts)"
    using assms(1) ts k unfolding keys_of_def fixed_keys columns_grow_def by (auto simp del: map_map)
  have "typed_store w'" if "typed_store w"
  proof -
    have ids: "distinct (map t_id ts)" "set (map t_id ts) \<subseteq> range (uuid h)"
      using ts(1) assms(2) by (auto simp: appended_def distinct_map inj_on_def)
    have "x \<notin> t_id ` set (stories w)" if "x \<in> set (map t_id ts)" for x
    proof -
      obtain k where "x = uuid h k" using ids(2) \<open>x \<in> set (map t_id ts)\<close> by blast
      then show ?thesis using assms(3) by simp
    qed
    then have "set (map t_id ts) \<inter> t_id ` set (stories w) = {}" by blast
    moreover have "fst ` set us = t_id ` set (stories w)"
      using k by (auto simp: keys_of_def image_image)
    moreover have "rid \<in> set rs"
      using False assms(4) that k by (auto simp: typed_store_def keys_of_def)
    ultimately show ?thesis
      using that ids(1) ts(1) unfolding typed_keys k k'
      by (auto simp: comp_def appended_def) (metis assms(3) imageI)
  qed
  then show ?thesis using assms(1) ts by (auto simp: evolves_def columns_grow_def)
qed

lemma evolves_complete:
  assumes "inj (uuid (sr_js c))" "\<forall>k. uuid (sr_js c) k \<notin> t_id ` set (stories w)"
  shows "evolves w (fst (completeStep c opts i out w))"
proof (cases "find_step (stripIdPrefix i) w")
  case None
  then show ?thesis by (simp add: completeStep_def completeStepInternal_def evolves_def)
next
  case (Some s)
  then have "grown (sr_js c) (s_run_id s) w (fst (completeStep c opts i out w))"
    by (intro fixed.grows_open) simp
  moreover have "s \<in> set (steps w)" using step_table.find_key [OF Some] by simp
  ultimately show ?thesis using evolves_grown assms by blast
qed

lemma evolves_then: "evolves w v \<Longrightarrow> fixed.cols u = fixed.cols v \<Longrightarrow> evolves w u"
  using evolves_same evolves_trans by blast

lemma reach_evolves: "reach w w' \<Longrightarrow> evolves w w'"
proof (induction rule: reach.induct)
  case (here w)
  then show ?case by (simp add: evolves_def)
next
  case (time w v t)
  then show ?case by (rule_tac evolves_then) (simp_all add: columns_of_def)
next
  case (complete w v c opts i out)
  then show ?case using evolves_complete evolves_trans by blast
next
  case (fail w v u sp auth i x)
  have "evolves w u" using fail.IH evolves_trans by blast
  then show ?case
    using fail.IH(1) fixed.cols_fail [of sp "\<lambda>_. u" auth i x v] evolves_then by blast
qed (erule evolves_then, simp)+

text \<open>C23.  In every history of claims, replies, failures, releases, recoveries, sweeps, resets and pauses,
  in any order, keys stay unique and every step and story belongs to a run; no operation rewrites what
  a step, a run or a story is, no row is lost or moved, and new rows are appended.\<close>

theorem history_typed:
  assumes "reach w w'" "typed_store w"
  shows "typed_store w' \<and> map step_fixed (steps w') = map step_fixed (steps w)
    \<and> map run_fixed (runs w') = map run_fixed (runs w)
    \<and> (\<exists>more. map story_fixed (stories w') = map story_fixed (stories w) @ more)"
  using reach_evolves [OF assms(1)] assms(2) by (simp add: evolves_def)

lemma history_typed_witness:
  "typed_store (fst (completeStep surroundings0 opts0 ''p'' ''STATUS: done'' plan_running))"
proof -
  have "inj (uuid (sr_js surroundings0))"
    by (auto simp: surroundings0_def inj_def dest: nat_str_inj)
  moreover have "\<forall>k. uuid (sr_js surroundings0) k \<notin> t_id ` set (stories plan_running)"
    by (simp add: surroundings0_def plan_running_def sample_defs set_step_status_def)
  ultimately have "reach plan_running (fst (completeStep surroundings0 opts0 ''p'' ''STATUS: done'' plan_running))"
    by (rule complete [OF here])
  moreover have "typed_store plan_running"
    by (simp add: typed_store_def wf_store_def plan_running_def sample_defs eval_store set_step_status_def)
  ultimately show ?thesis using history_typed by blast
qed

definition contract_store :: store where
  "contract_store = set_run ''r'' (\<lambda>r. r\<lparr>r_test_cmd_established := Some ''make''\<rparr>) plan_running"

lemma test_command_kept_witness:
  "map_option r_test_cmd_established (find_run ''r'' (fst (completeStep surroundings0 opts0 ''p''
     (''STATUS: done'' @ [newline] @ ''TEST_CMD: true'') contract_store))) = Some (Some ''make'')"
proof -
  let ?s = "step0\<lparr>s_status := SRunning, s_updated_at := Some 100\<rparr>"
  let ?w = "fst (completeStep surroundings0 opts0 ''p'' (''STATUS: done'' @ [newline] @ ''TEST_CMD: true'') contract_store)"
  have i: "stripIdPrefix ''p'' = ''p''" by code_simp
  have s: "find_step ''p'' contract_store = Some ?s"
    and r: "find_run ''r'' contract_store =
      Some (run0\<lparr>r_test_cmd_established := Some ''make'', r_updated_at := Some 100\<rparr>)"
    by (simp_all add: contract_store_def plan_running_def sample_defs eval_store set_step_status_def)
  have f: "s_run_id ?s = ''r''" "s_step_id ?s = ''plan''" by (simp_all add: step0_def)
  have "map_option run_contract (find_run ''r'' ?w) = map_option run_contract (find_run ''r'' contract_store)"
    by (rule test_command_kept [of _ _ ?s "run0\<lparr>r_test_cmd_established := Some ''make'', r_updated_at := Some 100\<rparr>"])
      (simp_all only: i s r f, simp_all)
  then show ?thesis using r by (cases "find_run ''r'' ?w") (auto simp: run_contract_def)
qed

end
