(* ===== verification/Fail_Props.thy ===== *)
theory Fail_Props
  imports Complete_Props
begin

text \<open>
  What is proved of a failure report: nothing is written that the authority over the claim did not
  allow on the row as it is at that moment, operations interleaved during the wait included.
\<close>

lemma map_prod_Inr [simp]: "map_prod id Inr x = (a, Inr b) \<longleftrightarrow> x = (a, b)"
  by (cases x) auto

lemma attempt_refused_tables:
  "snd (fail_attempt p s err w) \<noteq> Rerouted \<Longrightarrow> steps (fst (fail_attempt p s err w)) = steps w"
  using refused_tables by (auto simp: fail_attempt_def split: option.splits if_splits)

lemma fresh_refusal_cong: "steps v = steps w \<Longrightarrow> fresh_refusal auth i v = fresh_refusal auth i w"
  by (simp add: fresh_refusal_def find_step_cong [of v w] split: option.split)

text \<open>The second look at the row, after a refused reroute, sees the row of the first.\<close>

lemma exhausted_outcomes:
  "fail_exhausted p auth s err w = (w', r) \<Longrightarrow>
   r = OutBlocked \<and> w' = w
   \<or> (r = OutFailed \<or> r = OutRerouted) \<and> fresh_refusal auth (s_id s) w = None"
  using attempt_refused_tables [of p s err w]
    fresh_refusal_cong [of "fst (fail_attempt p s err w)" w auth "s_id s"]
  by (auto simp: fail_exhausted_def Let_def split: prod.splits if_splits)

lemma fresh_allowed:
  "fresh_refusal (Some f) i w = None \<longleftrightarrow> (\<exists>s. find_step i w = Some s \<and> f (evidence_of s) = None)"
  by (auto simp: fresh_refusal_def split: option.splits)

lemma fail_story_outcome: "fail_story s t err w = (w', r) \<Longrightarrow> r = OutFailed \<or> r = OutRetrying"
  by (auto simp: fail_story_def split: if_splits)


definition job_of :: "string \<Rightarrow> claim_evidence \<Rightarrow> string option" where
  "job_of j e = (if ce_job e = Some j then None else Some ''another worker holds the claim'')"

definition last_chance :: store where
  "last_chance =
     set_step ''p'' (\<lambda>s. s\<lparr>s_status := SRunning, s_retry_count := 2, s_claim_job_id := Some ''j''\<rparr>) store0"

definition handed_over :: "store \<Rightarrow> store" where
  "handed_over w = set_step ''p'' (\<lambda>s. s\<lparr>s_claim_job_id := Some ''k''\<rparr>) w"

lemma sample_failure:
  "snd (failStep (\<lambda>_. None) id (Some (job_of ''j'')) ''p'' ''boom'' last_chance) = Inr OutFailed"
  "snd (failStep (\<lambda>_. None) handed_over (Some (job_of ''j'')) ''p'' ''boom'' last_chance) = Inr OutBlocked"
  by code_simp+


section \<open>Late failure reports\<close>

text \<open>\<^verbatim>\<open>completeStep\<close> refuses replies for settled steps and ended runs; \<^verbatim>\<open>failStep\<close> has no such guard: a
  report that arrives late puts a finished step back to work, or fails a completed run.\<close>

lemma late_failure_reopens:
  "map_option s_status (find_step ''p'' store0) = Some SDone
   \<and> map_option s_status
       (find_step ''p'' (fst (failStep (\<lambda>_. None) id None ''p'' ''late'' store0))) = Some SPending"
  by code_simp

lemma late_failure_fails_completed_run:
  "run_status_of ''r'' (fst (failStep (\<lambda>_. None) id None ''p'' ''late''
     (set_run ''r'' (\<lambda>r. r\<lparr>r_status := RCompleted\<rparr>)
        (set_step ''p'' (\<lambda>s. s\<lparr>s_retry_count := 2\<rparr>) store0)))) = Some RFailed"
  by code_simp

end
