(* ===== verification/Progression.thy ===== *)
theory Progression
  imports Complete_Props
begin

text \<open>
  The contract of a whole pipeline: a run whose steps need no loop, no review and no merge is a queue of
  step indices, each accepted reply takes its head, and when the queue is empty the run is completed.
\<close>

section \<open>The queue of a run\<close>

definition unfinished :: "step \<Rightarrow> bool" where
  "unfinished s \<longleftrightarrow> s_status s = SWaiting \<or> s_status s = SPending \<or> s_status s = SRunning"

definition todo :: "string \<Rightarrow> store \<Rightarrow> nat list" where
  "todo rid w = sorted_list_of_set (s_step_index ` set (filter unfinished (run_steps rid w)))"

definition active_step :: "string \<Rightarrow> store \<Rightarrow> step option" where
  "active_step rid w =
     first_min s_step_index (filter (\<lambda>s. s_status s = SPending \<or> s_status s = SRunning) (run_steps rid w))"

text \<open>The agent that has the turn replies.\<close>

definition deliver ::
    "surroundings \<Rightarrow> complete_opts \<Rightarrow> (string \<Rightarrow> string) \<Rightarrow> string \<Rightarrow> store \<Rightarrow> store" where
  "deliver c opts answer rid w =
     (case active_step rid w of
        None \<Rightarrow> w
      | Some s \<Rightarrow> fst (completeStep c opts (s_id s) (answer (s_id s)) w))"

section \<open>Plain runs\<close>

definition plain_reply :: "string \<Rightarrow> bool" where
  "plain_reply out \<longleftrightarrow>
     stories_block out = None \<and> parseOutputKeyValues out ''pause_drain'' = None
     \<and> map_option lower (parseOutputKeyValues out ''status'') \<noteq> Some ''retry''"

definition plain_step :: "surroundings \<Rightarrow> (string \<Rightarrow> string) \<Rightarrow> step \<Rightarrow> bool" where
  "plain_step c answer s \<longleftrightarrow>
     s_type s \<noteq> TyLoop \<and> s_step_id s \<notin> {''finalize_merge'', ''test_cmd_review'', ''deception_audit''}
     \<and> stripIdPrefix (s_id s) = s_id s \<and> s_claim_invalidated_by s \<noteq> Some ''reroute''
     \<and> s_status s \<noteq> SFailed \<and> s_status s \<noteq> SCanceled
     \<and> plain_reply (answer (s_id s))
     \<and> validateExpects (sr_rx c) (answer (s_id s)) (s_expects s) = None"

text \<open>Of the unfinished steps exactly the first has its turn, the others wait.\<close>

definition one_turn :: "step list \<Rightarrow> bool" where
  "one_turn ss \<longleftrightarrow> distinct (map s_step_index ss)
     \<and> (\<forall>s \<in> set ss. unfinished s \<longrightarrow>
          (s_status s \<noteq> SWaiting \<longleftrightarrow> (\<forall>u \<in> set ss. unfinished u \<longrightarrow> s_step_index s \<le> s_step_index u)))"

definition calm :: "run \<Rightarrow> bool" where
  "calm r \<longleftrightarrow> r_scheduling_status r \<noteq> Some ''draining_pause''
     \<and> (case r_context r of CtxObj m \<Rightarrow> m ''pause_drain'' \<noteq> Some ''true'' | CtxCorrupt _ \<Rightarrow> False)"

definition plain :: "surroundings \<Rightarrow> (string \<Rightarrow> string) \<Rightarrow> string \<Rightarrow> store \<Rightarrow> bool" where
  "plain c answer rid w \<longleftrightarrow>
     distinct (map s_id (steps w)) \<and> one_turn (run_steps rid w)
     \<and> list_all (plain_step c answer) (run_steps rid w)
     \<and> (case find_run rid w of
          None \<Rightarrow> False
        | Some r \<Rightarrow> calm r \<and> r_status r = (if todo rid w = [] then RCompleted else RRunning))"

lemma run_steps_cong: "steps v = steps w \<Longrightarrow> run_steps rid v = run_steps rid w"
  by (simp add: run_steps_def)

lemma plain_cong:
  "steps v = steps w \<Longrightarrow> runs v = runs w \<Longrightarrow> plain c answer rid v = plain c answer rid w"
  by (simp only: plain_def find_run_def todo_def run_steps_def)

lemma todo_cong: "steps v = steps w \<Longrightarrow> todo rid v = todo rid w"
  by (simp add: todo_def run_steps_cong [of v w])

section \<open>A turn\<close>

definition turn :: "string \<Rightarrow> step option \<Rightarrow> (step \<Rightarrow> step) \<Rightarrow> (step \<Rightarrow> step) \<Rightarrow> step \<Rightarrow> step" where
  "turn i nxt f g s =
     (if s_id s = i then f s else if nxt \<noteq> None \<and> s_id s = s_id (the nxt) then g s else s)"

text \<open>The step at the head is done and the first waiting one gets the turn.\<close>

lemma one_turn_head:
  assumes "one_turn ss" "a \<in> set ss" "unfinished a" "s_status a \<noteq> SWaiting" "u \<in> set ss" "unfinished u" "u \<noteq> a"
  shows "s_step_index a < s_step_index u \<and> s_status u = SWaiting"
proof -
  have d: "inj_on s_step_index (set ss)" using assms(1) by (simp add: one_turn_def distinct_map)
  have "s_step_index a \<le> s_step_index u" using assms by (auto simp: one_turn_def)
  then have lt: "s_step_index a < s_step_index u"
    using d assms(2,5,7) by (metis inj_onD le_neq_implies_less)
  moreover have "s_status u = SWaiting"
    using assms(1-3,5,6) lt unfolding one_turn_def by (meson linorder_not_le)
  ultimately show ?thesis by simp
qed

lemma turn_keeps:
  assumes "one_turn ss" "a \<in> set ss" "unfinished a" "s_status a \<noteq> SWaiting" "inj_on s_id (set ss)"
    "\<And>s. s_step_index (f s) = s_step_index s" "\<And>s. \<not> unfinished (f s)"
    "\<And>s. s_step_index (g s) = s_step_index s" "\<And>s. s_status (g s) = SPending"
    "case nxt of
       None \<Rightarrow> \<forall>u \<in> set ss. u \<noteq> a \<longrightarrow> s_status u \<noteq> SWaiting
     | Some n \<Rightarrow> n \<in> set ss \<and> n \<noteq> a \<and> s_status n = SWaiting
         \<and> (\<forall>u \<in> set ss. u \<noteq> a \<longrightarrow> s_status u = SWaiting \<longrightarrow> s_step_index n \<le> s_step_index u)"
  shows "one_turn (map (turn (s_id a) nxt f g) ss)
    \<and> s_step_index ` set (filter unfinished (map (turn (s_id a) nxt f g) ss))
      = s_step_index ` set (filter unfinished ss) - {s_step_index a}"
proof -
  let ?t = "turn (s_id a) nxt f g"
  have ix: "s_step_index (?t u) = s_step_index u" for u by (simp add: turn_def assms(6,8))
  have inj: "inj_on s_step_index (set ss)" and dist: "distinct (map s_step_index ss)"
    using assms(1) by (simp_all add: one_turn_def distinct_map)
  have un: "unfinished (?t u) \<longleftrightarrow> unfinished u \<and> u \<noteq> a" if "u \<in> set ss" for u
    using that assms(2,5,7,9,10)
    by (auto simp: turn_def unfinished_def inj_on_def split: option.splits)
  have st: "s_status (?t u) \<noteq> SWaiting \<longleftrightarrow> (\<forall>v \<in> set ss. unfinished v \<and> v \<noteq> a \<longrightarrow> s_step_index u \<le> s_step_index v)"
    if u: "u \<in> set ss" "unfinished u" "u \<noteq> a" for u
  proof (cases nxt)
    case None
    then show ?thesis using u assms(10) one_turn_head [OF assms(1-4)] by auto
  next
    case (Some n)
    then have n: "n \<in> set ss" "n \<noteq> a" "s_status n = SWaiting" "unfinished n"
      and least: "\<And>v. v \<in> set ss \<Longrightarrow> v \<noteq> a \<Longrightarrow> s_status v = SWaiting \<Longrightarrow> s_step_index n \<le> s_step_index v"
      using assms(10) by (auto simp: unfinished_def)
    have ids: "s_id u = s_id a \<longleftrightarrow> u = a" "s_id u = s_id n \<longleftrightarrow> u = n"
      using u(1) n(1) assms(2,5) by (auto dest: inj_onD)
    show ?thesis
    proof (cases "u = n")
      case True
      then show ?thesis using Some u ids least one_turn_head [OF assms(1-4)] assms(9) by (auto simp: turn_def)
    next
      case False
      then have "s_status (?t u) = SWaiting"
        using Some u ids one_turn_head [OF assms(1-4)] by (auto simp: turn_def)
      moreover have "\<not> s_step_index u \<le> s_step_index n"
        using least [of u] u one_turn_head [OF assms(1-4) u] inj False n(1)
        by (metis inj_onD order_antisym)
      ultimately show ?thesis using n by auto
    qed
  qed
  have "one_turn (map ?t ss)" using un st dist by (auto simp: one_turn_def ix comp_def)
  moreover have "s_step_index ` set (filter unfinished (map ?t ss))
      = s_step_index ` {u \<in> set ss. unfinished u \<and> u \<noteq> a}"
    using un by (force simp: ix image_iff)
  moreover have "\<dots> = s_step_index ` set (filter unfinished ss) - {s_step_index a}"
    using inj assms(2) by (auto dest: inj_onD)
  ultimately show ?thesis by simp
qed

definition heir :: "string \<Rightarrow> step list \<Rightarrow> step option" where
  "heir i ss = first_min s_step_index (filter (\<lambda>u. s_status u = SWaiting) (filter (\<lambda>u. s_id u \<noteq> i) ss))"

lemma heir_first:
  assumes "inj_on s_id (set ss)" "a \<in> set ss"
  shows "case heir (s_id a) ss of
       None \<Rightarrow> \<forall>u \<in> set ss. u \<noteq> a \<longrightarrow> s_status u \<noteq> SWaiting
     | Some k \<Rightarrow> k \<in> set ss \<and> k \<noteq> a \<and> s_status k = SWaiting
         \<and> (\<forall>u \<in> set ss. u \<noteq> a \<longrightarrow> s_status u = SWaiting \<longrightarrow> s_step_index k \<le> s_step_index u)"
proof -
  have other: "s_id u \<noteq> s_id a \<longleftrightarrow> u \<noteq> a" if "u \<in> set ss" for u
    using assms that by (auto dest: inj_onD)
  show ?thesis
  proof (cases "heir (s_id a) ss")
    case None
    then show ?thesis using other by (auto simp: heir_def filter_empty_conv)
  next
    case (Some k)
    from first_min_Some [OF Some [unfolded heir_def]] show ?thesis using Some other by auto
  qed
qed

lemma heir_none:
  assumes "one_turn ss" "a \<in> set ss" "unfinished a" "s_status a \<noteq> SWaiting" "inj_on s_id (set ss)"
  shows "s_step_index ` set (filter unfinished ss) - {s_step_index a} = {} \<longleftrightarrow> heir (s_id a) ss = None"
proof (cases "heir (s_id a) ss")
  case None
  then have "u = a" if "u \<in> set ss" "unfinished u" for u
    using heir_first [OF assms(5,2)] that one_turn_head [OF assms(1-4)] by auto
  then show ?thesis using None by auto
next
  case (Some k)
  then have "s_step_index k \<in> s_step_index ` set (filter unfinished ss) - {s_step_index a}"
    using heir_first [OF assms(5,2)] one_turn_head [OF assms(1-4), of k] by (auto simp: unfinished_def)
  then show ?thesis using Some by auto
qed

section \<open>An accepted reply\<close>

lemma finalize_calm:
  assumes "find_run rid w = Some r" "calm r"
  shows "finalizeDrainingPause rid w = w"
  using assms by (auto simp: finalizeDrainingPause_def calm_def parseRunContext_def split: ctx_col.splits)

lemma merge_test_cmd_frame:
  "fst (merge_test_cmd r s v m w) ''pause_drain'' = m ''pause_drain''"
  "map_option (\<lambda>q. (r_status q, r_scheduling_status q)) (find_run i (snd (merge_test_cmd r s v m w)))
    = map_option (\<lambda>q. (r_status q, r_scheduling_status q)) (find_run i w)"
  by (auto simp: merge_test_cmd_def with_test_cmd_def withdraw_review_def establish_cmd_def
      rewrite_event_def Let_def find_set option.map_comp comp_def split: option.split)

lemma merged_run:
  assumes "find_run (s_run_id s) w = Some r" "calm r" "parseOutputKeyValues out ''pause_drain'' = None"
  shows "\<exists>q. find_run (s_run_id s) (snd (merge_context r s out w)) = Some q \<and> calm q
    \<and> r_status q = r_status r"
proof -
  obtain m0 where m0: "r_context r = CtxObj m0" "m0 ''pause_drain'' \<noteq> Some ''true''"
    using assms(2) by (auto simp: calm_def split: ctx_col.splits)
  obtain m1 w1 where m1: "merge_reply r s out m0 w = (m1, w1)" by fastforce
  have "m1 ''pause_drain'' = m0 ''pause_drain''"
    using m1 assms(3) merge_test_cmd_frame(1) [of r s _ _ w]
    by (auto simp: merge_reply_def Let_def output_keys_def map_add_def prod_eq_iff split: option.splits)
  moreover have "map_option (\<lambda>q. (r_status q, r_scheduling_status q)) (find_run (s_run_id s) w1)
      = Some (r_status r, r_scheduling_status r)"
    using m1 assms(1) merge_test_cmd_frame(2) [of "s_run_id s" r s _ _ w]
    by (auto simp: merge_reply_def Let_def prod_eq_iff split: option.splits)
  moreover have "fix_keys s w1 m ''pause_drain'' = m ''pause_drain''" for m
    by (simp add: fix_keys_def default_key_def)
  ultimately show ?thesis
    using m0 m1 assms(2)
    by (auto simp: merge_context_def parseRunContext_def save_context_def find_set calm_def Let_def)
qed

lemma no_loops_no_plan:
  assumes "\<forall>u \<in> set (run_steps (s_run_id s) w). s_type u \<noteq> TyLoop"
  shows "no_plan s w = (w, None) \<and> first_loop (s_run_id s) w = None"
proof -
  have "filter (\<lambda>u. s_type u = TyLoop) (run_steps (s_run_id s) w) = []"
    using assms by (simp add: filter_empty_conv)
  then show ?thesis
    using assms by (auto simp: no_plan_def next_loop_def first_loop_def find_None_iff Let_def run_steps_def)
qed

text \<open>The reply of the step that has its turn: the keys are merged, the step is done, the pipeline
  advances; guards, gate, contract and verdicts let it through.\<close>

lemma plain_completion:
  assumes "plain_step c answer s" "find_step (s_id s) w = Some s" "s_status s = SPending \<or> s_status s = SRunning"
    "find_run (s_run_id s) w = Some r" "calm r" "r_status r = RRunning"
    "\<forall>u \<in> set (run_steps (s_run_id s) w). s_type u \<noteq> TyLoop" "co_authority opts = None"
  shows "\<exists>v. steps v = steps w
    \<and> (\<exists>q. find_run (s_run_id s) v = Some q \<and> calm q \<and> r_status q = RRunning)
    \<and> completeStepInternal c opts (s_id s) (answer (s_id s)) w
      = (let (w1, a) = advancePipeline (s_run_id s) (step_done s (answer (s_id s)) v)
         in (finalizeDrainingPause (s_run_id s) w1, Inr (advance_outcome a, None)))"
proof -
  let ?out = "answer (s_id s)" and ?rid = "s_run_id s"
  let ?v = "snd (merge_context r s ?out w)"
  note s = assms(1) [unfolded plain_step_def plain_reply_def]
  have st: "steps ?v = steps w" by (rule merge_context_tables)
  have guard: "completion_guard opts s w = (w, None)"
    using assms(3-6,8) s
    by (auto simp: completion_guard_def refusal_of_def run_refusal_def calm_def settled_def)
  have gate: "acceptance_gate (sr_env c) s ?out w = (w, Inr (Inert ''not_finalize_merge''))"
    using s assms(2)
    by (simp add: acceptance_gate_def review_pending_def evaluateFinalizeMergeLedgerGate_def
        getLedgerGateRefusal_def)
  have plan: "plan_stories (sr_js c) s ?out u = (u, None)" for u
    using s by (simp add: plan_stories_def parseAndInsertStories_def)
  have loops: "no_plan s ?v = (?v, None)" "first_loop ?rid ?v = None"
    using no_loops_no_plan [of s ?v] assms(7) by (simp_all add: run_steps_cong [OF st])
  have judge: "judge_reply (sr_specs c) s ?out m (Inert x) u = land_step s ?out (Inert x) u" for m x u
    using s by (auto simp: judge_reply_def Let_def routeTestCmdReviewVerdict_def
        routeDeceptionAuditVerdict_def)
  have land: "land_step s ?out (Inert x) u =
      (let (w1, a) = advancePipeline ?rid (step_done s ?out u)
       in (finalizeDrainingPause ?rid w1, advance_outcome a, None))" for x u
    by (simp add: land_step_def landing_event_def Let_def)
  have "completeStepInternal c opts (s_id s) ?out w
      = (let (w1, a) = advancePipeline ?rid (step_done s ?out ?v)
         in (finalizeDrainingPause ?rid w1, Inr (advance_outcome a, None)))"
    using s assms(2,4)
    by (simp add: completeStepInternal_def complete_body_def guard gate accept_reply_def plan loops
        settle_reply_def judge land split_def Let_def)
  then show ?thesis
    using st merged_run [OF assms(4,5)] assms(6) s by auto
qed

lemma writeStoryPlan_runs [simp]: "runs (writeStoryPlanToProgress e fs r a w) = runs w"
  by (simp add: writeStoryPlanToProgress_def planned_event_def Let_def split: option.splits)

lemma completed_calm:
  assumes "find_run rid w = Some r" "calm r"
  shows "\<exists>q. find_run rid (complete_run rid w) = Some q \<and> calm q \<and> r_status q = RCompleted"
proof -
  let ?w = "scheduleRunCronTeardown rid (call (ArchiveProgress rid)
      (emitRunTerminalEvent ''run.completed'' rid (getWorkflowId rid w) None None
        (set_run rid (\<lambda>r. r\<lparr>r_status := RCompleted\<rparr>) w)))"
  have "\<exists>q. find_run rid ?w = Some q \<and> calm q \<and> r_status q = RCompleted"
    using assms by (auto simp: scheduleRunCronTeardown_def Let_def find_set calm_def terminal_def)
  then show ?thesis using finalize_calm [of rid ?w] by (auto simp: complete_run_def)
qed

lemma run_steps_set_step:
  "(\<And>s. s_run_id (f s) = s_run_id s) \<Longrightarrow>
   run_steps rid (set_step i f w) =
     map (\<lambda>s. if s_id s = i then (f s)\<lparr>s_updated_at := Some (now w)\<rparr> else s) (run_steps rid w)"
  by (auto simp: run_steps_def set_step_def step_table.rows_upd upd_where_def filter_map comp_def
      intro!: map_cong filter_cong)

text \<open>What an accepted reply does to the rows of its run, and to the run.\<close>

definition finish :: "string \<Rightarrow> int \<Rightarrow> step \<Rightarrow> step" where
  "finish out t s = s\<lparr>s_status := SDone, s_output := Some out, s_updated_at := Some t\<rparr>"

definition give_turn :: "int \<Rightarrow> step \<Rightarrow> step" where
  "give_turn t s = s\<lparr>s_status := SPending, s_updated_at := Some t\<rparr>"

lemma step_done_rows:
  "run_steps rid (step_done s out v) =
     map (\<lambda>u. if s_id u = s_id s then finish out (now v) u else u) (run_steps rid v)"
  "find_run rid (step_done s out v) = find_run rid v"
  by (simp_all add: step_done_def Let_def finish_def run_steps_set_step run_steps_cong [of "emit _ _ _ _"])

lemma promote_rows:
  "run_steps rid (promote_step r k w) =
     map (\<lambda>s. if s_id s = s_id k then give_turn (now w) s else s) (run_steps rid w)"
  "map s_id (steps (promote_step r k w)) = map s_id (steps w)"
  unfolding run_steps_cong [OF promote_step_tables(3)] promote_step_tables(3) set_step_status_def
  by (simp_all add: run_steps_set_step give_turn_def)
    (simp add: set_step_def step_table.keys_upd)

lemma waiting_after_finish:
  "filter (\<lambda>u. s_status u = SWaiting) (map (\<lambda>u. if s_id u = i then finish out k u else u) ss) =
   filter (\<lambda>u. s_status u = SWaiting) (filter (\<lambda>u. s_id u \<noteq> i) ss)"
  by (induction ss) (simp_all add: finish_def)

lemma advance_rows:
  assumes "find_run rid w = Some q" "calm q" "r_status q = RRunning"
    "\<forall>u \<in> set (run_steps rid w). s_status u = SWaiting \<or> s_status u = SDone \<or> s_status u = SSkipped"
  shows "case next_waiting rid w of
      None \<Rightarrow> (\<exists>p. fst (advancePipeline rid w) = complete_run rid w
        \<and> find_run rid (complete_run rid w) = Some p \<and> calm p \<and> r_status p = RCompleted)
    | Some n \<Rightarrow> fst (advancePipeline rid w) = promote_step rid n w"
proof -
  have "\<not> list_ex (\<lambda>s. s_status s = SRunning) (run_steps rid w)"
    "\<not> list_ex (\<lambda>s. incomplete_status (s_status s)) (run_steps rid w)"
    using assms(4) by (auto simp: list_ex_iff incomplete_status_def)
  then show ?thesis
    using assms(1-3) completed_calm [OF assms(1,2)]
    by (auto simp: advancePipeline_def run_status_of_def split: option.split)
qed

lemma plain_active:
  assumes "plain c answer rid w" "active_step rid w = Some s"
  shows "s \<in> set (run_steps rid w) \<and> s_run_id s = rid \<and> find_step (s_id s) w = Some s
    \<and> (s_status s = SPending \<or> s_status s = SRunning) \<and> unfinished s \<and> plain_step c answer s
    \<and> (\<exists>r. find_run rid w = Some r \<and> calm r \<and> r_status r = RRunning)"
proof -
  have s: "s \<in> set (run_steps rid w)" "s_status s = SPending \<or> s_status s = SRunning"
    using first_min_Some [OF assms(2) [unfolded active_step_def]] by auto
  then have m: "s \<in> set (steps w)" "s_run_id s = rid" "unfinished s"
    by (auto simp: run_steps_def unfinished_def)
  have "todo rid w \<noteq> []" using s(1) m(3) by (auto simp: todo_def)
  then show ?thesis
    using assms(1) s m step_table.find_in_rows [of w s]
    by (auto simp: plain_def list_all_iff split: option.splits)
qed

lemma deliver_completion:
  assumes "plain_step c answer s" "active_step rid w = Some s" "find_step (s_id s) w = Some s"
    "completeStepInternal c opts (s_id s) (answer (s_id s)) w = (w1, Inr (advance_outcome a, None))"
  shows "steps (deliver c opts answer rid w) = steps w1 \<and> runs (deliver c opts answer rid w) = runs w1"
proof -
  have "stripIdPrefix (s_id s) = s_id s" using assms(1) by (simp add: plain_step_def)
  then show ?thesis
    using assms by (auto simp: deliver_def completeStep_def Let_def split: option.split)
qed

lemma plain_rows:
  assumes "plain c answer rid w" "active_step rid w = Some s" "co_authority opts = None"
  shows "\<exists>n t1 t2. run_steps rid (deliver c opts answer rid w)
      = map (turn (s_id s) n (finish (answer (s_id s)) t1) (give_turn t2)) (run_steps rid w)
    \<and> map s_id (steps (deliver c opts answer rid w)) = map s_id (steps w)
    \<and> n = heir (s_id s) (run_steps rid w)
    \<and> (\<exists>r. find_run rid (deliver c opts answer rid w) = Some r \<and> calm r
        \<and> r_status r = (if n = None then RCompleted else RRunning))"
proof -
  let ?out = "answer (s_id s)" and ?w' = "deliver c opts answer rid w"
  obtain r where s: "s \<in> set (run_steps rid w)" "s_run_id s = rid" "find_step (s_id s) w = Some s"
    "s_status s = SPending \<or> s_status s = SRunning" "unfinished s" "plain_step c answer s"
    and r: "find_run rid w = Some r" "calm r" "r_status r = RRunning"
    using plain_active [OF assms(1,2)] by blast
  have pl: "\<forall>u \<in> set (run_steps rid w). plain_step c answer u" and tn: "one_turn (run_steps rid w)"
    using assms(1) by (auto simp: plain_def list_all_iff)
  then obtain v q where v: "steps v = steps w" "find_run rid v = Some q" "calm q" "r_status q = RRunning"
    "completeStepInternal c opts (s_id s) ?out w
      = (let (w1, a) = advancePipeline rid (step_done s ?out v)
         in (finalizeDrainingPause rid w1, Inr (advance_outcome a, None)))"
    using plain_completion [OF s(6,3,4), of r opts] s(2) r assms(3) by (auto simp: plain_step_def)
  let ?u = "step_done s ?out v" and ?w1 = "fst (advancePipeline rid (step_done s ?out v))"
  note rows = step_done_rows [of rid s ?out v, unfolded run_steps_cong [OF v(1)]]
  have wait: "filter (\<lambda>u. s_status u = SWaiting) (run_steps rid ?u) =
      filter (\<lambda>u. s_status u = SWaiting) (filter (\<lambda>u. s_id u \<noteq> s_id s) (run_steps rid w))"
    unfolding rows(1) by (rule waiting_after_finish)
  have "s_status x = SWaiting \<or> s_status x = SDone \<or> s_status x = SSkipped"
    if "x \<in> set (run_steps rid w)" "x \<noteq> s" for x
  proof -
    have "s_status x \<noteq> SFailed \<and> s_status x \<noteq> SCanceled" using pl that(1) by (simp add: plain_step_def)
    then show ?thesis
      using one_turn_head [OF tn s(1,5) _ that(1) _ that(2)] s(4)
      by (cases "s_status x") (auto simp: unfinished_def)
  qed
  then have "\<forall>x \<in> set (run_steps rid ?u). s_status x = SWaiting \<or> s_status x = SDone \<or> s_status x = SSkipped"
    by (auto simp: rows(1) finish_def)
  note adv = advance_rows [of rid ?u q, unfolded rows(2), OF v(2-4) this]
  have n: "next_waiting rid ?u = heir (s_id s) (run_steps rid w)"
    by (simp only: next_waiting_def wait heir_def)
  have fin: "finalizeDrainingPause rid ?w1 = ?w1"
    and run1: "\<exists>p. find_run rid ?w1 = Some p \<and> calm p
      \<and> r_status p = (if next_waiting rid ?u = None then RCompleted else RRunning)"
    using adv v(2-4) finalize_calm [of rid ?w1] step_done_rows(2) [of rid s ?out v]
    by (auto simp: find_run_def split: option.splits)
  have d: "steps ?w' = steps ?w1" "runs ?w' = runs ?w1"
    using deliver_completion [OF s(6) assms(2) s(3), of opts ?w1 "snd (advancePipeline rid ?u)"] v(5) fin
    by (simp_all add: split_def Let_def)
  have ids: "map s_id (steps ?u) = map s_id (steps w)"
    using v(1) by (simp add: step_done_def Let_def set_step_def step_table.keys_upd)
  have "run_steps rid ?w1 = map (turn (s_id s) (next_waiting rid ?u) (finish ?out (now v)) (give_turn (now ?u)))
        (run_steps rid w) \<and> map s_id (steps ?w1) = map s_id (steps w)"
  proof (cases "next_waiting rid ?u")
    case None
    then show ?thesis using adv rows(1) ids by (auto simp: turn_def run_steps_cong [of "complete_run _ _"])
  next
    case (Some k)
    then have "s_id k \<noteq> s_id s" using n first_min_Some by (fastforce simp: heir_def)
    then show ?thesis
      using Some adv rows(1) ids
      by (auto simp: promote_rows turn_def finish_def give_turn_def simp del: promote_step_tables)
  qed
  then show ?thesis
    using n run1 d run_steps_cong [OF d(1)] by (auto simp: find_run_def)
qed

lemma sorted_rest:
  assumes "finite A" "x \<in> A" "Min A = x"
  shows "sorted_list_of_set (A - {x}) = tl (sorted_list_of_set A)"
  using sorted_list_of_set_nonempty [of A] assms by fastforce

lemma plain_turn:
  assumes "plain c answer rid w" "active_step rid w = Some s" "co_authority opts = None"
  shows "plain c answer rid (deliver c opts answer rid w)
    \<and> todo rid (deliver c opts answer rid w) = tl (todo rid w)"
proof -
  let ?w' = "deliver c opts answer rid w" and ?ss = "run_steps rid w"
  have s: "s \<in> set ?ss" "unfinished s" "s_status s \<noteq> SWaiting"
    using plain_active [OF assms(1,2)] by auto
  have tn: "one_turn ?ss" and pl: "\<forall>u \<in> set ?ss. plain_step c answer u"
    and d: "distinct (map s_id (steps w))"
    using assms(1) by (auto simp: plain_def list_all_iff)
  have inj: "inj_on s_id (set ?ss)"
    using d by (rule inj_on_subset [OF distinct_map [THEN iffD1, THEN conjunct2]]) (auto simp: run_steps_def)
  obtain n t1 t2 where rows: "run_steps rid ?w'
      = map (turn (s_id s) n (finish (answer (s_id s)) t1) (give_turn t2)) ?ss"
    and ids: "map s_id (steps ?w') = map s_id (steps w)"
    and n: "n = heir (s_id s) ?ss"
    and r: "\<exists>r. find_run rid ?w' = Some r \<and> calm r
        \<and> r_status r = (if n = None then RCompleted else RRunning)"
    using plain_rows [OF assms] by blast
  note nxt = heir_first [OF inj s(1), folded n]
  have kept: "one_turn (run_steps rid ?w')
    \<and> s_step_index ` set (filter unfinished (run_steps rid ?w'))
      = s_step_index ` set (filter unfinished ?ss) - {s_step_index s}"
    unfolding rows
    by (rule turn_keeps [OF tn s inj _ _ _ _ nxt]) (simp_all add: finish_def give_turn_def unfinished_def)
  note tn' = conjunct1 [OF kept] and left = conjunct2 [OF kept]
  have "Min (s_step_index ` set (filter unfinished ?ss)) = s_step_index s"
    using s tn by (intro Min_eqI) (auto simp: one_turn_def)
  then have tl: "todo rid ?w' = tl (todo rid w)"
    unfolding todo_def left by (intro sorted_rest) (use s in auto)
  have "todo rid ?w' = [] \<longleftrightarrow> n = None"
    unfolding todo_def left using heir_none [OF tn s inj] n by simp
  moreover have "list_all (plain_step c answer) (run_steps rid ?w')"
    using pl by (auto simp: rows list_all_iff turn_def finish_def give_turn_def plain_step_def)
  ultimately show ?thesis using tn' r ids d tl by (auto simp: plain_def)
qed

section \<open>The contract\<close>

lemma active_when_todo:
  assumes "plain c answer rid w" "todo rid w \<noteq> []"
  shows "\<exists>s. active_step rid w = Some s"
proof -
  let ?A = "set (filter unfinished (run_steps rid w))"
  have "?A \<noteq> {}" using assms(2) by (auto simp: todo_def)
  then obtain s where s: "s \<in> ?A" "\<forall>u \<in> ?A. s_step_index s \<le> s_step_index u"
    using ex_min_if_finite [of "s_step_index ` ?A"] by (auto simp: not_less)
  then have "s_status s \<noteq> SWaiting" using assms(1) by (auto simp: plain_def one_turn_def)
  then have "filter (\<lambda>s. s_status s = SPending \<or> s_status s = SRunning) (run_steps rid w) \<noteq> []"
    using s(1) by (auto simp: unfinished_def filter_empty_conv)
  then show ?thesis by (simp add: active_step_def flip: not_None_eq)
qed

lemma deliver_plain:
  assumes "plain c answer rid w" "co_authority opts = None"
  shows "plain c answer rid (deliver c opts answer rid w)
    \<and> todo rid (deliver c opts answer rid w) = tl (todo rid w)"
proof (cases "todo rid w")
  case Nil
  then have "active_step rid w = None"
    using plain_active [OF assms(1)] by (cases "active_step rid w") (fastforce simp: todo_def)+
  then show ?thesis using assms(1) Nil by (simp add: deliver_def)
next
  case (Cons i rest)
  then show ?thesis using active_when_todo [OF assms(1)] plain_turn assms by fastforce
qed

lemma plain_status:
  "plain c answer rid w \<Longrightarrow>
   run_status_of rid w = Some (if todo rid w = [] then RCompleted else RRunning)"
  by (auto simp: plain_def run_status_of_def split: option.splits)

lemma plain_done:
  assumes "plain c answer rid w" "todo rid w = []"
  shows "\<forall>s \<in> set (run_steps rid w). s_status s = SDone \<or> s_status s = SSkipped"
proof
  fix s assume s: "s \<in> set (run_steps rid w)"
  then have "\<not> unfinished s" using assms(2) by (auto simp: todo_def filter_empty_conv)
  moreover have "plain_step c answer s" using assms(1) s by (auto simp: plain_def list_all_iff)
  ultimately show "s_status s = SDone \<or> s_status s = SSkipped"
    by (cases "s_status s") (auto simp: unfinished_def plain_step_def)
qed

text \<open>C25.  A plain run refines a queue of step indices: the reply of the step that has the turn takes
  the head of the queue and nothing else, one later step gets the turn, and the run is completed exactly
  when the queue is empty.\<close>

theorem plain_run_refines_queue:
  assumes "plain c answer rid w" "co_authority opts = None"
  shows "plain c answer rid (deliver c opts answer rid w)
    \<and> todo rid (deliver c opts answer rid w) = tl (todo rid w)
    \<and> run_status_of rid (deliver c opts answer rid w)
      = Some (if tl (todo rid w) = [] then RCompleted else RRunning)"
  using deliver_plain [OF assms] plain_status by metis

text \<open>C26.  Every plain run is completed: as many accepted replies as it has unfinished steps bring it to
  the end, with every step done or skipped.\<close>

theorem plain_run_completes:
  assumes "plain c answer rid w" "co_authority opts = None"
  shows "run_status_of rid ((deliver c opts answer rid ^^ length (todo rid w)) w) = Some RCompleted
    \<and> (\<forall>s \<in> set (run_steps rid ((deliver c opts answer rid ^^ length (todo rid w)) w)).
         s_status s = SDone \<or> s_status s = SSkipped)"
proof -
  let ?d = "\<lambda>n. (deliver c opts answer rid ^^ n) w"
  have "plain c answer rid (?d n) \<and> todo rid (?d n) = drop n (todo rid w)" for n
    by (induction n) (use assms deliver_plain in \<open>auto simp: drop_Suc tl_drop\<close>)
  then have p: "plain c answer rid (?d (length (todo rid w)))" "todo rid (?d (length (todo rid w))) = []"
    by auto
  show ?thesis using plain_status [OF p(1)] p(2) plain_done [OF p] by simp
qed

text \<open>A run of two steps, the first with the turn.\<close>

definition plain_store :: store where
  "plain_store = store0\<lparr>steps :=
     [step0\<lparr>s_status := SPending\<rparr>,
      step0\<lparr>s_id := ''q'', s_step_id := ''build'', s_step_index := 4, s_status := SWaiting\<rparr>]\<rparr>"

lemma plain_sample:
  "plain surroundings0 (\<lambda>_. ''STATUS: done'') ''r'' plain_store" "todo ''r'' plain_store = [0, 4]"
  by code_simp+

lemma plain_run_refines_queue_witness:
  "todo ''r'' (deliver surroundings0 opts0 (\<lambda>_. ''STATUS: done'') ''r'' plain_store) = [4]"
  using plain_run_refines_queue [OF plain_sample(1), of opts0] plain_sample(2) by (simp add: opts0_def)

lemma plain_run_completes_witness:
  "run_status_of ''r'' ((deliver surroundings0 opts0 (\<lambda>_. ''STATUS: done'') ''r'' ^^ 2) plain_store)
    = Some RCompleted"
  using plain_run_completes [OF plain_sample(1), of opts0] plain_sample(2)
  by (simp add: opts0_def numeral_2_eq_2)

text \<open>\<^verbatim>\<open>pause_drain\<close> is the flag an operator's pause sets in the run context, and no reserved key: a reply can
  pause its run.\<close>

lemma reply_can_pause_run:
  "run_status_of ''r'' (fst (completeStep surroundings0 opts0 ''p''
     (''STATUS: done'' @ [newline] @ ''PAUSE_DRAIN: true'') plain_store)) = Some RPaused"
  by code_simp

end
