(* ===== verification/Process_Identity.thy ===== *)
theory Process_Identity
  imports Instant
begin

text \<open>
  The identity of a process beyond its number (\<^verbatim>\<open>src/src/lib/process-start-identity.ts\<close>): the start of a
  process in epoch milliseconds, written \<^verbatim>\<open>v2:<pid>:<start>\<close>, read back and compared with a tolerance,
  and computed from the texts of \<^verbatim>\<open>/proc\<close> and of the macOS helper.  Process ids, ticks and seconds are
  natural numbers; the model is exact where the program's numbers are safe integers.
\<close>

definition PROCESS_START_IDENTITY_TOLERANCE_MS :: nat where
  "PROCESS_START_IDENTITY_TOLERANCE_MS = 1000"

definition safe_integer :: "nat \<Rightarrow> bool" where
  "safe_integer n \<longleftrightarrow> n < 2 ^ 53"

record process_start =
  ps_pid :: nat
  ps_start :: nat

definition formatProcessStartIdentity :: "nat \<Rightarrow> nat \<Rightarrow> string" where
  "formatProcessStartIdentity pid startMs = ''v2:'' @ nat_str pid @ '':'' @ nat_str startMs"

text \<open>\<^verbatim>\<open>/^v2:(\d+):(\d+)$/\<close> on the trimmed text.\<close>

definition parseProcessStartIdentity :: "string option \<Rightarrow> process_start option" where
  "parseProcessStartIdentity v =
     (case v of
        None \<Rightarrow> None
      | Some s \<Rightarrow>
          (let t = trim s; d = takeWhile is_digit (drop 3 t); r = dropWhile is_digit (drop 3 t)
           in if starts_with ''v2:'' t \<and> d \<noteq> [] \<and> starts_with '':'' r \<and> tl r \<noteq> []
                \<and> list_all is_digit (tl r) \<and> read_num d > 0 \<and> safe_integer (read_num (tl r))
              then Some \<lparr>ps_pid = read_num d, ps_start = read_num (tl r)\<rparr> else None))"

datatype comparison = SameProcess | DifferentProcess | UnknownProcess

definition compareProcessStartIdentities :: "string option \<Rightarrow> string option \<Rightarrow> comparison" where
  "compareProcessStartIdentities expected actual =
     (case (parseProcessStartIdentity expected, parseProcessStartIdentity actual) of
        (Some e, Some a) \<Rightarrow>
          if ps_pid e \<noteq> ps_pid a then DifferentProcess
          else if \<bar>int (ps_start e) - int (ps_start a)\<bar> \<le> int PROCESS_START_IDENTITY_TOLERANCE_MS
          then SameProcess else DifferentProcess
      | _ \<Rightarrow> UnknownProcess)"

section \<open>Linux\<close>

text \<open>\<^verbatim>\<open>lastIndexOf(')')\<close> and what follows it and one more character.\<close>

definition after_comm :: "string \<Rightarrow> string option" where
  "after_comm s =
     (if CHR '')'' \<in> set s then Some (drop 1 (rev (takeWhile (\<lambda>c. c \<noteq> CHR '')'') (rev s)))) else None)"

text \<open>\<^verbatim>\<open>trim().split(/\s+/)\<close> of a text that is not blank.\<close>

function words_of :: "string \<Rightarrow> string list" where
  "words_of s =
     (let r = dropWhile is_ws s
      in if r = [] then []
         else takeWhile (\<lambda>c. \<not> is_ws c) r # words_of (dropWhile (\<lambda>c. \<not> is_ws c) r))"
  by auto

termination
proof (relation "measure length")
  fix s r :: string
  assume "r = dropWhile is_ws s" "r \<noteq> []"
  then obtain c t where "r = c # t" "\<not> is_ws c" "length r \<le> length s"
    using dropWhile_ws_first [of is_ws s] length_dropWhile_le [of is_ws s] by (cases r) metis+
  then show "(dropWhile (\<lambda>c. \<not> is_ws c) r, s) \<in> measure length"
    using length_dropWhile_le [of "\<lambda>c. \<not> is_ws c" t] by simp
qed simp

declare words_of.simps [simp del]

text \<open>\<^verbatim>\<open>/^btime\s+(\d+)\s*$/m\<close>: the digits may be followed by white space up to the end of a line.\<close>

definition line_ends :: "string \<Rightarrow> bool" where
  "line_ends r \<longleftrightarrow>
     (let ws = takeWhile is_ws r in list_ex is_line_term ws \<or> dropWhile is_ws r = [])"

definition btime_at :: "string \<Rightarrow> string option" where
  "btime_at s =
     (let r = drop 5 s; t = dropWhile is_ws r; d = takeWhile is_digit t
      in if starts_with ''btime'' s \<and> takeWhile is_ws r \<noteq> [] \<and> d \<noteq> [] \<and> line_ends (dropWhile is_digit t)
         then Some d else None)"

fun find_btime :: "bool \<Rightarrow> string \<Rightarrow> string option" where
  "find_btime start [] = None"
| "find_btime start (c # cs) =
     (case (if start then btime_at (c # cs) else None) of
        Some d \<Rightarrow> Some d
      | None \<Rightarrow> find_btime (is_line_term c) cs)"

text \<open>\<^verbatim>\<open>Math.round(ticks * 1000 / rate)\<close>, halves up.\<close>

definition ticks_ms :: "nat \<Rightarrow> nat \<Rightarrow> nat" where
  "ticks_ms ticks rate = (2 * (ticks * 1000) + rate) div (2 * rate)"

definition parseLinuxStartIdentity :: "nat \<Rightarrow> string \<Rightarrow> string \<Rightarrow> nat \<Rightarrow> string option" where
  "parseLinuxStartIdentity pid statText procStatText rate =
     (if pid = 0 \<or> rate = 0 then None
      else (case after_comm statText of
              None \<Rightarrow> None
            | Some rest \<Rightarrow>
                (let fs = words_of rest
                 in if length fs \<le> 19 \<or> \<not> list_all is_digit (fs ! 19) then None
                    else (case find_btime True procStatText of
                            None \<Rightarrow> None
                          | Some b \<Rightarrow>
                              if \<not> safe_integer (read_num (fs ! 19)) \<or> \<not> safe_integer (read_num b)
                                \<or> read_num b = 0 then None
                              else Some (formatProcessStartIdentity pid
                                           (read_num b * 1000 + ticks_ms (read_num (fs ! 19)) rate))))))"

section \<open>macOS\<close>

definition parseDarwinStartIdentity :: "nat \<Rightarrow> string \<Rightarrow> string option" where
  "parseDarwinStartIdentity pid helperText =
     (let t = trim helperText; sec = takeWhile is_digit t; r = dropWhile is_digit t; usec = tl r
      in if pid > 0 \<and> sec \<noteq> [] \<and> starts_with ''.'' r \<and> usec \<noteq> [] \<and> length usec \<le> 6
           \<and> list_all is_digit usec \<and> safe_integer (read_num sec) \<and> read_num sec > 0
         then Some (formatProcessStartIdentity pid (read_num sec * 1000 + read_num usec div 1000))
         else None)"

section \<open>The auxiliary vector\<close>

text \<open>A word of the vector from its bytes; \<open>None\<close> past the safe integers.\<close>

fun le_word :: "nat list \<Rightarrow> nat" where
  "le_word [] = 0"
| "le_word (b # bs) = b + 256 * le_word bs"

definition readAuxvWord :: "bool \<Rightarrow> nat list \<Rightarrow> nat option" where
  "readAuxvWord littleEndian bs =
     (let n = le_word (if littleEndian then bs else rev bs) in if safe_integer n then Some n else None)"

definition AUXV_AT_CLKTCK :: nat where
  "AUXV_AT_CLKTCK = 17"

text \<open>\<open>wordSize\<close> is 4 or 8; the vector is read pair by pair.\<close>

function scan_auxv :: "nat \<Rightarrow> bool \<Rightarrow> nat list \<Rightarrow> nat option" where
  "scan_auxv wordSize le bs =
     (if wordSize = 0 \<or> length bs < 2 * wordSize then None
      else (case readAuxvWord le (take wordSize bs) of
              None \<Rightarrow> None
            | Some ty \<Rightarrow>
                if ty \<noteq> AUXV_AT_CLKTCK then scan_auxv wordSize le (drop (2 * wordSize) bs)
                else (case readAuxvWord le (take wordSize (drop wordSize bs)) of
                        None \<Rightarrow> None
                      | Some v \<Rightarrow> if v = 0 then None else Some v)))"
  by auto

termination by (relation "measure (\<lambda>(_, _, bs). length bs)") auto

declare scan_auxv.simps [simp del]

definition parseAuxvClockTicksPerSecond :: "nat list \<Rightarrow> nat \<Rightarrow> bool \<Rightarrow> nat option" where
  "parseAuxvClockTicksPerSecond auxv wordSize littleEndian =
     (if wordSize \<noteq> 4 \<and> wordSize \<noteq> 8 then None else scan_auxv wordSize littleEndian auxv)"

section \<open>What a comparison tells\<close>

lemma nat_str_digits: "list_all is_digit (nat_str n)"
  by (induction n rule: nat_str.induct) (subst nat_str.simps, simp add: is_digit_digit_char)

lemma read_num_nat_str: "read_num (nat_str n) = n"
proof (induction n rule: nat_str.induct)
  case (1 n)
  show ?case
  proof (cases "n < 10")
    case True
    then show ?thesis by (subst nat_str.simps) (simp add: read_num_def code_of_digit_char)
  next
    case False
    then show ?thesis using 1 by (subst nat_str.simps) (simp add: read_num_snoc code_of_digit_char)
  qed
qed

lemma parse_format:
  assumes "pid > 0" "safe_integer t"
  shows "parseProcessStartIdentity (Some (formatProcessStartIdentity pid t)) = Some \<lparr>ps_pid = pid, ps_start = t\<rparr>"
proof -
  let ?s = "formatProcessStartIdentity pid t"
  have c: "\<not> is_digit (CHR '':'')" "\<not> is_ws (CHR ''v'')" by (simp_all add: char_class_defs js_simps)
  have "is_digit (last (nat_str t))" using nat_str_digits [of t] by (simp add: list_all_iff)
  then have "\<not> is_ws (last (nat_str t))" by (auto simp: char_class_defs)
  then have t: "trim ?s = ?s"
    by (intro trim_id) (auto simp: formatProcessStartIdentity_def c)
  have "takeWhile is_digit (nat_str pid @ CHR '':'' # r) = nat_str pid"
    "dropWhile is_digit (nat_str pid @ CHR '':'' # r) = CHR '':'' # r" for r
    using nat_str_digits [of pid] c by (simp_all add: takeWhile_append dropWhile_append list_all_iff)
  then show ?thesis
    using assms nat_str_digits [of t] t
    by (simp add: parseProcessStartIdentity_def formatProcessStartIdentity_def read_num_nat_str Let_def)
qed

text \<open>A process number given away again is told apart when its new process started more than the
  tolerance later; a process is never told apart from itself.\<close>

lemma compare_identities:
  assumes "pid > 0" "safe_integer a" "safe_integer b"
  shows "compareProcessStartIdentities (Some (formatProcessStartIdentity pid a))
      (Some (formatProcessStartIdentity pid b))
    = (if \<bar>int a - int b\<bar> \<le> 1000 then SameProcess else DifferentProcess)"
  by (simp add: compareProcessStartIdentities_def parse_format assms PROCESS_START_IDENTITY_TOLERANCE_MS_def)

end
