(* ===== verification/Suite_Claims.thy ===== *)
theory Suite_Claims
  imports Process_Identity "HOL-Library.AList"
begin

text \<open>
  The single-flight claims of suite executions (\<^verbatim>\<open>src/src/server/control-server.ts\<close>): before a test
  suite runs on a tree its caller claims the key of repository, tree and command; other callers wait
  until the result is recorded, the claim is released, its owner is dead or the claim times out.

  The two maps of the daemon are association lists in insertion order.  The key is the triple that the
  program encodes as a JSON array.  A request body is read field by field: a text, a safe integer, another
  number, or anything else.  The clock, the probe of the owner's process and the later clock reading of a grant
  come with the request; the emitter of events is the list of events.
\<close>

section \<open>Requests\<close>

datatype field = FText string | FInt int | FNumber | FOther

type_synonym body = "string \<Rightarrow> field option"

definition text_field :: "body \<Rightarrow> string \<Rightarrow> string option" where
  "text_field b k = (case b k of Some (FText s) \<Rightarrow> Some s | _ \<Rightarrow> None)"

type_synonym claim_key = "string \<times> string \<times> string"

record claim_fields =
  cf_key :: claim_key
  cf_token :: "string option"
  cf_pid :: "nat option"
  cf_start :: "string option"
  cf_run :: "string option"
  cf_step :: "string option"

record suite_claim = claim_fields +
  sc_claimed_at :: int

definition CLAIM_TIMEOUT_MS :: int where
  "CLAIM_TIMEOUT_MS = 30 * 60 * 1000"

definition SUITE_ORIGIN_MAX_LENGTH :: nat where "SUITE_ORIGIN_MAX_LENGTH = 2048"

definition SUITE_HASH_MAX_LENGTH :: nat where "SUITE_HASH_MAX_LENGTH = 128"

definition SUITE_OWNER_MAX_LENGTH :: nat where "SUITE_OWNER_MAX_LENGTH = 128"

definition sized :: "nat \<Rightarrow> string option \<Rightarrow> bool" where
  "sized m v = (case v of None \<Rightarrow> False | Some s \<Rightarrow> s \<noteq> [] \<and> length s \<le> m)"

definition short_field :: "body \<Rightarrow> string \<Rightarrow> string option" where
  "short_field b k = (if sized SUITE_OWNER_MAX_LENGTH (text_field b k) then text_field b k else None)"

definition owner_pid_field :: "body \<Rightarrow> nat option" where
  "owner_pid_field b =
     (case b ''owner_pid'' of Some (FInt i) \<Rightarrow> if i > 0 then Some (nat i) else None | _ \<Rightarrow> None)"

definition validateSuiteClaimFields :: "body \<Rightarrow> claim_fields option" where
  "validateSuiteClaimFields b =
     (let origin = text_field b ''origin_repo''; tree = text_field b ''tree_hash'';
          cmd = text_field b ''cmd_hash''
      in if \<not> sized SUITE_ORIGIN_MAX_LENGTH origin \<or> \<not> sized SUITE_HASH_MAX_LENGTH tree
           \<or> \<not> sized SUITE_HASH_MAX_LENGTH cmd
           \<or> b ''owner_token'' \<noteq> None \<and> \<not> sized SUITE_OWNER_MAX_LENGTH (text_field b ''owner_token'')
           \<or> b ''owner_start_time'' \<noteq> None
             \<and> \<not> sized SUITE_OWNER_MAX_LENGTH (text_field b ''owner_start_time'')
         then None
         else Some \<lparr>cf_key = (the origin, the tree, the cmd), cf_token = text_field b ''owner_token'',
                    cf_pid = owner_pid_field b, cf_start = text_field b ''owner_start_time'',
                    cf_run = short_field b ''run_id'', cf_step = short_field b ''step_id''\<rparr>)"

section \<open>The owner's process\<close>

datatype liveness = OwnerAlive | OwnerDead | OwnerIndeterminate

datatype signal_zero = Delivered | NoProcess | SignalError

definition probeSuiteOwnerPid ::
    "(nat \<Rightarrow> signal_zero) \<Rightarrow> (nat \<Rightarrow> string option) \<Rightarrow> nat \<Rightarrow> string option \<Rightarrow> liveness" where
  "probeSuiteOwnerPid signalZero readStartTime pid expected =
     (case signalZero pid of
        NoProcess \<Rightarrow> OwnerDead
      | SignalError \<Rightarrow> OwnerIndeterminate
      | Delivered \<Rightarrow>
          if expected = None then OwnerAlive
          else if readStartTime pid = None then OwnerIndeterminate
          else (case compareProcessStartIdentities expected (readStartTime pid) of
                  SameProcess \<Rightarrow> OwnerAlive
                | DifferentProcess \<Rightarrow> OwnerDead
                | UnknownProcess \<Rightarrow> OwnerIndeterminate))"

record runtime =
  rt_now :: int
  rt_granted :: int
  rt_probe :: "nat \<Rightarrow> string option \<Rightarrow> liveness"

definition claimOwnerLiveness :: "suite_claim \<Rightarrow> runtime \<Rightarrow> liveness" where
  "claimOwnerLiveness c rt =
     (case cf_pid c of None \<Rightarrow> OwnerIndeterminate | Some p \<Rightarrow> rt_probe rt p (cf_start c))"

section \<open>The table of claims\<close>

record claim_event =
  ce_name :: string
  ce_runId :: string
  ce_stepId :: "string option"
  ce_key :: claim_key
  ce_owner :: "string option \<times> string option \<times> nat option"
  ce_reclaimer :: "string option \<times> string option \<times> nat option"
  ce_reason :: "string option"

record claims =
  cl_live :: "(claim_key \<times> suite_claim) list"
  cl_swept :: "(claim_key \<times> suite_claim) list"
  cl_events :: "claim_event list"

definition no_claims :: claims where
  "no_claims = \<lparr>cl_live = [], cl_swept = [], cl_events = []\<rparr>"

definition parties :: "claim_fields option \<Rightarrow> string option \<times> string option \<times> nat option" where
  "parties f =
     (case f of None \<Rightarrow> (None, None, None) | Some a \<Rightarrow> (cf_run a, cf_step a, cf_pid a))"

definition owner_of :: "suite_claim \<Rightarrow> string option \<times> string option \<times> nat option" where
  "owner_of c = (cf_run c, cf_step c, cf_pid c)"

definition first_given :: "'a option \<Rightarrow> 'a option \<Rightarrow> 'a option" where
  "first_given a b = (case a of None \<Rightarrow> b | Some x \<Rightarrow> Some x)"

definition or_blank :: "string option \<Rightarrow> string" where
  "or_blank v = (case v of None \<Rightarrow> [] | Some s \<Rightarrow> s)"

definition log_claim :: "claim_event \<Rightarrow> claims \<Rightarrow> claims" where
  "log_claim e st = st\<lparr>cl_events := cl_events st @ [e]\<rparr>"

definition emitDeadOwnerReclaim :: "suite_claim \<Rightarrow> claim_fields option \<Rightarrow> claims \<Rightarrow> claims" where
  "emitDeadOwnerReclaim c r st =
     log_claim \<lparr>ce_name = ''suite.claim_dead_owner_reclaimed'',
       ce_runId = or_blank (first_given (Option.bind r cf_run) (cf_run c)),
       ce_stepId = Option.bind r cf_step, ce_key = cf_key c, ce_owner = owner_of c,
       ce_reclaimer = parties r, ce_reason = None\<rparr> st"

definition emitClaimTimelineEvent ::
    "string \<Rightarrow> suite_claim \<Rightarrow> claim_fields option \<Rightarrow> string option \<Rightarrow> claims \<Rightarrow> claims" where
  "emitClaimTimelineEvent name c actor reason st =
     log_claim \<lparr>ce_name = name, ce_runId = or_blank (first_given (Option.bind actor cf_run) (cf_run c)),
       ce_stepId = first_given (Option.bind actor cf_step) (cf_step c), ce_key = cf_key c,
       ce_owner = owner_of c, ce_reclaimer = parties actor, ce_reason = reason\<rparr> st"

definition claim_expired :: "runtime \<Rightarrow> suite_claim \<Rightarrow> bool" where
  "claim_expired rt c \<longleftrightarrow> rt_now rt - sc_claimed_at c > CLAIM_TIMEOUT_MS"

text \<open>One claim of the sweep.\<close>

definition sweep_claim ::
    "runtime \<Rightarrow> claim_key option \<Rightarrow> claim_fields option \<Rightarrow> claim_key \<times> suite_claim \<Rightarrow> claims \<Rightarrow> claims" where
  "sweep_claim rt collision reclaimer kc st =
     (let (k, c) = kc
      in if claim_expired rt c
         then st\<lparr>cl_live := AList.delete k (cl_live st), cl_swept := AList.delete k (cl_swept st)\<rparr>
         else if claimOwnerLiveness c rt \<noteq> OwnerDead then st
         else (let st1 = st\<lparr>cl_live := AList.delete k (cl_live st)\<rparr>
               in if collision = Some k then emitDeadOwnerReclaim c reclaimer st1
                  else st1\<lparr>cl_swept := AList.update k c (cl_swept st1)\<rparr>))"

definition cleanStaleClaims ::
    "runtime \<Rightarrow> claim_key option \<Rightarrow> claim_fields option \<Rightarrow> claims \<Rightarrow> claims" where
  "cleanStaleClaims rt collision reclaimer st =
     fold (sweep_claim rt collision reclaimer) (cl_live st)
       (st\<lparr>cl_swept := filter (\<lambda>(k, c). \<not> claim_expired rt c) (cl_swept st)\<rparr>)"

section \<open>The handlers\<close>

datatype response =
  BadRequest string
| Conflict string
| ActionRun
| ActionWait int
| ReleasedOne bool
| ReleasedAll nat
| Recorded

definition granted_claim :: "claim_fields \<Rightarrow> runtime \<Rightarrow> suite_claim" where
  "granted_claim f rt = claim_fields.extend f \<lparr>sc_claimed_at = rt_granted rt\<rparr>"

definition handleSuiteClaim :: "body \<Rightarrow> runtime \<Rightarrow> claims \<Rightarrow> claims \<times> response" where
  "handleSuiteClaim b rt st =
     (case validateSuiteClaimFields b of
        None \<Rightarrow> (st, BadRequest ''Invalid or oversized suite claim fields'')
      | Some f \<Rightarrow>
          (let k = cf_key f; st1 = cleanStaleClaims rt (Some k) (Some f) st
           in case map_of (cl_live st1) k of
                Some c \<Rightarrow>
                  (emitClaimTimelineEvent ''suite.claim_wait'' c (Some f) None st1,
                   ActionWait (sc_claimed_at c))
              | None \<Rightarrow>
                  (let st2 = (case map_of (cl_swept st1) k of
                                None \<Rightarrow> st1
                              | Some d \<Rightarrow>
                                  emitDeadOwnerReclaim d (Some f)
                                    (st1\<lparr>cl_swept := AList.delete k (cl_swept st1)\<rparr>));
                       c = granted_claim f rt
                   in (emitClaimTimelineEvent ''suite.claim_granted'' c (Some f) None
                         (st2\<lparr>cl_live := AList.update k c (cl_live st2)\<rparr>), ActionRun))))"

definition handleSuiteRelease :: "body \<Rightarrow> claims \<Rightarrow> claims \<times> response" where
  "handleSuiteRelease b st =
     (case validateSuiteClaimFields b of
        None \<Rightarrow> (st, BadRequest ''Invalid or oversized suite release fields'')
      | Some f \<Rightarrow>
          (case map_of (cl_live st) (cf_key f) of
             None \<Rightarrow> (st, ReleasedOne False)
           | Some c \<Rightarrow>
               if cf_token c \<noteq> cf_token f then (st, Conflict ''Suite claim is owned by another caller'')
               else (emitClaimTimelineEvent ''suite.claim_owner_released'' c (Some f)
                       (Some (case text_field b ''reason'' of
                                Some r \<Rightarrow> r | None \<Rightarrow> ''exact_owner_release''))
                       (st\<lparr>cl_live := AList.delete (cf_key f) (cl_live st)\<rparr>), ReleasedOne True)))"

definition owned_by :: "string \<Rightarrow> string option \<Rightarrow> suite_claim \<Rightarrow> bool" where
  "owned_by runId stepId c \<longleftrightarrow> cf_run c = Some runId \<and> (stepId = None \<or> cf_step c = stepId)"

text \<open>Events are emitted when the caller passes a runtime.\<close>

definition releaseSuiteClaimsByOwner ::
    "string \<Rightarrow> string option \<Rightarrow> bool \<Rightarrow> string \<Rightarrow> claims \<Rightarrow> claims \<times> nat" where
  "releaseSuiteClaimsByOwner runId stepId announced reason st =
     (let mine = filter (\<lambda>(k, c). owned_by runId stepId c) (cl_live st);
          st1 = st\<lparr>cl_live := filter (\<lambda>(k, c). \<not> owned_by runId stepId c) (cl_live st)\<rparr>
      in (if announced
          then fold (\<lambda>(k, c). emitClaimTimelineEvent ''suite.claim_owner_released'' c None (Some reason))
                 mine st1
          else st1, length mine))"

definition handleSuiteOwnerRelease :: "body \<Rightarrow> claims \<Rightarrow> claims \<times> response" where
  "handleSuiteOwnerRelease b st =
     (let runId = trim (or_blank (text_field b ''run_id'')); stepId = map_option trim (text_field b ''step_id'')
      in if runId = [] \<or> length runId > SUITE_OWNER_MAX_LENGTH
           \<or> stepId \<noteq> None \<and> \<not> sized SUITE_OWNER_MAX_LENGTH stepId
         then (st, BadRequest ''Invalid suite claim owner attribution'')
         else map_prod id ReleasedAll
                (releaseSuiteClaimsByOwner runId stepId True
                   (case text_field b ''reason'' of Some r \<Rightarrow> r | None \<Rightarrow> ''owner_recovery'') st))"

text \<open>What recording a result does to the claims.\<close>

definition clear_claim :: "claim_key \<Rightarrow> claims \<Rightarrow> claims" where
  "clear_claim k st =
     st\<lparr>cl_live := AList.delete k (cl_live st), cl_swept := AList.delete k (cl_swept st)\<rparr>"

definition record_request :: "body \<Rightarrow> claim_key option" where
  "record_request b =
     (let texts = map (\<lambda>k. or_blank (text_field b k)) [''origin_repo'', ''tree_hash'', ''cmd_hash'', ''cmd_display''];
          numbers = map b [''exit_code'', ''duration_ms'']
      in if [] \<in> set texts \<or> list_ex (\<lambda>v. case v of Some (FInt _) \<Rightarrow> False | Some FNumber \<Rightarrow> False | _ \<Rightarrow> True) numbers then None
         else Some (texts ! 0, texts ! 1, texts ! 2))"

definition record_ends_claim :: "body \<Rightarrow> claims \<Rightarrow> claims \<times> response" where
  "record_ends_claim b st =
     (case record_request b of
        None \<Rightarrow>
          (st, BadRequest ''Missing required fields: origin_repo, tree_hash, cmd_hash, cmd_display, exit_code, duration_ms'')
      | Some k \<Rightarrow> (clear_claim k st, Recorded))"

section \<open>Requests in sequence\<close>

text \<open>The daemon serves one request after another; the end of a run releases its claims.\<close>

datatype request =
  Claim body
| Release body
| OwnerRelease body
| Record body
| EndOfRun string string

definition serve :: "runtime \<times> request \<Rightarrow> claims \<Rightarrow> claims \<times> response" where
  "serve q st =
     (case q of
        (rt, Claim b) \<Rightarrow> handleSuiteClaim b rt st
      | (rt, Release b) \<Rightarrow> handleSuiteRelease b st
      | (rt, OwnerRelease b) \<Rightarrow> handleSuiteOwnerRelease b st
      | (rt, Record b) \<Rightarrow> record_ends_claim b st
      | (rt, EndOfRun r reason) \<Rightarrow>
          map_prod id ReleasedAll (releaseSuiteClaimsByOwner r None True reason st))"

definition serve_all :: "(runtime \<times> request) list \<Rightarrow> claims \<Rightarrow> claims" where
  "serve_all qs st = fold (\<lambda>q s. fst (serve q s)) qs st"

end
