(* ===== verification/Suite_Claims_Props.thy ===== *)
theory Suite_Claims_Props
  imports Suite_Claims
begin

text \<open>
  What is proved of the claims: a key is granted exactly when it is free, timed out or its owner is
  dead, and from a grant to its end every other caller waits, whatever requests come in between.
\<close>

section \<open>The sweep\<close>

definition stale :: "runtime \<Rightarrow> suite_claim \<Rightarrow> bool" where
  "stale rt c \<longleftrightarrow> claim_expired rt c \<or> claimOwnerLiveness c rt = OwnerDead"

text \<open>One claim per key, under its own key.\<close>

definition claims_ok :: "claims \<Rightarrow> bool" where
  "claims_ok st \<longleftrightarrow> distinct (map fst (cl_live st)) \<and> (\<forall>(k, c) \<in> set (cl_live st). cf_key c = k)"

lemma logged_live [simp]:
  "cl_live (emitDeadOwnerReclaim c r st) = cl_live st"
  "cl_live (emitClaimTimelineEvent n c a d st) = cl_live st"
  by (simp_all add: emitDeadOwnerReclaim_def emitClaimTimelineEvent_def log_claim_def)

lemma sweep_claim_live:
  "cl_live (sweep_claim rt x r (k, c) st) = (if stale rt c then AList.delete k (cl_live st) else cl_live st)"
  by (simp add: sweep_claim_def stale_def Let_def)

lemma sweep_fold_live:
  "cl_live (fold (sweep_claim rt x r) L st) =
     filter (\<lambda>(k, c). \<not> (\<exists>d. (k, d) \<in> set L \<and> stale rt d)) (cl_live st)"
proof (induction L arbitrary: st)
  case Nil
  then show ?case by (simp add: case_prod_unfold)
next
  case (Cons kc L)
  obtain k c where kc: "kc = (k, c)" by fastforce
  show ?case
    by (auto simp: kc Cons.IH sweep_claim_live AList.delete_eq filter_filter intro!: filter_cong)
qed

lemma sweep_live:
  assumes "distinct (map fst (cl_live st))"
  shows "cl_live (cleanStaleClaims rt x r st) = filter (\<lambda>(k, c). \<not> stale rt c) (cl_live st)"
  unfolding cleanStaleClaims_def sweep_fold_live
  using assms by (auto intro!: filter_cong dest: eq_key_imp_eq_value)

lemma map_of_filter:
  "distinct (map fst xs) \<Longrightarrow>
   map_of (filter (\<lambda>(k, c). P c) xs) k = (case map_of xs k of None \<Rightarrow> None | Some c \<Rightarrow> if P c then Some c else None)"
  by (induction xs) (auto simp: map_of_eq_None_iff split: option.splits)

lemma sweep_lookup:
  "claims_ok st \<Longrightarrow>
   map_of (cl_live (cleanStaleClaims rt x r st)) k =
     (case map_of (cl_live st) k of None \<Rightarrow> None | Some c \<Rightarrow> if stale rt c then None else Some c)"
  using map_of_filter [of "cl_live st" "\<lambda>c. \<not> stale rt c" k]
  by (auto simp: claims_ok_def sweep_live split: option.splits)

section \<open>Well-formed tables\<close>

lemma claims_ok_filter:
  "claims_ok st \<Longrightarrow> cl_live st' = filter P (cl_live st) \<Longrightarrow> claims_ok st'"
  by (auto simp: claims_ok_def distinct_map_filter)

lemma claims_ok_same: "claims_ok st \<Longrightarrow> cl_live st' = cl_live st \<Longrightarrow> claims_ok st'"
  by (simp add: claims_ok_def)

lemma claims_ok_update:
  assumes "claims_ok st" "cl_live st' = AList.update k c (cl_live st)" "cf_key c = k"
  shows "claims_ok st'"
proof -
  have "(k', c') \<in> set (AList.update k c xs) \<Longrightarrow> (k', c') = (k, c) \<or> (k', c') \<in> set xs" for k' c' xs
    by (induction xs) (auto split: if_splits)
  then show ?thesis using assms by (fastforce simp: claims_ok_def distinct_update)
qed

lemma claims_ok_delete: "claims_ok st \<Longrightarrow> cl_live st' = AList.delete k (cl_live st) \<Longrightarrow> claims_ok st'"
  by (rule claims_ok_filter) (simp_all add: AList.delete_eq)

lemma released_live [simp]:
  "cl_live (fold (\<lambda>(k, c). emitClaimTimelineEvent n c a d) L st) = cl_live st"
  by (induction L arbitrary: st) auto

lemma owner_release_live:
  "cl_live (fst (releaseSuiteClaimsByOwner r s a d st)) =
     filter (\<lambda>(k, c). \<not> owned_by r s c) (cl_live st)"
  by (simp add: releaseSuiteClaimsByOwner_def Let_def)

lemma claim_live:
  assumes "validateSuiteClaimFields b = Some f"
  shows "cl_live (fst (handleSuiteClaim b rt st)) =
    (let live = cl_live (cleanStaleClaims rt (Some (cf_key f)) (Some f) st)
     in case map_of live (cf_key f) of
          Some c \<Rightarrow> live | None \<Rightarrow> AList.update (cf_key f) (granted_claim f rt) live)"
  using assms by (simp add: handleSuiteClaim_def Let_def split: option.split)

lemma granted_key [simp]:
  "cf_key (granted_claim f rt) = cf_key f" "sc_claimed_at (granted_claim f rt) = rt_granted rt"
  by (simp_all add: granted_claim_def claim_fields.defs)

lemma claims_ok_serve:
  assumes "claims_ok st"
  shows "claims_ok (fst (serve q st))"
proof -
  have sweep: "claims_ok (cleanStaleClaims rt x r st)" for rt x r
    using assms by (rule claims_ok_filter) (use assms in \<open>simp add: claims_ok_def sweep_live\<close>)
  have claim: "claims_ok (fst (handleSuiteClaim b rt st))" for b rt
  proof (cases "validateSuiteClaimFields b")
    case None
    then show ?thesis using assms by (simp add: handleSuiteClaim_def)
  next
    case (Some f)
    show ?thesis
      using claim_live [OF Some, of rt st] claims_ok_same [OF sweep]
        claims_ok_update [OF sweep, of _ "cf_key f" "granted_claim f rt"]
      by (auto simp: Let_def split: option.splits)
  qed
  have owner: "claims_ok (fst (releaseSuiteClaimsByOwner r s a d st))" for r s a d
    using assms owner_release_live by (rule claims_ok_filter)
  have release: "claims_ok (fst (handleSuiteRelease b st))" for b
    using assms claims_ok_delete [OF assms] by (auto simp: handleSuiteRelease_def split: option.splits)
  have clear: "claims_ok (clear_claim k st)" for k
    using assms by (rule claims_ok_delete) (simp add: clear_claim_def)
  show ?thesis
    using claim owner release clear assms
    by (auto simp: serve_def handleSuiteOwnerRelease_def record_ends_claim_def Let_def
        split: prod.splits request.splits option.splits)
qed

lemma claims_ok_serve_all: "claims_ok st \<Longrightarrow> claims_ok (serve_all qs st)"
  by (induction qs arbitrary: st) (auto simp: serve_all_def claims_ok_serve)

section \<open>Single flight\<close>

text \<open>A claim is granted exactly when nobody holds the key: it is free, its claim has timed out, or the
  process that holds it is dead.  Otherwise the caller waits.\<close>

lemma claim_decision:
  assumes "claims_ok st" "validateSuiteClaimFields b = Some f"
  shows "snd (handleSuiteClaim b rt st) =
    (case map_of (cl_live st) (cf_key f) of
       Some c \<Rightarrow> if stale rt c then ActionRun else ActionWait (sc_claimed_at c)
     | None \<Rightarrow> ActionRun)"
  using assms(2) sweep_lookup [OF assms(1), of rt "Some (cf_key f)" "Some f" "cf_key f"]
  by (auto simp: handleSuiteClaim_def Let_def split: option.splits if_splits)

text \<open>A request that does not end the claim \<open>c\<close>.\<close>

definition spares :: "suite_claim \<Rightarrow> runtime \<times> request \<Rightarrow> bool" where
  "spares c q \<longleftrightarrow>
     (case q of
        (rt, Claim b) \<Rightarrow> \<not> stale rt c
      | (rt, Release b) \<Rightarrow>
          (case validateSuiteClaimFields b of
             None \<Rightarrow> True | Some f \<Rightarrow> cf_key f \<noteq> cf_key c \<or> cf_token f \<noteq> cf_token c)
      | (rt, OwnerRelease b) \<Rightarrow>
          \<not> owned_by (trim (or_blank (text_field b ''run_id''))) (map_option trim (text_field b ''step_id'')) c
      | (rt, Record b) \<Rightarrow> record_request b \<noteq> Some (cf_key c)
      | (rt, EndOfRun r reason) \<Rightarrow> cf_run c \<noteq> Some r)"

lemma claim_keeps:
  assumes "claims_ok st" "map_of (cl_live st) (cf_key c) = Some c" "\<not> stale rt c"
  shows "map_of (cl_live (fst (handleSuiteClaim b rt st))) (cf_key c) = Some c"
proof (cases "validateSuiteClaimFields b")
  case None
  then show ?thesis using assms by (simp add: handleSuiteClaim_def)
next
  case (Some f)
  have "map_of (cl_live (cleanStaleClaims rt x r st)) (cf_key c) = Some c" for x r
    using assms by (simp add: sweep_lookup)
  then show ?thesis
    by (auto simp: claim_live [OF Some] Let_def update_conv' split: option.splits)
qed

lemma serve_keeps:
  assumes "claims_ok st" "map_of (cl_live st) (cf_key c) = Some c" "spares c q"
  shows "map_of (cl_live (fst (serve q st))) (cf_key c) = Some c"
proof -
  have owner: "map_of (cl_live (fst (releaseSuiteClaimsByOwner r s a d st))) (cf_key c) = Some c"
    if "\<not> owned_by r s c" for r s a d
    unfolding owner_release_live
    using map_of_filter [of "cl_live st" "\<lambda>x. \<not> owned_by r s x"] assms(1,2) that
    by (simp add: claims_ok_def)
  obtain rt w where q: "q = (rt, w)" by fastforce
  show ?thesis
  proof (cases w)
    case (Claim b)
    then show ?thesis using claim_keeps assms q by (simp add: serve_def spares_def)
  next
    case (Release b)
    then show ?thesis
      using assms q by (auto simp: serve_def spares_def handleSuiteRelease_def delete_conv' split: option.splits)
  next
    case (OwnerRelease b)
    then show ?thesis
      using assms q owner by (auto simp: serve_def spares_def handleSuiteOwnerRelease_def Let_def)
  next
    case (Record b)
    then show ?thesis
      using assms q
      by (auto simp: serve_def spares_def record_ends_claim_def clear_claim_def delete_conv' split: option.splits)
  next
    case (EndOfRun r reason)
    then show ?thesis using assms q owner by (simp add: serve_def spares_def owned_by_def)
  qed
qed

lemma serve_all_keeps:
  "claims_ok st \<Longrightarrow> map_of (cl_live st) (cf_key c) = Some c \<Longrightarrow> \<forall>q \<in> set qs. spares c q \<Longrightarrow>
   map_of (cl_live (serve_all qs st)) (cf_key c) = Some c"
  by (induction qs arbitrary: st) (auto simp: serve_all_def serve_keeps claims_ok_serve)

lemma claims_ok_none: "claims_ok no_claims"
  by (simp add: claims_ok_def no_claims_def)

lemma grant_held:
  assumes "claims_ok st" "validateSuiteClaimFields b = Some f" "snd (handleSuiteClaim b rt st) = ActionRun"
  shows "map_of (cl_live (fst (handleSuiteClaim b rt st))) (cf_key f) = Some (granted_claim f rt)"
proof -
  have "map_of (cl_live (cleanStaleClaims rt (Some (cf_key f)) (Some f) st)) (cf_key f) = None"
    using claim_decision [OF assms(1,2), of rt] assms(3) sweep_lookup [OF assms(1)]
    by (auto split: option.splits if_splits)
  then show ?thesis by (simp add: claim_live [OF assms(2)] Let_def update_conv')
qed

text \<open>C27.  The claim of a suite execution is exclusive: in every sequence of requests, from the grant of a
  key to its release by the owner's token, the end of the owner's run or step, the record of a result,
  the timeout, or the death of the owner's process, every further claim of the key is told to wait.\<close>

theorem suite_claim_exclusive:
  assumes "snd (serve (rt, Claim b) (serve_all qs0 no_claims)) = ActionRun"
    "validateSuiteClaimFields b = Some f" "\<forall>q \<in> set qs. spares (granted_claim f rt) q"
    "validateSuiteClaimFields b' = Some f'" "cf_key f' = cf_key f" "\<not> stale rt' (granted_claim f rt)"
  shows "snd (serve (rt', Claim b') (serve_all qs (fst (serve (rt, Claim b) (serve_all qs0 no_claims)))))
    = ActionWait (rt_granted rt)"
proof -
  let ?st = "serve_all qs0 no_claims" and ?c = "granted_claim f rt"
  have ok: "claims_ok ?st" by (rule claims_ok_serve_all [OF claims_ok_none])
  have "snd (handleSuiteClaim b rt ?st) = ActionRun" using assms(1) by (simp add: serve_def)
  then have "map_of (cl_live (fst (serve (rt, Claim b) ?st))) (cf_key ?c) = Some ?c"
    using grant_held [OF ok assms(2)] by (simp add: serve_def)
  then have "map_of (cl_live (serve_all qs (fst (serve (rt, Claim b) ?st)))) (cf_key f') = Some ?c"
    using serve_all_keeps [of "fst (serve (rt, Claim b) ?st)" ?c qs] claims_ok_serve [OF ok] assms(3,5) by simp
  from claim_decision [OF claims_ok_serve_all [OF claims_ok_serve [OF ok]] assms(4), of rt' qs "(rt, Claim b)",
      unfolded this]
  have "snd (handleSuiteClaim b' rt' (serve_all qs (fst (serve (rt, Claim b) ?st)))) = ActionWait (rt_granted rt)"
    using assms(6) by simp
  then show ?thesis by (simp add: serve_def)
qed

text \<open>C28.  No key stays taken for good: a claim is granted at once when the key is free, when the claim on
  it is more than thirty minutes old, or when the process that holds it is dead; only then.\<close>

theorem suite_claim_granted_iff:
  assumes "validateSuiteClaimFields b = Some f"
  shows "snd (serve (rt, Claim b) (serve_all qs no_claims)) = ActionRun \<longleftrightarrow>
    (case map_of (cl_live (serve_all qs no_claims)) (cf_key f) of
       None \<Rightarrow> True
     | Some c \<Rightarrow> rt_now rt - sc_claimed_at c > CLAIM_TIMEOUT_MS \<or> claimOwnerLiveness c rt = OwnerDead)"
  using claim_decision [OF claims_ok_serve_all [OF claims_ok_none] assms, of rt qs]
  by (auto simp: serve_def stale_def claim_expired_def split: option.splits)

section \<open>Samples\<close>

definition body0 :: body where
  "body0 = [''origin_repo'' \<mapsto> FText ''/r'', ''tree_hash'' \<mapsto> FText ''t'', ''cmd_hash'' \<mapsto> FText ''c'',
     ''owner_token'' \<mapsto> FText ''a'', ''owner_pid'' \<mapsto> FInt 7]"

definition runtime0 :: "int \<Rightarrow> liveness \<Rightarrow> runtime" where
  "runtime0 t l = \<lparr>rt_now = t, rt_granted = t, rt_probe = (\<lambda>_ _. l)\<rparr>"

lemma suite_claim_exclusive_witness:
  "snd (serve (runtime0 900 OwnerAlive, Claim body0)
     (serve_all [(runtime0 500 OwnerAlive, Release (body0(''owner_token'' \<mapsto> FText ''b'')))]
       (fst (serve (runtime0 0 OwnerAlive, Claim body0) no_claims)))) = ActionWait 0"
proof -
  obtain f where f: "validateSuiteClaimFields body0 = Some f" "cf_token f = Some ''a''"
    by (simp add: validateSuiteClaimFields_def body0_def text_field_def sized_def Let_def
        SUITE_ORIGIN_MAX_LENGTH_def SUITE_HASH_MAX_LENGTH_def SUITE_OWNER_MAX_LENGTH_def)
  have g: "validateSuiteClaimFields (body0(''owner_token'' \<mapsto> FText ''b'')) = Some (f\<lparr>cf_token := Some ''b''\<rparr>)"
    using f by (auto simp: validateSuiteClaimFields_def body0_def text_field_def sized_def Let_def
        SUITE_ORIGIN_MAX_LENGTH_def SUITE_HASH_MAX_LENGTH_def SUITE_OWNER_MAX_LENGTH_def
        owner_pid_field_def short_field_def)
  have alive: "\<not> stale (runtime0 900 OwnerAlive) (granted_claim f (runtime0 0 OwnerAlive))"
    by (simp add: stale_def claim_expired_def runtime0_def granted_claim_def claim_fields.defs
        CLAIM_TIMEOUT_MS_def claimOwnerLiveness_def split: option.split)
  have "spares (granted_claim f (runtime0 0 OwnerAlive))
      (runtime0 500 OwnerAlive, Release (body0(''owner_token'' \<mapsto> FText ''b'')))"
    using f(2) by (simp add: spares_def g granted_claim_def claim_fields.defs)
  moreover have "snd (serve (runtime0 0 OwnerAlive, Claim body0) (serve_all [] no_claims)) = ActionRun"
    using claim_decision [OF claims_ok_none f(1)] by (simp add: serve_def serve_all_def no_claims_def)
  ultimately show ?thesis
    using suite_claim_exclusive [of "runtime0 0 OwnerAlive" body0 "[]" f
        "[(runtime0 500 OwnerAlive, Release (body0(''owner_token'' \<mapsto> FText ''b'')))]" body0 f
        "runtime0 900 OwnerAlive"] f(1) alive
    by (simp add: serve_all_def runtime0_def)
qed

lemma suite_claim_granted_iff_witness:
  "snd (serve (runtime0 0 OwnerAlive, Claim body0) no_claims) = ActionRun"
proof -
  obtain f where "validateSuiteClaimFields body0 = Some f"
    by (simp add: validateSuiteClaimFields_def body0_def text_field_def sized_def Let_def
        SUITE_ORIGIN_MAX_LENGTH_def SUITE_HASH_MAX_LENGTH_def SUITE_OWNER_MAX_LENGTH_def)
  from suite_claim_granted_iff [OF this, of "runtime0 0 OwnerAlive" "[]"] show ?thesis
    by (simp add: serve_all_def no_claims_def)
qed

end
