(* ===== verification/Run_Control.thy ===== *)
theory Run_Control
  imports Recovery Suite_Claims Json
begin

text \<open>
  Ending and pausing a run from outside: \<^verbatim>\<open>stopWorkflow\<close>, \<^verbatim>\<open>forceFailRun\<close> and \<^verbatim>\<open>deleteWorkflow\<close>
  (\<^verbatim>\<open>src/src/installer/status.ts\<close>), the daemon's \<^verbatim>\<open>handlePauseRun\<close> and \<^verbatim>\<open>handleTerminateRun\<close>
  (\<^verbatim>\<open>src/src/server/control-server.ts\<close>).

  Each awaits the teardown of the run's timers and processes after, or in the case of a pause before, it
  writes the end of the run; \<open>between\<close> is what the other operations do to the store in that time.
  The settling of rounds in flight and the admission of queued runs that follow are calls to the
  scheduler.
\<close>

section \<open>Open steps\<close>

definition open_status :: "step_status \<Rightarrow> bool" where
  "open_status st \<longleftrightarrow> st = SWaiting \<or> st = SPending \<or> st = SRunning"

definition cancel_open_steps :: "string \<Rightarrow> store \<Rightarrow> store" where
  "cancel_open_steps runId w =
     w\<lparr>steps := upd_where (\<lambda>s. s_run_id s = runId \<and> open_status (s_status s))
                 (\<lambda>s. s\<lparr>s_status := SCanceled, s_updated_at := Some (now w)\<rparr>) (steps w)\<rparr>"

definition end_rows :: "string \<Rightarrow> run_status \<Rightarrow> store \<Rightarrow> store" where
  "end_rows runId st w =
     set_run runId (\<lambda>r. r\<lparr>r_status := st, r_scheduling_status := None\<rparr>) (cancel_open_steps runId w)"

definition run_live :: "run \<Rightarrow> bool" where
  "run_live r \<longleftrightarrow> r_status r = RRunning \<or> r_status r = RPaused"

fun run_status_text :: "run_status \<Rightarrow> string" where
  "run_status_text RRunning = ''running''"
| "run_status_text RPaused = ''paused''"
| "run_status_text RCompleted = ''completed''"
| "run_status_text RFailed = ''failed''"
| "run_status_text RCanceled = ''canceled''"

definition teardown_calls :: "string \<Rightarrow> store \<Rightarrow> store" where
  "teardown_calls runId w = call (TerminateRun runId) (call (RemoveRunCrons runId) w)"

section \<open>Stopping\<close>

definition stopWorkflow ::
    "(store \<Rightarrow> store) \<Rightarrow> string \<Rightarrow> string option \<Rightarrow> store \<Rightarrow> store \<times> (exn + unit)" where
  "stopWorkflow between runId source w =
     (case find_run runId w of
        None \<Rightarrow> (w, Inl (ErrorText (''Run not found: '' @ runId)))
      | Some r \<Rightarrow>
          if \<not> run_live r
          then (w, Inl (ErrorText (''Run '' @ runId @ '' is already '' @ run_status_text (r_status r)
                                   @ '' - cannot cancel'')))
          else (emitRunTerminalEvent ''run.canceled'' runId (Some (r_workflow_id r)) None
                  (Some (case source of None \<Rightarrow> ''cli-stop'' | Some x \<Rightarrow> x))
                  (scheduleRunCronTeardown runId
                     (between (teardown_calls runId (end_rows runId RCanceled w)))), Inr ()))"

section \<open>Forced failure\<close>

record alive_worker =
  aw_step :: string
  aw_agent :: string
  aw_pid :: int

definition alive_workers :: "(int \<Rightarrow> probe) \<Rightarrow> string \<Rightarrow> store \<Rightarrow> alive_worker list" where
  "alive_workers probe runId w =
     concat (map (\<lambda>s. case s_claim_pid s of
                        None \<Rightarrow> []
                      | Some p \<Rightarrow>
                          if p > 0 \<and> probe p \<noteq> NoSuchProcess
                          then [\<lparr>aw_step = s_id s, aw_agent = s_agent_id s, aw_pid = p\<rparr>] else [])
             (filter (\<lambda>s. s_status s = SRunning) (run_steps runId w)))"

datatype force_result = ForceFailed | ForceRefused string "alive_worker list"

definition forceFailRun ::
    "(int \<Rightarrow> probe) \<Rightarrow> (store \<Rightarrow> store) \<Rightarrow> string \<Rightarrow> string \<Rightarrow> bool \<Rightarrow> store \<Rightarrow>
     store \<times> (exn + force_result)" where
  "forceFailRun probe between runId reason force w =
     (case find_run runId w of
        None \<Rightarrow> (w, Inl (ErrorText (''Run not found: '' @ runId)))
      | Some r \<Rightarrow>
          let alive = alive_workers probe runId w
          in if \<not> run_live r
             then (w, Inl (ErrorText (''Run '' @ take 8 runId @ '' is already ''
                                      @ run_status_text (r_status r) @ '' - cannot force-fail'')))
             else if alive \<noteq> [] \<and> \<not> force
             then (w, Inr (ForceRefused
                     (''Run '' @ take 8 runId @ '' has '' @ nat_str (length alive)
                      @ '' alive worker(s). Use --force to force-fail anyway.'') alive))
             else (scheduleRunCronTeardown runId
                     (between (teardown_calls runId
                        (emit ''run.force_failed'' runId
                           [(''workflowId'', VStr (r_workflow_id r)), (''detail'', VStr reason),
                            (''reason'', VStr reason)] (end_rows runId RFailed w)))), Inr ForceFailed))"

section \<open>Deletion\<close>

text \<open>What became of the worktree of the run.\<close>

datatype worktree_removal = NoWorktree | WorktreeRemoved | WorktreeStuck string

definition drop_rows :: "string \<Rightarrow> store \<Rightarrow> store" where
  "drop_rows runId w =
     w\<lparr>stories := filter (\<lambda>t. t_run_id t \<noteq> runId) (stories w),
       steps := filter (\<lambda>s. s_run_id s \<noteq> runId) (steps w),
       runs := filter (\<lambda>r. r_id r \<noteq> runId) (runs w)\<rparr>"

definition deleteWorkflow ::
    "(store \<Rightarrow> store) \<Rightarrow> worktree_removal \<Rightarrow> string \<Rightarrow> bool \<Rightarrow> store \<Rightarrow>
     store \<times> (exn + string option)" where
  "deleteWorkflow between removal runId force w =
     (case find_run runId w of
        None \<Rightarrow> (w, Inl (ErrorText (''Run not found: '' @ runId)))
      | Some r \<Rightarrow>
          if run_live r \<and> \<not> force
          then (w, Inl (ErrorText (''Run '' @ take 8 runId @ '' is '' @ run_status_text (r_status r)
                  @ ''. Use --force to delete an active run (it will be canceled first).'')))
          else
            (let w1 = (if run_live r
                       then scheduleRunCronTeardown runId
                              (between (teardown_calls runId (end_rows runId RCanceled w)))
                       else w);
                 w2 = (if removal = NoWorktree then w1 else call (RemoveWorktree runId) w1)
             in (emit ''run.deleted'' runId
                   [(''detail'', VStr (if run_live r then ''Force-deleted while active'' else ''Deleted by user''))]
                   (drop_rows runId w2),
                 Inr (case removal of
                        WorktreeStuck msg \<Rightarrow>
                          Some (''Worktree removal failed for run '' @ take 8 runId @ '': '' @ msg
                            @ ''. Use ''  @ [CHR 0x27] @ ''tamandua worktree prune'' @ [CHR 0x27]
                            @ '' or manually remove the path.'')
                      | _ \<Rightarrow> None))))"

section \<open>The daemon\<close>

record daemon =
  d_store :: store
  d_claims :: claims

datatype control_response =
  NotFoundReply string
| ConflictReply string
| StateReply string
| DrainReply string
| TerminatedReply

definition pause_request_text :: "string \<Rightarrow> bool \<Rightarrow> string" where
  "pause_request_text requestedBy drain =
     ''{\"requestedBy\":'' @ json_quote requestedBy @ '',\"drain\":''
     @ (if drain then ''true'' else ''false'') @ ''}''"

definition attribute_pause :: "string \<Rightarrow> bool \<Rightarrow> string \<Rightarrow> store \<Rightarrow> store" where
  "attribute_pause runId drain requestedBy w =
     setRunContextKey runId ''pause_drain'' (if drain then ''true'' else ''false'')
       (setRunContextKey runId ''paused_at'' (to_iso (now w))
          (setRunContextKey runId ''paused_by'' requestedBy w))"

definition pause_now :: "run \<Rightarrow> store \<Rightarrow> store" where
  "pause_now r w =
     emit ''run.paused'' (r_id r) [(''workflowId'', VStr (r_workflow_id r))]
       (call AdmitQueuedRuns
          (set_run (r_id r) (\<lambda>q. q\<lparr>r_status := RPaused, r_scheduling_status := Some ''paused''\<rparr>) w))"

definition handlePauseRun ::
    "(store \<Rightarrow> store) \<Rightarrow> string \<Rightarrow> bool \<Rightarrow> string \<Rightarrow> daemon \<Rightarrow> daemon \<times> control_response" where
  "handlePauseRun between runId drain requestedBy d =
     (case find_run runId (d_store d) of
        None \<Rightarrow> (d, NotFoundReply (''Run not found: '' @ runId))
      | Some r \<Rightarrow>
          if terminal (r_status r)
          then (d, ConflictReply (''Run is terminal: '' @ run_status_text (r_status r)))
          else if r_status r = RPaused then (d, StateReply ''paused'')
          else
            (let w1 = attribute_pause runId drain requestedBy
                        (emit ''run.pause_requested'' runId
                           [(''workflowId'', VStr (r_workflow_id r)),
                            (''detail'', VStr (pause_request_text requestedBy drain))] (d_store d))
             in if drain
                then (let w2 = finalizeDrainingPause runId
                                 (set_run runId (\<lambda>q. q\<lparr>r_scheduling_status := Some ''draining_pause''\<rparr>) w1)
                      in (d\<lparr>d_store := w2\<rparr>,
                          DrainReply (case Option.bind (find_run runId w2) r_scheduling_status of
                                        None \<Rightarrow> ''draining_pause'' | Some x \<Rightarrow> x)))
                else (d\<lparr>d_store := pause_now r (between (call (RemoveRunCrons runId) w1)),
                        d_claims := fst (releaseSuiteClaimsByOwner runId None True ''stop'' (d_claims d))\<rparr>,
                      StateReply ''paused'')))"

definition handleTerminateRun :: "(store \<Rightarrow> store) \<Rightarrow> string \<Rightarrow> daemon \<Rightarrow> daemon \<times> control_response" where
  "handleTerminateRun between runId d =
     (case find_run runId (d_store d) of
        None \<Rightarrow> (d, NotFoundReply (''Run not found: '' @ runId))
      | Some r \<Rightarrow>
          (d\<lparr>d_store := call AdmitQueuedRuns
                          (set_run runId (\<lambda>q. q\<lparr>r_scheduling_status := None\<rparr>)
                             (between (call (RemoveRunCrons runId) (d_store d)))),
             d_claims := fst (releaseSuiteClaimsByOwner runId None True ''cancel'' (d_claims d))\<rparr>,
           TerminatedReply))"

end
