(* ===== verification/Run_Control_Props.thy ===== *)
theory Run_Control_Props
  imports Run_Control Complete_Props Claim_Props
begin

text \<open>
  What is proved of the end of a run from outside: the rows are closed before anything is awaited, so
  that whatever the agents of the run still send in that time changes nothing, and a pause is not.
\<close>

section \<open>Closed runs\<close>

definition closed_run :: "string \<Rightarrow> run_status \<Rightarrow> store \<Rightarrow> bool" where
  "closed_run runId st w \<longleftrightarrow>
     run_status_of runId w = Some st \<and> (\<forall>s \<in> set (run_steps runId w). \<not> open_status (s_status s))"

text \<open>What the agents of a run may still send: claims, and replies to its steps.\<close>

datatype late =
  LateClaim env string string "worker_ownership option" "string option"
| LateReply surroundings complete_opts string string

definition of_run :: "string \<Rightarrow> store \<Rightarrow> late \<Rightarrow> bool" where
  "of_run runId w q =
     (case q of
        LateClaim e agentId rid owner guestFile \<Rightarrow> stripIdPrefix rid = runId
      | LateReply c opts stepId out \<Rightarrow>
          (case find_step (stripIdPrefix stepId) w of None \<Rightarrow> False | Some s \<Rightarrow> s_run_id s = runId))"

definition serve_late :: "string \<Rightarrow> late \<Rightarrow> store \<Rightarrow> store" where
  "serve_late runId q w =
     (if of_run runId w q
      then (case q of
              LateClaim e agentId rid owner guestFile \<Rightarrow> fst (claim_step e agentId rid owner guestFile w)
            | LateReply c opts stepId out \<Rightarrow> fst (completeStep c opts stepId out w))
      else w)"

lemma claim_on_closed:
  assumes "closed_run (stripIdPrefix rid) st w" "st \<noteq> RRunning"
  shows "claim_step e agentId rid owner g w = (w, Inr None)"
proof -
  have "first_min claim_order (filter (claimable agentId (stripIdPrefix rid) w)
      (run_steps (stripIdPrefix rid) w)) = None"
    using assms by (simp add: closed_run_def claimable_def)
  then show ?thesis
    using assms by (simp add: claim_step_def stepCurrent_def held_step_def next_claimable_def closed_run_def)
qed

lemma reply_on_closed:
  assumes "closed_run runId st w" "st = RFailed \<or> st = RCanceled"
    "of_run runId w (LateReply c opts stepId out)"
  shows "fst (completeStep c opts stepId out w) = w"
proof -
  obtain s where s: "find_step (stripIdPrefix stepId) w = Some s" "s_run_id s = runId"
    using assms(3) by (auto simp: of_run_def split: option.splits)
  with assms(1,2) obtain r where "run_refusal opts s w = Some (OutBlocked, r)"
    by (auto simp: closed_run_def run_refusal_def run_status_of_def)
  then obtain d where "completion_guard opts s w = (w, Some (OutBlocked, d))"
    by (cases "refusal_of (co_authority opts) s") (auto simp: completion_guard_def)
  then show ?thesis
    using s by (simp add: completeStep_def completeStepInternal_def complete_body_def moved_on_def)
qed

lemma late_on_closed:
  assumes "closed_run runId st w" "st = RFailed \<or> st = RCanceled"
  shows "serve_late runId q w = w"
proof (cases q)
  case (LateClaim e agentId rid owner g)
  then show ?thesis
    using assms claim_on_closed [of rid st w] by (auto simp: serve_late_def of_run_def)
next
  case (LateReply c opts stepId out)
  then show ?thesis using assms reply_on_closed [of runId st w] by (simp add: serve_late_def)
qed

section \<open>Ending a run\<close>

text \<open>The contract of what happens while the teardown of a run is awaited: once the run has ended without
  open steps, nothing.\<close>

locale keeps_closed =
  fixes between :: "store \<Rightarrow> store" and runId :: string
  assumes keeps: "closed_run runId st w \<Longrightarrow> st = RFailed \<or> st = RCanceled \<Longrightarrow> between w = w"

lemma end_rows_closed:
  assumes "find_run runId w = Some r"
  shows "closed_run runId st (end_rows runId st w)"
proof -
  have "find_run runId (cancel_open_steps runId w) = Some r"
    using assms by (simp add: cancel_open_steps_def find_run_def)
  then have "run_status_of runId (end_rows runId st w) = Some st"
    by (simp add: end_rows_def run_status_of_def find_set_run)
  moreover have "\<not> open_status (s_status s)" if "s \<in> set (run_steps runId (end_rows runId st w))" for s
  proof -
    from that obtain r0 where "s = (if s_run_id r0 = runId \<and> open_status (s_status r0)
        then r0\<lparr>s_status := SCanceled, s_updated_at := Some (now w)\<rparr> else r0)" "s_run_id s = runId"
      by (auto simp: run_steps_def end_rows_def cancel_open_steps_def set_upd_where)
    then show ?thesis by (cases "open_status (s_status r0)") (auto simp: open_status_def)
  qed
  ultimately show ?thesis by (simp add: closed_run_def)
qed

lemma closed_cong:
  "run_status_of i v = run_status_of i w \<Longrightarrow> steps v = steps w \<Longrightarrow> closed_run i st v = closed_run i st w"
  by (simp add: closed_run_def run_steps_def)

lemma closed_same: "runs v = runs w \<Longrightarrow> steps v = steps w \<Longrightarrow> closed_run i st v = closed_run i st w"
  by (simp add: closed_run_def run_status_of_def find_run_def run_steps_def)

lemma status_frame [simp]:
  "run_status_of j (call e w) = run_status_of j w" "run_status_of j (emit n i fs w) = run_status_of j w"
  "run_status_of j (teardown_calls i w) = run_status_of j w" "steps (teardown_calls i w) = steps w"
  "runs (teardown_calls i w) = runs w"
  by (simp_all add: run_status_of_def teardown_calls_def)

lemma cron_teardown_frame [simp]:
  "steps (scheduleRunCronTeardown runId w) = steps w"
  "run_status_of j (scheduleRunCronTeardown runId w) = run_status_of j w"
  by (auto simp: scheduleRunCronTeardown_def Let_def run_status_of_def find_set split: option.split)

lemma terminal_event_frame [simp]:
  "steps (emitRunTerminalEvent n i x d y w) = steps w"
  "run_status_of j (emitRunTerminalEvent n i x d y w) = run_status_of j w"
  by (simp_all add: emitRunTerminalEvent_def run_status_of_def)

text \<open>How a run has ended: its status, its steps, and no work for any agent.\<close>

definition run_ended :: "string \<Rightarrow> run_status \<Rightarrow> store \<Rightarrow> store \<Rightarrow> bool" where
  "run_ended runId st w w' \<longleftrightarrow>
     run_status_of runId w' = Some st
     \<and> steps w' = map (\<lambda>s. if s_run_id s = runId \<and> open_status (s_status s)
                            then s\<lparr>s_status := SCanceled, s_updated_at := Some (now w)\<rparr> else s) (steps w)
     \<and> (\<forall>agentId. peekStep agentId runId w' = NO_WORK)"

lemma run_endedI:
  assumes "stripIdPrefix runId = runId" "find_run runId w = Some r" "st \<noteq> RRunning"
    "run_status_of runId w' = run_status_of runId (end_rows runId st w)" "steps w' = steps (end_rows runId st w)"
  shows "run_ended runId st w w'"
proof -
  have "run_status_of runId (end_rows runId st w) = Some st"
    using end_rows_closed [OF assms(2), of st] by (simp add: closed_run_def)
  then show ?thesis
    using assms by (simp add: run_ended_def peekStep_def end_rows_def cancel_open_steps_def upd_where_def)
qed

context keeps_closed
begin

lemma awaits: "find_run runId w = Some r \<Longrightarrow> st = RFailed \<or> st = RCanceled \<Longrightarrow>
  runs u = runs (end_rows runId st w) \<Longrightarrow> steps u = steps (end_rows runId st w) \<Longrightarrow> between u = u"
  using closed_same [of u "end_rows runId st w" runId st] end_rows_closed [of runId w r st]
  by (auto intro: keeps)

lemma stop_ends:
  assumes "stripIdPrefix runId = runId" "find_run runId w = Some r" "run_live r"
  shows "\<exists>w'. stopWorkflow between runId source w = (w', Inr ()) \<and> run_ended runId RCanceled w w'"
proof -
  have "between (teardown_calls runId (end_rows runId RCanceled w)) = teardown_calls runId (end_rows runId RCanceled w)"
    by (rule awaits [OF assms(2)]) simp_all
  with assms show ?thesis by (simp add: stopWorkflow_def run_endedI [OF assms(1,2)])
qed

lemma force_fail_closes:
  assumes "find_run runId w = Some r" "run_live r" "force \<or> alive_workers probe runId w = []"
  shows "\<exists>w'. forceFailRun probe between runId reason force w = (w', Inr ForceFailed)
    \<and> run_status_of runId w' = run_status_of runId (end_rows runId RFailed w)
    \<and> steps w' = steps (end_rows runId RFailed w)"
proof -
  let ?u = "teardown_calls runId (emit ''run.force_failed'' runId
      [(''workflowId'', VStr (r_workflow_id r)), (''detail'', VStr reason), (''reason'', VStr reason)]
      (end_rows runId RFailed w))"
  have "between ?u = ?u" by (rule awaits [OF assms(1)]) simp_all
  then show ?thesis using assms by (auto simp: forceFailRun_def)
qed

lemma force_fail_ends:
  assumes "stripIdPrefix runId = runId" "find_run runId w = Some r" "run_live r"
    "force \<or> alive_workers probe runId w = []"
  shows "\<exists>w'. forceFailRun probe between runId reason force w = (w', Inr ForceFailed)
    \<and> run_ended runId RFailed w w'"
  using force_fail_closes [OF assms(2-4), of reason] run_endedI [OF assms(1,2)] by fastforce

end

interpretation late: keeps_closed "fold (serve_late runId) qs" runId for runId qs
proof
  fix st w assume "closed_run runId st w" "st = RFailed \<or> st = RCanceled"
  then show "fold (serve_late runId) qs w = w" by (induction qs) (simp_all add: late_on_closed)
qed

text \<open>C29.  A live run that is stopped ends canceled, one that is force-failed ends failed, whatever claims and
  replies its agents still send while the teardown is awaited: its open steps, and they alone, are
  canceled, and the scheduler finds no work in it.  A forced failure is refused, without a change, only while
  a worker is alive and force is not given.\<close>

theorem ended_run_stays_ended:
  assumes "stripIdPrefix runId = runId" "find_run runId w = Some r" "run_live r"
  shows "(\<exists>w'. stopWorkflow (fold (serve_late runId) qs) runId source w = (w', Inr ())
      \<and> run_ended runId RCanceled w w')
    \<and> (if force \<or> alive_workers probe runId w = []
      then \<exists>w'. forceFailRun probe (fold (serve_late runId) qs) runId reason force w = (w', Inr ForceFailed)
             \<and> run_ended runId RFailed w w'
      else \<exists>why. forceFailRun probe (fold (serve_late runId) qs) runId reason force w
             = (w, Inr (ForceRefused why (alive_workers probe runId w))))"
  using late.stop_ends [OF assms] late.force_fail_ends [OF assms, of force probe] assms(2,3)
  by (auto simp: forceFailRun_def Let_def)

lemma ended_run_stays_ended_witness:
  "\<exists>w'. stopWorkflow (fold (serve_late ''r'') [LateReply surroundings0 opts0 ''m'' ''STATUS: done'']) ''r'' None store0
      = (w', Inr ()) \<and> run_ended ''r'' RCanceled store0 w'"
  using ended_run_stays_ended [of "''r''" store0 run0 "[LateReply surroundings0 opts0 ''m'' ''STATUS: done'']" None]
  by (simp add: store0_def run0_def find_run_def run_live_def stripIdPrefix_def isRunPrefixed_def
      isStepPrefixed_def)

section \<open>A pause is not an end\<close>

text \<open>The update that ends a pause has no guard on the status: a run that has completed, or that was
  stopped, while the timers were torn down is paused again.\<close>

lemma pause_overwrites_end:
  assumes "find_run runId (d_store d) = Some r" "r_status r = RRunning"
    "find_run runId (between (call (RemoveRunCrons runId)
       (attribute_pause runId False by_whom
          (emit ''run.pause_requested'' runId
             [(''workflowId'', VStr (r_workflow_id r)),
              (''detail'', VStr (pause_request_text by_whom False))] (d_store d))))) = Some r'"
  shows "run_status_of runId (d_store (fst (handlePauseRun between runId False by_whom d))) = Some RPaused"
proof -
  have "r_id r = runId" using assms(1) by (auto dest: run_table.find_key)
  then show ?thesis
    using assms by (simp add: handlePauseRun_def Let_def pause_now_def terminal_def run_status_of_def find_set)
qed

end
