(* ===== verification/Scheduler.thy ===== *)
theory Scheduler
  imports Run_Control_Props Byte_Text "HOL-Library.Extended_Nat"
begin

text \<open>
  The registry of the scheduler (\<^verbatim>\<open>src/src/installer/agent-scheduler.ts\<close>): one dispatch job per agent of
  a run, its timer, the round it has in flight, the streaks of failing rounds, and the teardown of the
  jobs of a run.

  The maps and sets of the module are the fields of one record, association lists in insertion order
  where the code iterates over them; what a job only hands to the harness's environment (model, labels, commit
  identity) is left out.  What a teardown does to processes is a list of calls.  Every dispatch round
  has an identity of its own, which the code has in the abort controller it creates.
\<close>

section \<open>State\<close>

record job =
  j_workflow :: string
  j_run :: string
  j_agent :: string
  j_timeout :: "nat option"
  j_workdir :: "string option"
  j_harness :: string

record streak =
  consecutive :: nat
  nextAllowedDispatchAt :: int

record child =
  ch_pid :: int
  ch_pgid :: int
  ch_killed :: bool

datatype sched_call =
  AbortRound nat
| TerminateGroup int nat
| ReapOrphans string
| ScheduleSweep string "string option" "int list"
| FinalizeTokens string nat
| NudgeRuns "string list"

text \<open>\<open>sd_started\<close> counts the rounds begun, \<open>sd_mono\<close> is the monotonic clock.\<close>

record scheduler =
  sd_store :: store
  sd_jobs :: "(string \<times> job) list"
  sd_active :: "string list"
  sd_pending :: "string list"
  sd_in_flight :: "string list"
  sd_signals :: "(string \<times> string) list"
  sd_controllers :: "string \<Rightarrow> nat option"
  sd_children :: "string \<Rightarrow> child option"
  sd_paused_rounds :: "string list"
  sd_instant :: "string \<Rightarrow> streak option"
  sd_preclaim :: "string \<Rightarrow> streak option"
  sd_sweeps :: "string list"
  sd_calls :: "sched_call list"
  sd_generation :: nat
  sd_started :: nat
  sd_mono :: int

definition on_store :: "(store \<Rightarrow> store) \<Rightarrow> scheduler \<Rightarrow> scheduler" where
  "on_store f sd = sd\<lparr>sd_store := f (sd_store sd)\<rparr>"

definition sched :: "sched_call \<Rightarrow> scheduler \<Rightarrow> scheduler" where
  "sched c sd = sd\<lparr>sd_calls := sd_calls sd @ [c]\<rparr>"

section \<open>Jobs\<close>

definition buildJobId :: "string \<Rightarrow> string \<Rightarrow> string \<Rightarrow> string" where
  "buildJobId workflowId runId agentId =
     ''tamandua-'' @ workflowId @ ''-'' @ runId @ ''-''
     @ (if starts_with (workflowId @ ''_'') agentId then drop (Suc (length workflowId)) agentId else agentId)"

definition full_agent_id :: "string \<Rightarrow> string \<Rightarrow> string" where
  "full_agent_id workflowId agentId =
     (if starts_with (workflowId @ ''_'') agentId then agentId else workflowId @ ''_'' @ agentId)"

text \<open>The harness a run was launched with, from its context.\<close>

definition harness_of :: "ctx \<Rightarrow> string" where
  "harness_of m =
     (if m ''harness_type'' = Some ''hermes'' then ''hermes''
      else if m ''harness_type'' = Some ''dsh'' then ''dsh'' else ''pi'')"

definition has_job :: "string \<Rightarrow> scheduler \<Rightarrow> bool" where
  "has_job i sd \<longleftrightarrow> map_of (sd_jobs sd) i \<noteq> None"

text \<open>\<open>timeoutSeconds\<close> is the agent's own or its role's.  With a stagger the timer starts later, in
  \<open>start_dispatch\<close>.\<close>

definition createAgentCronJob ::
    "string \<Rightarrow> string \<Rightarrow> string \<times> nat \<Rightarrow> string option \<Rightarrow> nat \<Rightarrow> scheduler \<Rightarrow> scheduler \<times> string" where
  "createAgentCronJob workflowId runId agent workdir staggerMs sd =
     (let i = buildJobId workflowId runId (fst agent)
      in if has_job i sd \<or> i \<in> set (sd_active sd) \<or> i \<in> set (sd_pending sd) then (sd, i)
         else
           (let (m, w1) = (case find_run runId (sd_store sd) of
                             None \<Rightarrow> (Map.empty, sd_store sd)
                           | Some r \<Rightarrow> parseRunContext runId (r_context r) (sd_store sd));
                info = \<lparr>j_workflow = workflowId, j_run = runId, j_agent = full_agent_id workflowId (fst agent),
                        j_timeout = Some (snd agent), j_workdir = workdir, j_harness = harness_of m\<rparr>;
                sd1 = sd\<lparr>sd_store := w1, sd_jobs := AList.update i info (sd_jobs sd)\<rparr>
            in (if staggerMs > 0 then sd1\<lparr>sd_pending := sd_pending sd1 @ [i]\<rparr>
                else sd1\<lparr>sd_active := sd_active sd1 @ [i]\<rparr>, i)))"

definition start_dispatch :: "string \<Rightarrow> scheduler \<Rightarrow> scheduler" where
  "start_dispatch i sd =
     (let sd1 = sd\<lparr>sd_pending := removeAll i (sd_pending sd)\<rparr>
      in if \<not> has_job i sd1 \<or> i \<in> set (sd_active sd1) then sd1
         else sd1\<lparr>sd_active := sd_active sd1 @ [i]\<rparr>)"

definition setup_agent :: "string \<Rightarrow> string \<Rightarrow> string option \<Rightarrow> string \<times> nat \<Rightarrow> scheduler \<Rightarrow> scheduler" where
  "setup_agent workflowId runId workdir agent sd =
     (if has_job (buildJobId workflowId runId (fst agent)) sd then sd
      else fst (createAgentCronJob workflowId runId agent workdir 0 sd))"

definition setupAgentCrons ::
    "string \<Rightarrow> (string \<times> nat) list \<Rightarrow> string \<Rightarrow> string option \<Rightarrow> scheduler \<Rightarrow> scheduler" where
  "setupAgentCrons workflowId agents runId workdir sd =
     fold (setup_agent workflowId runId workdir) agents sd"

section \<open>Rounds in flight\<close>

definition tryMarkJobInFlight :: "string \<Rightarrow> scheduler \<Rightarrow> scheduler \<times> bool" where
  "tryMarkJobInFlight i sd =
     (if i \<in> set (sd_in_flight sd) then (sd, False)
      else (sd\<lparr>sd_in_flight := sd_in_flight sd @ [i]\<rparr>, True))"

definition consumeOperatorPausedRound :: "string \<Rightarrow> scheduler \<Rightarrow> scheduler \<times> bool" where
  "consumeOperatorPausedRound i sd =
     (if i \<in> set (sd_paused_rounds sd)
      then (sd\<lparr>sd_paused_rounds := removeAll i (sd_paused_rounds sd)\<rparr>, True) else (sd, False))"

text \<open>The completion signal and the abort controller of a round that has marked its job.\<close>

definition open_round :: "string \<Rightarrow> string \<Rightarrow> scheduler \<Rightarrow> scheduler \<times> nat" where
  "open_round i runId sd =
     (sd\<lparr>sd_signals := AList.update i runId (sd_signals sd),
         sd_controllers := (sd_controllers sd)(i \<mapsto> sd_started sd), sd_started := Suc (sd_started sd)\<rparr>,
      sd_started sd)"

text \<open>The \<^verbatim>\<open>finally\<close> of a round: only the controller is compared with the round's own.\<close>

definition close_round :: "string \<Rightarrow> nat \<Rightarrow> scheduler \<Rightarrow> scheduler" where
  "close_round i n sd =
     sd\<lparr>sd_in_flight := removeAll i (sd_in_flight sd),
        sd_children := (sd_children sd)(i := None),
        sd_paused_rounds := removeAll i (sd_paused_rounds sd),
        sd_controllers :=
          (if sd_controllers sd i = Some n then (sd_controllers sd)(i := None) else sd_controllers sd),
        sd_signals := AList.delete i (sd_signals sd)\<rparr>"

definition inFlightJobIdsForRun :: "string \<Rightarrow> scheduler \<Rightarrow> string list" where
  "inFlightJobIdsForRun runId sd =
     (let ids = filter (\<lambda>i. map_option j_run (map_of (sd_jobs sd) i) = Some runId) (sd_in_flight sd)
      in ids @ map fst (filter (\<lambda>(i, r). r = runId \<and> i \<notin> set ids) (sd_signals sd)))"

section \<open>Teardown\<close>

definition HARNESS_TEARDOWN_GRACE_MS :: nat where
  "HARNESS_TEARDOWN_GRACE_MS = 10000"

definition getRunTeardownGraceMs :: "run_status option \<Rightarrow> nat" where
  "getRunTeardownGraceMs st =
     (if st = Some RCompleted \<or> st = Some RFailed then HARNESS_TEARDOWN_GRACE_MS else 0)"

record remove_opts =
  ro_grace :: nat
  ro_generation :: "nat option"
  ro_paused :: bool

definition plain_removal :: remove_opts where
  "plain_removal = \<lparr>ro_grace = 0, ro_generation = None, ro_paused = False\<rparr>"

definition abortDispatchRound :: "string \<Rightarrow> scheduler \<Rightarrow> scheduler" where
  "abortDispatchRound i sd =
     (case sd_controllers sd i of None \<Rightarrow> sd | Some n \<Rightarrow> sched (AbortRound n) sd)"

definition kill_child :: "nat \<Rightarrow> string \<Rightarrow> scheduler \<Rightarrow> scheduler" where
  "kill_child graceMs i sd =
     (case sd_children sd i of
        None \<Rightarrow> sd
      | Some c \<Rightarrow> if ch_killed c \<or> ch_pgid c = 0 then sd else sched (TerminateGroup (ch_pgid c) graceMs) sd)"

definition remove_job :: "remove_opts \<Rightarrow> string \<Rightarrow> scheduler \<Rightarrow> scheduler" where
  "remove_job opts i sd =
     (let sd1 = sd\<lparr>sd_pending := removeAll i (sd_pending sd), sd_active := removeAll i (sd_active sd),
                   sd_paused_rounds :=
                     (if ro_paused opts \<and> i \<in> set (sd_in_flight sd) \<and> i \<notin> set (sd_paused_rounds sd)
                      then sd_paused_rounds sd @ [i] else sd_paused_rounds sd)\<rparr>;
          sd2 = kill_child (ro_grace opts) i (abortDispatchRound i sd1)
      in sd2\<lparr>sd_children := (sd_children sd2)(i := None),
             sd_in_flight := removeAll i (sd_in_flight sd2), sd_jobs := AList.delete i (sd_jobs sd2),
             sd_instant := (sd_instant sd2)(i := None), sd_preclaim := (sd_preclaim sd2)(i := None)\<rparr>)"

definition run_jobs :: "string \<Rightarrow> scheduler \<Rightarrow> (string \<times> job) list" where
  "run_jobs runId sd = filter (\<lambda>(i, info). j_run info = runId) (sd_jobs sd)"

definition scheduleSweepTimer :: "string \<Rightarrow> string option \<Rightarrow> int list \<Rightarrow> scheduler \<Rightarrow> scheduler" where
  "scheduleSweepTimer runId workdir pgids sd =
     (if runId \<in> set (sd_sweeps sd) then sd
      else sched (ScheduleSweep runId workdir pgids) (sd\<lparr>sd_sweeps := sd_sweeps sd @ [runId]\<rparr>))"

text \<open>A \<^verbatim>\<open>Set\<close> filled in order.\<close>

definition once :: "'a list \<Rightarrow> 'a list" where
  "once xs = rev (remdups (rev xs))"

text \<open>The first harness directory of the jobs, and the process groups of their rounds, once each.\<close>

definition sweep_target :: "(string \<times> job) list \<Rightarrow> scheduler \<Rightarrow> string option \<times> int list" where
  "sweep_target js sd =
     (let dirs = filter (\<lambda>d. d \<noteq> []) (concat (map (\<lambda>(i, info). case j_workdir info of None \<Rightarrow> [] | Some d \<Rightarrow> [d]) js));
          groups = concat (map (\<lambda>(i, info). case sd_children sd i of
                                              None \<Rightarrow> [] | Some c \<Rightarrow> if ch_pgid c = 0 then [] else [ch_pgid c]) js)
      in (case dirs of [] \<Rightarrow> None | d # _ \<Rightarrow> Some d, once groups))"

definition removeRunCrons :: "string \<Rightarrow> remove_opts \<Rightarrow> scheduler \<Rightarrow> scheduler" where
  "removeRunCrons runId opts sd =
     (let js = run_jobs runId sd; (workdir, pgids) = sweep_target js sd;
          sd1 = fold (\<lambda>(i, info). remove_job opts i) js sd;
          stale = (case ro_generation opts of None \<Rightarrow> False | Some g \<Rightarrow> g \<noteq> sd_generation sd)
      in if js = [] \<or> stale then sd1
         else (let sd2 = scheduleSweepTimer runId workdir pgids (sched (ReapOrphans runId) sd1)
               in if ro_grace opts > 0 \<and> run_status_of runId (sd_store sd2) \<in> {Some RCompleted, Some RFailed}
                  then sched (FinalizeTokens runId (ro_grace opts)) sd2 else sd2))"

definition removeAgentCrons :: "string \<Rightarrow> remove_opts \<Rightarrow> scheduler \<Rightarrow> scheduler" where
  "removeAgentCrons workflowId opts sd =
     fold (\<lambda>r. removeRunCrons r opts)
       (once (map (\<lambda>(i, info). j_run info)
          (filter (\<lambda>(i, info). j_workflow info = workflowId) (sd_jobs sd)))) sd"

definition teardownWorkflowCronsIfIdle :: "string \<Rightarrow> scheduler \<Rightarrow> scheduler" where
  "teardownWorkflowCronsIfIdle workflowId sd =
     (if list_ex (\<lambda>r. r_workflow_id r = workflowId \<and> run_live r) (runs (sd_store sd)) then sd
      else removeAgentCrons workflowId (plain_removal\<lparr>ro_grace := HARNESS_TEARDOWN_GRACE_MS\<rparr>) sd)"

section \<open>Nudges\<close>

text \<open>Of each job of the runs, whether it is skipped, launched, or has no agent in its workflow any more.
  A launched job gets its timer at once.\<close>

datatype nudge = NudgeInFlight | NudgeError string | NudgeLaunched

definition nudge_job ::
    "(string \<Rightarrow> string + string list) \<Rightarrow> string \<times> job \<Rightarrow> scheduler \<Rightarrow> scheduler \<times> nudge" where
  "nudge_job load ij sd =
     (let (i, info) = ij
      in if i \<in> set (sd_in_flight sd) then (sd, NudgeInFlight)
         else (case load (j_workflow info) of
                 Inl err \<Rightarrow> (sd, NudgeError err)
               | Inr agents \<Rightarrow>
                   (let short = (if starts_with (j_workflow info @ ''_'') (j_agent info)
                                 then drop (Suc (length (j_workflow info))) (j_agent info) else j_agent info)
                    in if \<not> list_ex (\<lambda>a. a = short \<or> j_workflow info @ ''_'' @ a = j_agent info) agents
                       then (sd, NudgeError (''Agent '' @ j_agent info @ '' not found in workflow ''
                                             @ j_workflow info))
                       else (if i \<in> set (sd_active sd) \<or> i \<notin> set (sd_pending sd) then sd
                             else sd\<lparr>sd_pending := removeAll i (sd_pending sd),
                                     sd_active := sd_active sd @ [i]\<rparr>, NudgeLaunched))))"

fun nudge_jobs ::
    "(string \<Rightarrow> string + string list) \<Rightarrow> (string \<times> job) list \<Rightarrow> scheduler \<Rightarrow>
     scheduler \<times> (string \<times> nudge) list" where
  "nudge_jobs load [] sd = (sd, [])"
| "nudge_jobs load (ij # js) sd =
     (let (sd1, r) = nudge_job load ij sd; (sd2, rs) = nudge_jobs load js sd1 in (sd2, (fst ij, r) # rs))"

definition nudgeScheduledRuns ::
    "(string \<Rightarrow> string + string list) \<Rightarrow> string list \<Rightarrow> scheduler \<Rightarrow>
     scheduler \<times> (string \<times> nudge) list" where
  "nudgeScheduledRuns load runIds sd =
     nudge_jobs load (filter (\<lambda>(i, info). j_run info \<in> set runIds) (sd_jobs sd)) sd"

end
