(* ===== verification/Rounds.thy ===== *)
theory Rounds
  imports Scheduler
begin

text \<open>
  Failing rounds (\<^verbatim>\<open>src/src/installer/instant-fail.ts\<close> and the trackers of
  \<^verbatim>\<open>src/src/installer/agent-scheduler.ts\<close>).  A round that ends at once without output is an instant fail,
  a slow one that dies before it has claimed the step it was started for is a pre-claim death.  Streaks of
  either delay the next round and finally force-fail the run.

  Durations are whole milliseconds; \<open>\<infinity>\<close> is a round that never got to its harness.
  The thresholds are read from the environment; the classes compare with them and nothing else.
\<close>

section \<open>Thresholds\<close>

record limits =
  li_wall :: nat
  li_backoff :: nat
  li_escalation :: nat
  li_base :: nat

definition default_limits :: limits where
  "default_limits = \<lparr>li_wall = 6000, li_backoff = 6, li_escalation = 20, li_base = 30000\<rparr>"

section \<open>Classes\<close>

record round_result =
  rr_output :: string
  rr_exit :: "int option"
  rr_signal :: "string option"
  rr_timed_out :: bool
  rr_wall :: "enat option"
  rr_harness_wall :: "enat option"
  rr_vm_setup :: "enat option"
  rr_command :: "string option"
  rr_stderr :: "string option"

record round_signals =
  sg_wall :: "enat option"
  sg_harness_wall :: "enat option"
  sg_vm_setup :: "enat option"
  sg_result :: "round_result option"
  sg_threw :: bool
  sg_recovered :: bool
  sg_operator_paused :: bool

definition resolveHarnessWallMs :: "enat option \<Rightarrow> enat option \<Rightarrow> enat option" where
  "resolveHarnessWallMs harnessWall roundWall = (case harnessWall of Some w \<Rightarrow> Some w | None \<Rightarrow> roundWall)"

definition resolved_wall :: "round_signals \<Rightarrow> enat option" where
  "resolved_wall sg = resolveHarnessWallMs (sg_harness_wall sg) (sg_wall sg)"

definition timed_out :: "round_signals \<Rightarrow> bool" where
  "timed_out sg = (case sg_result sg of None \<Rightarrow> False | Some r \<Rightarrow> rr_timed_out r)"

text \<open>A non-zero exit code, or a signal where there is no exit code.\<close>

definition abnormal_end :: "int option \<Rightarrow> string option \<Rightarrow> bool" where
  "abnormal_end code sig =
     (case code of Some c \<Rightarrow> c \<noteq> 0 | None \<Rightarrow> (case sig of None \<Rightarrow> False | Some s \<Rightarrow> s \<noteq> []))"

definition result_abnormal :: "round_result option \<Rightarrow> bool" where
  "result_abnormal r = (case r of None \<Rightarrow> False | Some x \<Rightarrow> abnormal_end (rr_exit x) (rr_signal x))"

definition isInstantFailRound :: "limits \<Rightarrow> round_signals \<Rightarrow> bool" where
  "isInstantFailRound lm sg =
     (case resolved_wall sg of
        None \<Rightarrow> False
      | Some wall \<Rightarrow>
          if wall \<ge> enat (li_wall lm) then False
          else if timed_out sg then False
          else if sg_recovered sg then False
          else if sg_threw sg then True
          else (case sg_result sg of
                  None \<Rightarrow> False
                | Some r \<Rightarrow> if trim (rr_output r) \<noteq> [] then False else result_abnormal (Some r)))"

definition isPreclaimDeathRound :: "limits \<Rightarrow> bool \<Rightarrow> round_signals \<Rightarrow> bool" where
  "isPreclaimDeathRound lm hasPendingStep sg =
     (if sg_operator_paused sg \<or> timed_out sg \<or> sg_recovered sg then False
      else (case resolved_wall sg of
              None \<Rightarrow> False
            | Some wall \<Rightarrow>
                if wall < enat (li_wall lm) then False
                else if \<not> hasPendingStep then False
                else result_abnormal (sg_result sg)))"

section \<open>Backing off\<close>

definition instantFailBackoffDelayMs :: "limits \<Rightarrow> nat \<Rightarrow> nat" where
  "instantFailBackoffDelayMs lm n =
     (if n < li_backoff lm then 0 else li_base lm * 2 ^ min (n - li_backoff lm) 2)"

text \<open>\<^verbatim>\<open>Math.round(threshold / 1000)\<close>, halves up.\<close>

definition whole_seconds :: "nat \<Rightarrow> nat" where
  "whole_seconds ms = (ms + 500) div 1000"

definition formatInstantFailReason :: "limits \<Rightarrow> nat \<Rightarrow> string \<Rightarrow> string" where
  "formatInstantFailReason lm n lastCommand =
     ''worker instant-fail loop: '' @ nat_str n @ '' consecutive sub-'' @ nat_str (whole_seconds (li_wall lm))
     @ ''s exit-1 rounds; last command: '' @ lastCommand"

definition formatPreclaimDeathReason :: "limits \<Rightarrow> nat \<Rightarrow> string \<Rightarrow> string" where
  "formatPreclaimDeathReason lm n lastCommand =
     ''worker pre-claim death loop: '' @ nat_str n @ '' consecutive >='' @ nat_str (whole_seconds (li_wall lm))
     @ ''s rounds that exited/died without claiming a step; last command: '' @ lastCommand"

definition armInstantFailBackoff :: "string \<Rightarrow> nat \<Rightarrow> nat \<Rightarrow> scheduler \<Rightarrow> scheduler" where
  "armInstantFailBackoff i n delayMs sd =
     sd\<lparr>sd_instant :=
        (sd_instant sd)(i \<mapsto> \<lparr>consecutive = n, nextAllowedDispatchAt = sd_mono sd + int delayMs\<rparr>)\<rparr>"

definition armPreclaimDeathBackoff :: "string \<Rightarrow> nat \<Rightarrow> nat \<Rightarrow> scheduler \<Rightarrow> scheduler" where
  "armPreclaimDeathBackoff i n delayMs sd =
     sd\<lparr>sd_preclaim :=
        (sd_preclaim sd)(i \<mapsto> \<lparr>consecutive = n, nextAllowedDispatchAt = sd_mono sd + int delayMs\<rparr>)\<rparr>"

definition backoff_active :: "streak option \<Rightarrow> int \<Rightarrow> bool" where
  "backoff_active s t = (case s of None \<Rightarrow> False | Some x \<Rightarrow> nextAllowedDispatchAt x > t)"

definition streak_of :: "streak option \<Rightarrow> nat" where
  "streak_of s = (case s of None \<Rightarrow> 0 | Some x \<Rightarrow> consecutive x)"

section \<open>The trackers\<close>

text \<open>What happens around a forced failure: the probe of processes and what goes on in its wait.\<close>

record surround_fail =
  sf_probe :: "int \<Rightarrow> probe"
  sf_between :: "string \<Rightarrow> store \<Rightarrow> store"

text \<open>A forced failure from within the daemon, whose own scheduler loses the jobs of the run.\<close>

definition force_fail_run :: "surround_fail \<Rightarrow> string \<Rightarrow> string \<Rightarrow> scheduler \<Rightarrow> scheduler" where
  "force_fail_run sf runId reason sd =
     (case forceFailRun (sf_probe sf) (sf_between sf runId) runId reason True (sd_store sd) of
        (w, Inr ForceFailed) \<Rightarrow> removeRunCrons runId plain_removal (sd\<lparr>sd_store := w\<rparr>)
      | (w, _) \<Rightarrow> sd\<lparr>sd_store := w\<rparr>)"

definition escalate_loop ::
    "surround_fail \<Rightarrow> string \<Rightarrow> string \<Rightarrow> job \<Rightarrow> nat \<Rightarrow> string \<Rightarrow> scheduler \<Rightarrow> scheduler" where
  "escalate_loop sf name countField info n reason sd =
     force_fail_run sf (j_run info) reason
       (on_store (emit name (j_run info)
          [(''workflowId'', VStr (j_workflow info)), (countField, VNat n), (''detail'', VStr reason),
           (''reason'', VStr reason)]) sd)"

definition last_command :: "job \<Rightarrow> round_signals \<Rightarrow> string" where
  "last_command info sg =
     (case Option.bind (sg_result sg) rr_command of Some c \<Rightarrow> c | None \<Rightarrow> j_agent info)"

definition escalateInstantFailLoop ::
    "surround_fail \<Rightarrow> limits \<Rightarrow> job \<Rightarrow> nat \<Rightarrow> string \<Rightarrow> scheduler \<Rightarrow> scheduler" where
  "escalateInstantFailLoop sf lm info n cmd =
     escalate_loop sf ''run.instant_fail_loop'' ''consecutiveInstantFails'' info n
       (formatInstantFailReason lm n cmd)"

definition escalatePreclaimDeathLoop ::
    "surround_fail \<Rightarrow> limits \<Rightarrow> job \<Rightarrow> nat \<Rightarrow> string \<Rightarrow> scheduler \<Rightarrow> scheduler" where
  "escalatePreclaimDeathLoop sf lm info n cmd =
     escalate_loop sf ''run.preclaim_death_loop'' ''consecutivePreclaimDeaths'' info n
       (formatPreclaimDeathReason lm n cmd)"

definition trackInstantFailRound ::
    "surround_fail \<Rightarrow> limits \<Rightarrow> string \<Rightarrow> job \<Rightarrow> round_signals \<Rightarrow> scheduler \<Rightarrow> scheduler" where
  "trackInstantFailRound sf lm i info sg sd =
     (if resolved_wall sg = None \<or> timed_out sg then sd
      else if \<not> isInstantFailRound lm sg then sd\<lparr>sd_instant := (sd_instant sd)(i := None)\<rparr>
      else
        (let n = Suc (streak_of (sd_instant sd i));
             sd1 = on_store (upd_run (j_run info) (\<lambda>r. r\<lparr>r_instant_fail_count := Suc (r_instant_fail_count r)\<rparr>))
                     (sd\<lparr>sd_instant := (sd_instant sd)(i \<mapsto> \<lparr>consecutive = n, nextAllowedDispatchAt = 0\<rparr>)\<rparr>)
         in if n \<ge> li_escalation lm then escalateInstantFailLoop sf lm info n (last_command info sg) sd1
            else if n \<ge> li_backoff lm
            then armInstantFailBackoff i n (instantFailBackoffDelayMs lm n) sd1 else sd1))"

text \<open>The tail of the standard error as the event carries it.\<close>

definition stderr_text :: "string option \<Rightarrow> string" where
  "stderr_text raw = map char_of (sanitizeStderrTail (units_of (case raw of None \<Rightarrow> [] | Some s \<Rightarrow> s)) 8192 512)"

definition opt_wall :: "string \<Rightarrow> enat option \<Rightarrow> (string \<times> ev_val) list" where
  "opt_wall k v = (case v of None \<Rightarrow> [] | Some (enat n) \<Rightarrow> [(k, VNat n)] | Some \<infinity> \<Rightarrow> [(k, VStr ''null'')])"

definition preclaim_event :: "job \<Rightarrow> string \<Rightarrow> string \<Rightarrow> nat \<Rightarrow> round_signals \<Rightarrow> store \<Rightarrow> store" where
  "preclaim_event info rowId stepId n sg =
     emit ''step.preclaim_round_died'' (j_run info)
       ([(''workflowId'', VStr (j_workflow info)), (''stepId'', VStr stepId), (''stepRowId'', VStr rowId),
         (''agentId'', VStr (j_agent info))]
        @ opt_int ''exitCode'' (Option.bind (sg_result sg) rr_exit)
        @ opt_str ''signal'' (Option.bind (sg_result sg) rr_signal)
        @ opt_wall ''harnessWallMs'' (resolved_wall sg) @ opt_wall ''vmSetupMs'' (sg_vm_setup sg)
        @ opt_wall ''wallMs'' (sg_wall sg)
        @ [(''stderrTail'', VStr (stderr_text (Option.bind (sg_result sg) rr_stderr))),
           (''consecutivePreclaimDeaths'', VNat n)])"

definition trackPreclaimDeathRound ::
    "surround_fail \<Rightarrow> limits \<Rightarrow> string \<Rightarrow> job \<Rightarrow> round_signals \<Rightarrow> scheduler \<Rightarrow> scheduler" where
  "trackPreclaimDeathRound sf lm i info sg sd =
     (case findPendingStepForAgent (j_agent info) (j_run info) (sd_store sd) of
        None \<Rightarrow> sd\<lparr>sd_preclaim := (sd_preclaim sd)(i := None)\<rparr>
      | Some (rowId, stepId) \<Rightarrow>
          if \<not> isPreclaimDeathRound lm True sg then sd\<lparr>sd_preclaim := (sd_preclaim sd)(i := None)\<rparr>
          else
            (let n = Suc (streak_of (sd_preclaim sd i));
                 sd1 = on_store (\<lambda>w. preclaim_event info rowId stepId n sg (fst (incrementPreclaimDeathCount rowId w)))
                         (sd\<lparr>sd_preclaim := (sd_preclaim sd)(i \<mapsto> \<lparr>consecutive = n, nextAllowedDispatchAt = 0\<rparr>)\<rparr>)
             in if n \<ge> li_escalation lm then escalatePreclaimDeathLoop sf lm info n (last_command info sg) sd1
                else if n \<ge> li_backoff lm
                then armPreclaimDeathBackoff i n (instantFailBackoffDelayMs lm n) sd1 else sd1))"

end
