(* ===== verification/Rounds_Props.thy ===== *)
theory Rounds_Props
  imports Rounds
begin

text \<open>
  What is proved of failing rounds: no round is in both classes, and each of the two trackers ends the run of
  a job exactly when the limit is reached by failures in a row.  The second is proved once, of a
  tracker that counts, in a locale that both trackers interpret.
\<close>

section \<open>Counting in a row\<close>

datatype round_kind = Hit | Miss | Ignored

fun count_kind :: "round_kind \<Rightarrow> nat \<Rightarrow> nat" where
  "count_kind Hit n = Suc n"
| "count_kind Miss n = 0"
| "count_kind Ignored n = n"

locale tracker =
  fixes track :: "'g \<Rightarrow> 's \<Rightarrow> 's"
    and kind :: "'s \<Rightarrow> 'g \<Rightarrow> round_kind"
    and count :: "'s \<Rightarrow> nat"
    and live :: "'s \<Rightarrow> bool"
    and over :: "'s \<Rightarrow> bool"
    and bound :: nat
  assumes goes_on: "live s \<Longrightarrow> count_kind (kind s g) (count s) < bound \<Longrightarrow> live (track g s)"
    and counts: "live s \<Longrightarrow> count_kind (kind s g) (count s) < bound \<Longrightarrow>
      count (track g s) = count_kind (kind s g) (count s)"
    and ends: "live s \<Longrightarrow> count s < bound \<Longrightarrow> kind s g = Hit \<Longrightarrow> Suc (count s) = bound \<Longrightarrow> over (track g s)"
begin

text \<open>The failures in a row after some rounds, of which there were \<open>n\<close> before.\<close>

primrec in_a_row :: "'g list \<Rightarrow> 's \<Rightarrow> nat \<Rightarrow> nat" where
  "in_a_row [] s n = n"
| "in_a_row (g # gs) s n = in_a_row gs (track g s) (count_kind (kind s g) n)"

lemma in_a_row_snoc:
  "in_a_row (gs @ [g]) s n = count_kind (kind (fold track gs s) g) (in_a_row gs s n)"
  by (induction gs arbitrary: s n) auto

lemma below:
  "live s \<Longrightarrow> count s = n \<Longrightarrow> (\<And>k. k \<le> length gs \<Longrightarrow> in_a_row (take k gs) s n < bound) \<Longrightarrow>
   live (fold track gs s) \<and> count (fold track gs s) = in_a_row gs s n"
proof (induction gs rule: rev_induct)
  case Nil
  then show ?case by simp
next
  case (snoc g gs)
  have "in_a_row (take k gs) s n < bound" if "k \<le> length gs" for k
    using snoc.prems(3) [of k] that by simp
  then have l: "live (fold track gs s)" "count (fold track gs s) = in_a_row gs s n"
    using snoc.IH [OF snoc.prems(1,2)] by simp_all
  moreover have "in_a_row (gs @ [g]) s n < bound" using snoc.prems(3) [of "Suc (length gs)"] by simp
  ultimately show ?case using goes_on [OF l(1)] counts [OF l(1)] by (simp add: in_a_row_snoc)
qed

text \<open>The limit is reached for the first time at the last round.\<close>

lemma reached:
  assumes "live s" "count s = n" "\<And>k. k < length gs \<Longrightarrow> in_a_row (take k gs) s n < bound"
    "in_a_row gs s n \<ge> bound" "n < bound"
  shows "over (fold track gs s)"
proof (cases gs rule: rev_cases)
  case Nil
  then show ?thesis using assms(4,5) by simp
next
  case (snoc hs g)
  have b: "in_a_row (take k hs) s n < bound" if "k \<le> length hs" for k
    using assms(3) [of k] that snoc by simp
  have h: "live (fold track hs s)" "count (fold track hs s) = in_a_row hs s n" "in_a_row hs s n < bound"
    using below [OF assms(1,2), of hs] b b [of "length hs"] by auto
  moreover have "bound \<le> count_kind (kind (fold track hs s) g) (count (fold track hs s))"
    using assms(4) h by (simp add: snoc in_a_row_snoc)
  ultimately have "kind (fold track hs s) g = Hit \<and> Suc (count (fold track hs s)) = bound"
    by (cases "kind (fold track hs s) g") auto
  then show ?thesis using ends [OF h(1)] h by (simp add: snoc)
qed

lemma settles:
  assumes "live s" "count s = n" "n < bound" "\<And>k. k < length gs \<Longrightarrow> in_a_row (take k gs) s n < bound"
  shows "if in_a_row gs s n < bound then live (fold track gs s) \<and> count (fold track gs s) = in_a_row gs s n
    else over (fold track gs s)"
proof (cases "in_a_row gs s n < bound")
  case True
  then have "in_a_row (take k gs) s n < bound" if "k \<le> length gs" for k
    using assms(4) [of k] that by (cases "k = length gs") auto
  then show ?thesis using below [OF assms(1,2)] True by simp
next
  case False
  then show ?thesis using reached [OF assms(1,2,4)] assms(3) by simp
qed

end

lemma streak_of_None [simp]: "streak_of None = 0"
  by (simp add: streak_of_def)

section \<open>The two trackers\<close>

definition run_is_live :: "string \<Rightarrow> scheduler \<Rightarrow> bool" where
  "run_is_live runId sd \<longleftrightarrow>
     run_status_of runId (sd_store sd) = Some RRunning \<or> run_status_of runId (sd_store sd) = Some RPaused"

definition run_is_failed :: "string \<Rightarrow> scheduler \<Rightarrow> bool" where
  "run_is_failed runId sd \<longleftrightarrow> closed_run runId RFailed (sd_store sd)"

text \<open>A forced failure with late claims and replies in its wait.\<close>

definition late_fail :: "(int \<Rightarrow> probe) \<Rightarrow> (string \<Rightarrow> late list) \<Rightarrow> surround_fail" where
  "late_fail probe qs = \<lparr>sf_probe = probe, sf_between = (\<lambda>r. fold (serve_late r) (qs r))\<rparr>"

lemma removal_store [simp]: "sd_store (removeRunCrons r opts sd) = sd_store sd"
proof -
  have one: "sd_store (remove_job opts i sd) = sd_store sd" for i sd
    by (simp add: remove_job_def Let_def kill_child_def abortDispatchRound_def sched_def split: option.split)
  have "sd_store (fold (\<lambda>(i, info). remove_job opts i) js sd) = sd_store sd" for js :: "(string \<times> job) list"
    by (induction js arbitrary: sd) (auto simp: one)
  then show ?thesis
    by (simp add: removeRunCrons_def Let_def scheduleSweepTimer_def sched_def split: prod.split)
qed

lemma forced_failure:
  assumes "run_is_live runId sd"
  shows "run_is_failed runId (force_fail_run (late_fail probe qs) runId reason sd)"
proof -
  obtain r where r: "find_run runId (sd_store sd) = Some r" "run_live r"
    using assms by (auto simp: run_is_live_def run_status_of_def run_live_def)
  obtain w where w: "forceFailRun probe (fold (serve_late runId) (qs runId)) runId reason True (sd_store sd)
      = (w, Inr ForceFailed)" "run_status_of runId w = run_status_of runId (end_rows runId RFailed (sd_store sd))"
      "steps w = steps (end_rows runId RFailed (sd_store sd))"
    using late.force_fail_closes [OF r, of True probe "qs runId" reason] by blast
  have "closed_run runId RFailed w"
    using closed_cong [OF w(2,3)] end_rows_closed [OF r(1)] by simp
  with w(1) show ?thesis by (simp add: force_fail_run_def late_fail_def run_is_failed_def)
qed

lemma escalated:
  assumes "run_is_live (j_run info) sd"
  shows "run_is_failed (j_run info) (escalate_loop (late_fail probe qs) name f info n reason sd)"
  using assms unfolding escalate_loop_def
  by (intro forced_failure) (simp add: run_is_live_def on_store_def)

lemma counted_live [simp]:
  "run_is_live r (sd\<lparr>sd_instant := x\<rparr>) = run_is_live r sd"
  "run_is_live r (sd\<lparr>sd_preclaim := x\<rparr>) = run_is_live r sd"
  "run_is_live r (armInstantFailBackoff i n d sd) = run_is_live r sd"
  "run_is_live r (armPreclaimDeathBackoff i n d sd) = run_is_live r sd"
  by (simp_all add: run_is_live_def armInstantFailBackoff_def armPreclaimDeathBackoff_def)

lemma upd_run_status:
  assumes "\<And>x. r_id (f x) = r_id x" "\<And>x. r_status (f x) = r_status x"
  shows "run_status_of r (upd_run j f w) = run_status_of r w"
  using assms by (cases "r = j")
    (simp_all add: run_status_of_def run_table.find_upd_same run_table.find_upd_other option.map_comp comp_def)

lemma counted_store [simp]:
  "run_is_live r (on_store (upd_run j (\<lambda>x. x\<lparr>r_instant_fail_count := g x\<rparr>)) sd) = run_is_live r sd"
  "run_is_live r (on_store (\<lambda>w. preclaim_event info a b n sg (fst (incrementPreclaimDeathCount c w))) sd)
     = run_is_live r sd"
  by (simp_all add: run_is_live_def on_store_def upd_run_status preclaim_event_def
      incrementPreclaimDeathCount_def Let_def)
     (simp_all add: run_status_of_def)

definition instant_kind :: "limits \<Rightarrow> round_signals \<Rightarrow> round_kind" where
  "instant_kind lm sg =
     (if isInstantFailRound lm sg then Hit
      else if resolved_wall sg = None \<or> timed_out sg then Ignored else Miss)"

definition preclaim_kind :: "limits \<Rightarrow> job \<Rightarrow> scheduler \<Rightarrow> round_signals \<Rightarrow> round_kind" where
  "preclaim_kind lm info sd sg =
     (if isPreclaimDeathRound lm (findPendingStepForAgent (j_agent info) (j_run info) (sd_store sd) \<noteq> None) sg
      then Hit else Miss)"

lemma instant_hit: "isInstantFailRound lm sg \<Longrightarrow> resolved_wall sg \<noteq> None \<and> \<not> timed_out sg"
  by (auto simp: isInstantFailRound_def split: option.splits if_splits)

lemma preclaim_pending: "\<not> isPreclaimDeathRound lm False sg"
  by (simp add: isPreclaimDeathRound_def split: option.split)

interpretation instant: tracker "trackInstantFailRound (late_fail probe qs) lm i info" "\<lambda>sd. instant_kind lm"
  "\<lambda>sd. streak_of (sd_instant sd i)" "run_is_live (j_run info)" "run_is_failed (j_run info)" "li_escalation lm"
  for probe qs lm i info
proof (unfold_locales, goal_cases)
  case (1 sd sg)
  then show ?case
    using instant_hit [of lm sg] by (auto simp: trackInstantFailRound_def instant_kind_def Let_def split: if_splits)
next
  case (2 sd sg)
  then show ?case
    using instant_hit [of lm sg]
    by (auto simp: trackInstantFailRound_def instant_kind_def Let_def on_store_def streak_of_def
        armInstantFailBackoff_def split: if_splits)
next
  case (3 sd sg)
  then show ?case
    using instant_hit [of lm sg]
    by (auto simp: trackInstantFailRound_def instant_kind_def Let_def escalateInstantFailLoop_def
        intro!: escalated split: if_splits)
qed

interpretation preclaim: tracker "trackPreclaimDeathRound (late_fail probe qs) lm i info" "preclaim_kind lm info"
  "\<lambda>sd. streak_of (sd_preclaim sd i)" "run_is_live (j_run info)" "run_is_failed (j_run info)" "li_escalation lm"
  for probe qs lm i info
proof (unfold_locales, goal_cases)
  case (1 sd sg)
  then show ?case
    by (auto simp: trackPreclaimDeathRound_def preclaim_kind_def Let_def preclaim_pending
        split: option.splits if_splits)
next
  case (2 sd sg)
  then show ?case
    by (auto simp: trackPreclaimDeathRound_def preclaim_kind_def Let_def preclaim_pending on_store_def
        streak_of_def armPreclaimDeathBackoff_def split: option.splits if_splits)
next
  case (3 sd sg)
  then show ?case
    by (auto simp: trackPreclaimDeathRound_def preclaim_kind_def Let_def preclaim_pending
        escalatePreclaimDeathLoop_def intro!: escalated split: option.splits if_splits)
qed

section \<open>The loops end\<close>

text \<open>The instant fails in a row at the end of a list of rounds; rounds that ran into the ceiling or have no
  duration do not count.\<close>

definition instant_fails_in_a_row :: "limits \<Rightarrow> round_signals list \<Rightarrow> nat" where
  "instant_fails_in_a_row lm sgs = foldl (\<lambda>n sg. count_kind (instant_kind lm sg) n) 0 sgs"

lemma instant_row: "instant.in_a_row probe qs lm i info sgs sd n = foldl (\<lambda>n sg. count_kind (instant_kind lm sg) n) n sgs"
  by (induction sgs arbitrary: sd n) simp_all

text \<open>C30.  A job whose rounds keep failing at once does not spin for ever: its live run is force-failed, with no
  step left open, at the round that makes the failures in a row reach the limit, whatever its agents still send
  meanwhile; up to that round the tracker leaves the run live and knows the number of failures.\<close>

theorem instant_fail_loop_ends:
  assumes "run_is_live (j_run info) sd" "sd_instant sd i = None" "0 < li_escalation lm"
    "\<And>k. k < length sgs \<Longrightarrow> instant_fails_in_a_row lm (take k sgs) < li_escalation lm"
  shows "let sd' = fold (trackInstantFailRound (late_fail probe qs) lm i info) sgs sd in
    if instant_fails_in_a_row lm sgs < li_escalation lm
    then run_is_live (j_run info) sd' \<and> streak_of (sd_instant sd' i) = instant_fails_in_a_row lm sgs
    else run_is_failed (j_run info) sd'"
  using instant.settles [of info sd i 0 lm sgs probe qs, unfolded instant_row] assms(1-4)
  by (simp add: instant_fails_in_a_row_def Let_def)

text \<open>The pre-claim deaths in a row: whether a step was pending is judged when the round is tracked.\<close>

fun deaths_in_a_row ::
    "surround_fail \<Rightarrow> limits \<Rightarrow> string \<Rightarrow> job \<Rightarrow> round_signals list \<Rightarrow> scheduler \<Rightarrow> nat \<Rightarrow> nat" where
  "deaths_in_a_row sf lm i info [] sd n = n"
| "deaths_in_a_row sf lm i info (sg # sgs) sd n =
     deaths_in_a_row sf lm i info sgs (trackPreclaimDeathRound sf lm i info sg sd)
       (count_kind (preclaim_kind lm info sd sg) n)"

lemma preclaim_row:
  "preclaim.in_a_row probe qs lm i info sgs sd n = deaths_in_a_row (late_fail probe qs) lm i info sgs sd n"
  by (induction sgs arbitrary: sd n) simp_all

text \<open>An agent that keeps dying before it claims the step it was started for does not do so for ever:
  its live run is force-failed at the round that makes the deaths in a row reach the limit, and not before.\<close>

theorem preclaim_death_loop_ends:
  assumes "run_is_live (j_run info) sd" "sd_preclaim sd i = None" "0 < li_escalation lm"
    "\<And>k. k < length sgs \<Longrightarrow>
       deaths_in_a_row (late_fail probe qs) lm i info (take k sgs) sd 0 < li_escalation lm"
  shows "let sd' = fold (trackPreclaimDeathRound (late_fail probe qs) lm i info) sgs sd in
    if deaths_in_a_row (late_fail probe qs) lm i info sgs sd 0 < li_escalation lm
    then run_is_live (j_run info) sd'
      \<and> streak_of (sd_preclaim sd' i) = deaths_in_a_row (late_fail probe qs) lm i info sgs sd 0
    else run_is_failed (j_run info) sd'"
  using preclaim.settles [of info sd i 0 lm sgs probe qs, unfolded preclaim_row] assms(1-4)
  by (simp add: Let_def)

section \<open>Classes\<close>

text \<open>No round is in both classes, and none that recovered a claim or ran into the ceiling is in either.\<close>

lemma classes_disjoint:
  "isInstantFailRound lm sg \<Longrightarrow> \<not> isPreclaimDeathRound lm p sg"
  by (auto simp: isInstantFailRound_def isPreclaimDeathRound_def split: option.splits if_splits)

lemma claimed_round_in_no_class:
  "timed_out sg \<or> sg_recovered sg \<Longrightarrow> \<not> isInstantFailRound lm sg \<and> \<not> isPreclaimDeathRound lm p sg"
  by (auto simp: isInstantFailRound_def isPreclaimDeathRound_def split: option.splits)

text \<open>An operator's pause excuses a round from one class and not from the other.\<close>

lemma pause_counts_as_instant_fail:
  "isInstantFailRound lm (sg\<lparr>sg_operator_paused := True\<rparr>) = isInstantFailRound lm sg"
  "\<not> isPreclaimDeathRound lm p (sg\<lparr>sg_operator_paused := True\<rparr>)"
  by (simp_all add: isInstantFailRound_def isPreclaimDeathRound_def resolved_wall_def timed_out_def
      split: option.split)

text \<open>Rounds that fail fast and slowly in turn are never ended: each resets the streak of the other.\<close>

lemma alternating_failures_never_end:
  assumes "isInstantFailRound lm a" "isPreclaimDeathRound lm True b"
  shows "instant_fails_in_a_row lm (concat (replicate n [a, b])) = 0"
    "deaths_in_a_row sf lm i info (concat (replicate n [b, a])) sd 0 = 0"
proof -
  have b: "instant_kind lm b = Miss"
    using assms(2) by (auto simp: isPreclaimDeathRound_def isInstantFailRound_def instant_kind_def
        split: option.splits if_splits)
  have "foldl (\<lambda>n sg. count_kind (instant_kind lm sg) n) 0 (concat (replicate n [a, b])) = 0"
    using b by (induction n) simp_all
  then show "instant_fails_in_a_row lm (concat (replicate n [a, b])) = 0"
    by (simp add: instant_fails_in_a_row_def)
  have "preclaim_kind lm info sd a = Miss" for sd
    using classes_disjoint [OF assms(1)] by (simp add: preclaim_kind_def)
  then show "deaths_in_a_row sf lm i info (concat (replicate n [b, a])) sd 0 = 0"
    by (induction n arbitrary: sd) simp_all
qed

section \<open>Samples\<close>

definition scheduler0 :: scheduler where
  "scheduler0 =
     \<lparr>sd_store = store0, sd_jobs = [], sd_active = [], sd_pending = [], sd_in_flight = [], sd_signals = [],
      sd_controllers = Map.empty, sd_children = Map.empty, sd_paused_rounds = [], sd_instant = Map.empty,
      sd_preclaim = Map.empty, sd_sweeps = [], sd_calls = [], sd_generation = 0, sd_started = 0, sd_mono = 1000\<rparr>"

definition job0 :: job where
  "job0 = \<lparr>j_workflow = ''wf'', j_run = ''r'', j_agent = ''merger'', j_timeout = None, j_workdir = Some ''/w'',
           j_harness = ''pi''\<rparr>"

definition crash0 :: "nat \<Rightarrow> round_signals" where
  "crash0 ms =
     \<lparr>sg_wall = Some (enat ms), sg_harness_wall = None, sg_vm_setup = None,
      sg_result = Some \<lparr>rr_output = [], rr_exit = Some 1, rr_signal = None, rr_timed_out = False,
        rr_wall = Some (enat ms), rr_harness_wall = None, rr_vm_setup = None, rr_command = None, rr_stderr = None\<rparr>,
      sg_threw = False, sg_recovered = False, sg_operator_paused = False\<rparr>"

definition limits0 :: limits where
  "limits0 = \<lparr>li_wall = 6000, li_backoff = 1, li_escalation = 2, li_base = 10\<rparr>"

lemmas round_samples = scheduler0_def job0_def crash0_def limits0_def

lemma crash_is_instant: "isInstantFailRound limits0 (crash0 5)"
  by (simp add: isInstantFailRound_def resolved_wall_def resolveHarnessWallMs_def timed_out_def
      result_abnormal_def abnormal_end_def round_samples trim_def trim_start_def trim_end_def)

lemma scheduler0_live: "run_is_live ''r'' scheduler0"
  by (simp add: run_is_live_def scheduler0_def store0_def run_status_of_def find_run_def run0_def)

lemma instant_fail_loop_ends_witness:
  "run_is_failed ''r'' (fold (trackInstantFailRound (late_fail (\<lambda>_. NoSuchProcess) (\<lambda>_. [])) limits0 ''j'' job0)
     [crash0 5, crash0 5] scheduler0)"
proof -
  have "instant_fails_in_a_row limits0 (take k [crash0 5, crash0 5]) < li_escalation limits0" if "k < 2" for k
    using that crash_is_instant
    by (cases k) (auto simp: instant_fails_in_a_row_def instant_kind_def take_Cons' limits0_def)
  then show ?thesis
    using instant_fail_loop_ends [of job0 scheduler0 "''j''" limits0 "[crash0 5, crash0 5]"
        "\<lambda>_. NoSuchProcess" "\<lambda>_. []"] crash_is_instant scheduler0_live
    by (simp add: instant_fails_in_a_row_def instant_kind_def Let_def job0_def limits0_def scheduler0_def)
qed

definition pending0 :: scheduler where
  "pending0 = scheduler0\<lparr>sd_store := store0\<lparr>steps := [step0\<lparr>s_status := SPending\<rparr>]\<rparr>\<rparr>"

lemma preclaim_death_loop_ends_witness:
  "run_is_failed ''r'' (fold (trackPreclaimDeathRound (late_fail (\<lambda>_. NoSuchProcess) (\<lambda>_. []))
     (limits0\<lparr>li_escalation := 1\<rparr>) ''j'' (job0\<lparr>j_agent := ''planner''\<rparr>)) [crash0 7000] pending0)"
proof -
  have "findPendingStepForAgent ''planner'' ''r'' (sd_store pending0) \<noteq> None"
    by (simp add: findPendingStepForAgent_def pending0_def run_steps_def stripIdPrefix_def isRunPrefixed_def
        isStepPrefixed_def step0_def)
  then have hit: "preclaim_kind (limits0\<lparr>li_escalation := 1\<rparr>) (job0\<lparr>j_agent := ''planner''\<rparr>) pending0 (crash0 7000) = Hit"
    by (simp add: preclaim_kind_def isPreclaimDeathRound_def resolved_wall_def resolveHarnessWallMs_def
        timed_out_def result_abnormal_def abnormal_end_def round_samples)
  have "run_is_live ''r'' pending0"
    by (simp add: run_is_live_def pending0_def store0_def run_status_of_def find_run_def run0_def)
  then show ?thesis
    using preclaim_death_loop_ends [of "job0\<lparr>j_agent := ''planner''\<rparr>" pending0 "''j''" "limits0\<lparr>li_escalation := 1\<rparr>"
        "[crash0 7000]" "\<lambda>_. NoSuchProcess" "\<lambda>_. []"] hit
    by (simp add: Let_def job0_def pending0_def scheduler0_def)
qed

end
