(* ===== verification/Dispatch.thy ===== *)
theory Dispatch
  imports Rounds_Props
begin

text \<open>
  The start of a dispatch round (\<^verbatim>\<open>executeDispatchRound\<close> of
  \<^verbatim>\<open>src/src/installer/agent-scheduler.ts\<close>): every tick of a job's timer goes through these gates, up to the
  launch of the harness.

  The admission of a run to its sandbox and the timeout of a role are parameters.  Calls that are not awaited stay in the
  lists of effects and calls.
\<close>

section \<open>Surroundings\<close>

text \<open>What the sandbox says of a run: that it is not asked, admitted, still being prepared, or refused, with
  a code and a message.\<close>

datatype admission = NotIsolated | Admitted | Held string string | NotAdmitted string string

record dispatch_env =
  dv_limits :: limits
  dv_fail :: surround_fail
  dv_specs :: specs
  dv_admission :: "string \<Rightarrow> store \<Rightarrow> admission"
  dv_timeout :: "job \<Rightarrow> nat"

text \<open>The timeout of a round in seconds: the agent's, else the job's, else the role's.\<close>

definition round_timeout :: "nat option \<Rightarrow> job \<Rightarrow> (job \<Rightarrow> nat) \<Rightarrow> nat" where
  "round_timeout own info role =
     (case own of Some t \<Rightarrow> t | None \<Rightarrow> (case j_timeout info of Some t \<Rightarrow> t | None \<Rightarrow> role info))"

definition MAX_CONDITIONAL_AUTO_COMPLETES_PER_ROUND :: nat where
  "MAX_CONDITIONAL_AUTO_COMPLETES_PER_ROUND = 16"

section \<open>The gates\<close>

text \<open>\<open>Some reason\<close> ends the round.\<close>

definition row_context :: "run \<Rightarrow> store \<Rightarrow> ctx \<times> store" where
  "row_context r w =
     (case r_context r of CtxCorrupt [] \<Rightarrow> (Map.empty, w) | c \<Rightarrow> parseRunContext (r_id r) c w)"

definition run_gate :: "job \<Rightarrow> scheduler \<Rightarrow> scheduler \<times> string option" where
  "run_gate info sd =
     (let teardown = (\<lambda>st sd. removeRunCrons (j_run info)
                        \<lparr>ro_grace = getRunTeardownGraceMs st, ro_generation = Some (sd_generation sd), ro_paused = False\<rparr> sd)
      in case find_run (j_run info) (sd_store sd) of
           None \<Rightarrow> (teardown None sd, Some ''run_not_running'')
         | Some r \<Rightarrow>
             (let (m, w) = row_context r (sd_store sd); sd1 = sd\<lparr>sd_store := w\<rparr>
              in if \<not> run_live r then (teardown (Some (r_status r)) sd1, Some ''run_not_running'')
                 else if r_status r = RPaused then (sd1, Some ''run_paused'')
                 else if r_scheduling_status r = Some ''draining_pause'' \<or> m ''pause_drain'' = Some ''true''
                 then (on_store (finalizeDrainingPause (j_run info)) sd1, Some ''draining'')
                 else (sd1, None)))"

definition admission_event :: "string \<Rightarrow> job \<Rightarrow> string \<Rightarrow> string \<Rightarrow> store \<Rightarrow> store" where
  "admission_event name info code message =
     emit name (j_run info)
       [(''workflowId'', VStr (j_workflow info)), (''reason'', VStr code), (''detail'', VStr message)]"

definition admission_gate :: "dispatch_env \<Rightarrow> job \<Rightarrow> scheduler \<Rightarrow> scheduler \<times> string option" where
  "admission_gate v info sd =
     (case dv_admission v (j_run info) (sd_store sd) of
        Held code message \<Rightarrow>
          (on_store (admission_event ''run.matchlock_dispatch_held'' info code message) sd,
           Some ''matchlock_preparing_held'')
      | NotAdmitted code message \<Rightarrow>
          (force_fail_run (dv_fail v) (j_run info) message
             (on_store (admission_event ''run.matchlock_dispatch_refused'' info code message) sd),
           Some ''matchlock_dispatch_refused'')
      | _ \<Rightarrow> (sd, None))"

definition kids_of :: "scheduler \<Rightarrow> children" where
  "kids_of sd i = map_option (\<lambda>c. (ch_pid c, ch_killed c)) (sd_children sd i)"

definition liveness_sweep :: "dispatch_env \<Rightarrow> scheduler \<Rightarrow> scheduler" where
  "liveness_sweep v sd =
     (let (w, c, rs) = checkRunningWorkersLiveness (sf_probe (dv_fail v)) (kids_of sd) (dv_specs v) (sd_store sd);
          sd1 = sd\<lparr>sd_store := w\<rparr>
      in if rs = [] then sd1 else sched (NudgeRuns rs) sd1)"

definition stale_sweep :: "dispatch_env \<Rightarrow> job \<Rightarrow> nat \<Rightarrow> scheduler \<Rightarrow> scheduler" where
  "stale_sweep v info timeout =
     on_store (\<lambda>w. fst (recoverOrphanedStepsForAgent (dv_specs v)
       (plain_end\<lparr>we_stale := Some (int timeout * 1500), we_abandon := Some ''worker_timeout''\<rparr>)
       (j_agent info) (j_run info) w))"

text \<open>Conditional steps complete by themselves, at most so many in a round; the second component says that no
  step is left to work on.\<close>

fun auto_complete_steps :: "nat \<Rightarrow> job \<Rightarrow> store \<Rightarrow> store \<times> bool" where
  "auto_complete_steps 0 info w = (w, False)"
| "auto_complete_steps (Suc n) info w =
     (case autoCompleteConditionalStep (j_run info) (j_agent info) w of
        (w1, Inr AutoCompleted) \<Rightarrow>
          if peekStep (j_agent info) (j_run info) w1 = NO_WORK then (w1, True)
          else auto_complete_steps n info w1
      | (w1, _) \<Rightarrow> (w1, False))"

definition work_gate :: "dispatch_env \<Rightarrow> job \<Rightarrow> nat \<Rightarrow> scheduler \<Rightarrow> scheduler \<times> string option" where
  "work_gate v info timeout sd =
     (let sd1 = stale_sweep v info timeout (liveness_sweep v sd)
      in if peekStep (j_agent info) (j_run info) (sd_store sd1) = NO_WORK then (sd1, Some ''no_pending_step'')
         else (let (w, idle) = auto_complete_steps MAX_CONDITIONAL_AUTO_COMPLETES_PER_ROUND info (sd_store sd1)
               in (sd1\<lparr>sd_store := w\<rparr>,
                   if idle then Some ''no_pending_step_after_auto_complete'' else None)))"

definition dispatch_gates :: "dispatch_env \<Rightarrow> job \<Rightarrow> nat \<Rightarrow> scheduler \<Rightarrow> scheduler \<times> string option" where
  "dispatch_gates v info timeout sd =
     (case run_gate info sd of
        (sd1, Some why) \<Rightarrow> (sd1, Some why)
      | (sd1, None) \<Rightarrow>
          (case admission_gate v info sd1 of
             (sd2, Some why) \<Rightarrow> (sd2, Some why)
           | (sd2, None) \<Rightarrow> work_gate v info timeout sd2))"

section \<open>The start of a round\<close>

text \<open>Idle with a reason, or started with its identity and in flight.\<close>

datatype round_start = Idle string | Started nat

definition dispatch_round ::
    "dispatch_env \<Rightarrow> string \<Rightarrow> job \<Rightarrow> nat option \<Rightarrow> scheduler \<Rightarrow> scheduler \<times> round_start" where
  "dispatch_round v i info own sd =
     (if j_workdir info = None \<or> j_workdir info = Some []
      then (removeRunCrons (j_run info) (plain_removal\<lparr>ro_generation := Some (sd_generation sd)\<rparr>) sd,
            Idle ''missing_working_directory_for_harness'')
      else if backoff_active (sd_preclaim sd i) (sd_mono sd) then (sd, Idle ''preclaim_death_backoff'')
      else if backoff_active (sd_instant sd i) (sd_mono sd) then (sd, Idle ''instant_fail_backoff'')
      else (case tryMarkJobInFlight i sd of
              (sd1, False) \<Rightarrow> (sd1, Idle ''previous_round_in_flight'')
            | (sd1, True) \<Rightarrow>
                (let (sd2, n) = open_round i (j_run info) sd1
                 in case dispatch_gates v info (round_timeout own info (dv_timeout v)) sd2 of
                      (sd3, Some why) \<Rightarrow> (close_round i n sd3, Idle why)
                    | (sd3, None) \<Rightarrow> (sd3, Started n))))"

section \<open>When a round starts\<close>

lemma removal_frame [simp]:
  "sd_started (removeRunCrons r opts sd) = sd_started sd"
  "sd_mono (removeRunCrons r opts sd) = sd_mono sd"
  "i \<in> set (sd_in_flight (removeRunCrons r opts sd)) \<Longrightarrow> i \<in> set (sd_in_flight sd)"
proof -
  have one: "sd_started (remove_job opts j sd) = sd_started sd \<and> sd_mono (remove_job opts j sd) = sd_mono sd
      \<and> sd_in_flight (remove_job opts j sd) = removeAll j (sd_in_flight sd)" for j sd
    by (simp add: remove_job_def Let_def kill_child_def abortDispatchRound_def sched_def split: option.split)
  have same: "sd_started (fold (\<lambda>(j, info). remove_job opts j) js sd) = sd_started sd
      \<and> sd_mono (fold (\<lambda>(j, info). remove_job opts j) js sd) = sd_mono sd" for js :: "(string \<times> job) list"
    by (induction js arbitrary: sd) (auto simp: one)
  have less: "set (sd_in_flight (fold (\<lambda>(j, info). remove_job opts j) js sd)) \<subseteq> set (sd_in_flight sd)"
    for js :: "(string \<times> job) list"
  proof (induction js arbitrary: sd)
    case (Cons a js)
    then show ?case using one [of "fst a" sd] Cons [of "remove_job opts (fst a) sd"] by (auto simp: case_prod_beta)
  qed simp
  show "sd_started (removeRunCrons r opts sd) = sd_started sd"
    "sd_mono (removeRunCrons r opts sd) = sd_mono sd"
    "i \<in> set (sd_in_flight (removeRunCrons r opts sd)) \<Longrightarrow> i \<in> set (sd_in_flight sd)"
    using same [of "run_jobs r sd"] less [of "run_jobs r sd"]
    by (auto simp: removeRunCrons_def Let_def scheduleSweepTimer_def sched_def split: prod.splits if_splits)
qed

text \<open>A run that may be given work: it is running and no pause of it is pending.\<close>

definition open_for_work :: "string \<Rightarrow> store \<Rightarrow> bool" where
  "open_for_work runId w \<longleftrightarrow>
     (\<exists>r. find_run runId w = Some r \<and> r_status r = RRunning \<and> r_scheduling_status r \<noteq> Some ''draining_pause''
          \<and> fst (row_context r w) ''pause_drain'' \<noteq> Some ''true'')"

lemma run_gate_passes:
  assumes "run_gate info sd = (sd1, None)"
  shows "open_for_work (j_run info) (sd_store sd) \<and> sd_in_flight sd1 = sd_in_flight sd"
  using assms by (auto simp: run_gate_def Let_def run_live_def open_for_work_def
      split: option.splits prod.splits if_splits)

lemma admission_gate_passes:
  assumes "admission_gate v info sd = (sd1, None)"
  shows "sd1 = sd \<and> dv_admission v (j_run info) (sd_store sd) \<in> {NotIsolated, Admitted}"
  using assms by (auto simp: admission_gate_def split: admission.splits)

lemma peek_status:
  "peekStep a (j_run info) w = HAS_WORK \<Longrightarrow> run_status_of (stripIdPrefix (j_run info)) w = Some RRunning"
  by (simp add: peekStep_def Let_def split: if_splits)

lemma conditional_flag_keeps:
  "conditional_flag runId a s key w = (w1, r) \<Longrightarrow> r \<noteq> Inr AutoCompleted \<Longrightarrow>
   runs w1 = runs w \<and> steps w1 = steps w"
  by (auto simp: conditional_flag_def Let_def parseRunContext_def
      split: option.splits prod.splits ctx_col.splits if_splits)

lemma conditional_keeps:
  "autoCompleteConditionalStep runId a w = (w1, r) \<Longrightarrow> r \<noteq> Inr AutoCompleted \<Longrightarrow>
   peekStep b q w1 = peekStep b q w"
  using conditional_flag_keeps
  by (fastforce simp: autoCompleteConditionalStep_def Let_def peekStep_def run_status_of_def find_run_def
      run_steps_def split: option.splits if_splits)

lemma auto_complete_leaves_work:
  "peekStep (j_agent info) (j_run info) w = HAS_WORK \<Longrightarrow> auto_complete_steps n info w = (w1, False) \<Longrightarrow>
   peekStep (j_agent info) (j_run info) w1 = HAS_WORK"
proof (induction n info w rule: auto_complete_steps.induct)
  case (1 info w)
  then show ?case by simp
next
  case (2 n info w)
  obtain w2 r where a: "autoCompleteConditionalStep (j_run info) (j_agent info) w = (w2, r)" by fastforce
  show ?case
  proof (cases "r = Inr AutoCompleted")
    case True
    then show ?thesis
      using 2 a by (cases "peekStep (j_agent info) (j_run info) w2") auto
  next
    case False
    then have "w1 = w2" using 2 a by (auto split: sum.splits auto_outcome.splits)
    then show ?thesis using conditional_keeps [OF a False] 2 by simp
  qed
qed

lemma gates_pass:
  assumes "dispatch_gates v info timeout sd = (sd', None)"
  shows "open_for_work (j_run info) (sd_store sd) \<and> sd_in_flight sd' = sd_in_flight sd
    \<and> peekStep (j_agent info) (j_run info) (sd_store sd') = HAS_WORK"
proof -
  obtain sd1 where r: "run_gate info sd = (sd1, None)"
    using assms by (auto simp: dispatch_gates_def split: prod.splits option.splits)
  obtain sd2 where m: "admission_gate v info sd1 = (sd2, None)"
    using assms r by (auto simp: dispatch_gates_def split: prod.splits option.splits)
  have w: "work_gate v info timeout sd1 = (sd', None)"
    using assms r m admission_gate_passes [OF m] by (simp add: dispatch_gates_def)
  define u where "u = stale_sweep v info timeout (liveness_sweep v sd1)"
  have "sd_in_flight u = sd_in_flight sd1"
    by (simp add: u_def stale_sweep_def liveness_sweep_def on_store_def sched_def Let_def split: prod.split)
  moreover have p: "peekStep (j_agent info) (j_run info) (sd_store u) = HAS_WORK"
    using w by (cases "peekStep (j_agent info) (j_run info) (sd_store u)") (auto simp: work_gate_def u_def Let_def)
  moreover obtain w' where "auto_complete_steps MAX_CONDITIONAL_AUTO_COMPLETES_PER_ROUND info (sd_store u) = (w', False)"
    "sd' = u\<lparr>sd_store := w'\<rparr>"
    using w p by (auto simp: work_gate_def u_def Let_def split: prod.splits if_splits)
  ultimately show ?thesis
    using run_gate_passes [OF r] auto_complete_leaves_work [OF p] by simp
qed

lemma closed_not_in_flight: "i \<notin> set (sd_in_flight (close_round i n sd))"
  by (simp add: close_round_def)

text \<open>C31.  A tick of a job starts a round only when the job has none in flight, no streak of failures holds it
  back, its run is running with no pause pending, and after the sweeps a step of its agent is still pending; the job is
  then in flight.  A tick that starts no round never leaves the job in flight by itself.\<close>

theorem dispatch_starts_with_work:
  assumes "dispatch_round v i info own sd = (sd', start)"
  shows "case start of
      Started n \<Rightarrow>
        peekStep (j_agent info) (j_run info) (sd_store sd') = HAS_WORK
        \<and> open_for_work (j_run info) (sd_store sd)
        \<and> \<not> backoff_active (sd_preclaim sd i) (sd_mono sd) \<and> \<not> backoff_active (sd_instant sd i) (sd_mono sd)
        \<and> i \<notin> set (sd_in_flight sd) \<and> i \<in> set (sd_in_flight sd')
    | Idle why \<Rightarrow> i \<in> set (sd_in_flight sd') \<longrightarrow> i \<in> set (sd_in_flight sd)"
proof (cases start)
  case (Idle why)
  then show ?thesis
    using assms closed_not_in_flight
    by (auto simp: dispatch_round_def tryMarkJobInFlight_def open_round_def split: if_splits prod.splits option.splits)
next
  case (Started n)
  define sd2 where "sd2 = fst (open_round i (j_run info) (fst (tryMarkJobInFlight i sd)))"
  from assms Started have g: "dispatch_gates v info (round_timeout own info (dv_timeout v)) sd2 = (sd', None)"
    and free: "i \<notin> set (sd_in_flight sd)"
    and calm: "\<not> backoff_active (sd_preclaim sd i) (sd_mono sd)" "\<not> backoff_active (sd_instant sd i) (sd_mono sd)"
    by (auto simp: dispatch_round_def tryMarkJobInFlight_def open_round_def sd2_def
        split: if_splits prod.splits option.splits)
  have "sd_store sd2 = sd_store sd" "i \<in> set (sd_in_flight sd2)"
    using free by (simp_all add: sd2_def open_round_def tryMarkJobInFlight_def)
  with gates_pass [OF g] free calm Started show ?thesis by simp
qed

definition dispatch_env0 :: dispatch_env where
  "dispatch_env0 = \<lparr>dv_limits = limits0, dv_fail = late_fail (\<lambda>_. NoSuchProcess) (\<lambda>_. []), dv_specs = (\<lambda>_. None),
     dv_admission = (\<lambda>_ _. NotIsolated), dv_timeout = (\<lambda>_. 1800)\<rparr>"

abbreviation sample_round :: "scheduler \<times> round_start" where
  "sample_round \<equiv> dispatch_round dispatch_env0 ''j'' (job0\<lparr>j_agent := ''planner''\<rparr>) None pending0"

lemma sample_dispatch: "snd sample_round = Started 0"
  by code_simp

lemma dispatch_starts_with_work_witness:
  "peekStep ''planner'' ''r'' (sd_store (fst sample_round)) = HAS_WORK \<and> ''j'' \<in> set (sd_in_flight (fst sample_round))"
proof -
  have "sample_round = (fst sample_round, Started 0)" using sample_dispatch by (simp add: prod_eq_iff)
  from dispatch_starts_with_work [OF this] show ?thesis
    unfolding round_start.case by (simp add: job0_def)
qed

end
