(* ===== verification/Work_Round.thy ===== *)
theory Work_Round
  imports Dispatch
begin

text \<open>
  The end of a round (\<^verbatim>\<open>src/src/installer/agent-scheduler.ts\<close>, \<^verbatim>\<open>executeDispatchRound\<close> after the
  harness): what its output says, the tokens it spent, the completion or the recovery of the step it held, the trackers and the
  \<^verbatim>\<open>finally\<close> that frees the job.

  The text of the agent and its usage are what the harness adapter makes of the output; the
  message of an exception of the JavaScript engine is a parameter.
\<close>

section \<open>What a round reports\<close>

datatype work_outcome = NoWork | WorkDone | WorkFailed | EmptyOutput | OtherOutput

text \<open>One of the words, ended by a word boundary.\<close>

definition word_at :: "string list \<Rightarrow> string \<Rightarrow> bool" where
  "word_at ws s \<longleftrightarrow>
     list_ex (\<lambda>l. starts_with l s \<and> (case drop (length l) s of [] \<Rightarrow> True | c # _ \<Rightarrow> \<not> is_word c)) ws"

text \<open>A multi-line \<^verbatim>\<open>^\<close>: at the start of the text or after a line terminator.\<close>

fun at_line_start :: "(string \<Rightarrow> bool) \<Rightarrow> bool \<Rightarrow> string \<Rightarrow> bool" where
  "at_line_start P start [] \<longleftrightarrow> start \<and> P []"
| "at_line_start P start (c # cs) \<longleftrightarrow> start \<and> P (c # cs) \<or> at_line_start P (is_line_term c) cs"

definition no_work_line :: "string \<Rightarrow> bool" where
  "no_work_line s \<longleftrightarrow> word_at [''NO_WORK_AVAILABLE''] (dropWhile is_ws s)"

definition status_is :: "string list \<Rightarrow> string \<Rightarrow> bool" where
  "status_is ws s \<longleftrightarrow>
     (let r = lower (dropWhile is_ws s) in starts_with ''status:'' r \<and> word_at ws (dropWhile is_ws (drop 7 r)))"

definition classifyWorkRoundOutcome :: "string \<Rightarrow> work_outcome" where
  "classifyWorkRoundOutcome out =
     (if out = [] then EmptyOutput
      else if at_line_start no_work_line True out then NoWork
      else if at_line_start (status_is [''fail'', ''failed'', ''error'']) True out then WorkFailed
      else if at_line_start (status_is [''done'']) True out then WorkDone
      else OtherOutput)"

text \<open>Whether a worker completed a step in spite of an empty output: the steps it had done before the round
  are compared with those done after it, the latest first.\<close>

definition done_by :: "string \<Rightarrow> string \<Rightarrow> store \<Rightarrow> step list" where
  "done_by i runId w =
     filter (\<lambda>s. s_claim_job_id s = Some i \<and> s_status s = SDone) (run_steps runId w)"

definition snapshotDoneStepsClaimedByWorker :: "string \<Rightarrow> string \<Rightarrow> store \<Rightarrow> string list" where
  "snapshotDoneStepsClaimedByWorker i runId w = map s_id (done_by i runId w)"

definition latest_first :: "step \<Rightarrow> nat \<times> int" where
  "latest_first s = (case s_updated_at s of Some t \<Rightarrow> (0, - t) | None \<Rightarrow> (1, 0))"

definition findStepCompletedByWorker ::
    "string \<Rightarrow> string \<Rightarrow> string list \<Rightarrow> store \<Rightarrow> (string \<times> string) option" where
  "findStepCompletedByWorker i runId before w =
     map_option (\<lambda>s. (s_id s, s_step_id s))
       (first_min latest_first (filter (\<lambda>s. s_id s \<notin> set before) (done_by i runId w)))"

definition applyGuestStepCompletionEvidence ::
    "work_outcome \<Rightarrow> (string \<times> string) option \<Rightarrow> work_outcome" where
  "applyGuestStepCompletionEvidence out evidence =
     (if out = EmptyOutput \<and> evidence \<noteq> None then WorkDone else out)"

text \<open>\<open>before\<close> is the snapshot of an isolated round, \<open>None\<close> for any other.\<close>

definition round_outcome :: "string list option \<Rightarrow> string \<Rightarrow> string \<Rightarrow> string \<Rightarrow> store \<Rightarrow> work_outcome" where
  "round_outcome before text i runId w =
     (let out = classifyWorkRoundOutcome (trim text)
      in case before of
           None \<Rightarrow> out
         | Some b \<Rightarrow>
             if out = EmptyOutput then applyGuestStepCompletionEvidence out (findStepCompletedByWorker i runId b w)
             else out)"

section \<open>Tokens\<close>

definition incrementRunTokenSpend :: "string \<Rightarrow> nat \<Rightarrow> store \<Rightarrow> store \<times> run option" where
  "incrementRunTokenSpend runId n w =
     (let w1 = set_run runId (\<lambda>r. r\<lparr>r_tokens_spent := r_tokens_spent r + n\<rparr>) w in (w1, find_run runId w1))"

definition attributeWorkRoundTokenUsage ::
    "string \<Rightarrow> job \<Rightarrow> nat option \<Rightarrow> string option \<Rightarrow> store \<Rightarrow> store" where
  "attributeWorkRoundTokenUsage i info usage stepId w =
     (case usage of
        None \<Rightarrow> w
      | Some n \<Rightarrow>
          if n = 0 then w
          else (case incrementRunTokenSpend (j_run info) n w of
                  (w1, None) \<Rightarrow> w1
                | (w1, Some r) \<Rightarrow>
                    emit ''run.tokens.updated'' (j_run info)
                      ([(''workflowId'', VStr (r_workflow_id r)), (''tokenDelta'', VNat n),
                        (''tokensSpent'', VNat (r_tokens_spent r))]
                       @ opt_str ''stepId'' stepId @ [(''roundId'', VStr i)]
                       @ (if terminal (r_status r)
                          then [(''postTerminal'', VBool True), (''terminalStatus'', VStr (run_status_text (r_status r)))]
                          else [])) w1))"

section \<open>The step of the round\<close>

record round_env =
  re_dispatch :: dispatch_env
  re_world :: surroundings
  re_message :: "exn \<Rightarrow> string"

definition autocomplete_failure :: "string \<Rightarrow> string" where
  "autocomplete_failure msg =
     ''Previous attempt produced output that could not be auto-completed: '' @ msg @ ''. ''
     @ ''If this involved STORIES_JSON, ensure the STORIES_JSON line ends with a literal \"]\" and ''
     @ ''is followed by no trailing prose, comments, or markdown - only blank lines or another KEY: line.''"

text \<open>The fallback for an agent that reported in its text only.\<close>

definition autoCompleteStepIfRunning :: "round_env \<Rightarrow> string \<Rightarrow> job \<Rightarrow> string \<Rightarrow> store \<Rightarrow> store" where
  "autoCompleteStepIfRunning v i info text w =
     (case List.find (\<lambda>s. s_claim_job_id s = Some i \<and> s_status s = SRunning) (steps w) of
        None \<Rightarrow> w
      | Some s \<Rightarrow>
          if s_type s = TyLoop \<and> s_current_story_id s = None then w
          else (case completeStep (re_world v)
                       \<lparr>co_authority = None, co_reject_paused = True, co_access = None\<rparr> (s_id s) text w of
                  (w1, Inr r) \<Rightarrow> w1
                | (w1, Inl x) \<Rightarrow>
                    fst (recoverOrphanedStepsForAgent (dv_specs (re_dispatch v))
                      (plain_end\<lparr>we_failure := Some (autocomplete_failure (re_message v x)), we_job := Some i,
                                 we_abandon := Some ''worker_lost''\<rparr>)
                      (j_agent info) (j_run info) w1)))"

definition round_abandon :: "bool \<Rightarrow> string" where
  "round_abandon paused = (if paused then ''paused_by_operator'' else ''worker_lost'')"

definition lost_end :: "string \<Rightarrow> bool \<Rightarrow> round_result \<Rightarrow> worker_end" where
  "lost_end i paused r =
     plain_end\<lparr>we_job := Some i, we_abandon := Some (round_abandon paused), we_exit := rr_exit r,
               we_signal := rr_signal r, we_stderr := rr_stderr r, we_timed_out := rr_timed_out r\<rparr>"

definition no_work_end :: "string \<Rightarrow> round_result \<Rightarrow> worker_end" where
  "no_work_end i r =
     plain_end\<lparr>we_stale := Some 0, we_job := Some i, we_abandon := Some ''no_work_release'',
               we_exit := rr_exit r, we_signal := rr_signal r, we_stderr := rr_stderr r\<rparr>"

text \<open>The second component says whether steps were recovered.\<close>

definition recover_round :: "round_env \<Rightarrow> job \<Rightarrow> worker_end \<Rightarrow> store \<Rightarrow> store \<times> bool" where
  "recover_round v info e w =
     (let (w1, c) = recoverOrphanedStepsForAgent (dv_specs (re_dispatch v)) e (j_agent info) (j_run info) w
      in (w1, recovered c > 0))"

definition settle_outcome ::
    "round_env \<Rightarrow> string \<Rightarrow> job \<Rightarrow> bool \<Rightarrow> round_result \<Rightarrow> string \<Rightarrow> work_outcome \<Rightarrow> store \<Rightarrow> store \<times> bool" where
  "settle_outcome v i info paused r text out w =
     (case out of
        WorkDone \<Rightarrow> (autoCompleteStepIfRunning v i info text w, False)
      | OtherOutput \<Rightarrow> recover_round v info (lost_end i paused r) w
      | EmptyOutput \<Rightarrow> recover_round v info (lost_end i paused r) w
      | NoWork \<Rightarrow> recover_round v info (no_work_end i r) w
      | WorkFailed \<Rightarrow> (w, False))"

section \<open>The end of a round\<close>

text \<open>What the harness gave: a result with the agent's text, the tokens used and the step they name.\<close>

record work_report =
  wr_result :: round_result
  wr_text :: string
  wr_usage :: "nat option"
  wr_step :: "string option"

definition report_signals :: "work_report \<Rightarrow> nat \<Rightarrow> bool \<Rightarrow> bool \<Rightarrow> round_signals" where
  "report_signals rep elapsed claimed paused =
     \<lparr>sg_wall = Some (case rr_wall (wr_result rep) of Some x \<Rightarrow> x | None \<Rightarrow> enat elapsed),
      sg_harness_wall = rr_harness_wall (wr_result rep), sg_vm_setup = rr_vm_setup (wr_result rep),
      sg_result = Some (wr_result rep), sg_threw = False, sg_recovered = claimed,
      sg_operator_paused = paused\<rparr>"

definition track_round :: "round_env \<Rightarrow> string \<Rightarrow> job \<Rightarrow> round_signals \<Rightarrow> scheduler \<Rightarrow> scheduler" where
  "track_round v i info sg sd =
     (let d = re_dispatch v
      in trackPreclaimDeathRound (dv_fail d) (dv_limits d) i info sg
           (trackInstantFailRound (dv_fail d) (dv_limits d) i info sg sd))"

definition finish_round ::
    "round_env \<Rightarrow> string \<Rightarrow> nat \<Rightarrow> job \<Rightarrow> string list option \<Rightarrow> work_report \<Rightarrow> nat \<Rightarrow> scheduler \<Rightarrow> scheduler" where
  "finish_round v i n info before rep elapsed sd =
     (let (sd1, paused) = consumeOperatorPausedRound i sd;
          out = round_outcome before (wr_text rep) i (j_run info) (sd_store sd1);
          w1 = attributeWorkRoundTokenUsage i info (wr_usage rep) (wr_step rep) (sd_store sd1);
          (w2, rec) = settle_outcome v i info paused (wr_result rep) (wr_text rep) out w1
      in close_round i n (track_round v i info (report_signals rep elapsed rec paused) (sd1\<lparr>sd_store := w2\<rparr>)))"

text \<open>A round whose harness threw: the message, the time since the launch if it got that far, and the code of an error of
  the sandbox.\<close>

record work_error =
  er_message :: string
  er_elapsed :: enat
  er_sandbox :: "string option"

definition timeout_reason :: "nat \<Rightarrow> string" where
  "timeout_reason timeout =
     ''previous attempt was killed by the '' @ nat_str ((timeout + 30) div 60)
     @ ''-minute harness timeout - plan the work to fit, or split it.''"

definition error_end :: "string \<Rightarrow> bool \<Rightarrow> nat \<Rightarrow> string \<Rightarrow> worker_end" where
  "error_end i paused timeout msg =
     plain_end\<lparr>we_timeout_retry := (if str_includes ''timed out'' msg then Some (timeout_reason timeout) else None),
               we_job := Some i, we_abandon := Some (round_abandon paused)\<rparr>"

definition error_signals :: "work_error \<Rightarrow> bool \<Rightarrow> bool \<Rightarrow> round_signals" where
  "error_signals err claimed paused =
     \<lparr>sg_wall = Some (er_elapsed err), sg_harness_wall = None, sg_vm_setup = None, sg_result = None,
      sg_threw = True, sg_recovered = claimed, sg_operator_paused = paused\<rparr>"

definition fail_round ::
    "round_env \<Rightarrow> string \<Rightarrow> nat \<Rightarrow> job \<Rightarrow> nat \<Rightarrow> work_error \<Rightarrow> scheduler \<Rightarrow> scheduler" where
  "fail_round v i n info timeout err sd =
     (let (sd1, paused) = consumeOperatorPausedRound i sd;
          (w, rec) = recover_round v info (error_end i paused timeout (er_message err)) (sd_store sd1);
          sd2 = sd1\<lparr>sd_store := w\<rparr>
      in close_round i n
           (case er_sandbox err of
              Some code \<Rightarrow>
                force_fail_run (dv_fail (re_dispatch v)) (j_run info)
                  (''Matchlock invocation failed ('' @ code @ ''): '' @ er_message err) sd2
            | None \<Rightarrow> track_round v i info (error_signals err rec paused) sd2))"

end
