(* ===== verification/Work_Round_Props.thy ===== *)
theory Work_Round_Props
  imports Work_Round
begin

text \<open>
  What is proved of the end of a round: a round that an operator's pause has killed is charged to nobody; and
  what goes wrong when a run is resumed while a killed round is still ending.
\<close>

section \<open>Paused rounds\<close>

lemma tokens_frame [simp]:
  "steps (attributeWorkRoundTokenUsage i info u st w) = steps w"
  "stories (attributeWorkRoundTokenUsage i info u st w) = stories w"
  "run_status_of r (attributeWorkRoundTokenUsage i info u st w) = run_status_of r w"
  "map r_id (runs (attributeWorkRoundTokenUsage i info u st w)) = map r_id (runs w)"
  by (simp_all add: attributeWorkRoundTokenUsage_def incrementRunTokenSpend_def Let_def set_run_def upd_run_status
      run_table.keys_upd split: option.split)

text \<open>A round that recovered a claim is no instant fail; one that is ends a run only at the limit.\<close>

lemma instant_spared:
  assumes "sg_recovered sg \<or> Suc (streak_of (sd_instant sd i)) < li_escalation lm"
  shows "steps (sd_store (trackInstantFailRound sf lm i info sg sd)) = steps (sd_store sd)"
    "stories (sd_store (trackInstantFailRound sf lm i info sg sd)) = stories (sd_store sd)"
    "run_status_of r (sd_store (trackInstantFailRound sf lm i info sg sd)) = run_status_of r (sd_store sd)"
  using assms claimed_round_in_no_class [of sg lm]
  by (auto simp: trackInstantFailRound_def Let_def on_store_def armInstantFailBackoff_def upd_run_status)

lemma preclaim_paused:
  "sg_operator_paused sg \<Longrightarrow> sd_store (trackPreclaimDeathRound sf lm i info sg sd) = sd_store sd"
  by (simp add: trackPreclaimDeathRound_def isPreclaimDeathRound_def split: option.split)

lemma close_store [simp]: "sd_store (close_round i n sd) = sd_store sd"
  by (simp add: close_round_def)

text \<open>What a round costs: the retries and abandonments of steps and stories, and the status of the runs.\<close>

definition uncharged :: "store \<Rightarrow> store \<Rightarrow> bool" where
  "uncharged w w' \<longleftrightarrow>
     map step_budget (steps w') = map step_budget (steps w)
     \<and> map story_budget (stories w') = map story_budget (stories w)
     \<and> (\<forall>r. run_status_of r w' = run_status_of r w)"

lemma tracked_paused:
  assumes "sg_recovered sg \<or> Suc (streak_of (sd_instant sd i)) < li_escalation (dv_limits (re_dispatch v))"
    "sg_operator_paused sg"
  shows "steps (sd_store (track_round v i info sg sd)) = steps (sd_store sd)"
    "stories (sd_store (track_round v i info sg sd)) = stories (sd_store sd)"
    "run_status_of r (sd_store (track_round v i info sg sd)) = run_status_of r (sd_store sd)"
  using assms(2) instant_spared [OF assms(1)] by (simp_all add: track_round_def Let_def preclaim_paused)

text \<open>The steps the round holds, and what it needs to be spared: one of them, or a streak short of the limit.\<close>

definition held_by :: "string \<Rightarrow> job \<Rightarrow> store \<Rightarrow> step list" where
  "held_by i info w =
     filter (\<lambda>s. s_agent_id s = j_agent info \<and> s_status s = SRunning \<and> s_claim_job_id s = Some i \<and> s_type s \<noteq> TyLoop)
       (run_steps (j_run info) w)"

definition spared :: "round_env \<Rightarrow> string \<Rightarrow> job \<Rightarrow> scheduler \<Rightarrow> bool" where
  "spared v i info sd \<longleftrightarrow>
     held_by i info (sd_store sd) \<noteq> []
     \<or> Suc (streak_of (sd_instant sd i)) < li_escalation (dv_limits (re_dispatch v))"

lemma recover_one_counted:
  assumes "we_abandon e = Some ''paused_by_operator''" "recover_one specs e a s (w, c) = (w', c')"
  shows "recovered c \<le> recovered c'" "s_type s \<noteq> TyLoop \<Longrightarrow> recovered c < recovered c'"
proof -
  note one = recover_one_paused(2,3) [OF assms]
  have "skipped c' = (if verifier_at_work s w then Suc (skipped c) else skipped c)"
    using assms(2) by (auto simp: recover_one_def Let_def split_def split: if_splits)
  then show "recovered c \<le> recovered c'" "s_type s \<noteq> TyLoop \<Longrightarrow> recovered c < recovered c'"
    using one(2) by (auto simp: verifier_at_work_def split: if_splits)
qed

lemma recover_fold_counted:
  assumes "we_abandon e = Some ''paused_by_operator''"
    "fold (recover_one specs e a) ss (w, c) = (w', c')"
  shows "recovered c \<le> recovered c' \<and> (s \<in> set ss \<longrightarrow> s_type s \<noteq> TyLoop \<longrightarrow> recovered c < recovered c')"
  using assms(2)
proof (induction ss arbitrary: w c)
  case (Cons u ss)
  obtain w1 c1 where 1: "recover_one specs e a u (w, c) = (w1, c1)" by fastforce
  then have "fold (recover_one specs e a) ss (w1, c1) = (w', c')" using Cons.prems by simp
  from Cons.IH [OF this] show ?case using recover_one_counted [OF assms(1) 1] by auto
qed simp

lemma held_orphan:
  assumes "s \<in> set (run_steps (j_run info) w)" "s_agent_id s = j_agent info" "s_status s = SRunning"
    "s_claim_job_id s = Some i"
  shows "s \<in> set (orphans (lost_end i True r) (j_agent info) (j_run info) w)"
  using assms by (simp add: orphans_def lost_end_def plain_end_def)

lemma held_are_orphans:
  "set (held_by i info w) \<subseteq> set (orphans (lost_end i True r) (j_agent info) (j_run info) w)"
  using held_orphan by (auto simp: held_by_def)

lemma paused_round_ends:
  fixes n elapsed :: nat
  assumes "i \<in> set (sd_paused_rounds sd)" "spared v i info sd"
    "round_outcome before (wr_text rep) i (j_run info) (sd_store sd) \<in> {EmptyOutput, OtherOutput}"
  defines "w1 \<equiv> attributeWorkRoundTokenUsage i info (wr_usage rep) (wr_step rep) (sd_store sd)"
    and "e \<equiv> lost_end i True (wr_result rep)"
    and "w' \<equiv> sd_store (finish_round v i n info before rep elapsed sd)"
  obtains w2 c where
    "fold (recover_one (dv_specs (re_dispatch v)) e (j_agent info)) (orphans e (j_agent info) (j_run info) w1)
       (w1, \<lparr>recovered = 0, failed = 0, skipped = 0\<rparr>) = (w2, c)"
    "steps w' = steps w2" "stories w' = stories w2" "\<And>r. run_status_of r w' = run_status_of r w2"
proof -
  define sd1 where "sd1 = sd\<lparr>sd_paused_rounds := removeAll i (sd_paused_rounds sd)\<rparr>"
  obtain w2 rec where s: "recover_round v info e w1 = (w2, rec)" by fastforce
  obtain c where r: "fold (recover_one (dv_specs (re_dispatch v)) e (j_agent info))
      (orphans e (j_agent info) (j_run info) w1) (w1, \<lparr>recovered = 0, failed = 0, skipped = 0\<rparr>) = (w2, c)"
      and rec: "rec \<longleftrightarrow> recovered c > 0"
    using s by (auto simp: recover_round_def recoverOrphanedStepsForAgent_def split: prod.splits)
  have p: "we_abandon e = Some ''paused_by_operator''" by (simp add: e_def lost_end_def round_abandon_def)
  have "held_by i info w1 = held_by i info (sd_store sd)" by (simp add: held_by_def run_steps_def w1_def)
  then have rec_or: "rec \<or> Suc (streak_of (sd_instant sd i)) < li_escalation (dv_limits (re_dispatch v))"
  proof (cases "held_by i info (sd_store sd)")
    case (Cons s ss)
    then have "s \<in> set (held_by i info w1)" using \<open>held_by i info w1 = _\<close> by simp
    then have "s \<in> set (orphans e (j_agent info) (j_run info) w1)" "s_type s \<noteq> TyLoop"
      using held_are_orphans unfolding e_def by (blast, simp add: held_by_def)
    then show ?thesis using recover_fold_counted [OF p r, of s] rec by simp
  qed (use assms(2) in \<open>simp add: spared_def\<close>)
  have "consumeOperatorPausedRound i sd = (sd1, True)"
    using assms(1) by (simp add: consumeOperatorPausedRound_def sd1_def)
  moreover have "settle_outcome v i info True (wr_result rep) (wr_text rep)
      (round_outcome before (wr_text rep) i (j_run info) (sd_store sd)) w1 = (w2, rec)"
    using assms(3) s by (auto simp: settle_outcome_def e_def)
  ultimately have "finish_round v i n info before rep elapsed sd =
      close_round i n (track_round v i info (report_signals rep elapsed rec True) (sd1\<lparr>sd_store := w2\<rparr>))"
    by (simp add: finish_round_def w1_def sd1_def)
  then show thesis
    using that [OF r] tracked_paused [of "report_signals rep elapsed rec True" "sd1\<lparr>sd_store := w2\<rparr>" i v] rec_or
    by (simp add: report_signals_def sd1_def w'_def)
qed

text \<open>C32.  The end of a round whose job carries the mark of an operator's pause charges no step and no story: when
  the harness returned without a report of the agent, no retry and no abandonment of any step or story is
  charged and no run changes its status, and every step the round held, loops apart, is pending again.  The round must
  have held such a step, or its streak of instant fails must be short of the limit: the pause does not excuse a
  round without a claim from the streak.\<close>

theorem paused_round_charges_nothing:
  assumes "i \<in> set (sd_paused_rounds sd)" "spared v i info sd" "wf_store (sd_store sd)"
    "round_outcome before (wr_text rep) i (j_run info) (sd_store sd) \<in> {EmptyOutput, OtherOutput}"
  shows "uncharged (sd_store sd) (sd_store (finish_round v i n info before rep elapsed sd))
    \<and> (\<forall>s \<in> set (held_by i info (sd_store sd)).
         step_status_of (s_id s) (sd_store (finish_round v i n info before rep elapsed sd)) = Some SPending)"
    (is "?free \<and> (\<forall>s \<in> _. ?again s)")
proof -
  let ?e = "lost_end i True (wr_result rep)" and ?a = "j_agent info"
  define w1 where "w1 = attributeWorkRoundTokenUsage i info (wr_usage rep) (wr_step rep) (sd_store sd)"
  obtain w2 c where r: "fold (recover_one (dv_specs (re_dispatch v)) ?e ?a) (orphans ?e ?a (j_run info) w1)
      (w1, \<lparr>recovered = 0, failed = 0, skipped = 0\<rparr>) = (w2, c)"
    and same: "steps (sd_store (finish_round v i n info before rep elapsed sd)) = steps w2"
      "stories (sd_store (finish_round v i n info before rep elapsed sd)) = stories w2"
      "\<And>r. run_status_of r (sd_store (finish_round v i n info before rep elapsed sd)) = run_status_of r w2"
    by (rule paused_round_ends [OF assms(1,2,4), of n elapsed]) (auto simp: w1_def)
  have p: "we_abandon ?e = Some ''paused_by_operator''" by (simp add: lost_end_def round_abandon_def)
  note rec = recover_fold_paused [OF p r]
  have steps1: "steps w1 = steps (sd_store sd)" by (simp add: w1_def)
  have "runs w2 = runs w1" using rec by (simp add: unpaid_def)
  then have "run_status_of r w2 = run_status_of r (sd_store sd)" for r
    using tokens_frame(3) [of r i info] by (simp add: run_status_of_def find_run_def w1_def)
  then have ?free using rec same by (simp add: uncharged_def unpaid_def w1_def)
  moreover have "?again s" if h: "s \<in> set (held_by i info (sd_store sd))" for s
  proof -
    have s: "s \<in> set (run_steps (j_run info) (sd_store sd))" "s_agent_id s = ?a"
      "s_status s = SRunning" "s_claim_job_id s = Some i" "s_type s \<noteq> TyLoop"
      using h by (simp_all add: held_by_def)
    have "s \<in> set (orphans ?e ?a (j_run info) w1)"
      using s steps1 by (intro held_orphan) (simp_all add: run_steps_def)
    moreover have "find_step (s_id s) w1 \<noteq> None"
      using s(1) assms(3) step_table.find_in_rows [of "sd_store sd" s] steps1
      by (auto simp: wf_store_def run_steps_def find_step_def)
    ultimately have "step_status_of (s_id s) w2 = Some SPending" using rec s(5) by blast
    then show ?thesis using same(1) by (simp add: step_status_of_def find_step_def)
  qed
  ultimately show ?thesis by blast
qed

definition report0 :: work_report where
  "report0 = \<lparr>wr_result = \<lparr>rr_output = [], rr_exit = None, rr_signal = Some ''SIGTERM'', rr_timed_out = False,
       rr_wall = Some 50000, rr_harness_wall = None, rr_vm_setup = None, rr_command = None, rr_stderr = None\<rparr>,
     wr_text = [], wr_usage = Some 7, wr_step = None\<rparr>"

definition round_env0 :: round_env where
  "round_env0 = \<lparr>re_dispatch = dispatch_env0, re_world = surroundings0, re_message = (\<lambda>_. [])\<rparr>"

definition paused0 :: scheduler where
  "paused0 = scheduler0\<lparr>sd_paused_rounds := [''j''],
     sd_store := store0\<lparr>steps := [step0, merge0\<lparr>s_claim_job_id := Some ''j''\<rparr>]\<rparr>\<rparr>"

lemma paused_round_charges_nothing_witness:
  "uncharged (sd_store paused0) (sd_store (finish_round round_env0 ''j'' 0 job0 None report0 0 paused0))
   \<and> step_status_of ''m'' (sd_store (finish_round round_env0 ''j'' 0 job0 None report0 0 paused0)) = Some SPending"
proof -
  have "wf_store (sd_store paused0)" by (simp add: wf_store_def paused0_def sample_defs)
  moreover have "round_outcome None (wr_text report0) ''j'' (j_run job0) (sd_store paused0) = EmptyOutput"
    by (simp add: round_outcome_def classifyWorkRoundOutcome_def report0_def trim_def trim_start_def trim_end_def)
  ultimately show ?thesis
    using paused_round_charges_nothing [of "''j''" paused0 round_env0 job0 None report0 0 0]
    by (simp add: paused0_def scheduler0_def round_env0_def dispatch_env0_def limits0_def run_steps_def
        spared_def held_by_def sample_defs job0_def)
qed

section \<open>A round that outlives its job\<close>

text \<open>The \<^verbatim>\<open>finally\<close> of a round frees the job for whatever round holds it: when the jobs of a run were removed and
  created again while round \<open>n\<close> was ending, round \<open>m\<close> of the new job is in flight, yet the end of
  round \<open>n\<close> lets a third round start, and takes the child and the pause mark of round \<open>m\<close> along; only the controller
  is left alone.\<close>

lemma old_round_frees_job:
  assumes "sd_controllers sd i = Some m" "m \<noteq> n"
  shows "snd (tryMarkJobInFlight i (close_round i n sd))"
    "sd_children (close_round i n sd) i = None"
    "i \<notin> set (sd_paused_rounds (close_round i n sd))"
    "sd_controllers (close_round i n sd) i = Some m"
  using assms by (simp_all add: tryMarkJobInFlight_def close_round_def)

text \<open>Such a state is reached by a pause and a resumption.\<close>

definition resumed_too_soon :: scheduler where
  "resumed_too_soon =
     (let i = buildJobId ''wf'' ''r'' ''merger'';
          sd1 = fst (createAgentCronJob ''wf'' ''r'' (''merger'', 60) (Some ''/w'') 0 scheduler0);
          sd2 = fst (open_round i ''r'' (fst (tryMarkJobInFlight i sd1)));
          sd3 = removeRunCrons ''r'' (plain_removal\<lparr>ro_paused := True\<rparr>) sd2;
          sd4 = fst (createAgentCronJob ''wf'' ''r'' (''merger'', 60) (Some ''/w'') 0 sd3)
      in fst (open_round i ''r'' (fst (tryMarkJobInFlight i sd4))))"

lemma two_rounds_of_a_job:
  "sd_controllers resumed_too_soon (buildJobId ''wf'' ''r'' ''merger'') = Some 1
   \<and> sd_in_flight resumed_too_soon = [buildJobId ''wf'' ''r'' ''merger'']
   \<and> snd (tryMarkJobInFlight (buildJobId ''wf'' ''r'' ''merger'')
       (close_round (buildJobId ''wf'' ''r'' ''merger'') 0 resumed_too_soon))"
  by code_simp

text \<open>There the new round carries the pause mark of the old one, so its failure is taken for a pause.\<close>

lemma pause_mark_leaks:
  "snd (consumeOperatorPausedRound (buildJobId ''wf'' ''r'' ''merger'') resumed_too_soon)"
  by code_simp

end
