(* ===== verification/Run_Harness.thy ===== *)
theory Run_Harness
  imports Scheduler
begin

text \<open>
  The harness of a run, checked before the run is scheduled: its directory, its managed worktree, its binary
  and its branch (\<^verbatim>\<open>src/src/installer/run-harness.ts\<close>, \<^verbatim>\<open>validateRunWorktree\<close> of
  \<^verbatim>\<open>src/src/installer/worktree-manager.ts\<close>).

  The file system, git, the resolution of the harness binaries, the workflow files and the environment are
  the fields of one record.  \<open>ah_validating\<close> and \<open>ah_loading\<close> are what other operations of the daemon do while an
  admission waits for the checks of its harness and for the workflow file.  The rows of the table \<^verbatim>\<open>run_worktrees\<close>
  are read only here, so they are a field of it too.
\<close>

section \<open>The host\<close>

datatype stat_result = StatMissing | StatError string | StatFile | StatDir

record git_result =
  gr_status :: int
  gr_stdout :: string
  gr_stderr :: string

text \<open>A row of \<^verbatim>\<open>run_worktrees\<close>.\<close>

record run_worktree =
  wt_path :: string
  wt_status :: string
  wt_origin :: string
  wt_git_common_dir :: string

record admit_host =
  ah_cwd :: string
  ah_realpath :: "string \<Rightarrow> string option"
  ah_stat :: "string \<Rightarrow> stat_result"
  ah_git :: "string list \<Rightarrow> git_result"
  ah_worktrees :: "string \<Rightarrow> run_worktree option"
  ah_hermes :: "string option"
  ah_dsh :: "string option"
  ah_load :: "string \<Rightarrow> string + (string \<times> nat) list"
  ah_env :: "string \<Rightarrow> string option"
  ah_validating :: "scheduler \<Rightarrow> scheduler"
  ah_loading :: "scheduler \<Rightarrow> scheduler"

section \<open>Numbers and paths\<close>

text \<open>\<^verbatim>\<open>parseInt(raw, 10)\<close>, \<open>None\<close> when it is not a number.\<close>

definition parse_int :: "string \<Rightarrow> int option" where
  "parse_int s =
     (let (sg, r) = read_sign ''+-'' (trim_start s); ds = fst (take_digits r)
      in if ds = [] then None
         else Some (if sg = ''-'' then - int (read_num ds) else int (read_num ds)))"

definition DEFAULT_MAX_ACTIVE_TIMERS :: nat where
  "DEFAULT_MAX_ACTIVE_TIMERS = 50"

definition getMaxActiveTimers :: "admit_host \<Rightarrow> nat" where
  "getMaxActiveTimers h =
     (case ah_env h ''TAMANDUA_MAX_ACTIVE_TIMERS'' of
        None \<Rightarrow> DEFAULT_MAX_ACTIVE_TIMERS
      | Some raw \<Rightarrow>
          if raw = [] then DEFAULT_MAX_ACTIVE_TIMERS
          else (case parse_int raw of
                  None \<Rightarrow> DEFAULT_MAX_ACTIVE_TIMERS
                | Some n \<Rightarrow> if n < 1 then DEFAULT_MAX_ACTIVE_TIMERS else nat n))"

definition path_isAbsolute :: "string \<Rightarrow> bool" where
  "path_isAbsolute p \<longleftrightarrow> starts_with ''/'' p"

definition path_segment :: "string list \<Rightarrow> string \<Rightarrow> string list" where
  "path_segment acc s =
     (if s = [] \<or> s = ''.'' then acc else if s = ''..'' then butlast acc else acc @ [s])"

definition path_resolve :: "string \<Rightarrow> string \<Rightarrow> string" where
  "path_resolve cwd p =
     ''/'' @ join ''/''
       (foldl path_segment [] (split_on CHR ''/'' (if path_isAbsolute p then p else cwd @ ''/'' @ p)))"

text \<open>A directory as the collision check compares it.\<close>

definition canonical_dir :: "admit_host \<Rightarrow> string \<Rightarrow> string" where
  "canonical_dir h d =
     (let p = path_resolve (ah_cwd h) d in case ah_realpath h p of None \<Rightarrow> p | Some q \<Rightarrow> q)"

section \<open>The harness of a run\<close>

definition runGit :: "admit_host \<Rightarrow> string list \<Rightarrow> string \<Rightarrow> git_result" where
  "runGit h args cwd =
     (let g = ah_git h (if cwd = [] then args else ''-C'' # cwd # args)
      in g\<lparr>gr_stdout := trim (gr_stdout g), gr_stderr := trim (gr_stderr g)\<rparr>)"

text \<open>\<open>prefix\<close> is empty when the caller gives none.\<close>

definition gitMustSucceed :: "admit_host \<Rightarrow> string list \<Rightarrow> string \<Rightarrow> string \<Rightarrow> string + string" where
  "gitMustSucceed h args cwd prefix =
     (let g = runGit h args cwd
      in if gr_status g \<noteq> 0
         then Inl ((if prefix = [] then [] else prefix @ '': '') @ ''git '' @ join '' '' args
                   @ '' failed (exit '' @ int_str (gr_status g) @ '')''
                   @ (if gr_stderr g = [] then [] else '': '' @ gr_stderr g))
         else Inr (gr_stdout g))"

definition shown :: "string option \<Rightarrow> string" where
  "shown v = (case v of None \<Rightarrow> ''undefined'' | Some x \<Rightarrow> x)"

definition dquoted :: "string \<Rightarrow> string" where
  "dquoted s = [CHR 0x22] @ s @ [CHR 0x22]"

definition validateRunWorktree :: "admit_host \<Rightarrow> string \<Rightarrow> ctx \<Rightarrow> string + run_worktree" where
  "validateRunWorktree h runId m =
     (case ah_worktrees h runId of
        None \<Rightarrow> Inl (''Run '' @ runId @ '' has no managed worktree'')
      | Some wt \<Rightarrow>
          if wt_status wt \<noteq> ''ready''
          then Inl (''Run '' @ runId @ '' managed worktree status is '' @ dquoted (wt_status wt) @ '', expected ''
                    @ dquoted ''ready'')
          else (case ah_stat h (wt_path wt) of
                  StatMissing \<Rightarrow> Inl (''Run '' @ runId @ '' managed worktree path does not exist: '' @ wt_path wt)
                | StatError e \<Rightarrow> Inl e
                | StatFile \<Rightarrow> Inl (''Run '' @ runId @ '' managed worktree path is not a directory: '' @ wt_path wt)
                | StatDir \<Rightarrow>
                    (case gitMustSucceed h [''rev-parse'', ''--show-toplevel''] (wt_path wt)
                            (''Run '' @ runId @ '' managed worktree is not a git working tree'') of
                       Inl e \<Rightarrow> Inl e
                     | Inr toplevel \<Rightarrow>
                         (case gitMustSucceed h [''rev-parse'', ''--git-common-dir''] (wt_path wt) [] of
                            Inl e \<Rightarrow> Inl e
                          | Inr raw \<Rightarrow>
                              (let actual = (if path_isAbsolute raw then raw
                                             else path_resolve (ah_cwd h) (wt_path wt @ ''/'' @ raw))
                               in if actual \<noteq> wt_git_common_dir wt
                                  then Inl (''Run '' @ runId @ '' managed worktree git-common-dir mismatch: ''
                                            @ ''expected '' @ dquoted (wt_git_common_dir wt) @ '', got '' @ dquoted actual)
                                  else if m ''repo'' \<noteq> Some (wt_path wt)
                                  then Inl (''Run '' @ runId @ '' context.repo '' @ dquoted (shown (m ''repo''))
                                            @ '' does not match worktree_path '' @ dquoted (wt_path wt))
                                  else if m ''working_directory_for_harness'' \<noteq> Some (wt_path wt)
                                  then Inl (''Run '' @ runId @ '' context.working_directory_for_harness ''
                                            @ dquoted (shown (m ''working_directory_for_harness''))
                                            @ '' does not match worktree_path '' @ dquoted (wt_path wt))
                                  else Inr wt)))))"

definition readNonEmptyString :: "ctx \<Rightarrow> string \<Rightarrow> string option" where
  "readNonEmptyString m k =
     (case m k of None \<Rightarrow> None | Some v \<Rightarrow> if trim v = [] then None else Some (trim v))"

definition isMatchlockHermesPolicy :: "policy_col \<Rightarrow> string + bool" where
  "isMatchlockHermesPolicy raw =
     (case raw of
        PolNull \<Rightarrow> Inr False
      | PolUnusable code reason \<Rightarrow>
          Inl (''stored Matchlock policy is present but unusable ('' @ code
               @ ''); refusing to treat the run as native'')
      | PolPinned p \<Rightarrow> Inr (po_harness p = ''hermes''))"

definition readCurrentGitBranch :: "admit_host \<Rightarrow> string \<Rightarrow> string + string" where
  "readCurrentGitBranch h dir =
     (let g = ah_git h [''-C'', dir, ''branch'', ''--show-current'']; e = trim (gr_stderr g)
      in if gr_status g \<noteq> 0
         then Inl (''cannot read git branch at harness workdir '' @ dir @ (if e = [] then [] else '': '' @ e))
         else Inr (trim (gr_stdout g)))"

text \<open>The directory is there: a managed worktree, or a directory of the host.\<close>

definition check_directory :: "admit_host \<Rightarrow> string \<Rightarrow> ctx \<Rightarrow> string \<Rightarrow> string option" where
  "check_directory h runId m dir =
     (if readNonEmptyString m ''workspace_mode'' = Some ''worktree''
      then (case validateRunWorktree h runId m of Inl e \<Rightarrow> Some e | Inr wt \<Rightarrow> None)
      else (case ah_stat h dir of
              StatMissing \<Rightarrow> Some (''Run '' @ runId @ '' harness workdir does not exist: '' @ dir)
            | StatError e \<Rightarrow> Some e
            | StatFile \<Rightarrow> Some (''Run '' @ runId @ '' harness workdir is not a directory: '' @ dir)
            | StatDir \<Rightarrow> None))"

definition check_binary :: "admit_host \<Rightarrow> string \<Rightarrow> ctx \<Rightarrow> bool \<Rightarrow> string option" where
  "check_binary h runId m matchlockHermes =
     (let ty = readNonEmptyString m ''harness_type''
      in if matchlockHermes then None
         else if ty = Some ''hermes''
         then map_option (\<lambda>e. ''Run '' @ runId @ '' requests hermes harness but hermes is not available: '' @ e)
                (ah_hermes h)
         else if ty = Some ''dsh''
         then map_option (\<lambda>e. ''Run '' @ runId @ '' requests dsh harness but dsh is not available: '' @ e) (ah_dsh h)
         else None)"

definition check_branch :: "admit_host \<Rightarrow> string \<Rightarrow> ctx \<Rightarrow> string \<Rightarrow> string option" where
  "check_branch h runId m dir =
     (if readNonEmptyString m ''workspace_mode'' = Some ''worktree'' then None
      else (case readNonEmptyString m ''branch'' of
              None \<Rightarrow> None
            | Some wanted \<Rightarrow>
                (case readCurrentGitBranch h dir of
                   Inl e \<Rightarrow> Some e
                 | Inr actual \<Rightarrow>
                     if actual = wanted then None
                     else Some (''Run '' @ runId @ '' harness branch mismatch at '' @ dir @ '': expected '' @ wanted
                                @ '', got '' @ (if actual = [] then ''<detached>'' else actual)))))"

definition earliest_error :: "string option list \<Rightarrow> string option" where
  "earliest_error es = (case List.find (\<lambda>e. e \<noteq> None) es of None \<Rightarrow> None | Some e \<Rightarrow> e)"

definition validateRunHarnessForScheduling ::
    "admit_host \<Rightarrow> string \<Rightarrow> ctx_col \<Rightarrow> policy_col \<Rightarrow> store \<Rightarrow> store \<times> (string + string)" where
  "validateRunHarnessForScheduling h runId raw pol w =
     (case raw of
        CtxCorrupt text \<Rightarrow> (snd (parseRunContext runId raw w), Inl ''run context is not valid JSON'')
      | CtxObj m \<Rightarrow>
          (w, case readNonEmptyString m ''working_directory_for_harness'' of
                None \<Rightarrow> Inl (''Run '' @ runId @ '' is missing working_directory_for_harness; refusing to schedule without an explicit harness workdir'')
              | Some rawDir \<Rightarrow>
                  if \<not> path_isAbsolute rawDir
                  then Inl (''Run '' @ runId @ '' has a relative harness workdir ('' @ rawDir
                            @ ''); refusing to schedule because resume must not depend on daemon cwd'')
                  else (let dir = path_resolve (ah_cwd h) rawDir
                        in case check_directory h runId m dir of
                             Some e \<Rightarrow> Inl e
                           | None \<Rightarrow>
                               (case isMatchlockHermesPolicy pol of
                                  Inl e \<Rightarrow> Inl e
                                | Inr mh \<Rightarrow>
                                    (case earliest_error [check_binary h runId m mh, check_branch h runId m dir] of
                                       Some e \<Rightarrow> Inl e
                                     | None \<Rightarrow> Inr dir)))))"

end
