(* ===== verification/Admission.thy ===== *)
theory Admission
  imports Run_Harness "HOL-Library.Option_ord" "HOL-Library.Char_ord" "HOL-Library.List_Lexorder"
begin

text \<open>
  The admission of runs by the daemon (\<^verbatim>\<open>src/src/server/control-server.ts\<close>): how many timers a run needs and
  how many are left, whether another run holds its harness directory
  (\<^verbatim>\<open>src/src/installer/workdir-collision.ts\<close>), the queue of runs that wait, the runs whose sandbox is still in
  preparation (\<^verbatim>\<open>src/src/installer/matchlock/prep-state.ts\<close>), launches that never came to life
  (\<^verbatim>\<open>src/src/installer/run-recovery.ts\<close>) and the reconciler that runs every thirty seconds.

  An admission works on the row of the run as it was read before the admission waited; the rows it writes and
  the jobs it counts are those of the moment.  What is only logged is left out.
\<close>

section \<open>The collision policy\<close>

datatype collision_policy = Refuse | Queue | Allow

definition parseWorkdirCollisionPolicy :: "string option \<Rightarrow> collision_policy option" where
  "parseWorkdirCollisionPolicy raw =
     (if raw = Some ''refuse'' then Some Refuse else if raw = Some ''queue'' then Some Queue
      else if raw = Some ''allow'' then Some Allow else None)"

definition resolveWorkdirCollisionPolicy :: "ctx \<Rightarrow> (string \<Rightarrow> string option) \<Rightarrow> collision_policy" where
  "resolveWorkdirCollisionPolicy m environment =
     (case parseWorkdirCollisionPolicy (m ''workdir_collision_policy'') of
        Some p \<Rightarrow> p
      | None \<Rightarrow> if environment ''TAMANDUA_ALLOW_SHARED_HARNESS_WORKDIR'' = Some ''1'' then Allow else Refuse)"

text \<open>\<^verbatim>\<open>s.replace(p, r)\<close>: the first occurrence, with the dollar patterns of the replacement expanded.\<close>

fun expand_dollars :: "string \<Rightarrow> string \<Rightarrow> string \<Rightarrow> string \<Rightarrow> string" where
  "expand_dollars found ahead suffix [] = []"
| "expand_dollars found ahead suffix [c] = [c]"
| "expand_dollars found ahead suffix (c # d # r) =
     (if c \<noteq> CHR 0x24 then c # expand_dollars found ahead suffix (d # r)
      else if d = CHR 0x24 then CHR 0x24 # expand_dollars found ahead suffix r
      else if d = CHR 0x26 then found @ expand_dollars found ahead suffix r
      else if d = CHR 0x60 then ahead @ expand_dollars found ahead suffix r
      else if d = CHR 0x27 then suffix @ expand_dollars found ahead suffix r
      else c # expand_dollars found ahead suffix (d # r))"

definition js_replace :: "string \<Rightarrow> string \<Rightarrow> string \<Rightarrow> string" where
  "js_replace p r s =
     (case index_of p s of
        None \<Rightarrow> s
      | Some n \<Rightarrow> take n s @ expand_dollars p (take n s) (drop (n + length p) s) r @ drop (n + length p) s)"

record holder =
  ho_run :: string
  ho_number :: "nat option"
  ho_workflow :: string
  ho_status :: string
  ho_since :: string

definition WORKDIR_REFUSAL_HEADLINE_TEMPLATE :: string where
  "WORKDIR_REFUSAL_HEADLINE_TEMPLATE =
     ''Cannot start run: harness working directory {dir} is already held by run #{runNumber} ({workflowId}, status {status}, since {since}).''"

definition WORKDIR_REFUSAL_OPTIONS_TEXT :: string where
  "WORKDIR_REFUSAL_OPTIONS_TEXT =
     ''Retry later once the holder finishes, or:'' @ [newline] @
     ''  --queue-behind-holder  queue this run and admit it when the holder releases the directory'' @ [newline] @
     ''  --allow-multiple-runs-in-one-working-directory  run concurrently now; concurrent git writes in one checkout are your responsibility'' @ [newline] @
     ''  TAMANDUA_ALLOW_SHARED_HARNESS_WORKDIR=1  environment form of the allow flag'' @ [newline] @
     ''Worktree workflow variants (-worktree) never collide: each run gets its own worktree.''"

definition formatWorkdirRefusalMessage :: "holder \<Rightarrow> string \<Rightarrow> string" where
  "formatWorkdirRefusalMessage ho dir =
     js_replace ''{since}'' (ho_since ho)
       (js_replace ''{status}'' (ho_status ho)
         (js_replace ''{workflowId}'' (ho_workflow ho)
           (js_replace ''{dir}'' dir
             (js_replace ''#{runNumber}''
                (case ho_number ho of None \<Rightarrow> ho_run ho | Some n \<Rightarrow> ''#'' @ nat_str n)
                WORKDIR_REFUSAL_HEADLINE_TEMPLATE))))
     @ [newline] @ WORKDIR_REFUSAL_OPTIONS_TEXT"

definition buildWorkdirCollisionHolder :: "string \<Rightarrow> store \<Rightarrow> holder" where
  "buildWorkdirCollisionHolder runId w =
     (case find_run runId w of
        None \<Rightarrow> \<lparr>ho_run = runId, ho_number = None, ho_workflow = ''unknown'', ho_status = ''unknown'',
                 ho_since = ''unknown''\<rparr>
      | Some r \<Rightarrow> \<lparr>ho_run = runId, ho_number = Some (r_run_number r), ho_workflow = r_workflow_id r,
                   ho_status = run_status_text (r_status r),
                   ho_since = (case r_created_at r of None \<Rightarrow> [] | Some t \<Rightarrow> to_iso t)\<rparr>)"

text \<open>The first run, in the order of the jobs, that holds the directory.\<close>

definition runIdForScheduledHarnessWorkdir ::
    "admit_host \<Rightarrow> string \<Rightarrow> string \<Rightarrow> scheduler \<Rightarrow> string option" where
  "runIdForScheduledHarnessWorkdir h dir excluding sd =
     map_option (\<lambda>(i, info). j_run info)
       (List.find (\<lambda>(i, info). \<not> (excluding \<noteq> [] \<and> j_run info = excluding)
                    \<and> (case j_workdir info of
                         None \<Rightarrow> False
                       | Some d \<Rightarrow> d \<noteq> [] \<and> canonical_dir h d = canonical_dir h dir))
          (sd_jobs sd))"

section \<open>Runs in preparation\<close>

datatype isolation_state = Native | Preparing | Isolated | Unusable

definition readIsolationIntent :: "run \<Rightarrow> bool" where
  "readIsolationIntent r \<longleftrightarrow> r_isolation_intent r = Some ''true''"

definition classifyIsolationState :: "bool \<Rightarrow> policy_col \<Rightarrow> isolation_state" where
  "classifyIsolationState intent pol =
     (case pol of
        PolPinned p \<Rightarrow> Isolated
      | PolUnusable code reason \<Rightarrow> Unusable
      | PolNull \<Rightarrow> if intent then Preparing else Native)"

definition readIsolationState :: "run \<Rightarrow> isolation_state" where
  "readIsolationState r = classifyIsolationState (readIsolationIntent r) (r_matchlock_policy r)"

definition isIntentOnlyHeldRun :: "run \<Rightarrow> bool" where
  "isIntentOnlyHeldRun r \<longleftrightarrow> r_isolation_intent r = Some ''true'' \<and> r_matchlock_policy r = PolNull"

text \<open>The guarded update that holds a run in preparation.\<close>

definition hold_preparing :: "string \<Rightarrow> store \<Rightarrow> store" where
  "hold_preparing runId w =
     (case find_run runId w of
        None \<Rightarrow> w
      | Some r \<Rightarrow>
          if isIntentOnlyHeldRun r
          then set_run runId (\<lambda>q. q\<lparr>r_scheduling_status := Some ''preparing'', r_scheduling_error := None\<rparr>) w
          else w)"

section \<open>Replies\<close>

datatype register_reply =
  RunNotFound string
| RunIsTerminal run_status
| TeardownInProgress
| PreparationHeld
| RunPaused
| DrainPending
| RunActive
| WorkdirRefused string holder string
| WorkdirWaiting string string
| StillScheduled nat nat bool
| Admitted nat nat bool
| QueuedForTimers nat int nat
| Unprocessable string

fun reply_code :: "register_reply \<Rightarrow> nat" where
  "reply_code (RunNotFound i) = 404"
| "reply_code (RunIsTerminal st) = 409"
| "reply_code TeardownInProgress = 503"
| "reply_code PreparationHeld = 202"
| "reply_code RunPaused = 200"
| "reply_code DrainPending = 200"
| "reply_code RunActive = 200"
| "reply_code (WorkdirRefused msg ho dir) = 409"
| "reply_code (WorkdirWaiting i dir) = 202"
| "reply_code (StillScheduled k m shared) = 200"
| "reply_code (Admitted k m shared) = 202"
| "reply_code (QueuedForTimers k free m) = 202"
| "reply_code (Unprocessable msg) = 422"

fun reply_state :: "register_reply \<Rightarrow> string option" where
  "reply_state PreparationHeld = Some ''preparing''"
| "reply_state RunPaused = Some ''paused''"
| "reply_state DrainPending = Some ''draining_pause''"
| "reply_state RunActive = Some ''active''"
| "reply_state (WorkdirRefused msg ho dir) = Some ''refused''"
| "reply_state (WorkdirWaiting i dir) = Some ''waiting''"
| "reply_state (StillScheduled k m shared) = Some ''active''"
| "reply_state (Admitted k m shared) = Some ''active''"
| "reply_state (QueuedForTimers k free m) = Some ''queued''"
| "reply_state r = None"

section \<open>Admission\<close>

definition requiredTimersForRun :: "string \<Rightarrow> store \<Rightarrow> nat" where
  "requiredTimersForRun runId w = length (remdups (map s_agent_id (run_steps runId w)))"

definition scheduledJobCountForRun :: "string \<Rightarrow> scheduler \<Rightarrow> nat" where
  "scheduledJobCountForRun runId sd = length (run_jobs runId sd)"

definition mark_active :: "string \<Rightarrow> scheduler \<Rightarrow> scheduler" where
  "mark_active runId =
     on_store (set_run runId (\<lambda>r. r\<lparr>r_scheduling_status := Some ''active'', r_scheduling_error := None\<rparr>))"

text \<open>The jobs of the run, or none of them and the error.\<close>

definition schedule_jobs ::
    "admit_host \<Rightarrow> run \<Rightarrow> string \<Rightarrow> nat \<Rightarrow> nat \<Rightarrow> bool \<Rightarrow> scheduler \<Rightarrow> scheduler \<times> (string + register_reply)" where
  "schedule_jobs h r dir required limit shared sd =
     (case ah_load h (r_workflow_id r) of
        Inl e \<Rightarrow> (ah_loading h sd, Inl e)
      | Inr agents \<Rightarrow>
          (let sd1 = setupAgentCrons (r_workflow_id r) agents (r_id r) (Some dir) (ah_loading h sd);
               n = scheduledJobCountForRun (r_id r) sd1
           in if n < required
              then (removeRunCrons (r_id r) plain_removal (removeRunCrons (r_id r) plain_removal sd1),
                    Inl (''Only scheduled '' @ nat_str n @ ''/'' @ nat_str required @ '' timer(s) for run ''
                         @ r_id r @ ''.''))
              else (mark_active (r_id r) sd1, Inr (Admitted required limit shared))))"

text \<open>Of a run whose directory is its own or shared by its policy: the timers it needs.\<close>

definition admit_timers ::
    "admit_host \<Rightarrow> run \<Rightarrow> string \<Rightarrow> nat \<Rightarrow> bool \<Rightarrow> scheduler \<Rightarrow> scheduler \<times> (string + register_reply)" where
  "admit_timers h r dir required shared sd =
     (let limit = getMaxActiveTimers h; existing = scheduledJobCountForRun (r_id r) sd
      in if required > 0 \<and> existing \<ge> required
         then (mark_active (r_id r) sd, Inr (StillScheduled required limit shared))
         else
           (let sd1 = (if existing > 0 \<and> existing < required
                  then removeRunCrons (r_id r) plain_removal sd else sd)
            in if required > limit
               then (let msg = ''Run requires '' @ nat_str required
                               @ '' scheduler timer(s), but TAMANDUA_MAX_ACTIVE_TIMERS is '' @ nat_str limit @ ''.''
                     in (if run_status_of (r_id r) (sd_store sd1) = Some (r_status r)
                         then on_store (set_run (r_id r) (\<lambda>q. q\<lparr>r_status := RFailed, r_scheduling_status := None,
                                                                r_scheduling_error := Some msg\<rparr>)) sd1
                         else sd1, Inr (Unprocessable msg)))
               else
                 (let free = int limit - int (length (sd_jobs sd1))
                  in if int required > free
                     then (on_store (\<lambda>w. set_run (r_id r)
                              (\<lambda>q. q\<lparr>r_scheduling_status := Some ''queued'',
                                     r_scheduling_requested_at :=
                                       (case r_scheduling_requested_at q of None \<Rightarrow> Some (now w) | Some t \<Rightarrow> Some t),
                                     r_scheduling_error := None\<rparr>) w) sd1,
                           Inr (QueuedForTimers required free limit))
                     else schedule_jobs h r dir required limit shared sd1)))"

definition refuse_workdir :: "run \<Rightarrow> string \<Rightarrow> string \<Rightarrow> scheduler \<Rightarrow> scheduler \<times> (string + register_reply)" where
  "refuse_workdir r other dir sd =
     (let ho = buildWorkdirCollisionHolder other (sd_store sd); msg = formatWorkdirRefusalMessage ho dir
      in (on_store (set_run (r_id r) (\<lambda>q. q\<lparr>r_scheduling_status := Some ''error'',
                                            r_scheduling_error := Some msg\<rparr>)) sd,
          Inr (WorkdirRefused msg ho dir)))"

definition wait_for_workdir :: "run \<Rightarrow> string \<Rightarrow> string \<Rightarrow> scheduler \<Rightarrow> scheduler \<times> (string + register_reply)" where
  "wait_for_workdir r other dir sd =
     (on_store (\<lambda>w. set_run (r_id r)
          (\<lambda>q. q\<lparr>r_scheduling_status := Some ''waiting'',
                 r_scheduling_error := Some (''waiting for harness workdir held by run '' @ other @ '': '' @ dir),
                 r_scheduling_requested_at :=
                   (case r_scheduling_requested_at q of None \<Rightarrow> Some (now w) | Some t \<Rightarrow> Some t)\<rparr>) w) sd,
      Inr (WorkdirWaiting other dir))"

definition admitOrQueueRun ::
    "admit_host \<Rightarrow> run \<Rightarrow> scheduler \<Rightarrow> scheduler \<times> (string + register_reply)" where
  "admitOrQueueRun h r sd =
     (if isIntentOnlyHeldRun r then (on_store (hold_preparing (r_id r)) sd, Inr PreparationHeld)
      else
        (let required = requiredTimersForRun (r_id r) (sd_store sd);
             (w, checked) = validateRunHarnessForScheduling h (r_id r) (r_context r) (r_matchlock_policy r)
                              (sd_store sd);
             sd1 = ah_validating h (sd\<lparr>sd_store := w\<rparr>)
         in case checked of
              Inl e \<Rightarrow> (sd1, Inl e)
            | Inr dir \<Rightarrow>
                (let (m, w1) = parseRunContext (r_id r) (r_context r) (sd_store sd1);
                     sd2 = sd1\<lparr>sd_store := w1\<rparr>;
                     collision = resolveWorkdirCollisionPolicy m (ah_env h)
                 in case runIdForScheduledHarnessWorkdir h dir (r_id r) sd2 of
                      None \<Rightarrow> admit_timers h r dir required False sd2
                    | Some other \<Rightarrow>
                        (case collision of
                           Refuse \<Rightarrow> refuse_workdir r other dir sd2
                         | Queue \<Rightarrow> wait_for_workdir r other dir sd2
                         | Allow \<Rightarrow> admit_timers h r dir required True sd2))))"

section \<open>The queue\<close>

text \<open>The order of the queue: the instant of the request, then that of the launch, missing ones first.\<close>

datatype queue_pos = QueuePos "int option" "int option"

instantiation queue_pos :: linorder
begin

fun less_eq_queue_pos :: "queue_pos \<Rightarrow> queue_pos \<Rightarrow> bool" where
  "less_eq_queue_pos (QueuePos a b) (QueuePos c d) = (a < c \<or> a = c \<and> b \<le> d)"

definition less_queue_pos :: "queue_pos \<Rightarrow> queue_pos \<Rightarrow> bool" where
  "less_queue_pos p q = (p \<le> q \<and> \<not> q \<le> p)"

instance
proof
  fix p q r :: queue_pos
  show "p < q \<longleftrightarrow> p \<le> q \<and> \<not> q \<le> p" by (rule less_queue_pos_def)
  show "p \<le> p" by (cases p) simp
  show "p \<le> q \<Longrightarrow> q \<le> r \<Longrightarrow> p \<le> r" by (cases p; cases q; cases r) auto
  show "p \<le> q \<Longrightarrow> q \<le> p \<Longrightarrow> p = q" by (cases p; cases q) auto
  show "p \<le> q \<or> q \<le> p" by (cases p; cases q) auto
qed

end

definition queue_pos :: "run \<Rightarrow> queue_pos" where
  "queue_pos r = QueuePos (r_scheduling_requested_at r) (r_created_at r)"

definition queued_runs :: "store \<Rightarrow> run list" where
  "queued_runs w =
     sort_key queue_pos
       (filter (\<lambda>r. r_status r = RRunning \<and> r_scheduling_status r \<in> {Some ''queued'', Some ''waiting''}) (runs w))"

text \<open>A run that finds no timers keeps its place: those behind it are not tried.  A failed admission is skipped.\<close>

fun admit_all :: "admit_host \<Rightarrow> run list \<Rightarrow> scheduler \<Rightarrow> scheduler" where
  "admit_all h [] sd = sd"
| "admit_all h (r # rs) sd =
     (let (sd1, res) = admitOrQueueRun h r sd
      in case res of
           Inl e \<Rightarrow> admit_all h rs sd1
         | Inr rep \<Rightarrow> if reply_state rep = Some ''queued'' then sd1 else admit_all h rs sd1)"

definition admitQueuedRuns :: "admit_host \<Rightarrow> scheduler \<Rightarrow> scheduler" where
  "admitQueuedRuns h sd = admit_all h (queued_runs (sd_store sd)) sd"

section \<open>Registration\<close>

definition run_admission :: "admit_host \<Rightarrow> run \<Rightarrow> scheduler \<Rightarrow> scheduler \<times> register_reply" where
  "run_admission h r sd =
     (let (sd1, res) = admitOrQueueRun h r sd
      in case res of
           Inr rep \<Rightarrow> (sd1, rep)
         | Inl e \<Rightarrow> (on_store (set_run (r_id r) (\<lambda>q. q\<lparr>r_scheduling_status := Some ''error'',
                                                     r_scheduling_error := Some e\<rparr>)) sd1, Unprocessable e))"

text \<open>\<open>torn\<close> are the runs whose teardown is under way.\<close>

definition handleRegisterRun ::
    "admit_host \<Rightarrow> string list \<Rightarrow> string \<Rightarrow> scheduler \<Rightarrow> scheduler \<times> register_reply" where
  "handleRegisterRun h torn runId sd =
     (case find_run runId (sd_store sd) of
        None \<Rightarrow> (sd, RunNotFound runId)
      | Some r \<Rightarrow>
          if terminal (r_status r) then (sd, RunIsTerminal (r_status r))
          else if runId \<in> set torn then (sd, TeardownInProgress)
          else if isIntentOnlyHeldRun r then (on_store (hold_preparing runId) sd, PreparationHeld)
          else if r_status r = RPaused \<or> r_scheduling_status r = Some ''paused'' then (sd, RunPaused)
          else if r_scheduling_status r = Some ''draining_pause'' then (sd, DrainPending)
          else
            (let (m, w) = parseRunContext runId (r_context r) (sd_store sd); sd1 = sd\<lparr>sd_store := w\<rparr>
             in if m ''pause_drain'' = Some ''true'' then (sd1, DrainPending)
                else if r_scheduling_status r = Some ''active''
                        \<and> scheduledJobCountForRun runId sd1 \<ge> requiredTimersForRun runId w
                then (sd1, RunActive)
                else run_admission h r sd1))"

section \<open>Reconciliation\<close>

definition STALE_LAUNCH_PHANTOM_AGE_MS :: int where
  "STALE_LAUNCH_PHANTOM_AGE_MS = 30 * 60 * 1000"

definition STALE_LAUNCH_PHANTOM_TOLERANCE_MS :: int where
  "STALE_LAUNCH_PHANTOM_TOLERANCE_MS = 1000"

definition STALE_LAUNCH_PHANTOM_REASON :: string where
  "STALE_LAUNCH_PHANTOM_REASON =
     ''Daemon recovery: stale launch phantom had no steps and worktree state was absent or stuck in a launch-failure state after 30 minutes''"

definition launch_phantom :: "admit_host \<Rightarrow> store \<Rightarrow> run \<Rightarrow> bool" where
  "launch_phantom h w r \<longleftrightarrow>
     r_status r = RRunning \<and> run_steps (r_id r) w = []
     \<and> (case ah_worktrees h (r_id r) of
          None \<Rightarrow> True
        | Some wt \<Rightarrow> wt_status wt \<in> {''creating'', ''error'', ''cleanup_failed''})"

definition fail_phantom :: "admit_host \<Rightarrow> run \<Rightarrow> store \<times> string list \<Rightarrow> store \<times> string list" where
  "fail_phantom h c acc =
     (let (w, ids) = acc
      in case find_run (r_id c) w of
           None \<Rightarrow> acc
         | Some r \<Rightarrow>
             if \<not> launch_phantom h w r then acc
             else (emit ''run.failed'' (r_id c)
                     [(''workflowId'', VStr (r_workflow_id c)), (''reason'', VStr ''stale_launch_phantom_recovery''),
                      (''detail'', VStr STALE_LAUNCH_PHANTOM_REASON), (''tokensSpent'', VNat (r_tokens_spent c))]
                     (set_run (r_id c) (\<lambda>q. q\<lparr>r_status := RFailed, r_scheduling_status := None,
                                             r_scheduling_error := Some STALE_LAUNCH_PHANTOM_REASON\<rparr>) w),
                   ids @ [r_id c]))"

definition recoverStaleLaunchPhantoms :: "admit_host \<Rightarrow> store \<Rightarrow> store \<times> string list" where
  "recoverStaleLaunchPhantoms h w =
     fold (fail_phantom h)
       (filter (\<lambda>r. isOlderThan (r_created_at r) STALE_LAUNCH_PHANTOM_AGE_MS (now w)
                      STALE_LAUNCH_PHANTOM_TOLERANCE_MS)
          (sort_key r_created_at (sort_key r_id (filter (launch_phantom h w) (runs w)))))
       (w, [])"

definition desired_runs :: "store \<Rightarrow> run list" where
  "desired_runs w =
     sort_key queue_pos
       (filter (\<lambda>r. r_status r = RRunning
                  \<and> r_scheduling_status r \<in> {None, Some ''pending_register'', Some ''active'', Some ''error'',
                                             Some ''waiting''}) (runs w))"

definition register_desired :: "admit_host \<Rightarrow> string list \<Rightarrow> run \<Rightarrow> scheduler \<Rightarrow> scheduler" where
  "register_desired h torn r sd =
     (if r_scheduling_status r = Some ''active'' \<and> run_jobs (r_id r) sd \<noteq> [] then sd
      else fst (handleRegisterRun h torn (r_id r) sd))"

definition drop_ended :: "string \<Rightarrow> scheduler \<Rightarrow> scheduler" where
  "drop_ended runId sd =
     (let st = run_status_of runId (sd_store sd)
      in if st = Some RRunning then sd
         else removeRunCrons runId (plain_removal\<lparr>ro_grace := getRunTeardownGraceMs st\<rparr>) sd)"

definition reconcileOnce ::
    "admit_host \<Rightarrow> (int \<Rightarrow> probe) \<Rightarrow> specs \<Rightarrow> string list \<Rightarrow> scheduler \<Rightarrow> scheduler" where
  "reconcileOnce h probe specs torn sd =
     (let w1 = fst (recoverStaleLaunchPhantoms h (sd_store sd));
          (w2, c, ids) = recoverStepsWithDeadWorkers probe specs w1;
          sd2 = fold (register_desired h torn) (desired_runs w2) (sd\<lparr>sd_store := w2\<rparr>);
          sd3 = (if (recovered c > 0 \<or> failed c > 0) \<and> ids \<noteq> []
                 then fst (nudgeScheduledRuns (\<lambda>wf. map_sum id (map fst) (ah_load h wf)) ids sd2) else sd2);
          sd4 = fold drop_ended (once (map (\<lambda>(i, info). j_run info) (sd_jobs sd3))) sd3
      in admitQueuedRuns h sd4)"

end
