(* ===== verification/Admission_Props.thy ===== *)
theory Admission_Props
  imports Admission Rounds_Props
begin

text \<open>
  What admission keeps of the registry of jobs: two runs never work in one directory, and no more timers run
  than the limit allows.  A contract states what an invariant of the jobs needs (\<open>admission_invariant\<close>), both
  invariants meet it, and every operation of the registry keeps what meets it, as long as nothing else is
  admitted while an admission waits.
\<close>

section \<open>The jobs of the registry\<close>

lemma remove_job_jobs: "sd_jobs (remove_job opts i sd) = AList.delete i (sd_jobs sd)"
  by (simp add: remove_job_def Let_def abortDispatchRound_def kill_child_def sched_def
      split: option.split)

lemma removal_jobs:
  "sd_jobs (removeRunCrons runId opts sd)
     = filter (\<lambda>(i, info). i \<notin> fst ` set (run_jobs runId sd)) (sd_jobs sd)"
proof -
  have "sd_jobs (fold (\<lambda>(i, info). remove_job opts i) js s)
          = filter (\<lambda>(i, info). i \<notin> fst ` set js) (sd_jobs s)" for js :: "(string \<times> job) list" and s
  proof (induction js arbitrary: s)
    case (Cons x js)
    then show ?case
      by (simp add: remove_job_jobs AList.delete_eq split_beta) (rule filter_cong, auto)
  qed (simp add: split_beta)
  then show ?thesis
    by (simp add: removeRunCrons_def Let_def scheduleSweepTimer_def sched_def split: prod.split)
qed

lemma update_fresh: "map_of al k = None \<Longrightarrow> AList.update k v al = al @ [(k, v)]"
  by (induction al) (auto split: if_splits)

definition jobs_of_run :: "string \<Rightarrow> string option \<Rightarrow> (string \<times> job) list \<Rightarrow> bool" where
  "jobs_of_run runId dir new \<longleftrightarrow> list_all (\<lambda>(i, info). j_run info = runId \<and> j_workdir info = dir) new"

lemma setup_agent_jobs:
  "\<exists>new. sd_jobs (setup_agent wid runId dir a sd) = sd_jobs sd @ new \<and> length new \<le> 1
         \<and> jobs_of_run runId dir new"
proof (cases "sd_jobs (setup_agent wid runId dir a sd) = sd_jobs sd")
  case True
  then show ?thesis by (intro exI [of _ "[]"]) (simp add: jobs_of_run_def)
next
  case False
  then show ?thesis
    by (auto simp: setup_agent_def createAgentCronJob_def Let_def has_job_def update_fresh jobs_of_run_def
        split: if_splits option.splits prod.splits)
qed

lemma setup_jobs:
  "\<exists>new. sd_jobs (setupAgentCrons wid agents runId dir sd) = sd_jobs sd @ new
         \<and> length new \<le> length agents \<and> jobs_of_run runId dir new"
proof (induction agents arbitrary: sd)
  case Nil
  then show ?case by (intro exI [of _ "[]"]) (simp add: setupAgentCrons_def jobs_of_run_def)
next
  case (Cons a agents)
  obtain n1 where n1: "sd_jobs (setup_agent wid runId dir a sd) = sd_jobs sd @ n1" "length n1 \<le> 1"
    "jobs_of_run runId dir n1" using setup_agent_jobs by blast
  obtain n2 where n2: "sd_jobs (setupAgentCrons wid agents runId dir (setup_agent wid runId dir a sd))
      = sd_jobs (setup_agent wid runId dir a sd) @ n2" "length n2 \<le> length agents"
    "jobs_of_run runId dir n2" using Cons.IH by blast
  show ?case
    by (rule exI [of _ "n1 @ n2"]) (use n1 n2 in \<open>simp add: setupAgentCrons_def jobs_of_run_def\<close>)
qed

lemma setup_steps: "steps (sd_store (setupAgentCrons wid agents runId dir sd)) = steps (sd_store sd)"
proof -
  have one: "steps (sd_store (setup_agent wid runId dir a sd)) = steps (sd_store sd)" for a sd
    by (simp add: setup_agent_def createAgentCronJob_def Let_def parseRunContext_def
        split: option.split prod.split ctx_col.split)
  show ?thesis
    unfolding setupAgentCrons_def by (induction agents arbitrary: sd) (simp_all add: one)
qed

section \<open>Invariants of the registry\<close>

locale job_invariant =
  fixes I :: "admit_host \<Rightarrow> (string \<times> job) list \<Rightarrow> bool"
  assumes keep_filter: "I h js \<Longrightarrow> I h (filter P js)"
begin

lemma removal_keeps: "I h (sd_jobs sd) \<Longrightarrow> I h (sd_jobs (removeRunCrons runId opts sd))"
  by (simp add: removal_jobs keep_filter)

lemma drop_ended_keeps: "I h (sd_jobs sd) \<Longrightarrow> I h (sd_jobs (drop_ended runId sd))"
  by (simp add: drop_ended_def Let_def removal_keeps)

end

text \<open>An invariant that relates any two jobs.\<close>

locale pairwise_jobs =
  fixes R :: "admit_host \<Rightarrow> job \<Rightarrow> job \<Rightarrow> bool"
    and I :: "admit_host \<Rightarrow> (string \<times> job) list \<Rightarrow> bool"
  assumes pairwise: "I h js \<longleftrightarrow> (\<forall>x \<in> set js. \<forall>y \<in> set js. R h (snd x) (snd y))"

sublocale pairwise_jobs \<subseteq> job_invariant I
  by unfold_locales (auto simp: pairwise)

text \<open>Nothing else changes the registry or the step rows while an admission waits.\<close>

definition undisturbed :: "admit_host \<Rightarrow> bool" where
  "undisturbed h \<longleftrightarrow>
     (\<forall>sd. sd_jobs (ah_validating h sd) = sd_jobs sd \<and> sd_jobs (ah_loading h sd) = sd_jobs sd
           \<and> steps (sd_store (ah_validating h sd)) = steps (sd_store sd)
           \<and> steps (sd_store (ah_loading h sd)) = steps (sd_store sd))"

definition run_collision :: "admit_host \<Rightarrow> run \<Rightarrow> collision_policy" where
  "run_collision h r =
     resolveWorkdirCollisionPolicy (case r_context r of CtxObj m \<Rightarrow> m | CtxCorrupt text \<Rightarrow> Map.empty) (ah_env h)"

definition same_steps :: "scheduler \<Rightarrow> scheduler \<Rightarrow> bool" where
  "same_steps a b \<longleftrightarrow> steps (sd_store a) = steps (sd_store b)"

lemma required_same_steps: "same_steps a b \<Longrightarrow>
    requiredTimersForRun i (sd_store a) = requiredTimersForRun i (sd_store b)"
  by (simp add: requiredTimersForRun_def run_steps_def same_steps_def)

lemma validation_store:
  "validateRunHarnessForScheduling h i c p w = (w', res) \<Longrightarrow> steps w' = steps w \<and> runs w' = runs w"
  by (auto simp: validateRunHarnessForScheduling_def parseRunContext_def split: ctx_col.splits)

lemma parse_context_rows [simp]:
  "steps (snd (parseRunContext i c w)) = steps w" "runs (snd (parseRunContext i c w)) = runs w"
  "fst (parseRunContext i c w) = (case c of CtxObj m \<Rightarrow> m | CtxCorrupt text \<Rightarrow> Map.empty)"
  by (simp_all add: parseRunContext_def split: ctx_col.split)

lemma no_holder:
  "runIdForScheduledHarnessWorkdir h dir x sd = None \<longleftrightarrow>
     (\<forall>(i, info) \<in> set (sd_jobs sd). (x \<noteq> [] \<and> j_run info = x)
        \<or> (case j_workdir info of None \<Rightarrow> True | Some d \<Rightarrow> d = [] \<or> canonical_dir h d \<noteq> canonical_dir h dir))"
  by (auto simp: runIdForScheduledHarnessWorkdir_def find_None_iff split: option.splits prod.splits)

lemma holder_subset:
  "runIdForScheduledHarnessWorkdir h dir x sd = None \<Longrightarrow> set (sd_jobs sd') \<subseteq> set (sd_jobs sd) \<Longrightarrow>
   runIdForScheduledHarnessWorkdir h dir x sd' = None"
  unfolding no_holder by blast

lemma mark_active_frame [simp]:
  "sd_jobs (mark_active i sd) = sd_jobs sd" "steps (sd_store (mark_active i sd)) = steps (sd_store sd)"
  by (simp_all add: mark_active_def on_store_def)

lemma on_store_jobs [simp]: "sd_jobs (on_store f sd) = sd_jobs sd" "sd_store (on_store f sd) = f (sd_store sd)"
  by (simp_all add: on_store_def)

lemma hold_preparing_steps [simp]: "steps (hold_preparing i w) = steps w"
  by (simp add: hold_preparing_def split: option.split)

definition rows_ok ::
    "(admit_host \<Rightarrow> step list \<Rightarrow> run \<Rightarrow> bool) \<Rightarrow> admit_host \<Rightarrow> scheduler \<Rightarrow> bool" where
  "rows_ok Q h sd \<longleftrightarrow> (\<forall>r \<in> set (runs (sd_store sd)). Q h (steps (sd_store sd)) r)"

text \<open>The history of the registry: its own operations, each on rows that meet \<open>Q\<close>, and whatever else leaves
  the jobs alone.\<close>

inductive registry_step ::
    "(admit_host \<Rightarrow> step list \<Rightarrow> run \<Rightarrow> bool) \<Rightarrow> admit_host \<Rightarrow> scheduler \<Rightarrow> scheduler \<Rightarrow> bool" for Q h where
  register: "rows_ok Q h sd \<Longrightarrow> registry_step Q h sd (fst (handleRegisterRun h torn runId sd))"
| admit_queued: "rows_ok Q h sd \<Longrightarrow> registry_step Q h sd (admitQueuedRuns h sd)"
| teardown: "registry_step Q h sd (removeRunCrons runId opts sd)"
| elsewhere: "sd_jobs sd' = sd_jobs sd \<Longrightarrow> registry_step Q h sd sd'"

inductive_cases registry_stepE: "registry_step Q h sd sd'"

text \<open>The contract: the jobs of one more run keep the invariant when no other run holds its directory, or its
  policy shares it, and when there are timers for as many jobs as its steps need.  \<open>Q\<close> is what the invariant
  asks of the run.\<close>

locale admission_invariant = job_invariant I
  for I :: "admit_host \<Rightarrow> (string \<times> job) list \<Rightarrow> bool" +
  fixes Q :: "admit_host \<Rightarrow> step list \<Rightarrow> run \<Rightarrow> bool"
  assumes keep_setup:
    "I h (sd_jobs sd) \<Longrightarrow> Q h (steps (sd_store sd)) r \<Longrightarrow> \<not> isIntentOnlyHeldRun r \<Longrightarrow> ah_load h (r_workflow_id r) = Inr agents \<Longrightarrow>
     run_collision h r \<noteq> Allow \<longrightarrow> runIdForScheduledHarnessWorkdir h dir (r_id r) sd = None \<Longrightarrow>
     int (requiredTimersForRun (r_id r) (sd_store sd)) \<le> int (getMaxActiveTimers h) - int (length (sd_jobs sd)) \<Longrightarrow>
     I h (sd_jobs (setupAgentCrons (r_workflow_id r) agents (r_id r) (Some dir) sd))"
begin

lemma schedule_keeps:
  assumes "undisturbed h" "I h (sd_jobs sd)" "Q h (steps (sd_store sd)) r" "\<not> isIntentOnlyHeldRun r"
    "run_collision h r \<noteq> Allow \<longrightarrow> runIdForScheduledHarnessWorkdir h dir (r_id r) sd = None"
    "int (requiredTimersForRun (r_id r) (sd_store sd)) \<le> int (getMaxActiveTimers h) - int (length (sd_jobs sd))"
    "schedule_jobs h r dir required lm shared sd = (sd', res)"
  shows "I h (sd_jobs sd') \<and> steps (sd_store sd') = steps (sd_store sd)"
proof -
  let ?sd = "ah_loading h sd"
  have l: "sd_jobs ?sd = sd_jobs sd" "steps (sd_store ?sd) = steps (sd_store sd)"
    using assms(1) by (simp_all add: undisturbed_def)
  have r: "requiredTimersForRun (r_id r) (sd_store ?sd) = requiredTimersForRun (r_id r) (sd_store sd)"
    by (simp add: requiredTimersForRun_def run_steps_def l)
  show ?thesis
  proof (cases "ah_load h (r_workflow_id r)")
    case (Inl e)
    then show ?thesis using assms(2,7) l by (auto simp: schedule_jobs_def)
  next
    case (Inr agents)
    have "I h (sd_jobs (setupAgentCrons (r_workflow_id r) agents (r_id r) (Some dir) ?sd))"
      by (rule keep_setup) (use assms(2-6) Inr l r holder_subset [of h dir "r_id r" sd ?sd] in auto)
    then show ?thesis
      using assms(7) Inr l by (auto simp: schedule_jobs_def Let_def setup_steps removal_keeps split: if_splits)
  qed
qed

lemma timers_keep:
  assumes "undisturbed h" "I h (sd_jobs sd)" "Q h (steps (sd_store sd)) r" "\<not> isIntentOnlyHeldRun r"
    "run_collision h r \<noteq> Allow \<longrightarrow> runIdForScheduledHarnessWorkdir h dir (r_id r) sd = None"
    "required = requiredTimersForRun (r_id r) (sd_store sd)"
    "admit_timers h r dir required shared sd = (sd', res)"
  shows "I h (sd_jobs sd') \<and> steps (sd_store sd') = steps (sd_store sd)"
proof -
  define sd1 where "sd1 = (if 0 < scheduledJobCountForRun (r_id r) sd \<and> scheduledJobCountForRun (r_id r) sd < required
                           then removeRunCrons (r_id r) plain_removal sd else sd)"
  have 1: "I h (sd_jobs sd1)" "sd_store sd1 = sd_store sd" "set (sd_jobs sd1) \<subseteq> set (sd_jobs sd)"
    using assms(2) removal_keeps [OF assms(2)] by (auto simp: sd1_def removal_jobs)
  have 2: "run_collision h r \<noteq> Allow \<longrightarrow> runIdForScheduledHarnessWorkdir h dir (r_id r) sd1 = None"
    using assms(5) holder_subset [OF _ 1(3)] by blast
  have 3: "Q h (steps (sd_store sd1)) r" "required = requiredTimersForRun (r_id r) (sd_store sd1)"
    using assms(3,6) 1(2) by auto
  show ?thesis
    using assms(2,7) schedule_keeps [OF assms(1) 1(1) 3(1) assms(4) 2, folded 3(2)] 1(1,2)
    unfolding admit_timers_def Let_def sd1_def [symmetric]
    by (auto split: if_splits)
qed

lemma admission_keeps:
  assumes "undisturbed h" "I h (sd_jobs sd)" "Q h (steps (sd_store sd)) r" "admitOrQueueRun h r sd = (sd', res)"
  shows "I h (sd_jobs sd') \<and> steps (sd_store sd') = steps (sd_store sd)"
proof (cases "isIntentOnlyHeldRun r")
  case True
  then show ?thesis using assms by (auto simp: admitOrQueueRun_def)
next
  case False
  obtain w checked where v: "validateRunHarnessForScheduling h (r_id r) (r_context r) (r_matchlock_policy r)
      (sd_store sd) = (w, checked)" by fastforce
  let ?sd1 = "ah_validating h (sd\<lparr>sd_store := w\<rparr>)"
  let ?sd2 = "?sd1\<lparr>sd_store := snd (parseRunContext (r_id r) (r_context r) (sd_store ?sd1))\<rparr>"
  have w: "steps w = steps (sd_store sd)" using validation_store [OF v] by simp
  have c: "sd_jobs ?sd1 = sd_jobs sd" "steps (sd_store ?sd1) = steps (sd_store sd)"
    using assms(1) w by (simp_all add: undisturbed_def)
  have req: "requiredTimersForRun (r_id r) (sd_store sd) = requiredTimersForRun (r_id r) (sd_store ?sd2)"
    by (simp add: requiredTimersForRun_def run_steps_def c)
  have policy: "resolveWorkdirCollisionPolicy (fst (parseRunContext (r_id r) (r_context r) (sd_store ?sd1)))
      (ah_env h) = run_collision h r" by (simp add: run_collision_def)
  show ?thesis
  proof (cases checked)
    case (Inl e)
    then show ?thesis using assms(2,4) False v c by (auto simp: admitOrQueueRun_def)
  next
    case (Inr dir)
    have t: "run_collision h r \<noteq> Allow \<longrightarrow> runIdForScheduledHarnessWorkdir h dir (r_id r) ?sd2 = None \<Longrightarrow>
        admit_timers h r dir (requiredTimersForRun (r_id r) (sd_store sd)) shared ?sd2 = (sd', res) \<Longrightarrow> ?thesis" for shared
      using timers_keep [of h ?sd2 r dir _ shared sd' res, OF assms(1)] assms(2,3) False c req by simp
    show ?thesis
      using assms(2,4) False v Inr t c policy
      by (auto simp: admitOrQueueRun_def Let_def split_beta refuse_workdir_def wait_for_workdir_def
          split: option.splits collision_policy.splits)
  qed
qed

lemma admit_all_keeps:
  assumes "undisturbed h" "I h (sd_jobs sd)" "\<forall>r \<in> set rs. Q h (steps (sd_store sd)) r"
  shows "I h (sd_jobs (admit_all h rs sd))"
  using assms(2,3)
proof (induction rs arbitrary: sd)
  case (Cons r rs)
  obtain sd1 res where a: "admitOrQueueRun h r sd = (sd1, res)" by fastforce
  have k: "I h (sd_jobs sd1)" "steps (sd_store sd1) = steps (sd_store sd)"
    using admission_keeps [OF assms(1) Cons.prems(1) _ a] Cons.prems(2) by simp_all
  have "I h (sd_jobs (admit_all h rs sd1))"
    using Cons.IH [OF k(1)] Cons.prems(2) k(2) by simp
  then show ?case using k(1) a by (simp split: sum.split)
qed simp

lemma registration_keeps:
  assumes "undisturbed h" "I h (sd_jobs sd)" "rows_ok Q h sd"
  shows "I h (sd_jobs (fst (handleRegisterRun h torn runId sd)))"
proof (cases "find_run runId (sd_store sd)")
  case None
  then show ?thesis using assms(2) by (simp add: handleRegisterRun_def)
next
  case (Some r)
  let ?sd = "sd\<lparr>sd_store := snd (parseRunContext runId (r_context r) (sd_store sd))\<rparr>"
  have q: "Q h (steps (sd_store ?sd)) r" "I h (sd_jobs ?sd)"
    using assms(2,3) Some run_table.find_key [of runId "sd_store sd" r] by (auto simp: rows_ok_def)
  have "I h (sd_jobs (fst (run_admission h r ?sd)))"
    using admission_keeps [OF assms(1) q(2,1)]
    by (auto simp: run_admission_def Let_def split: prod.split sum.split)
  then show ?thesis
    using assms(2) Some by (auto simp: handleRegisterRun_def Let_def split_beta)
qed

lemma step_keeps:
  assumes "registry_step Q h sd sd'" "undisturbed h" "I h (sd_jobs sd)"
  shows "I h (sd_jobs sd')"
  using assms(1)
proof (cases rule: registry_step.cases)
  case (register torn runId)
  then show ?thesis using registration_keeps [OF assms(2,3)] by simp
next
  case admit_queued
  then show ?thesis using admit_all_keeps [OF assms(2,3)]
    by (auto simp: admitQueuedRuns_def queued_runs_def rows_ok_def)
qed (use assms(3) removal_keeps in auto)

lemma history_keeps:
  assumes "(registry_step Q h)\<^sup>*\<^sup>* sd sd'" "undisturbed h" "I h (sd_jobs sd)"
  shows "I h (sd_jobs sd')"
  using assms(1,3) by (induction rule: rtranclp_induct) (auto intro: step_keeps [OF _ assms(2)])

end

section \<open>The reconciler\<close>

lemma set_once [simp]: "set (once xs) = set xs"
  by (simp add: once_def)

lemma run_jobs_gone:
  "(i, info) \<in> set (sd_jobs (removeRunCrons runId opts sd)) \<Longrightarrow> (i, info) \<in> set (sd_jobs sd) \<and> j_run info \<noteq> runId"
  by (force simp: removal_jobs run_jobs_def)

lemma drop_ended_store [simp]: "sd_store (drop_ended runId sd) = sd_store sd"
  by (simp add: drop_ended_def Let_def)

lemma drop_ended_job:
  "(i, info) \<in> set (sd_jobs (drop_ended runId sd)) \<Longrightarrow>
   (i, info) \<in> set (sd_jobs sd) \<and> (j_run info = runId \<longrightarrow> run_status_of runId (sd_store sd) = Some RRunning)"
  by (auto simp: drop_ended_def Let_def dest: run_jobs_gone split: if_splits)

text \<open>After the reconciler has dropped the jobs of ended runs every job left is one of a running run.\<close>

lemma dropped_leaves_running:
  assumes "(i, info) \<in> set (sd_jobs (fold drop_ended rs sd))"
  shows "(i, info) \<in> set (sd_jobs sd) \<and> (j_run info \<in> set rs \<longrightarrow> run_status_of (j_run info) (sd_store sd) = Some RRunning)"
  using assms
proof (induction rs arbitrary: sd)
  case (Cons r rs)
  from Cons.IH [of "drop_ended r sd"] Cons.prems show ?case using drop_ended_job by fastforce
qed simp

lemma reconciled_jobs_run:
  "(i, info) \<in> set (sd_jobs (fold drop_ended (once (map (\<lambda>(i, info). j_run info) (sd_jobs sd))) sd)) \<Longrightarrow>
   run_status_of (j_run info) (sd_store sd) = Some RRunning"
  by (frule dropped_leaves_running) force

text \<open>The sweep of dead launches fails a run only when it never got a step.\<close>

lemma phantom_steps: "steps (fst (fail_phantom h c acc)) = steps (fst acc)"
  by (simp add: fail_phantom_def split: prod.split option.split)

lemma phantom_other:
  "run_steps i (fst acc) \<noteq> [] \<Longrightarrow> find_run i (fst (fail_phantom h c acc)) = find_run i (fst acc)"
  by (auto simp: fail_phantom_def launch_phantom_def find_set_run run_table.find_key
      split: prod.splits option.splits dest: run_table.find_key)

lemma phantoms_have_no_steps:
  assumes "run_steps i w \<noteq> []"
  shows "find_run i (fst (recoverStaleLaunchPhantoms h w)) = find_run i w"
proof -
  have "find_run i (fst (fold (fail_phantom h) cs acc)) = find_run i (fst acc)"
    if "run_steps i (fst acc) \<noteq> []" for cs acc
    using that by (induction cs arbitrary: acc) (simp_all add: phantom_other phantom_steps run_steps_def)
  from this [of "(w, [])"] show ?thesis using assms by (simp add: recoverStaleLaunchPhantoms_def)
qed

section \<open>Three invariants\<close>

text \<open>No two runs work in one directory.\<close>

definition dirs_apart :: "admit_host \<Rightarrow> job \<Rightarrow> job \<Rightarrow> bool" where
  "dirs_apart h a b \<longleftrightarrow>
     j_run a = j_run b
     \<or> (case (j_workdir a, j_workdir b) of
          (Some d, Some e) \<Rightarrow> d = [] \<or> e = [] \<or> canonical_dir h d \<noteq> canonical_dir h e
        | _ \<Rightarrow> True)"

definition exclusive :: "admit_host \<Rightarrow> (string \<times> job) list \<Rightarrow> bool" where
  "exclusive h js \<longleftrightarrow> list_all (\<lambda>x. list_all (\<lambda>y. dirs_apart h (snd x) (snd y)) js) js"

definition unshared :: "admit_host \<Rightarrow> step list \<Rightarrow> run \<Rightarrow> bool" where
  "unshared h ss r \<longleftrightarrow> run_collision h r \<noteq> Allow"

text \<open>No more jobs than the limit; the agents of a workflow are the agents of the steps of its runs.\<close>

definition within_limit :: "admit_host \<Rightarrow> (string \<times> job) list \<Rightarrow> bool" where
  "within_limit h js \<longleftrightarrow> length js \<le> getMaxActiveTimers h"

definition agents_have_steps :: "admit_host \<Rightarrow> step list \<Rightarrow> run \<Rightarrow> bool" where
  "agents_have_steps h ss r \<longleftrightarrow>
     (case ah_load h (r_workflow_id r) of
        Inl e \<Rightarrow> True
      | Inr agents \<Rightarrow>
          length agents \<le> length (remdups (map s_agent_id (filter (\<lambda>s. s_run_id s = r_id r) ss))))"

text \<open>A run whose sandbox is in preparation has no job.\<close>

definition jobless :: "string \<Rightarrow> (string \<times> job) list \<Rightarrow> bool" where
  "jobless runId js \<longleftrightarrow> list_all (\<lambda>(i, info). j_run info \<noteq> runId) js"

definition held_back :: "string \<Rightarrow> admit_host \<Rightarrow> step list \<Rightarrow> run \<Rightarrow> bool" where
  "held_back runId h ss r \<longleftrightarrow> (r_id r = runId \<longrightarrow> isIntentOnlyHeldRun r)"

lemma dirs_apart_sym: "dirs_apart h a b \<longleftrightarrow> dirs_apart h b a"
  by (auto simp: dirs_apart_def split: option.splits)

lemma dirs_apart_from_holder:
  assumes "runIdForScheduledHarnessWorkdir h dir x sd = None" "(i, a) \<in> set (sd_jobs sd)"
    "j_run b = x" "j_workdir b = Some dir"
  shows "dirs_apart h a b"
  using assms by (fastforce simp: no_holder dirs_apart_def split: option.splits)

interpretation dirs: pairwise_jobs dirs_apart exclusive
  by unfold_locales (simp add: exclusive_def list_all_iff)

interpretation exclusive_dirs: admission_invariant exclusive unshared
proof unfold_locales
  fix h and sd :: scheduler and r agents dir
  assume I: "exclusive h (sd_jobs sd)" and Q: "unshared h (steps (sd_store sd)) r"
    and free: "run_collision h r \<noteq> Allow \<longrightarrow> runIdForScheduledHarnessWorkdir h dir (r_id r) sd = None"
  obtain new where new: "sd_jobs (setupAgentCrons (r_workflow_id r) agents (r_id r) (Some dir) sd)
      = sd_jobs sd @ new" "jobs_of_run (r_id r) (Some dir) new" using setup_jobs by blast
  have none: "runIdForScheduledHarnessWorkdir h dir (r_id r) sd = None"
    using free Q by (simp add: unshared_def)
  have n: "j_run (snd x) = r_id r \<and> j_workdir (snd x) = Some dir" if "x \<in> set new" for x
    using new(2) that by (auto simp: jobs_of_run_def list_all_iff)
  have on: "dirs_apart h (snd x) (snd y)" if "x \<in> set (sd_jobs sd)" "y \<in> set new" for x y
    using dirs_apart_from_holder [OF none, of "fst x" "snd x" "snd y"] that n by simp
  have no: "dirs_apart h (snd x) (snd y)" if "x \<in> set new" "y \<in> set (sd_jobs sd)" for x y
    using on [OF that(2,1)] dirs_apart_sym by blast
  have nn: "dirs_apart h (snd x) (snd y)" if "x \<in> set new" "y \<in> set new" for x y
    using n that by (simp add: dirs_apart_def)
  show "exclusive h (sd_jobs (setupAgentCrons (r_workflow_id r) agents (r_id r) (Some dir) sd))"
    unfolding new(1) dirs.pairwise set_append using I on no nn by (blast dest: dirs.pairwise [THEN iffD1])
qed

interpretation timer_limit: admission_invariant within_limit agents_have_steps
proof unfold_locales
  show "within_limit h js \<Longrightarrow> within_limit h (filter P js)" for h js P
    by (simp add: within_limit_def le_trans [OF length_filter_le])
next
  fix h and sd :: scheduler and r agents dir
  assume Q: "agents_have_steps h (steps (sd_store sd)) r" and load: "ah_load h (r_workflow_id r) = Inr agents"
    and free: "int (requiredTimersForRun (r_id r) (sd_store sd))
        \<le> int (getMaxActiveTimers h) - int (length (sd_jobs sd))"
  obtain new where "sd_jobs (setupAgentCrons (r_workflow_id r) agents (r_id r) (Some dir) sd)
      = sd_jobs sd @ new" "length new \<le> length agents" using setup_jobs by blast
  moreover have "length agents \<le> requiredTimersForRun (r_id r) (sd_store sd)"
    using Q load by (simp add: agents_have_steps_def requiredTimersForRun_def run_steps_def)
  ultimately show "within_limit h (sd_jobs (setupAgentCrons (r_workflow_id r) agents (r_id r) (Some dir) sd))"
    using free by (simp add: within_limit_def)
qed

interpretation preparing: admission_invariant "\<lambda>h. jobless runId" "held_back runId" for runId
proof unfold_locales
  show "jobless runId js \<Longrightarrow> jobless runId (filter P js)" for js P
    by (auto simp: jobless_def list_all_iff)
next
  fix h and sd :: scheduler and r agents dir
  assume I: "jobless runId (sd_jobs sd)" and Q: "held_back runId h (steps (sd_store sd)) r" and "\<not> isIntentOnlyHeldRun r"
  obtain new where "sd_jobs (setupAgentCrons (r_workflow_id r) agents (r_id r) (Some dir) sd)
      = sd_jobs sd @ new" "jobs_of_run (r_id r) (Some dir) new" using setup_jobs by blast
  moreover have "r_id r \<noteq> runId" using Q \<open>\<not> isIntentOnlyHeldRun r\<close> by (auto simp: held_back_def)
  ultimately show "jobless runId (sd_jobs (setupAgentCrons (r_workflow_id r) agents (r_id r) (Some dir) sd))"
    using I by (auto simp: jobless_def jobs_of_run_def list_all_iff)
qed

section \<open>A host and two runs\<close>

definition admit_host0 :: admit_host where
  "admit_host0 =
     \<lparr>ah_cwd = ''/'', ah_realpath = (\<lambda>p. if p = ''/link'' then Some ''/repo'' else Some p), ah_stat = (\<lambda>p. StatDir),
      ah_git = (\<lambda>args. \<lparr>gr_status = 0, gr_stdout = [], gr_stderr = []\<rparr>), ah_worktrees = (\<lambda>i. None),
      ah_hermes = None, ah_dsh = None, ah_load = (\<lambda>i. Inr [(''planner'', 60)]), ah_env = (\<lambda>k. None),
      ah_validating = (\<lambda>sd. sd), ah_loading = (\<lambda>sd. sd)\<rparr>"

lemma undisturbed0: "undisturbed admit_host0"
  by (simp add: undisturbed_def admit_host0_def)

text \<open>Two runs in one directory, the second through a link and willing to wait.\<close>

definition two_runs :: store where
  "two_runs = store0\<lparr>
     runs := [run0\<lparr>r_context := CtxObj [''working_directory_for_harness'' \<mapsto> ''/repo'']\<rparr>,
              run0\<lparr>r_id := ''q'', r_context := CtxObj [''working_directory_for_harness'' \<mapsto> ''/link'',
                                                   ''workdir_collision_policy'' \<mapsto> ''queue'']\<rparr>],
     steps := [step0, step0\<lparr>s_id := ''q1'', s_run_id := ''q''\<rparr>], stories := []\<rparr>"

definition registry0 :: scheduler where
  "registry0 = scheduler0\<lparr>sd_store := two_runs, sd_jobs := [], sd_active := []\<rparr>"

definition first_registered :: scheduler where
  "first_registered = fst (handleRegisterRun admit_host0 [] ''r'' registry0)"

definition both_registered :: scheduler where
  "both_registered = fst (handleRegisterRun admit_host0 [] ''q'' first_registered)"

lemma both_history:
  assumes "rows_ok Q admit_host0 registry0" "rows_ok Q admit_host0 first_registered"
  shows "(registry_step Q admit_host0)\<^sup>*\<^sup>* registry0 both_registered"
  using registry_step.register [OF assms(1), of "[]" "''r''"] registry_step.register [OF assms(2), of "[]" "''q''"]
  by (simp add: first_registered_def [symmetric] both_registered_def [symmetric])

lemma both_rows:
  "rows_ok unshared admit_host0 registry0" "rows_ok unshared admit_host0 first_registered"
  "rows_ok agents_have_steps admit_host0 registry0" "rows_ok agents_have_steps admit_host0 first_registered"
  by code_simp+

lemma both_registered_rows:
  "map (\<lambda>(i, a). j_run a) (sd_jobs both_registered) = [''r'']"
  "map r_scheduling_status (runs (sd_store both_registered)) = [Some ''active'', Some ''waiting'']"
  by code_simp+

section \<open>The properties\<close>

text \<open>C33. Two runs never work in one directory: from an empty registry on, in every history of registrations,
  admissions of queued runs and teardowns on runs none of which shares its directory by policy, jobs of different
  runs have different directories, links resolved, as long as nothing else is admitted while an admission waits.\<close>

theorem one_run_per_directory:
  assumes "(registry_step unshared h)\<^sup>*\<^sup>* sd sd'" "undisturbed h" "sd_jobs sd = []"
  shows "exclusive h (sd_jobs sd')"
  using exclusive_dirs.history_keeps [OF assms(1,2)] assms(3) by (simp add: exclusive_def)

theorem one_run_per_directory_witness:
  "exclusive admit_host0 (sd_jobs both_registered)
   \<and> map r_scheduling_status (runs (sd_store both_registered)) = [Some ''active'', Some ''waiting'']"
  using one_run_per_directory [OF both_history [OF both_rows(1,2)] undisturbed0] both_registered_rows(2)
  by (simp add: registry0_def)

text \<open>C34. The limit on timers holds as long as admissions do not cross: in every history of registrations,
  admissions, reconciliations and teardowns that starts without jobs and in which nothing happens while an
  admission waits, the registry never holds more jobs than \<^verbatim>\<open>TAMANDUA_MAX_ACTIVE_TIMERS\<close>, when no workflow has
  more agents than the steps of its runs name.\<close>

theorem timers_within_limit:
  assumes "(registry_step agents_have_steps h)\<^sup>*\<^sup>* sd sd'" "undisturbed h" "sd_jobs sd = []"
  shows "length (sd_jobs sd') \<le> getMaxActiveTimers h"
  using timer_limit.history_keeps [OF assms(1,2)] assms(3) by (simp add: within_limit_def)

theorem timers_within_limit_witness:
  "length (sd_jobs both_registered) \<le> getMaxActiveTimers admit_host0 \<and> sd_jobs both_registered \<noteq> []"
  using timers_within_limit [OF both_history [OF both_rows(3,4)] undisturbed0] both_registered_rows(1)
  by (auto simp: registry0_def)

text \<open>C35. A run whose sandbox is still in preparation is never given jobs: whatever is registered, admitted,
  reconciled or torn down, its intent recorded and its policy missing keep it from being scheduled natively.
  (The registry starts without jobs, and nothing happens while an admission waits.)\<close>

theorem preparing_run_has_no_jobs:
  assumes "(registry_step (held_back runId) h)\<^sup>*\<^sup>* sd sd'" "undisturbed h" "sd_jobs sd = []"
  shows "run_jobs runId sd' = []"
  using preparing.history_keeps [OF assms(1,2)] assms(3)
  by (simp add: jobless_def run_jobs_def filter_empty_conv list_all_iff split_beta)

definition prepared_registry :: scheduler where
  "prepared_registry = registry0\<lparr>sd_store :=
     two_runs\<lparr>runs := map (\<lambda>r. if r_id r = ''q'' then r\<lparr>r_isolation_intent := Some ''true''\<rparr> else r) (runs two_runs)\<rparr>\<rparr>"

theorem preparing_run_has_no_jobs_witness:
  "run_jobs ''q'' (fst (handleRegisterRun admit_host0 [] ''q'' prepared_registry)) = []
   \<and> map r_scheduling_status (runs (sd_store (fst (handleRegisterRun admit_host0 [] ''q'' prepared_registry))))
     = [None, Some ''preparing'']"
proof -
  have "rows_ok (held_back ''q'') admit_host0 prepared_registry"
    by code_simp
  then have "(registry_step (held_back ''q'') admit_host0)\<^sup>*\<^sup>* prepared_registry
      (fst (handleRegisterRun admit_host0 [] ''q'' prepared_registry))"
    by (intro r_into_rtranclp registry_step.register)
  from preparing_run_has_no_jobs [OF this undisturbed0] have "run_jobs ''q'' (fst (handleRegisterRun admit_host0 [] ''q'' prepared_registry)) = []"
    by (simp add: prepared_registry_def registry0_def)
  moreover have "map r_scheduling_status (runs (sd_store (fst (handleRegisterRun admit_host0 [] ''q'' prepared_registry))))
     = [None, Some ''preparing'']" by code_simp
  ultimately show ?thesis ..
qed

section \<open>While an admission waits\<close>

text \<open>The check of the directory and the creation of the jobs are apart: a run registered while another waits
  for its workflow file gets jobs in the same directory, although both refuse to share it.\<close>

definition crossing_host :: admit_host where
  "crossing_host = admit_host0\<lparr>ah_loading := (\<lambda>sd. fst (handleRegisterRun admit_host0 [] ''q'' sd))\<rparr>"

definition refusing_registry :: scheduler where
  "refusing_registry = registry0\<lparr>sd_store :=
     two_runs\<lparr>runs := map (\<lambda>r. r\<lparr>r_context := CtxObj [''working_directory_for_harness'' \<mapsto> ''/repo'']\<rparr>) (runs two_runs)\<rparr>\<rparr>"

lemma crossing_registrations_share:
  "\<not> exclusive admit_host0 (sd_jobs (fst (handleRegisterRun crossing_host [] ''r'' refusing_registry)))
   \<and> rows_ok unshared admit_host0 refusing_registry"
  by code_simp

text \<open>The policy is a key of the context that a reply may set.\<close>

lemma reply_sets_collision_policy:
  "parseOutputKeyValues ''WORKDIR_COLLISION_POLICY: allow'' ''workdir_collision_policy'' = Some ''allow''
   \<and> ''workdir_collision_policy'' \<notin> set RESERVED_CONTEXT_KEYS"
  by code_simp

text \<open>A workflow with more agents than its steps name gets more timers than were counted.\<close>

lemma idle_agents_exceed_limit:
  "length (sd_jobs (fst (handleRegisterRun
     (admit_host0\<lparr>ah_load := (\<lambda>i. Inr [(''planner'', 60), (''idle'', 60)]),
                  ah_env := [''TAMANDUA_MAX_ACTIVE_TIMERS'' \<mapsto> ''1'']\<rparr>) [] ''r'' registry0))) = 2
   \<and> getMaxActiveTimers (admit_host0\<lparr>ah_env := [''TAMANDUA_MAX_ACTIVE_TIMERS'' \<mapsto> ''1'']\<rparr>) = 1"
  by code_simp

end
