(* ===== verification/Launch.thy ===== *)
theory Launch
  imports Admission
begin

text \<open>
  The launch of a run (\<^verbatim>\<open>runWorkflow\<close> in \<^verbatim>\<open>src/src/installer/run.ts\<close>): the context it is seeded with, its row, the
  capture of the base branch or the managed worktree, the policy of its sandbox, its steps, and the
  registration with the daemon.

  The workflow file, git, the file system, the worktree that is created, the resolution of the git identity, the admission
  to the sandbox and the random keys are fields of the host.  \<open>lh_admitting\<close> is what other operations do
  to the store while the sandbox admits the run.
\<close>

section \<open>Parameters\<close>

record spec_step =
  ws_id :: string
  ws_agent :: string
  ws_type :: "step_type option"
  ws_condition :: "string option"
  ws_loop :: "loop_config option"
  ws_input :: string
  ws_expects :: string
  ws_max_retries :: "nat option"

record workflow_spec =
  wf_id :: string
  wf_workspace :: "string option"
  wf_steps :: "spec_step list"

record managed_worktree =
  mw_path :: string
  mw_origin :: string
  mw_ref :: string
  mw_sha :: string
  mw_branch :: "string option"

record git_identity =
  gi_name :: string
  gi_email :: string
  gi_source :: string

record launch_params =
  lp_workflow :: string
  lp_task :: string
  lp_notify :: "string option"
  lp_context :: ctx
  lp_workdir :: "string option"
  lp_origin :: "string option"
  lp_origin_ref :: "string option"
  lp_no_hurry :: bool
  lp_harness :: "string option"
  lp_image :: "string option"
  lp_policy :: "policy option"
  lp_no_relaunch :: bool
  lp_collision :: "collision_policy option"
  lp_parent :: "string option"

text \<open>A git command ends in its trimmed output or in the text of its error.\<close>

record launch_host =
  lh_admit_host :: admit_host
  lh_torn :: "string list"
  lh_run_id :: string
  lh_step_id :: "nat \<Rightarrow> string"
  lh_state_dir :: string
  lh_workflow :: "string \<Rightarrow> string + workflow_spec"
  lh_git :: "string list \<Rightarrow> string \<Rightarrow> string + string"
  lh_identity :: "string \<Rightarrow> git_identity"
  lh_worktree :: "string + managed_worktree"
  lh_capability :: "string option"
  lh_admission :: "launch_params \<Rightarrow> string \<Rightarrow> string + policy"
  lh_admitting :: "store \<Rightarrow> store"
  lh_daemon :: "string option"
  lh_answers :: bool

text \<open>How a launch ends early: with an error that fails the row, or with a conflict that leaves it alone.\<close>

datatype launch_error = LaunchFailed string | LaunchConflict string

fun launch_error_text :: "launch_error \<Rightarrow> string" where
  "launch_error_text (LaunchFailed e) = e"
| "launch_error_text (LaunchConflict e) = e"

record launched =
  la_run :: string
  la_number :: nat
  la_status :: string
  la_refused :: "string option"
  la_daemon_warning :: "string option"
  la_behind :: "string option"

section \<open>The seed of the context\<close>

definition collision_text :: "collision_policy \<Rightarrow> string" where
  "collision_text p = (case p of Refuse \<Rightarrow> ''refuse'' | Queue \<Rightarrow> ''queue'' | Allow \<Rightarrow> ''allow'')"

definition bool_text :: "bool \<Rightarrow> string" where
  "bool_text b = (if b then ''true'' else ''false'')"

definition opted_in :: "launch_params \<Rightarrow> bool" where
  "opted_in p \<longleftrightarrow> (case lp_image p of None \<Rightarrow> False | Some i \<Rightarrow> i \<noteq> []) \<or> lp_policy p \<noteq> None"

text \<open>\<open>initialRunIsolationState\<close>: what a run in preparation starts with, and a native one.\<close>

definition initial_status :: "bool \<Rightarrow> string" where
  "initial_status optedIn = (if optedIn then ''draining_pause'' else ''pending_register'')"

definition isolationIntentValue :: "bool \<Rightarrow> string option" where
  "isolationIntentValue optedIn = (if optedIn then Some ''true'' else None)"

definition seed_context :: "launch_params \<Rightarrow> string \<Rightarrow> ctx" where
  "seed_context p workspaceMode =
     (let m = ([''task'' \<mapsto> lp_task p] ++ lp_context p)
                (''workspace_mode'' \<mapsto> workspaceMode,
                 ''no_hurry_save_tokens_mode'' \<mapsto> bool_text (lp_no_hurry p),
                 ''harness_type'' \<mapsto> (case lp_harness p of None \<Rightarrow> ''pi'' | Some t \<Rightarrow> t),
                 ''no_relaunch_upon_rugpull'' \<mapsto> bool_text (lp_no_relaunch p));
          m1 = (case lp_collision p of
                  None \<Rightarrow> m
                | Some c \<Rightarrow> if c = Refuse then m else m(''workdir_collision_policy'' \<mapsto> collision_text c))
      in if opted_in p then m1(''pause_drain'' \<mapsto> ''true'') else m1)"

definition gitIdentityContextPatch :: "git_identity \<Rightarrow> ctx" where
  "gitIdentityContextPatch g =
     [''git_identity_name'' \<mapsto> gi_name g, ''git_identity_email'' \<mapsto> gi_email g,
      ''git_identity_source'' \<mapsto> gi_source g]"

section \<open>The base of a direct run\<close>

definition isGitRepositoryForHarness :: "launch_host \<Rightarrow> string \<Rightarrow> bool" where
  "isGitRepositoryForHarness h dir \<longleftrightarrow> lh_git h [''rev-parse'', ''--is-inside-work-tree''] dir = Inr ''true''"

definition git_or_empty :: "launch_host \<Rightarrow> string list \<Rightarrow> string \<Rightarrow> string" where
  "git_or_empty h args dir = (case lh_git h args dir of Inl e \<Rightarrow> [] | Inr out \<Rightarrow> out)"

definition git_error_text :: "string \<Rightarrow> string" where
  "git_error_text e = (if e = [] then ''git command failed'' else e)"

definition tree_of :: "launch_host \<Rightarrow> string \<Rightarrow> string \<Rightarrow> string" where
  "tree_of h dir sha = git_or_empty h [''rev-parse'', sha @ ''^{tree}''] dir"

text \<open>The branch, the commit and the tree at the tip, empty where git does not tell.\<close>

definition capture_base :: "launch_host \<Rightarrow> launch_params \<Rightarrow> string \<Rightarrow> ctx \<Rightarrow> store \<Rightarrow> ctx \<times> store" where
  "capture_base h p dir m w =
     (if \<not> isGitRepositoryForHarness h dir
      then (m(''original_branch'' \<mapsto> [], ''base_branch_sha'' \<mapsto> [], ''tested_tree'' \<mapsto> []),
            emit ''run.base_capture_skipped'' (lh_run_id h)
              [(''workflowId'', VStr (lp_workflow p)), (''reason'', VStr ''not_a_git_repository''),
               (''detail'', VStr (''Base capture skipped: '' @ dir
                  @ '' is not a git repository (reason: not_a_git_repository)''))] w)
      else
        (let (branch, w1) =
               (case lh_git h [''rev-parse'', ''--abbrev-ref'', ''HEAD''] dir of
                  Inr b \<Rightarrow> (if b = ''HEAD'' then [] else b, w)
                | Inl e \<Rightarrow>
                    ([], emit ''run.base_capture_failed'' (lh_run_id h)
                           [(''workflowId'', VStr (lp_workflow p)),
                            (''detail'', VStr (''original_branch: git rev-parse --abbrev-ref HEAD - ''
                               @ git_error_text e))] w));
             sha = git_or_empty h [''rev-parse'', ''HEAD''] dir
         in (m(''original_branch'' \<mapsto> branch, ''base_branch_sha'' \<mapsto> sha,
               ''tested_tree'' \<mapsto> (if sha = [] then [] else tree_of h dir sha)), w1)))"

text \<open>The workspace of the dispatcher workflow is a directory of its own.\<close>

definition direct_workdir :: "launch_host \<Rightarrow> launch_params \<Rightarrow> ctx \<Rightarrow> store \<Rightarrow> string \<times> ctx \<times> store" where
  "direct_workdir h p m w =
     (let cwd = ah_cwd (lh_admit_host h);
          dir = path_resolve cwd (case lp_workdir p of None \<Rightarrow> cwd | Some d \<Rightarrow> d)
      in if lp_workflow p = ''just-do-it''
         then (let dispatcher = path_resolve cwd (lh_state_dir h @ ''/just-do-it-workspaces/'' @ lh_run_id h)
               in (dispatcher,
                   m(''target_working_directory_for_harness'' \<mapsto> dir, ''repo'' \<mapsto> dir,
                     ''working_directory_for_harness'' \<mapsto> dispatcher), call (MakeDir dispatcher) w))
         else (dir, m(''repo'' \<mapsto> dir, ''working_directory_for_harness'' \<mapsto> dir), w))"

section \<open>The row\<close>

definition next_run_number :: "store \<Rightarrow> nat" where
  "next_run_number w = Suc (fold max (map r_run_number (runs w)) 0)"

definition run_row :: "launch_host \<Rightarrow> launch_params \<Rightarrow> ctx \<Rightarrow> store \<Rightarrow> run" where
  "run_row h p m w =
     \<lparr>r_id = lh_run_id h, r_run_number = next_run_number w, r_workflow_id = lp_workflow p, r_task = lp_task p,
      r_notify_url = lp_notify p, r_status = RRunning, r_context = CtxObj m, r_tokens_spent = 0,
      r_scheduling_status = Some (initial_status (opted_in p)), r_scheduling_error = None,
      r_scheduling_requested_at = Some (now w), r_isolation_intent = isolationIntentValue (opted_in p),
      r_matchlock_policy = PolNull, r_worker_lost_count = 0, r_ceiling_expiry_count = 0,
      r_instant_fail_count = 0, r_test_cmd_established = None, r_test_cmd_source = None,
      r_created_at = Some (now w), r_updated_at = Some (now w)\<rparr>"

definition insert_run :: "launch_host \<Rightarrow> launch_params \<Rightarrow> ctx \<Rightarrow> store \<Rightarrow> store" where
  "insert_run h p m w = w\<lparr>runs := runs w @ [run_row h p m w]\<rparr>"

text \<open>A workspace: the store, whether the row is in it, and the directory and context, or the error.\<close>

type_synonym opened = "store \<times> bool \<times> (launch_error + string \<times> ctx)"

definition check_workdir :: "launch_host \<Rightarrow> string \<Rightarrow> string option" where
  "check_workdir h dir =
     (case ah_stat (lh_admit_host h) dir of
        StatMissing \<Rightarrow> Some (''working-directory-for-harness does not exist: '' @ dir)
      | StatError e \<Rightarrow> Some e
      | StatFile \<Rightarrow> Some (''working-directory-for-harness must be a directory: '' @ dir)
      | StatDir \<Rightarrow> None)"

definition set_text :: "string option \<Rightarrow> bool" where
  "set_text v \<longleftrightarrow> (case v of None \<Rightarrow> False | Some s \<Rightarrow> s \<noteq> [])"

definition open_direct :: "launch_host \<Rightarrow> launch_params \<Rightarrow> ctx \<Rightarrow> store \<Rightarrow> opened" where
  "open_direct h p m w =
     (if set_text (lp_origin p)
      then (w, False, Inl (LaunchFailed ''--worktree-origin-repository is only valid for workflows with run.workspace: worktree''))
      else if set_text (lp_origin_ref p)
      then (w, False, Inl (LaunchFailed ''--worktree-origin-ref is only valid for workflows with run.workspace: worktree''))
      else
        (let (dir, m1, w1) = direct_workdir h p m w;
             (m2, w2) = capture_base h p dir (m1 ++ gitIdentityContextPatch (lh_identity h dir)) w1
         in case check_workdir h dir of
              Some e \<Rightarrow> (w2, False, Inl (LaunchFailed e))
            | None \<Rightarrow> (insert_run h p m2 w2, True, Inr (dir, m2))))"

definition worktree_patch :: "launch_host \<Rightarrow> launch_params \<Rightarrow> managed_worktree \<Rightarrow> ctx" where
  "worktree_patch h p mw =
     [''working_directory_for_harness'' \<mapsto> mw_path mw, ''repo'' \<mapsto> mw_path mw, ''worktree_path'' \<mapsto> mw_path mw,
      ''worktree_origin_repository'' \<mapsto> mw_origin mw, ''worktree_origin_ref'' \<mapsto> mw_ref mw,
      ''worktree_origin_sha'' \<mapsto> mw_sha mw,
      ''original_branch'' \<mapsto> (case lp_origin_ref p of Some b \<Rightarrow> b
                               | None \<Rightarrow> (case mw_branch mw of None \<Rightarrow> [] | Some b \<Rightarrow> b)),
      ''base_branch_sha'' \<mapsto> mw_sha mw, ''tested_tree'' \<mapsto> tree_of h (mw_origin mw) (mw_sha mw)]
     ++ gitIdentityContextPatch (lh_identity h (mw_path mw))"

text \<open>\<^verbatim>\<open>json_patch\<close> on the context of the row, which leaves \<^verbatim>\<open>updated_at\<close> alone.\<close>

definition patch_context :: "string \<Rightarrow> ctx \<Rightarrow> store \<Rightarrow> store" where
  "patch_context runId patch w =
     upd_run runId (\<lambda>r. case r_context r of CtxObj m \<Rightarrow> r\<lparr>r_context := CtxObj (m ++ patch)\<rparr>
                                         | CtxCorrupt text \<Rightarrow> r) w"

definition open_worktree :: "launch_host \<Rightarrow> launch_params \<Rightarrow> ctx \<Rightarrow> store \<Rightarrow> opened" where
  "open_worktree h p m w =
     (if set_text (lp_workdir p)
      then (w, False, Inl (LaunchFailed ''--working-directory-for-harness is not valid for workflows with run.workspace: worktree. Use --worktree-origin-repository and --worktree-origin-ref instead.''))
      else
        (let cwd = ah_cwd (lh_admit_host h);
             m1 = m(''worktree_origin_repository'' \<mapsto>
                      path_resolve cwd (case lp_origin p of None \<Rightarrow> cwd | Some d \<Rightarrow> d));
             m2 = (if set_text (lp_origin_ref p)
                   then m1(''worktree_origin_ref'' \<mapsto> the (lp_origin_ref p)) else m1);
             w1 = insert_run h p m2 w
         in case lh_worktree h of
              Inl e \<Rightarrow> (w1, True, Inl (LaunchFailed (''Failed to create managed worktree for run: '' @ e)))
            | Inr mw \<Rightarrow>
                (let patch = worktree_patch h p mw
                 in (patch_context (lh_run_id h) patch w1, True, Inr (mw_path mw, m2 ++ patch)))))"

definition open_workspace :: "launch_host \<Rightarrow> launch_params \<Rightarrow> string \<Rightarrow> store \<Rightarrow> opened" where
  "open_workspace h p workspaceMode w =
     (let m = seed_context p workspaceMode
      in if workspaceMode = ''direct'' then open_direct h p m w
         else if workspaceMode = ''worktree'' then open_worktree h p m w
         else (w, False, Inl (LaunchFailed (''Invalid run.workspace value: '' @ dquoted workspaceMode @ ''. Expected ''
                                            @ dquoted ''direct'' @ '' or '' @ dquoted ''worktree'' @ ''.''))))"

section \<open>The sandbox\<close>

definition ctx_has :: "ctx_col \<Rightarrow> string \<Rightarrow> string option" where
  "ctx_has c k = (case c of CtxObj m \<Rightarrow> m k | CtxCorrupt text \<Rightarrow> None)"

definition readable :: "ctx_col \<Rightarrow> bool" where
  "readable c \<longleftrightarrow> (case c of CtxObj m \<Rightarrow> True | CtxCorrupt text \<Rightarrow> False)"

definition drop_ctx :: "string \<Rightarrow> ctx_col \<Rightarrow> ctx_col" where
  "drop_ctx k c = (case c of CtxObj m \<Rightarrow> CtxObj (m(k := None)) | CtxCorrupt text \<Rightarrow> c)"

text \<open>The row a policy may be written to: still in preparation, and not paused meanwhile.\<close>

definition awaits_policy :: "run \<Rightarrow> bool" where
  "awaits_policy r \<longleftrightarrow>
     r_isolation_intent r = Some ''true'' \<and> r_matchlock_policy r = PolNull \<and> r_status r = RRunning
     \<and> r_scheduling_status r \<in> {Some ''draining_pause'', Some ''preparing''}
     \<and> ctx_has (r_context r) ''pause_drain'' = Some ''true'' \<and> ctx_has (r_context r) ''paused_by'' = None"

definition write_policy :: "string \<Rightarrow> policy \<Rightarrow> store \<Rightarrow> store option" where
  "write_policy runId pol w =
     (case find_run runId w of
        None \<Rightarrow> None
      | Some r \<Rightarrow>
          if awaits_policy r
          then Some (set_run runId
                 (\<lambda>q. q\<lparr>r_matchlock_policy := PolPinned pol, r_scheduling_status := Some ''pending_register'',
                        r_scheduling_requested_at := Some (now w), r_scheduling_error := None,
                        r_context := drop_ctx ''pause_drain'' (r_context q)\<rparr>) w)
          else None)"

definition admission_conflict_text :: string where
  "admission_conflict_text =
     ''Matchlock admission could not persist the pinned policy: the run row changed concurrently during admission (refusing to treat an unpersisted admission as a runnable launch).''"

definition admit_sandbox :: "launch_host \<Rightarrow> launch_params \<Rightarrow> string \<Rightarrow> store \<Rightarrow> store \<times> (launch_error + unit)" where
  "admit_sandbox h p dir w =
     (if \<not> opted_in p then (w, Inr ())
      else if lp_policy p = None \<and> (case lp_image p of None \<Rightarrow> True | Some i \<Rightarrow> trim i = [])
      then (w, Inl (LaunchFailed ''Matchlock run requires a requested image; inherited policy or --matchlock is empty.''))
      else (case lh_admission h p dir of
              Inl e \<Rightarrow> (lh_admitting h w, Inl (LaunchFailed e))
            | Inr pol \<Rightarrow>
                (case write_policy (lh_run_id h) pol (lh_admitting h w) of
                   None \<Rightarrow> (lh_admitting h w, Inl (LaunchConflict admission_conflict_text))
                 | Some w1 \<Rightarrow> (w1, Inr ()))))"

section \<open>Steps\<close>

definition step_row :: "launch_host \<Rightarrow> workflow_spec \<Rightarrow> nat \<Rightarrow> spec_step \<Rightarrow> store \<Rightarrow> step" where
  "step_row h spec i s w =
     \<lparr>s_id = lh_step_id h i, s_run_id = lh_run_id h, s_step_id = ws_id s,
      s_agent_id = full_agent_id (wf_id spec) (ws_agent s), s_step_index = i, s_input_template = ws_input s,
      s_expects = ws_expects s, s_status = SWaiting, s_output = None, s_retry_count = 0,
      s_max_retries = (case ws_max_retries s of None \<Rightarrow> 4 | Some n \<Rightarrow> n),
      s_type = (case ws_type s of None \<Rightarrow> TySingle | Some ty \<Rightarrow> ty),
      s_loop_config = (case ws_loop s of None \<Rightarrow> LcNull | Some lc \<Rightarrow> LcConfig lc), s_current_story_id = None,
      s_abandoned_count = 0, s_updated_at = Some (now w), s_claim_job_id = None, s_claim_pid = None,
      s_claim_pgid = None, s_claim_updated_at = None, s_claim_invalidated_by = None, s_reroute_count = 0,
      s_terminal_reroute_count = 0, s_target_moved_reroute_count = 0, s_ledger_concession_count = 0,
      s_preclaim_death_count = 0,
      s_conditional_condition = (if ws_type s = Some TyConditional then ws_condition s else None),
      s_auto_completed = False, s_auto_complete_reason = None\<rparr>"

definition insert_steps :: "launch_host \<Rightarrow> workflow_spec \<Rightarrow> store \<Rightarrow> store" where
  "insert_steps h spec w =
     w\<lparr>steps := steps w @ map (\<lambda>(i, s). step_row h spec i s w) (List.enumerate 0 (wf_steps spec))\<rparr>"

text \<open>The test command the launch declares, in the words of the context.\<close>

definition launch_test_cmd :: "ctx \<Rightarrow> string option" where
  "launch_test_cmd m =
     (let c = (case m ''test_cmd'' of Some x \<Rightarrow> Some x | None \<Rightarrow> m ''test_cmd_raw'')
      in case c of None \<Rightarrow> None | Some x \<Rightarrow> if trim x = [] then None else Some x)"

definition establish_test_cmd :: "string \<Rightarrow> ctx \<Rightarrow> store \<Rightarrow> store" where
  "establish_test_cmd runId m w =
     (case launch_test_cmd m of
        None \<Rightarrow> w
      | Some c \<Rightarrow> upd_run runId (\<lambda>r. r\<lparr>r_test_cmd_established := Some c, r_test_cmd_source := Some ''launch''\<rparr>) w)"

definition recapture_base :: "launch_host \<Rightarrow> launch_params \<Rightarrow> string \<Rightarrow> string \<Rightarrow> store \<Rightarrow> store" where
  "recapture_base h p workspaceMode dir w =
     (if workspaceMode = ''worktree'' \<or> \<not> isGitRepositoryForHarness h dir then w
      else (case lh_git h [''rev-parse'', ''HEAD''] dir of
              Inr sha \<Rightarrow> w
            | Inl e \<Rightarrow>
                emit ''run.base_capture_failed'' (lh_run_id h)
                  [(''workflowId'', VStr (lp_workflow p)),
                   (''detail'', VStr (''base_branch_sha: git rev-parse HEAD - '' @ git_error_text e))] w))"

definition start_steps :: "launch_host \<Rightarrow> launch_params \<Rightarrow> workflow_spec \<Rightarrow> string \<Rightarrow> ctx \<Rightarrow> nat \<Rightarrow> store \<Rightarrow> store" where
  "start_steps h p spec dir m number w =
     (let g = lh_identity h dir
      in fst (advancePipeline (lh_run_id h)
           (emit ''run.started'' (lh_run_id h)
              ([(''workflowId'', VStr (lp_workflow p))] @ opt_str ''parentRunId'' (lp_parent p)
               @ [(''gitIdentity'', VList [gi_name g, gi_email g, gi_source g]),
                  (''detail'', VStr (''Run #'' @ nat_str number @ '': '' @ lp_task p))])
              (insert_steps h spec w))))"

section \<open>A launch that fails\<close>

text \<open>\<^verbatim>\<open>json_set\<close> of the error, on a run that is still running and that nobody paused.\<close>

definition fail_launch_row :: "string \<Rightarrow> string option \<Rightarrow> string \<Rightarrow> store \<Rightarrow> store option" where
  "fail_launch_row runId status message w =
     (case find_run runId w of
        None \<Rightarrow> None
      | Some r \<Rightarrow>
          if r_status r = RRunning \<and> readable (r_context r) \<and> ctx_has (r_context r) ''paused_by'' = None
          then Some (set_run runId
                 (\<lambda>q. q\<lparr>r_status := RFailed,
                        r_context := (case r_context q of CtxObj m \<Rightarrow> CtxObj (m(''launch_error'' \<mapsto> message))
                                                        | CtxCorrupt text \<Rightarrow> CtxCorrupt text),
                        r_scheduling_status := status, r_scheduling_requested_at := None,
                        r_scheduling_error := Some message\<rparr>) w)
          else None)"

definition failPersistedRunLaunch :: "string \<Rightarrow> string \<Rightarrow> string \<Rightarrow> store \<Rightarrow> store" where
  "failPersistedRunLaunch runId workflowId message w =
     (case fail_launch_row runId None message w of
        None \<Rightarrow> w
      | Some w1 \<Rightarrow>
          emit ''run.failed'' runId
            [(''workflowId'', VStr workflowId), (''detail'', VStr (''Launch setup failed: '' @ message))] w1)"

definition failRefusedRunLaunch :: "string \<Rightarrow> string \<Rightarrow> string \<Rightarrow> store \<Rightarrow> store" where
  "failRefusedRunLaunch runId workflowId message w =
     (case fail_launch_row runId (Some ''error'') message w of
        None \<Rightarrow> w
      | Some w1 \<Rightarrow>
          emit ''run.failed'' runId
            [(''workflowId'', VStr workflowId), (''detail'', VStr (''Workdir collision refused: '' @ message))] w1)"

section \<open>The launch\<close>

text \<open>What is done under the \<^verbatim>\<open>try\<close>: the workspace, the sandbox, the test command, the steps.\<close>

definition prepare_run ::
    "launch_host \<Rightarrow> launch_params \<Rightarrow> workflow_spec \<Rightarrow> store \<Rightarrow> store \<times> bool \<times> (launch_error + nat)" where
  "prepare_run h p spec w =
     (let workspaceMode = (case wf_workspace spec of None \<Rightarrow> ''direct'' | Some m \<Rightarrow> m);
          number = next_run_number w;
          (w1, persisted, res) = open_workspace h p workspaceMode w
      in case res of
           Inl e \<Rightarrow> (w1, persisted, Inl e)
         | Inr (dir, m) \<Rightarrow>
             (case admit_sandbox h p dir w1 of
                (w2, Inl e) \<Rightarrow> (w2, persisted, Inl e)
              | (w2, Inr u) \<Rightarrow>
                  (start_steps h p spec dir m number
                     (recapture_base h p workspaceMode dir (establish_test_cmd (lh_run_id h) m w2)),
                   persisted, Inr number)))"

definition prepare_or_fail ::
    "launch_host \<Rightarrow> launch_params \<Rightarrow> workflow_spec \<Rightarrow> store \<Rightarrow> store \<times> (string + nat)" where
  "prepare_or_fail h p spec w =
     (case prepare_run h p spec w of
        (w1, persisted, Inr n) \<Rightarrow> (w1, Inr n)
      | (w1, persisted, Inl (LaunchConflict e)) \<Rightarrow> (w1, Inl e)
      | (w1, persisted, Inl (LaunchFailed e)) \<Rightarrow>
          (if persisted then failPersistedRunLaunch (lh_run_id h) (lp_workflow p) e w1 else w1, Inl e))"

text \<open>The error of a refused registration, as the daemon words it.\<close>

fun reply_error :: "register_reply \<Rightarrow> string" where
  "reply_error (RunNotFound i) = ''Run not found: '' @ i"
| "reply_error (RunIsTerminal st) = ''Run is terminal: '' @ run_status_text st"
| "reply_error TeardownInProgress = ''run teardown in progress, retry''"
| "reply_error (WorkdirRefused msg ho dir) = msg"
| "reply_error (Unprocessable msg) = msg"
| "reply_error r = ''daemon registration failed''"

definition registration_failed :: "launch_host \<Rightarrow> launch_params \<Rightarrow> string \<Rightarrow> store \<Rightarrow> store" where
  "registration_failed h p message w =
     scheduleRunCronTeardown (lh_run_id h)
       (emit ''run.failed'' (lh_run_id h)
          [(''workflowId'', VStr (lp_workflow p)), (''detail'', VStr (''Registration failed: '' @ message))]
          (set_run (lh_run_id h) (\<lambda>r. r\<lparr>r_status := RFailed, r_scheduling_status := None,
                                       r_scheduling_error := Some message\<rparr>) w))"

definition register_text :: "string \<Rightarrow> string" where
  "register_text message = ''Failed to register run with daemon: '' @ message"

text \<open>The registration of the new run; without an answer the run fails like one that is refused.\<close>

definition register_launched ::
    "launch_host \<Rightarrow> launch_params \<Rightarrow> launched \<Rightarrow> scheduler \<Rightarrow> scheduler \<times> (string + launched)" where
  "register_launched h p la sd =
     (let (sd1, rep) = handleRegisterRun (lh_admit_host h) (lh_torn h) (lh_run_id h) sd
      in if \<not> lh_answers h
         then (on_store (registration_failed h p ''daemon registration failed'') sd1,
               Inl (register_text ''daemon registration failed''))
         else (case rep of
                 WorkdirRefused msg ho dir \<Rightarrow>
                   (on_store (failRefusedRunLaunch (lh_run_id h) (lp_workflow p) msg) sd1,
                    Inr (la\<lparr>la_status := ''failed'', la_refused := Some msg\<rparr>))
               | WorkdirWaiting other dir \<Rightarrow>
                   (on_store (call NudgeDispatch) sd1, Inr (la\<lparr>la_behind := (if other = [] then None else Some other)\<rparr>))
               | _ \<Rightarrow>
                   if 200 \<le> reply_code rep \<and> reply_code rep < 300
                   then (on_store (call NudgeDispatch) sd1, Inr la)
                   else (on_store (registration_failed h p (reply_error rep)) sd1,
                         Inl (register_text (reply_error rep)))))"

definition runWorkflow :: "launch_host \<Rightarrow> launch_params \<Rightarrow> scheduler \<Rightarrow> scheduler \<times> (string + launched)" where
  "runWorkflow h p sd =
     (case lh_workflow h (lp_workflow p) of
        Inl e \<Rightarrow> (sd, Inl e)
      | Inr spec \<Rightarrow>
          (case (if opted_in p then lh_capability h else None) of
             Some e \<Rightarrow> (sd, Inl e)
           | None \<Rightarrow>
               (let (w, res) = prepare_or_fail h p spec (sd_store sd); sd1 = sd\<lparr>sd_store := w\<rparr>
                in case res of
                     Inl e \<Rightarrow> (sd1, Inl e)
                   | Inr n \<Rightarrow>
                       (let la = \<lparr>la_run = lh_run_id h, la_number = n, la_status = ''running'', la_refused = None,
                                  la_daemon_warning = lh_daemon h, la_behind = None\<rparr>
                        in if lh_daemon h = None then register_launched h p la sd1 else (sd1, Inr la)))))"

end
