(* ===== verification/Rugpull.thy ===== *)
theory Rugpull
  imports Launch
begin

text \<open>
  A merge run whose base branch moved while it worked (\<^verbatim>\<open>src/src/installer/rugpull.ts\<close>): how it is told from other
  failures, and the replacement run that is launched for it.  The check runs after a failure is written, as the
  effect \<open>CheckRugpull\<close> of the failing step asks.
\<close>

section \<open>Detection\<close>

definition merge_workflow :: "string \<Rightarrow> bool" where
  "merge_workflow wid \<longleftrightarrow> ends_with ''-merge'' wid \<or> ends_with ''-merge-worktree'' wid"

definition failed_merge :: "string \<Rightarrow> store \<Rightarrow> bool" where
  "failed_merge runId w \<longleftrightarrow>
     list_ex (\<lambda>s. s_step_id s = ''finalize_merge'' \<and> s_status s = SFailed) (run_steps runId w)"

text \<open>\<^verbatim>\<open>a || b\<close> on texts of the context.\<close>

definition or_else :: "string \<Rightarrow> string \<Rightarrow> string" where
  "or_else a b = (if a = [] then b else a)"

text \<open>The repository and the reference whose tip is compared, or why there is none.\<close>

definition base_place :: "launch_host \<Rightarrow> string \<Rightarrow> ctx \<Rightarrow> string + string \<times> string" where
  "base_place h runId m =
     (if m ''workspace_mode'' = Some ''worktree''
      then (case ah_worktrees (lh_admit_host h) runId of
              None \<Rightarrow> Inl ''Worktree record not found''
            | Some wt \<Rightarrow> Inr (wt_origin wt, or_else (get_or_empty m ''worktree_origin_ref'') ''HEAD''))
      else (let repo = or_else (get_or_empty m ''repo'') (get_or_empty m ''working_directory_for_harness'')
            in if repo = [] then Inl ''No repository path available in run context''
               else Inr (repo, or_else (get_or_empty m ''original_branch'') ''HEAD'')))"

definition current_tip :: "launch_host \<Rightarrow> string \<Rightarrow> ctx \<Rightarrow> string + string \<times> string" where
  "current_tip h runId m =
     (case base_place h runId m of
        Inl e \<Rightarrow> Inl e
      | Inr (dir, ref) \<Rightarrow>
          (case lh_git h [''rev-parse'', ref] dir of
             Inr sha \<Rightarrow> Inr (dir, sha)
           | Inl e \<Rightarrow> Inl (''Failed to resolve ref '' @ dquoted ref
                @ (if m ''workspace_mode'' = Some ''worktree'' then '' in origin repository''
                   else '' in working directory''))))"

text \<open>Its own merge has landed when the tip carries the tree the run tested.\<close>

definition own_merge_landed :: "launch_host \<Rightarrow> string \<Rightarrow> string \<Rightarrow> ctx \<Rightarrow> bool" where
  "own_merge_landed h dir sha m \<longleftrightarrow>
     get_or_empty m ''tested_tree'' \<noteq> []
     \<and> lh_git h [''rev-parse'', sha @ ''^{tree}''] dir = Inr (get_or_empty m ''tested_tree'')"

definition moved_text :: "string \<Rightarrow> string \<Rightarrow> string" where
  "moved_text base sha = ''Base branch moved from '' @ take 7 base @ '' to '' @ take 7 sha"

definition detectRugpull :: "launch_host \<Rightarrow> string \<Rightarrow> store \<Rightarrow> store \<times> bool \<times> string" where
  "detectRugpull h runId w =
     (case find_run runId w of
        None \<Rightarrow> (w, False, ''Run not found'')
      | Some r \<Rightarrow>
          if \<not> merge_workflow (r_workflow_id r)
          then (w, False, ''Workflow '' @ dquoted (r_workflow_id r) @ '' is not a merge workflow'')
          else if \<not> failed_merge runId w then (w, False, ''No failed finalize_merge step found'')
          else
            (let (m, w1) = parseRunContext runId (r_context r) w; base = get_or_empty m ''base_branch_sha''
             in if base = [] then (w1, False, ''Missing base_branch_sha in run context'')
                else (case current_tip h runId m of
                        Inl e \<Rightarrow> (w1, False, e)
                      | Inr (dir, sha) \<Rightarrow>
                          if base = sha then (w1, False, ''Base branch SHA has not changed since run started'')
                          else if own_merge_landed h dir sha m
                          then (emit ''rugpull.self_merge_detected'' runId
                                  [(''workflowId'', VStr (r_workflow_id r)),
                                   (''detail'', VStr (''Own merge already landed - tested_tree matches current tip tree (base_branch_sha: ''
                                      @ base @ '', currentSha: '' @ sha @ '')''))] w1,
                                False, ''own merge already landed'')
                          else (w1, True, moved_text base sha))))"

section \<open>The replacement\<close>

definition USER_CONTEXT_DENYLIST :: "string list" where
  "USER_CONTEXT_DENYLIST =
     [''task'', ''workspace_mode'', ''base_branch_sha'', ''working_directory_for_harness'', ''harness_type'',
      ''no_hurry_save_tokens_mode'', ''no_relaunch_upon_rugpull'', ''repo'', ''original_branch'',
      ''worktree_path'', ''worktree_origin_repository'', ''worktree_origin_ref'', ''worktree_origin_sha'',
      ''target_working_directory_for_harness'']"

definition extractUserContext :: "ctx \<Rightarrow> ctx" where
  "extractUserContext m =
     (\<lambda>k. if k \<in> set USER_CONTEXT_DENYLIST \<or> starts_with ''worktree_'' k then None else m k)"

definition relaunch_failed :: "run \<Rightarrow> string \<Rightarrow> store \<Rightarrow> store" where
  "relaunch_failed r detail w =
     emit ''run.rugpull_relaunch_failed'' (r_id r)
       [(''workflowId'', VStr (r_workflow_id r)), (''detail'', VStr detail)] w"

definition isolationPreparingHeldText :: string where
  "isolationPreparingHeldText =
     ''the Matchlock isolation intent is recorded but no pinned policy has been persisted yet, so it is held non-schedulable (preparing) and must never run natively. Remedy: retry preparation, or recreate the run with the Matchlock opt-in (--matchlock).''"

text \<open>The sandbox policy the replacement inherits, or why there is no replacement.\<close>

definition inherited_policy :: "run \<Rightarrow> string + policy option" where
  "inherited_policy r =
     (case r_matchlock_policy r of
        PolPinned p \<Rightarrow> Inr (Some p)
      | PolUnusable code reason \<Rightarrow>
          Inl (''Rugpull relaunch not attempted: stored Matchlock policy is not reusable ('' @ code @ ''): '' @ reason
               @ ''. A replacement must never become native; recreate the run with --matchlock.'')
      | PolNull \<Rightarrow>
          if readIsolationIntent r
          then Inl (''Rugpull relaunch not attempted: '' @ isolationPreparingHeldText @ '' (make sure the run''
                    @ [CHR 0x27] @ ''s Matchlock policy is persisted before replacing it).'')
          else Inr None)"

definition replacement_base :: "run \<Rightarrow> ctx \<Rightarrow> policy option \<Rightarrow> launch_params" where
  "replacement_base r m pol =
     \<lparr>lp_workflow = r_workflow_id r, lp_task = r_task r, lp_notify = r_notify_url r,
      lp_context = extractUserContext m, lp_workdir = None, lp_origin = None, lp_origin_ref = None,
      lp_no_hurry = (m ''no_hurry_save_tokens_mode'' = Some ''true''),
      lp_harness = Some (or_else (get_or_empty m ''harness_type'') ''pi''), lp_image = None, lp_policy = pol,
      lp_no_relaunch = False, lp_collision = None, lp_parent = None\<rparr>"

definition replacement_params :: "run \<Rightarrow> ctx \<Rightarrow> policy option \<Rightarrow> string + launch_params" where
  "replacement_params r m pol =
     (if m ''workspace_mode'' = Some ''worktree''
      then (let origin = get_or_empty m ''worktree_origin_repository''; ref = get_or_empty m ''worktree_origin_ref''
            in if origin = []
               then Inl ''Rugpull relaunch not attempted: worktree_origin_repository is missing from run context''
               else Inr ((replacement_base r m pol)\<lparr>lp_origin := Some origin,
                            lp_origin_ref := (if ref = [] then None else Some ref)\<rparr>))
      else (let dir = or_else (get_or_empty m ''working_directory_for_harness'') (get_or_empty m ''repo'')
            in if dir = []
               then Inl ''Rugpull relaunch not attempted: working_directory_for_harness is missing from run context''
               else Inr ((replacement_base r m pol)\<lparr>lp_workdir := Some dir\<rparr>)))"

text \<open>The launch that is asked for, if any, with what is told about it otherwise.\<close>

definition plan_replacement :: "run \<Rightarrow> ctx \<Rightarrow> (store \<Rightarrow> store) + launch_params" where
  "plan_replacement r m =
     (case inherited_policy r of
        Inl e \<Rightarrow> Inl (relaunch_failed r e)
      | Inr pol \<Rightarrow>
          if m ''no_relaunch_upon_rugpull'' = Some ''true''
          then Inl (emit ''run.rugpull_relaunch_suppressed'' (r_id r)
                 [(''workflowId'', VStr (r_workflow_id r)),
                  (''detail'', VStr ''Relaunch suppressed by --no-relaunch-upon-rugpull flag'')])
          else (case replacement_params r m pol of
                  Inl e \<Rightarrow> Inl (relaunch_failed r e)
                | Inr p \<Rightarrow> Inr p))"

definition relaunchRunAfterRugpull ::
    "launch_host \<Rightarrow> string \<Rightarrow> scheduler \<Rightarrow> scheduler \<times> string option" where
  "relaunchRunAfterRugpull h failedRunId sd =
     (case find_run failedRunId (sd_store sd) of
        None \<Rightarrow> (sd, None)
      | Some r \<Rightarrow>
          (let (m, w) = parseRunContext failedRunId (r_context r) (sd_store sd)
           in case plan_replacement r m of
                Inl note \<Rightarrow> (sd\<lparr>sd_store := note w\<rparr>, None)
              | Inr p \<Rightarrow>
                  (case runWorkflow h p (sd\<lparr>sd_store := w\<rparr>) of
                     (sd1, Inl e) \<Rightarrow>
                       (on_store (relaunch_failed r (''Rugpull relaunch failed: Error: '' @ e)) sd1, None)
                   | (sd1, Inr la) \<Rightarrow>
                       (case la_refused la of
                          Some msg \<Rightarrow> (on_store (relaunch_failed r (''Rugpull relaunch refused: '' @ msg)) sd1, None)
                        | None \<Rightarrow>
                            (on_store (emit ''run.rugpull_relaunched'' failedRunId
                               [(''workflowId'', VStr (r_workflow_id r)),
                                (''detail'', VStr (''Rugpull replacement run launched: '' @ la_run la))]) sd1,
                             Some (la_run la))))))"

text \<open>What follows the failure of a step that is not a loop.\<close>

definition check_rugpull :: "launch_host \<Rightarrow> string \<Rightarrow> string option \<Rightarrow> scheduler \<Rightarrow> scheduler" where
  "check_rugpull h runId workflowId sd =
     (let (w, moved, reason) = detectRugpull h runId (sd_store sd); sd1 = sd\<lparr>sd_store := w\<rparr>
      in if moved
         then fst (relaunchRunAfterRugpull h runId
                (on_store (emit ''run.rugpull_detected'' runId
                   (opt_str ''workflowId'' workflowId @ [(''detail'', VStr reason)])) sd1))
         else sd1)"

end
