(* ===== verification/Resume.thy ===== *)
theory Resume
  imports Admission
begin

text \<open>
  Resuming a run (\<^verbatim>\<open>handleResumeRun\<close> in \<^verbatim>\<open>src/src/server/control-server.ts\<close>): the checks of its sandbox and
  harness, the guarded change of its row, the recovery of the steps that were running, the registration, and,
  for a sandboxed run whose registration is refused, the way back.

  The check of the sandbox on this host is a parameter, its answer an error or whether the consent to root
  usage is granted by this resume.  The columns of the harness probe are left out: nothing here changes them.
\<close>

record resume_host =
  rh_admit :: admit_host
  rh_specs :: specs
  rh_preflight :: "policy \<Rightarrow> bool \<Rightarrow> string + bool"
  rh_torn :: "string list"

datatype resume_reply =
  ResumeNotFound string
| ResumeIsTerminal run_status
| ResumeActive
| ResumePreparing
| ResumeRefused string
| ResumeConflict
| ResumeRegistered register_reply bool bool

section \<open>Checks\<close>

definition unusable_text :: "string \<Rightarrow> string \<Rightarrow> string" where
  "unusable_text code reason =
     ''Cannot resume run: matchlock: ISOLATION POLICY UNUSABLE ('' @ code @ ''): '' @ reason @ ''. The run''
     @ [CHR 0x27] @ ''s state was left unchanged; recreate the run with --matchlock (or provision this host with ''
     @ [CHR 0x60] @ ''tamandua matchlock setup'' @ [CHR 0x60] @ '').''"

definition native_override_text :: string where
  "native_override_text =
     ''Cannot resume run: --force-matchlock-usage-as-root-not-recommended-per-matchlock-docs applies only to Matchlock runs, but this run carries no isolation intent and no persisted Matchlock policy (a truly native run). The run''
     @ [CHR 0x27] @ ''s state was left unchanged.''"

text \<open>The answer of the sandbox: an error, or whether consent is granted now.\<close>

definition check_isolation :: "resume_host \<Rightarrow> bool \<Rightarrow> run \<Rightarrow> string + bool" where
  "check_isolation h override r =
     (case r_matchlock_policy r of
        PolUnusable code reason \<Rightarrow> Inl (unusable_text code reason)
      | PolNull \<Rightarrow> if override then Inl native_override_text else Inr False
      | PolPinned p \<Rightarrow>
          (case rh_preflight h p override of
             Inl msg \<Rightarrow> Inl (''Cannot resume run: '' @ msg)
           | Inr granted \<Rightarrow> Inr granted))"

definition withGrantedRootUsageConsent :: "policy_col \<Rightarrow> policy_col" where
  "withGrantedRootUsageConsent pol =
     (case pol of PolPinned p \<Rightarrow> PolPinned (p\<lparr>po_consent := True\<rparr>) | _ \<Rightarrow> pol)"

section \<open>The change of the row\<close>

definition drop_key :: "string \<Rightarrow> ctx \<Rightarrow> ctx" where
  "drop_key k m = m(k := None)"

definition resume_context :: "bool \<Rightarrow> string \<Rightarrow> int \<Rightarrow> ctx_col \<Rightarrow> ctx" where
  "resume_context draining requestedBy t prior =
     (let m = (case prior of CtxObj m \<Rightarrow> m | CtxCorrupt text \<Rightarrow> Map.empty);
          m1 = (if draining then drop_key ''pause_drain'' m else m)
      in m1(''resumed_by'' \<mapsto> requestedBy, ''resumed_at'' \<mapsto> to_iso t))"

text \<open>\<open>r\<close> is the row the checks were made on, the row of the moment is compared with it.\<close>

definition commit_resume :: "run \<Rightarrow> bool \<Rightarrow> bool \<Rightarrow> string \<Rightarrow> store \<Rightarrow> store option" where
  "commit_resume r grant draining requestedBy w =
     (case find_run (r_id r) w of
        None \<Rightarrow> None
      | Some p \<Rightarrow>
          if r_status p = r_status r \<and> r_scheduling_status p = r_scheduling_status r
             \<and> r_matchlock_policy p = r_matchlock_policy r
          then Some (set_run (r_id r)
                 (\<lambda>q. q\<lparr>r_matchlock_policy := (if grant then withGrantedRootUsageConsent (r_matchlock_policy r)
                                              else r_matchlock_policy q),
                        r_status := RRunning, r_scheduling_status := Some ''pending_register'',
                        r_scheduling_requested_at := Some (now w), r_scheduling_error := None,
                        r_context := CtxObj (resume_context draining requestedBy (now w) (r_context p))\<rparr>) w)
          else None)"

section \<open>The steps that were running\<close>

definition running_agents :: "string \<Rightarrow> store \<Rightarrow> string list" where
  "running_agents runId w = once (map s_agent_id (filter (\<lambda>s. s_status s = SRunning) (run_steps runId w)))"

definition recover_running :: "specs \<Rightarrow> string \<Rightarrow> store \<Rightarrow> store" where
  "recover_running specs runId w =
     fold (\<lambda>a w. fst (recoverOrphanedStepsForAgent specs plain_end a runId w)) (running_agents runId w) w"

section \<open>The way back\<close>

text \<open>Three-way choice: what this request moved goes back unless a later writer moved it again.\<close>

definition give_back :: "'a \<Rightarrow> 'a \<Rightarrow> 'a \<Rightarrow> 'a" where
  "give_back prior post current =
     (if prior = post then current else if current = post then prior else current)"

text \<open>The same key by key on contexts; the text of a context that does not parse comes back whole or not at all.\<close>

definition back_keys :: "ctx \<Rightarrow> ctx \<Rightarrow> ctx \<Rightarrow> ctx" where
  "back_keys prior post current = (\<lambda>k. give_back (prior k) (post k) (current k))"

definition inverseControlContext :: "ctx_col \<Rightarrow> ctx_col \<Rightarrow> ctx_col \<Rightarrow> ctx_col" where
  "inverseControlContext prior post current =
     (case (post, current) of
        (CtxObj q, CtxObj c) \<Rightarrow>
          (case prior of
             CtxObj p \<Rightarrow> CtxObj (back_keys p q c)
           | CtxCorrupt text \<Rightarrow> if c = q then prior else CtxObj (back_keys Map.empty q c))
      | (CtxCorrupt u, CtxCorrupt v) \<Rightarrow> if u = v then prior else current
      | _ \<Rightarrow> current)"

text \<open>Its equations on contexts that parse, which need no comparison of whole contexts.\<close>

lemma inverse_context_code [code]:
  "inverseControlContext (CtxObj p) (CtxObj q) (CtxObj c) = CtxObj (back_keys p q c)"
  "inverseControlContext b (CtxObj q) (CtxCorrupt v) = CtxCorrupt v"
  "inverseControlContext b (CtxCorrupt u) (CtxObj c) = CtxObj c"
  "inverseControlContext b (CtxCorrupt u) (CtxCorrupt v) = (if u = v then b else CtxCorrupt v)"
  by (simp_all add: inverseControlContext_def)

definition restore_step :: "string \<Rightarrow> step list \<Rightarrow> step \<Rightarrow> store \<Rightarrow> store" where
  "restore_step runId afters b w =
     (case (List.find (\<lambda>a. s_id a = s_id b) afters, find_step (s_id b) w) of
        (Some a, Some c) \<Rightarrow>
          if s_run_id c \<noteq> runId \<or> s_status c \<noteq> s_status a then w
          else upd_step (s_id b)
                 (\<lambda>u. u\<lparr>s_status := give_back (s_status b) (s_status a) (s_status c),
                        s_retry_count := give_back (s_retry_count b) (s_retry_count a) (s_retry_count c),
                        s_output := give_back (s_output b) (s_output a) (s_output c)\<rparr>) w
      | _ \<Rightarrow> w)"

definition restore_story :: "string \<Rightarrow> story list \<Rightarrow> story \<Rightarrow> store \<Rightarrow> store" where
  "restore_story runId afters b w =
     (case (List.find (\<lambda>a. t_id a = t_id b) afters, find_story (t_id b) w) of
        (Some a, Some c) \<Rightarrow>
          if t_run_id c \<noteq> runId \<or> t_status c \<noteq> t_status a then w
          else upd_story (t_id b)
                 (\<lambda>u. u\<lparr>t_status := give_back (t_status b) (t_status a) (t_status c),
                        t_retry_count := give_back (t_retry_count b) (t_retry_count a) (t_retry_count c),
                        t_output := give_back (t_output b) (t_output a) (t_output c),
                        t_resume_reset_count :=
                          give_back (t_resume_reset_count b) (t_resume_reset_count a) (t_resume_reset_count c)\<rparr>) w
      | _ \<Rightarrow> w)"

text \<open>The row of the run before this request and after it.\<close>

definition restore_run :: "run \<Rightarrow> run \<Rightarrow> store \<Rightarrow> store" where
  "restore_run b a w =
     upd_run (r_id b)
       (\<lambda>c. let over = (r_status c = RCompleted \<or> r_status c = RCanceled)
            in c\<lparr>r_status := (if over then r_status c else r_status b),
                 r_scheduling_status := (if over then r_scheduling_status c else r_scheduling_status b),
                 r_scheduling_requested_at :=
                   (if over then r_scheduling_requested_at c else r_scheduling_requested_at b),
                 r_scheduling_error := (if over then r_scheduling_error c else r_scheduling_error b),
                 r_matchlock_policy :=
                   (if r_matchlock_policy c = r_matchlock_policy a then r_matchlock_policy b
                    else r_matchlock_policy c),
                 r_context := inverseControlContext (r_context b) (r_context a) (r_context c)\<rparr>) w"

text \<open>\<open>v\<close> is the store prior this request changed it, \<open>u\<close> the store when its changes were done, and the token
  is the instant it wrote.\<close>

definition resolveControlResumeWrites :: "string \<Rightarrow> int \<Rightarrow> store \<Rightarrow> store \<Rightarrow> store \<Rightarrow> store" where
  "resolveControlResumeWrites runId token v u w =
     (case (find_run runId v, find_run runId u, find_run runId w) of
        (Some b, Some a, Some c) \<Rightarrow>
          if r_scheduling_requested_at c \<noteq> Some token then w
          else fold (restore_story runId (run_stories runId u)) (run_stories runId v)
                 (fold (restore_step runId (run_steps runId u)) (run_steps runId v) (restore_run b a w))
      | _ \<Rightarrow> w)"

section \<open>Resuming\<close>

definition resume_request_text :: "string \<Rightarrow> string" where
  "resume_request_text requestedBy = ''{\"requestedBy\":'' @ json_quote requestedBy @ ''}''"

definition resume_audit :: "run \<Rightarrow> bool \<Rightarrow> string \<Rightarrow> store \<Rightarrow> store" where
  "resume_audit r cancelledDrain requestedBy w =
     emit ''run.resumed'' (r_id r) [(''workflowId'', VStr (r_workflow_id r))]
       (if cancelledDrain
        then emit ''run.drain_cancelled_by_resume'' (r_id r)
               [(''workflowId'', VStr (r_workflow_id r)), (''detail'', VStr (resume_request_text requestedBy))] w
        else w)"

definition accepted :: "register_reply \<Rightarrow> bool" where
  "accepted rep \<longleftrightarrow> 200 \<le> reply_code rep \<and> reply_code rep < 300"

text \<open>From the commit on: the recovery, the registration, the audit, and the way back.\<close>

definition register_resumed ::
    "resume_host \<Rightarrow> run \<Rightarrow> bool \<Rightarrow> bool \<Rightarrow> string \<Rightarrow> store \<Rightarrow> scheduler \<Rightarrow> scheduler \<times> resume_reply" where
  "register_resumed h r grant cancelledDrain requestedBy w1 sd =
     (let native = (r_matchlock_policy r = PolNull);
          u = recover_running (rh_specs h) (r_id r) w1;
          audit = resume_audit r cancelledDrain requestedBy;
          (sd1, rep) = handleRegisterRun (rh_admit h) (rh_torn h) (r_id r)
                         (sd\<lparr>sd_store := (if native then audit u else u)\<rparr>)
      in if accepted rep
         then ((if native then sd1 else on_store audit sd1), ResumeRegistered rep cancelledDrain grant)
         else ((if native then sd1
                else on_store (resolveControlResumeWrites (r_id r) (now (sd_store sd)) (sd_store sd) u) sd1),
               ResumeRegistered rep False False))"

definition resume_checked ::
    "resume_host \<Rightarrow> run \<Rightarrow> bool \<Rightarrow> bool \<Rightarrow> bool \<Rightarrow> string \<Rightarrow> scheduler \<Rightarrow> scheduler \<times> resume_reply" where
  "resume_checked h r grant cancelledDrain stale requestedBy sd =
     (let (w, res) = validateRunHarnessForScheduling (rh_admit h) (r_id r) (r_context r) (r_matchlock_policy r)
                       (sd_store sd);
          sd1 = ah_validating (rh_admit h) (sd\<lparr>sd_store := w\<rparr>)
      in case res of
           Inl e \<Rightarrow>
             ((if r_matchlock_policy r = PolNull
               then on_store (set_run (r_id r) (\<lambda>q. q\<lparr>r_scheduling_status := Some ''error'',
                                                     r_scheduling_error := Some e\<rparr>)) sd1
               else sd1), ResumeRefused (''Cannot resume run: '' @ e))
         | Inr dir \<Rightarrow>
             (case commit_resume r grant (cancelledDrain \<or> stale) requestedBy (sd_store sd1) of
                None \<Rightarrow> (sd1, ResumeConflict)
              | Some w1 \<Rightarrow> register_resumed h r grant cancelledDrain requestedBy w1 sd1))"

definition handleResumeRun ::
    "resume_host \<Rightarrow> string \<Rightarrow> string \<Rightarrow> bool \<Rightarrow> scheduler \<Rightarrow> scheduler \<times> resume_reply" where
  "handleResumeRun h runId requestedBy override sd =
     (case find_run runId (sd_store sd) of
        None \<Rightarrow> (sd, ResumeNotFound runId)
      | Some r \<Rightarrow>
          if terminal (r_status r) then (sd, ResumeIsTerminal (r_status r))
          else if r_status r = RRunning \<and> r_scheduling_status r = Some ''active'' then (sd, ResumeActive)
          else if readIsolationState r = Preparing
          then (on_store (hold_preparing runId) sd, ResumePreparing)
          else
            (let cancelledDrain = (r_scheduling_status r = Some ''draining_pause'');
                 (m, w) = (if cancelledDrain then (Map.empty, sd_store sd)
                           else parseRunContext runId (r_context r) (sd_store sd));
                 stale = (m ''pause_drain'' = Some ''true'');
                 sd1 = sd\<lparr>sd_store := emit ''run.resume_requested'' runId
                             [(''workflowId'', VStr (r_workflow_id r)),
                              (''detail'', VStr (resume_request_text requestedBy))] w\<rparr>
             in case check_isolation h override r of
                  Inl e \<Rightarrow> (sd1, ResumeRefused e)
                | Inr grant \<Rightarrow> resume_checked h r grant cancelledDrain stale requestedBy sd1))"

end
