(* ===== verification/Resume_Props.thy ===== *)
theory Resume_Props
  imports Resume Admission_Props Columns
begin

text \<open>
  A sandboxed run whose resume is refused gets back what the request took: the control columns of its row and
  the status, retries and output of its steps and stories.  What is not restored, and what a resume charges
  that should be free, is shown on samples at the end.
\<close>

section \<open>What a registration leaves alone\<close>

text \<open>Of the row of a run: its intent, its policy, its context, an instant of request once there is one; its status
  changes to failed at most.\<close>

definition row_kept :: "run \<Rightarrow> run \<Rightarrow> bool" where
  "row_kept a c \<longleftrightarrow>
     r_id c = r_id a \<and> r_isolation_intent c = r_isolation_intent a \<and> r_matchlock_policy c = r_matchlock_policy a \<and> r_context c = r_context a
     \<and> (r_scheduling_requested_at a \<noteq> None \<longrightarrow> r_scheduling_requested_at c = r_scheduling_requested_at a)
     \<and> (r_status c = r_status a \<or> r_status c = RFailed)"

definition rows_kept :: "store \<Rightarrow> store \<Rightarrow> bool" where
  "rows_kept w x \<longleftrightarrow> steps x = steps w \<and> stories x = stories w \<and> list_all2 row_kept (runs w) (runs x)"

lemma row_kept_refl [simp]: "row_kept a a"
  by (simp add: row_kept_def)

lemma row_kept_trans: "row_kept a b \<Longrightarrow> row_kept b c \<Longrightarrow> row_kept a c"
  by (auto simp: row_kept_def)

lemma rows_kept_refl [simp]: "rows_kept w w"
  by (simp add: rows_kept_def list.rel_refl)

lemma rows_kept_trans: "rows_kept a b \<Longrightarrow> rows_kept b c \<Longrightarrow> rows_kept a c"
  by (auto simp: rows_kept_def intro: list_all2_trans [OF row_kept_trans])

lemma rows_kept_same:
  "steps x = steps w \<Longrightarrow> stories x = stories w \<Longrightarrow> runs x = runs w \<Longrightarrow> rows_kept w x"
  by (simp add: rows_kept_def list.rel_refl)

lemma rows_kept_set_run: "(\<And>r. row_kept r (f r)) \<Longrightarrow> rows_kept w (set_run i f w)"
  by (auto simp: rows_kept_def set_run_def upd_run_def upd_where_def list_all2_map2 row_kept_def
      intro!: list.rel_refl_strong)

lemma rows_kept_find:
  assumes "rows_kept w x" "find_run i w = Some a"
  shows "\<exists>c. find_run i x = Some c \<and> row_kept a c"
proof -
  have "list_all2 row_kept rs ys \<Longrightarrow> List.find (\<lambda>r. r_id r = i) rs = Some a \<Longrightarrow>
      \<exists>c. List.find (\<lambda>r. r_id r = i) ys = Some c \<and> row_kept a c" for rs ys
    by (induction rule: list_all2_induct) (auto simp: row_kept_def split: if_splits)
  from this [of "runs w" "runs x"] show ?thesis using assms by (simp add: rows_kept_def find_run_def)
qed

text \<open>Nothing happens while the daemon waits.\<close>

definition idle_waits :: "admit_host \<Rightarrow> bool" where
  "idle_waits h \<longleftrightarrow> (\<forall>sd. ah_validating h sd = sd \<and> ah_loading h sd = sd)"

lemma setup_rows: "rows_kept (sd_store sd) (sd_store (setupAgentCrons wid agents runId dir sd))"
proof -
  have one: "runs (sd_store (setup_agent wid runId dir a sd)) = runs (sd_store sd)
      \<and> stories (sd_store (setup_agent wid runId dir a sd)) = stories (sd_store sd)" for a sd
    by (simp add: setup_agent_def createAgentCronJob_def Let_def parseRunContext_def
        split: option.split prod.split ctx_col.split)
  have "runs (sd_store (setupAgentCrons wid agents runId dir sd)) = runs (sd_store sd)
      \<and> stories (sd_store (setupAgentCrons wid agents runId dir sd)) = stories (sd_store sd)"
    unfolding setupAgentCrons_def by (induction agents arbitrary: sd) (simp_all add: one)
  then show ?thesis by (simp add: rows_kept_same setup_steps)
qed

lemma mark_active_rows: "rows_kept (sd_store sd) (sd_store (mark_active i sd))"
  by (simp add: mark_active_def rows_kept_set_run row_kept_def)

lemma schedule_rows:
  assumes "idle_waits h" "schedule_jobs h r dir k lm shared sd = (sd', res)"
  shows "rows_kept (sd_store sd) (sd_store sd')"
  using assms setup_rows rows_kept_trans [OF setup_rows mark_active_rows]
  by (auto simp: schedule_jobs_def Let_def idle_waits_def split: sum.splits if_splits)

lemma timers_rows:
  assumes "idle_waits h" "admit_timers h r dir k shared sd = (sd', res)"
  shows "rows_kept (sd_store sd) (sd_store sd')"
proof -
  have s: "rows_kept (sd_store sd) (sd_store sd')"
    if "schedule_jobs h r dir k lm shared (if c then removeRunCrons i o1 sd else sd) = (sd', res)" for c i o1 lm
    using schedule_rows [OF assms(1) that] by (simp split: if_splits)
  show ?thesis
    using assms(2) s unfolding admit_timers_def Let_def
    by (auto split: if_splits option.splits intro!: rows_kept_set_run mark_active_rows simp: row_kept_def)
qed

lemma context_rows: "rows_kept w (snd (parseRunContext i c w))"
  by (simp add: parseRunContext_def rows_kept_same split: ctx_col.split)

lemma validation_rows:
  "validateRunHarnessForScheduling h i c p w = (w', res) \<Longrightarrow> rows_kept w w'"
  by (auto simp: validateRunHarnessForScheduling_def context_rows split: ctx_col.splits)

lemma hold_rows: "rows_kept w (hold_preparing i w)"
  by (auto simp: hold_preparing_def row_kept_def split: option.split intro!: rows_kept_set_run)

lemma admission_rows:
  assumes "idle_waits h" "admitOrQueueRun h r sd = (sd', res)"
  shows "rows_kept (sd_store sd) (sd_store sd')"
proof (cases "isIntentOnlyHeldRun r")
  case True
  then show ?thesis using assms(2) by (auto simp: admitOrQueueRun_def hold_rows)
next
  case False
  obtain w checked where v: "validateRunHarnessForScheduling h (r_id r) (r_context r) (r_matchlock_policy r)
      (sd_store sd) = (w, checked)" by fastforce
  let ?w = "snd (parseRunContext (r_id r) (r_context r) w)"
  have k: "rows_kept (sd_store sd) w" "rows_kept (sd_store sd) ?w"
    using validation_rows [OF v] context_rows rows_kept_trans by blast+
  have t: "rows_kept (sd_store sd) (sd_store sd')"
    if "admit_timers h r dir n shared (sd\<lparr>sd_store := ?w\<rparr>) = (sd', res)" for dir n shared
    using rows_kept_trans [OF k(2)] timers_rows [OF assms(1) that] by simp
  have s: "rows_kept (sd_store sd) (set_run i f ?w)" if "\<And>q. row_kept q (f q)" for i f
    using rows_kept_trans [OF k(2) rows_kept_set_run] that by blast
  show ?thesis
    using assms False v k t s
    by (auto simp: admitOrQueueRun_def Let_def split_beta idle_waits_def refuse_workdir_def wait_for_workdir_def
        row_kept_def split: sum.splits option.splits collision_policy.splits)
qed

lemma registration_rows:
  assumes "idle_waits h"
  shows "rows_kept (sd_store sd) (sd_store (fst (handleRegisterRun h torn i sd)))"
proof -
  have a: "rows_kept w (sd_store (fst (run_admission h r (sd\<lparr>sd_store := x\<rparr>))))" if "rows_kept w x" for w x r
  proof -
    obtain sd1 res where o: "admitOrQueueRun h r (sd\<lparr>sd_store := x\<rparr>) = (sd1, res)" by fastforce
    have k: "rows_kept w (sd_store sd1)" using rows_kept_trans [OF that] admission_rows [OF assms o] by simp
    then show ?thesis
      using o by (auto simp: run_admission_def row_kept_def split: sum.split
          intro!: rows_kept_trans [OF k rows_kept_set_run])
  qed
  show ?thesis
    using a [OF context_rows]
    by (auto simp: handleRegisterRun_def Let_def split_beta context_rows hold_rows split: option.split)
qed

section \<open>What a recovery leaves alone\<close>

text \<open>Keys, the token and the policy of the rows.\<close>

definition step_key :: "step \<Rightarrow> string \<times> string" where
  "step_key s = (s_id s, s_run_id s)"

definition story_key :: "story \<Rightarrow> string \<times> string" where
  "story_key t = (t_id t, t_run_id t)"

definition run_token :: "run \<Rightarrow> string \<times> int option \<times> policy_col" where
  "run_token r = (r_id r, r_scheduling_requested_at r, r_matchlock_policy r)"

interpretation token: columns step_key run_token story_key
  by unfold_locales (simp_all add: step_key_def run_token_def story_key_def)

lemma recovery_columns:
  "columns_of step_key run_token story_key (recover_running specs i w) = columns_of step_key run_token story_key w"
  by (simp add: recover_running_def token.cols_fold)

lemma recovery_rows:
  "map step_key (steps (recover_running specs i w)) = map step_key (steps w)"
  "map run_token (runs (recover_running specs i w)) = map run_token (runs w)"
  "map story_key (stories (recover_running specs i w)) = map story_key (stories w)"
  using recovery_columns [of specs i w] by (simp_all add: columns_of_def)

text \<open>A row is found under its key before and after.\<close>

lemma find_same_keys:
  assumes "map f ys = map f xs" "\<And>x. key x = g (f x)" "List.find (\<lambda>x. key x = i) xs = Some x"
  shows "\<exists>y. List.find (\<lambda>x. key x = i) ys = Some y \<and> f y = f x"
  using assms(1,3)
proof (induction xs arbitrary: ys)
  case (Cons z xs)
  then obtain y ys' where "ys = y # ys'" "f y = f z" "map f ys' = map f xs" by auto
  then show ?case using Cons by (auto simp: assms(2) split: if_splits)
qed simp

lemma find_after_recovery:
  "find_run i w = Some r \<Longrightarrow> \<exists>q. find_run i (recover_running specs j w) = Some q \<and> run_token q = run_token r"
  unfolding find_run_def using find_same_keys [OF recovery_rows(2) [of specs j w], of r_id fst]
  by (auto simp: run_token_def)

section \<open>The way back\<close>

lemma give_back_same [simp]: "give_back b a a = b"
  by (simp add: give_back_def)

lemma context_comes_back [simp]: "inverseControlContext b a a = b"
  by (simp add: inverseControlContext_def back_keys_def split: ctx_col.split)

text \<open>What a later writer did to a key this request did not move, or moved again, stays.\<close>

lemma later_writer_wins:
  "current k \<noteq> post k \<or> prior k = post k \<Longrightarrow> back_keys prior post current k = current k"
  by (auto simp: back_keys_def give_back_def)

definition control_view :: "run \<Rightarrow> run_status \<times> string option \<times> int option \<times> string option \<times> policy_col \<times> ctx_col" where
  "control_view r =
     (r_status r, r_scheduling_status r, r_scheduling_requested_at r, r_scheduling_error r,
      r_matchlock_policy r, r_context r)"

lemma run_comes_back:
  assumes "find_run (r_id b) w = Some c" "r_status c \<noteq> RCompleted" "r_status c \<noteq> RCanceled"
    "r_matchlock_policy c = r_matchlock_policy a" "r_context c = r_context a"
  shows "\<exists>r'. find_run (r_id b) (restore_run b a w) = Some r' \<and> control_view r' = control_view b"
  unfolding restore_run_def
  by (subst run_table.find_upd_same) (use assms in \<open>auto simp: Let_def control_view_def\<close>)

lemma find_in_run:
  "distinct (map s_id (steps w)) \<Longrightarrow> find_step i w = Some s \<Longrightarrow> s_run_id s = r \<Longrightarrow>
   List.find (\<lambda>x. s_id x = i) (run_steps r w) = Some s"
  "distinct (map t_id (stories w)) \<Longrightarrow> find_story i w = Some t \<Longrightarrow> t_run_id t = r \<Longrightarrow>
   List.find (\<lambda>x. t_id x = i) (run_stories r w) = Some t"
proof -
  have g: "distinct (map key xs) \<Longrightarrow> List.find (\<lambda>x. key x = i) xs = Some z \<Longrightarrow> P z \<Longrightarrow>
      List.find (\<lambda>x. key x = i) (filter P xs) = Some z" for key :: "'x \<Rightarrow> string" and xs z P
    by (induction xs) (auto split: if_splits simp: image_iff)
  show "distinct (map s_id (steps w)) \<Longrightarrow> find_step i w = Some s \<Longrightarrow> s_run_id s = r \<Longrightarrow>
   List.find (\<lambda>x. s_id x = i) (run_steps r w) = Some s" unfolding find_step_def run_steps_def by (rule g)
  show "distinct (map t_id (stories w)) \<Longrightarrow> find_story i w = Some t \<Longrightarrow> t_run_id t = r \<Longrightarrow>
   List.find (\<lambda>x. t_id x = i) (run_stories r w) = Some t" unfolding find_story_def run_stories_def by (rule g)
qed

text \<open>A fold of restorations, each of one key, has on each key the effect of its own.\<close>

locale restoration =
  fixes key :: "'r \<Rightarrow> string" and find :: "string \<Rightarrow> store \<Rightarrow> 'r option"
    and restore :: "'r \<Rightarrow> store \<Rightarrow> store" and view :: "'r \<Rightarrow> 'v"
  assumes others: "j \<noteq> key b \<Longrightarrow> find j (restore b w) = find j w"
begin

lemma others_fold: "j \<notin> key ` set bs \<Longrightarrow> find j (fold restore bs w) = find j w"
  by (induction bs arbitrary: w) (simp_all add: others)

lemma restored_fold:
  assumes "distinct (map key bs)" "b \<in> set bs"
    and own: "\<And>v. find (key b) v = find (key b) w \<Longrightarrow> \<exists>r. find (key b) (restore b v) = Some r \<and> view r = view b"
  shows "\<exists>r. find (key b) (fold restore bs w) = Some r \<and> view r = view b"
  using assms
proof (induction bs arbitrary: w)
  case (Cons c bs)
  show ?case
  proof (cases "c = b")
    case True
    then have "key b \<notin> key ` set bs" using Cons.prems(1) by auto
    then show ?thesis using Cons.prems(3) [OF refl] True by (simp add: others_fold)
  next
    case False
    then have b: "b \<in> set bs" "key b \<noteq> key c" using Cons.prems(1,2) by (auto simp: image_iff)
    have o: "\<exists>r. find (key b) (restore b v) = Some r \<and> view r = view b"
      if "find (key b) v = find (key b) (restore c w)" for v
      using Cons.prems(3) that others [OF b(2)] by simp
    show ?thesis using Cons.IH [OF _ b(1) o] Cons.prems(1) by simp
  qed
qed simp

end

definition step_view :: "step \<Rightarrow> step_status \<times> nat \<times> string option" where
  "step_view s = (s_status s, s_retry_count s, s_output s)"

definition story_view :: "story \<Rightarrow> story_status \<times> nat \<times> string option \<times> nat" where
  "story_view t = (t_status t, t_retry_count t, t_output t, t_resume_reset_count t)"

interpretation steps_back: restoration s_id find_step "restore_step runId afters" step_view for runId afters
  by unfold_locales (simp add: restore_step_def step_table.find_upd_other split: option.split)

interpretation stories_back: restoration t_id find_story "restore_story runId afters" story_view for runId afters
  by unfold_locales (simp add: restore_story_def story_table.find_upd_other split: option.split)

lemma step_comes_back:
  "List.find (\<lambda>x. s_id x = s_id b) afters = Some a \<Longrightarrow> find_step (s_id b) w = Some a \<Longrightarrow> s_run_id a = runId \<Longrightarrow>
   \<exists>s. find_step (s_id b) (restore_step runId afters b w) = Some s \<and> step_view s = step_view b"
  by (simp add: restore_step_def step_table.find_upd_same step_view_def)

lemma story_comes_back:
  "List.find (\<lambda>x. t_id x = t_id b) afters = Some a \<Longrightarrow> find_story (t_id b) w = Some a \<Longrightarrow> t_run_id a = runId \<Longrightarrow>
   \<exists>t. find_story (t_id b) (restore_story runId afters b w) = Some t \<and> story_view t = story_view b"
  by (simp add: restore_story_def story_table.find_upd_same story_view_def)

lemma restore_frame [simp]:
  "find_run i (restore_step r as b w) = find_run i w" "find_run i (restore_story r cs d w) = find_run i w"
  "find_story i (restore_step r as b w) = find_story i w" "find_step i (restore_story r cs d w) = find_step i w"
  "find_step i (restore_run p q w) = find_step i w" "find_story i (restore_run p q w) = find_story i w"
  by (auto simp: restore_step_def restore_story_def restore_run_def find_run_def find_step_def find_story_def
      upd_story_def split: option.splits)

lemma restore_folds [simp]:
  "find_run i (fold (restore_step r as) bs w) = find_run i w"
  "find_run i (fold (restore_story r cs) ds w) = find_run i w"
  "find_story i (fold (restore_step r as) bs w) = find_story i w"
  "find_step i (fold (restore_story r cs) ds w) = find_step i w"
  by (induction bs arbitrary: w, simp_all) (induction ds arbitrary: w, simp_all)+

text \<open>What stands in the tables after the way back, of the rows of one run.\<close>

definition given_back :: "string \<Rightarrow> store \<Rightarrow> store \<Rightarrow> bool" where
  "given_back i v w \<longleftrightarrow>
     map_option control_view (find_run i w) = map_option control_view (find_run i v)
     \<and> (\<forall>s \<in> set (run_steps i v). map_option step_view (find_step (s_id s) w) = Some (step_view s))
     \<and> (\<forall>t \<in> set (run_stories i v). map_option story_view (find_story (t_id t) w) = Some (story_view t))"

text \<open>The rows of two stores under the same keys.\<close>

definition same_keys :: "store \<Rightarrow> store \<Rightarrow> bool" where
  "same_keys v u \<longleftrightarrow>
     map step_key (steps u) = map step_key (steps v) \<and> map story_key (stories u) = map story_key (stories v)"

lemma same_keys_ids:
  assumes "same_keys v u"
  shows "map s_id (steps u) = map s_id (steps v)" "map t_id (stories u) = map t_id (stories v)"
proof -
  have "map fst (map step_key (steps u)) = map fst (map step_key (steps v))"
    "map fst (map story_key (stories u)) = map fst (map story_key (stories v))"
    using assms by (simp_all only: same_keys_def)
  then show "map s_id (steps u) = map s_id (steps v)" "map t_id (stories u) = map t_id (stories v)"
    by (simp_all add: step_key_def story_key_def comp_def)
qed

lemma same_keys_find:
  assumes "same_keys v u"
  shows "find_step i v = Some s \<Longrightarrow> \<exists>s'. find_step i u = Some s' \<and> step_key s' = step_key s"
    "find_story i v = Some t \<Longrightarrow> \<exists>t'. find_story i u = Some t' \<and> story_key t' = story_key t"
  using assms find_same_keys [of step_key "steps u" "steps v" s_id fst]
    find_same_keys [of story_key "stories u" "stories v" t_id fst]
  by (auto simp: same_keys_def find_step_def find_story_def step_key_def story_key_def)

lemma steps_restored:
  assumes keys: "distinct (map s_id (steps v))" and u: "same_keys v u"
    and x: "steps x = steps u" and s: "s \<in> set (run_steps i v)"
  shows "\<exists>r. find_step (s_id s) (fold (restore_step i (run_steps i u)) (run_steps i v) x)
             = Some r \<and> step_view r = step_view s"
proof -
  have "find_step (s_id s) v = Some s" "s_run_id s = i"
    using s step_table.find_in_rows [OF keys, of s] by (simp_all add: run_steps_def)
  then obtain s' where s': "find_step (s_id s) u = Some s'" "s_run_id s' = i"
    using same_keys_find(1) [OF u] by (auto simp: step_key_def)
  have "List.find (\<lambda>y. s_id y = s_id s) (run_steps i u) = Some s'"
    using find_in_run(1) [OF _ s'] keys same_keys_ids(1) [OF u] by simp
  moreover have "find_step (s_id s) x = Some s'" using s'(1) x by (simp add: find_step_def)
  ultimately show ?thesis
    by (intro steps_back.restored_fold step_comes_back [OF _ _ s'(2)])
      (use s keys in \<open>auto simp: run_steps_def distinct_map_filter\<close>)
qed

lemma stories_restored:
  assumes keys: "distinct (map t_id (stories v))" and u: "same_keys v u"
    and x: "\<And>j. find_story j x = find_story j u" and t: "t \<in> set (run_stories i v)"
  shows "\<exists>r. find_story (t_id t) (fold (restore_story i (run_stories i u)) (run_stories i v) x)
             = Some r \<and> story_view r = story_view t"
proof -
  have "find_story (t_id t) v = Some t" "t_run_id t = i"
    using t story_table.find_in_rows [OF keys, of t] by (simp_all add: run_stories_def)
  then obtain t' where t': "find_story (t_id t) u = Some t'" "t_run_id t' = i"
    using same_keys_find(2) [OF u] by (auto simp: story_key_def)
  have "List.find (\<lambda>y. t_id y = t_id t) (run_stories i u) = Some t'"
    using find_in_run(2) [OF _ t'] keys same_keys_ids(2) [OF u] by simp
  moreover have "find_story (t_id t) x = Some t'" using t'(1) x by simp
  ultimately show ?thesis
    by (intro stories_back.restored_fold story_comes_back [OF _ _ t'(2)])
      (use t keys in \<open>auto simp: run_stories_def distinct_map_filter\<close>)
qed

text \<open>\<open>v\<close> is the store before the request, \<open>u\<close> after it, \<open>x\<close> after the registration.\<close>

lemma way_back:
  assumes keys: "distinct (map s_id (steps v))" "distinct (map t_id (stories v))"
    and u: "same_keys v u" "find_run i u = Some a" "r_scheduling_requested_at a = Some k"
    and b: "find_run i v = Some b" and x: "rows_kept u x"
    and live: "find_run i x = Some c" "r_status c \<noteq> RCompleted" "r_status c \<noteq> RCanceled"
  shows "given_back i v (resolveControlResumeWrites i k v u x)"
proof -
  have c: "row_kept a c" using rows_kept_find [OF x u(2)] live(1) by simp
  have tables: "steps x = steps u" "stories x = stories u" using x by (simp_all add: rows_kept_def)
  have bi: "r_id b = i" using b run_table.find_key by blast
  let ?r = "restore_run b a x"
  let ?s = "fold (restore_step i (run_steps i u)) (run_steps i v) ?r"
  let ?w = "fold (restore_story i (run_stories i u)) (run_stories i v) ?s"
  have w: "resolveControlResumeWrites i k v u x = ?w"
    using u(2,3) b c live(1) by (simp add: resolveControlResumeWrites_def row_kept_def)
  have run: "\<exists>r'. find_run i ?w = Some r' \<and> control_view r' = control_view b"
    using run_comes_back [of b x c a] live c bi by (simp add: row_kept_def)
  have "steps ?r = steps u" using tables by (simp add: restore_run_def)
  from steps_restored [OF keys(1) u(1) this]
  have step: "\<exists>r. find_step (s_id s) ?w = Some r \<and> step_view r = step_view s" if "s \<in> set (run_steps i v)" for s
    using that by simp
  have "find_story j ?s = find_story j u" for j using tables(2) by (simp add: find_story_def [of j x] find_story_def [of j u])
  from stories_restored [OF keys(2) u(1) this]
  have story: "\<exists>r. find_story (t_id t) ?w = Some r \<and> story_view r = story_view t" if "t \<in> set (run_stories i v)" for t
    using that by simp
  show ?thesis unfolding w given_back_def using run step story b by fastforce
qed

section \<open>A refused resume\<close>

lemma registered_rows:
  "idle_waits h \<Longrightarrow> handleRegisterRun h torn i sd = (sd', rep) \<Longrightarrow> rows_kept (sd_store sd) (sd_store sd')"
  using registration_rows [of h sd torn i] by simp

lemma registered_live:
  assumes "idle_waits h" "find_run i (sd_store sd) = Some a" "handleRegisterRun h torn i sd = (sd', rep)"
    "rep \<noteq> RunIsTerminal RCompleted" "rep \<noteq> RunIsTerminal RCanceled"
  shows "\<exists>c. find_run i (sd_store sd') = Some c \<and> r_status c \<noteq> RCompleted \<and> r_status c \<noteq> RCanceled"
proof -
  have "r_status a \<noteq> RCompleted" "r_status a \<noteq> RCanceled"
    using assms(2-5) by (auto simp: handleRegisterRun_def terminal_def)
  moreover have "rows_kept (sd_store sd) (sd_store sd')" using registered_rows [OF assms(1,3)] .
  from rows_kept_find [OF this assms(2)] obtain c where "find_run i (sd_store sd') = Some c" "row_kept a c" by blast
  ultimately show ?thesis by (auto simp: row_kept_def)
qed

lemma commit_rows:
  assumes "commit_resume r grant dr who w = Some w1"
  shows "steps w1 = steps w" "stories w1 = stories w"
    "\<exists>q pol. find_run (r_id r) w1 = Some q \<and> run_token q = (r_id r, Some (now w), pol)"
  using assms
  by (auto simp: commit_resume_def find_set_run run_token_def dest: run_table.find_key split: option.splits if_splits)

lemma register_resumed_back:
  assumes q: "idle_waits (rh_admit h)" and pinned: "r_matchlock_policy r \<noteq> PolNull"
    and commit: "commit_resume r grant dr who (sd_store sd) = Some w1"
    and keys: "distinct (map s_id (steps (sd_store sd)))" "distinct (map t_id (stories (sd_store sd)))"
    and fin: "register_resumed h r grant c who w1 sd = (sd', ResumeRegistered rep d g)"
    and refused: "\<not> accepted rep" "rep \<noteq> RunIsTerminal RCompleted" "rep \<noteq> RunIsTerminal RCanceled"
  shows "given_back (r_id r) (sd_store sd) (sd_store sd')"
proof -
  let ?u = "recover_running (rh_specs h) (r_id r) w1"
  obtain sd1 rep1 where reg: "handleRegisterRun (rh_admit h) (rh_torn h) (r_id r) (sd\<lparr>sd_store := ?u\<rparr>) = (sd1, rep1)"
    by fastforce
  have rep: "rep1 = rep" and sd': "sd_store sd' = resolveControlResumeWrites (r_id r) (now (sd_store sd)) (sd_store sd) ?u (sd_store sd1)"
    using fin pinned reg refused(1) by (auto simp: register_resumed_def Let_def split: if_splits)
  obtain p where p: "find_run (r_id r) w1 = Some p" and k: "\<exists>pol. run_token p = (r_id r, Some (now (sd_store sd)), pol)"
    using commit_rows(3) [OF commit] by blast
  obtain b where b: "find_run (r_id r) (sd_store sd) = Some b"
    using commit by (auto simp: commit_resume_def split: option.splits)
  obtain a where a: "find_run (r_id r) ?u = Some a" "r_scheduling_requested_at a = Some (now (sd_store sd))"
    using find_after_recovery [OF p] k by (force simp: run_token_def)
  have u: "same_keys (sd_store sd) ?u"
    using recovery_rows [of "rh_specs h" "r_id r" w1] commit_rows(1,2) [OF commit] by (simp add: same_keys_def)
  have x: "rows_kept ?u (sd_store sd1)" using registered_rows [OF q reg] by simp
  obtain c where c: "find_run (r_id r) (sd_store sd1) = Some c" "r_status c \<noteq> RCompleted" "r_status c \<noteq> RCanceled"
    using registered_live [OF q _ reg] a(1) refused(2,3) rep by auto
  show ?thesis using way_back [OF keys u a b x c] sd' by simp
qed

lemma given_back_same:
  "runs v = runs u \<Longrightarrow> steps v = steps u \<Longrightarrow> stories v = stories u \<Longrightarrow> given_back i v w = given_back i u w"
  by (simp add: given_back_def find_run_def run_steps_def run_stories_def)

lemma parse_context_stories [simp]: "stories (snd (parseRunContext i c w)) = stories w"
  by (simp add: parseRunContext_def split: ctx_col.split)

lemma validation_tables:
  "validateRunHarnessForScheduling h i c p w = (w', res) \<Longrightarrow> runs w' = runs w \<and> steps w' = steps w \<and> stories w' = stories w"
  by (auto simp: validateRunHarnessForScheduling_def split: ctx_col.splits)

lemma resume_checked_back:
  assumes q: "idle_waits (rh_admit h)" and pinned: "r_matchlock_policy r \<noteq> PolNull"
    and keys: "distinct (map s_id (steps (sd_store sd)))" "distinct (map t_id (stories (sd_store sd)))"
    and fin: "resume_checked h r grant c st who sd = (sd', ResumeRegistered rep d g)"
    and refused: "\<not> accepted rep" "rep \<noteq> RunIsTerminal RCompleted" "rep \<noteq> RunIsTerminal RCanceled"
  shows "given_back (r_id r) (sd_store sd) (sd_store sd')"
proof -
  obtain w res where v: "validateRunHarnessForScheduling (rh_admit h) (r_id r) (r_context r) (r_matchlock_policy r)
      (sd_store sd) = (w, res)" by fastforce
  have w: "runs w = runs (sd_store sd)" "steps w = steps (sd_store sd)" "stories w = stories (sd_store sd)"
    using validation_tables [OF v] by simp_all
  obtain w1 where c: "commit_resume r grant (c \<or> st) who (sd_store (sd\<lparr>sd_store := w\<rparr>)) = Some w1"
    and f: "register_resumed h r grant c who w1 (sd\<lparr>sd_store := w\<rparr>) = (sd', ResumeRegistered rep d g)"
    using fin v q by (auto simp: resume_checked_def Let_def idle_waits_def split: sum.splits option.splits)
  have "given_back (r_id r) w (sd_store sd')"
    using register_resumed_back [OF q pinned c _ _ f refused] keys w by simp
  then show ?thesis using given_back_same [OF w] by simp
qed

text \<open>C36. A refused resume of a sandboxed run is undone: when its registration is refused and nothing else
  happens meanwhile, the control columns of the run (its status, its scheduling, its policy with the consent, its context)
  and the status, retries and output of all its steps and stories are what they were before the request.\<close>

theorem refused_resume_restores:
  assumes run: "find_run runId (sd_store sd) = Some r" "readIsolationState r = Isolated"
    and q: "idle_waits (rh_admit h)"
    and keys: "distinct (map s_id (steps (sd_store sd)))" "distinct (map t_id (stories (sd_store sd)))"
    and fin: "handleResumeRun h runId who override sd = (sd', ResumeRegistered rep d g)"
    and refused: "\<not> accepted rep" "rep \<noteq> RunIsTerminal RCompleted" "rep \<noteq> RunIsTerminal RCanceled"
  shows "given_back runId (sd_store sd) (sd_store sd')"
proof -
  have i: "r_id r = runId" using run(1) run_table.find_key by blast
  have pinned: "r_matchlock_policy r \<noteq> PolNull"
    using run(2) by (auto simp: readIsolationState_def classifyIsolationState_def split: if_splits)
  define w where "w = (if r_scheduling_status r = Some ''draining_pause'' then sd_store sd
      else snd (parseRunContext runId (r_context r) (sd_store sd)))"
  define x where "x = emit ''run.resume_requested'' runId
      [(''workflowId'', VStr (r_workflow_id r)), (''detail'', VStr (resume_request_text who))] w"
  have x: "runs x = runs (sd_store sd)" "steps x = steps (sd_store sd)" "stories x = stories (sd_store sd)"
    by (simp_all add: x_def w_def)
  obtain grant c st where f: "resume_checked h r grant c st who (sd\<lparr>sd_store := x\<rparr>) = (sd', ResumeRegistered rep d g)"
    using fin run by (auto simp: handleResumeRun_def Let_def split_beta x_def w_def split: if_splits sum.splits)
  have "given_back runId x (sd_store sd')"
    using resume_checked_back [OF q pinned _ _ f refused] keys x i by simp
  then show ?thesis using given_back_same [OF x] by simp
qed

section \<open>Samples\<close>

definition sandbox0 :: policy where
  "sandbox0 = \<lparr>po_harness = ''pi'', po_consent = False, po_rest = []\<rparr>"

text \<open>A paused sandboxed run, its loop at work on a story, while its teardown is still under way.\<close>

definition paused_store :: store where
  "paused_store = store0\<lparr>
     runs := [run0\<lparr>r_status := RPaused, r_scheduling_status := Some ''paused'', r_matchlock_policy := PolPinned sandbox0,
                   r_context := CtxObj [''working_directory_for_harness'' \<mapsto> ''/repo'']\<rparr>],
     steps := [step0, loop0\<lparr>s_status := SRunning, s_current_story_id := Some ''t''\<rparr>],
     stories := [story0\<lparr>t_status := TRunning\<rparr>]\<rparr>"

definition resume_host0 :: resume_host where
  "resume_host0 = \<lparr>rh_admit = admit_host0, rh_specs = (\<lambda>w. None), rh_preflight = (\<lambda>p o1. Inr True),
                   rh_torn = [''r'']\<rparr>"

definition refused0 :: "scheduler \<times> resume_reply" where
  "refused0 = handleResumeRun resume_host0 ''r'' ''op'' True (registry0\<lparr>sd_store := paused_store\<rparr>)"

text \<open>The instants written into the context are left unevaluated.\<close>

declare to_iso_def [code del]

lemma refused0_reply: "snd refused0 = ResumeRegistered TeardownInProgress False False"
  by code_simp

lemma refused0_rows:
  "find_run ''r'' paused_store = Some (hd (runs paused_store))"
  "readIsolationState (hd (runs paused_store)) = Isolated"
  "distinct (map s_id (steps paused_store))" "distinct (map t_id (stories paused_store))"
  by (simp_all add: paused_store_def store0_def run0_def step0_def loop0_def lc0_def story0_def find_run_def
      readIsolationState_def classifyIsolationState_def)

theorem refused_resume_restores_witness:
  "given_back ''r'' paused_store (sd_store (fst refused0))
   \<and> snd refused0 = ResumeRegistered TeardownInProgress False False"
proof -
  have q: "idle_waits (rh_admit resume_host0)" by (simp add: idle_waits_def resume_host0_def admit_host0_def)
  have "handleResumeRun resume_host0 ''r'' ''op'' True (registry0\<lparr>sd_store := paused_store\<rparr>)
      = (fst refused0, ResumeRegistered TeardownInProgress False False)"
    by (simp add: prod_eq_iff refused0_reply [symmetric] refused0_def)
  from refused_resume_restores [OF _ _ q _ _ this] refused0_rows refused0_reply
  show ?thesis by (simp add: accepted_def)
qed

text \<open>The recovery also takes the story from a loop and charges its abandonment, and neither comes back: after
  the refused resume the loop is at work on no story, and the story is at work for no loop.\<close>

lemma refused_resume_loses_story:
  "map (\<lambda>s. (s_status s, s_current_story_id s)) (steps (sd_store (fst refused0))) = [(SDone, None), (SRunning, None)]
   \<and> map (\<lambda>t. (t_status t, t_abandoned_count t)) (stories (sd_store (fst refused0))) = [(TRunning, 1)]
   \<and> map s_current_story_id (steps paused_store) = [None, Some ''t'']"
  by code_simp

text \<open>A resume recovers the steps that still run as lost work: a round that a pause has killed, and that has
  not ended yet, is charged to the retries of its step.\<close>

definition resumed0 :: "scheduler \<times> resume_reply" where
  "resumed0 = handleResumeRun (resume_host0\<lparr>rh_torn := []\<rparr>) ''r'' ''op'' False
     (registry0\<lparr>sd_store := paused_store\<lparr>
        runs := map (\<lambda>r. r\<lparr>r_matchlock_policy := PolNull\<rparr>) (runs paused_store),
        steps := [step0\<lparr>s_status := SRunning\<rparr>], stories := []\<rparr>\<rparr>)"

lemma resume_charges_paused_work:
  "map (\<lambda>s. (s_status s, s_retry_count s)) (steps (sd_store (fst resumed0))) = [(SPending, 1)]
   \<and> map r_status (runs (sd_store (fst resumed0))) = [RRunning]"
  by code_simp

text \<open>A resume that finds the retries of a step spent reports the run as resumed and then finds it failed.\<close>

definition resumed_failed0 :: "scheduler \<times> resume_reply" where
  "resumed_failed0 = handleResumeRun (resume_host0\<lparr>rh_torn := []\<rparr>) ''r'' ''op'' False
     (registry0\<lparr>sd_store := paused_store\<lparr>
        runs := map (\<lambda>r. r\<lparr>r_matchlock_policy := PolNull\<rparr>) (runs paused_store),
        steps := [step0\<lparr>s_status := SRunning, s_retry_count := 2\<rparr>], stories := []\<rparr>\<rparr>)"

lemma resume_of_spent_step_fails_run:
  "snd resumed_failed0 = ResumeRegistered (RunIsTerminal RFailed) False False
   \<and> map ev_name (events (sd_store (fst resumed_failed0)))
     = [''run.resume_requested'', ''step.timeout'', ''step.failed'', ''run.failed'', ''run.resumed'']"
  by code_simp

end
