(* ===== verification/Launch_Props.thy ===== *)
theory Launch_Props
  imports Launch Resume_Props
begin

text \<open>
  What a launch leaves in the tables: the steps of the workflow with the first one pending, and for a launch
  that fails a failed row.  The sample at the end is a launch that leaves a row behind.
\<close>

section \<open>The step table\<close>

lemma open_steps:
  "open_workspace h p ws w = (w', b, res) \<Longrightarrow> steps w' = steps w"
  by (auto simp: open_workspace_def open_direct_def open_worktree_def Let_def direct_workdir_def capture_base_def
      insert_run_def patch_context_def split: if_splits option.splits sum.splits prod.splits)

lemma write_policy_steps: "write_policy i pol w = Some w' \<Longrightarrow> steps w' = steps w"
  by (auto simp: write_policy_def split: option.splits if_splits)

lemma establish_steps [simp]: "steps (establish_test_cmd i m w) = steps w"
  by (simp add: establish_test_cmd_def split: option.split)

lemma recapture_tables [simp]: "steps (recapture_base h p ws dir w) = steps w" "runs (recapture_base h p ws dir w) = runs w"
  by (simp_all add: recapture_base_def split: sum.split)

lemma first_min_increasing:
  "(\<And>y. y \<in> set xs \<Longrightarrow> key x \<le> key y) \<Longrightarrow> first_min key (x # xs) = Some x"
  by (force split: option.split dest: first_min_Some simp: not_less)

lemma step_row_simps [simp]:
  "s_id (step_row h spec i s w) = lh_step_id h i" "s_run_id (step_row h spec i s w) = lh_run_id h"
  "s_step_id (step_row h spec i s w) = ws_id s" "s_step_index (step_row h spec i s w) = i"
  "s_agent_id (step_row h spec i s w) = full_agent_id (wf_id spec) (ws_agent s)"
  "s_status (step_row h spec i s w) = SWaiting"
  by (simp_all add: step_row_def)

text \<open>The rows of a new run, whose keys no other row has.\<close>

definition new_rows :: "launch_host \<Rightarrow> workflow_spec \<Rightarrow> store \<Rightarrow> step list" where
  "new_rows h spec w = map (\<lambda>(i, s). step_row h spec i s w) (List.enumerate 0 (wf_steps spec))"

definition fresh_run :: "launch_host \<Rightarrow> workflow_spec \<Rightarrow> store \<Rightarrow> bool" where
  "fresh_run h spec w \<longleftrightarrow>
     list_all (\<lambda>r. r_id r \<noteq> lh_run_id h) (runs w)
     \<and> list_all (\<lambda>s. s_run_id s \<noteq> lh_run_id h \<and> s_id s \<noteq> lh_step_id h 0) (steps w)
     \<and> list_all (\<lambda>i. lh_step_id h (Suc i) \<noteq> lh_step_id h 0) [0..<length (wf_steps spec) - 1]"

lemma steps_of_new_run:
  "fresh_run h spec v \<Longrightarrow> steps w = steps v \<Longrightarrow> run_steps (lh_run_id h) (insert_steps h spec w) = new_rows h spec w"
  by (auto simp: fresh_run_def run_steps_def insert_steps_def new_rows_def list_all_iff
      filter_empty_conv intro!: filter_True split: prod.splits)

definition shape :: "step \<Rightarrow> string \<times> string \<times> step_status" where
  "shape s = (s_step_id s, s_agent_id s, s_status s)"

definition ready_shape :: "workflow_spec \<Rightarrow> (string \<times> string \<times> step_status) list" where
  "ready_shape spec =
     (case wf_steps spec of
        [] \<Rightarrow> []
      | s # ss \<Rightarrow> (ws_id s, full_agent_id (wf_id spec) (ws_agent s), SPending)
                 # map (\<lambda>s. (ws_id s, full_agent_id (wf_id spec) (ws_agent s), SWaiting)) ss)"

lemma new_rows_Cons:
  "wf_steps spec = s # ss \<Longrightarrow>
   new_rows h spec w = step_row h spec 0 s w # map (\<lambda>(i, s). step_row h spec i s w) (List.enumerate 1 ss)"
  by (simp add: new_rows_def)

lemma filter_upd_where: "(\<And>r. Q (f r) = Q r) \<Longrightarrow> filter Q (upd_where P f xs) = upd_where P f (filter Q xs)"
  by (induction xs) (auto simp: upd_where_def)

lemma promoted_rows:
  assumes spec: "wf_steps spec = s # ss" and fresh: "fresh_run h spec v" and same: "steps w = steps v"
  shows "map shape (run_steps (lh_run_id h) (promote_step (lh_run_id h) (step_row h spec 0 s w) (insert_steps h spec w)))
    = ready_shape spec"
proof -
  let ?u = "insert_steps h spec w"
  let ?f = "\<lambda>u. u\<lparr>s_status := SPending, s_updated_at := Some (now ?u)\<rparr>"
  have "run_steps (lh_run_id h) (promote_step (lh_run_id h) (step_row h spec 0 s w) ?u)
      = upd_where (\<lambda>u. s_id u = lh_step_id h 0) ?f (new_rows h spec w)"
    using steps_of_new_run [OF fresh same]
    by (simp add: run_steps_def promote_step_def Let_def set_step_status_def set_step_def upd_step_def
        emit_def filter_upd_where)
  moreover have "upd_where (\<lambda>u. s_id u = lh_step_id h 0) ?f (map (\<lambda>(i, s). step_row h spec i s w) (List.enumerate 1 ss))
      = map (\<lambda>(i, s). step_row h spec i s w) (List.enumerate 1 ss)"
  proof (rule upd_where_none, rule ballI)
    fix u assume "u \<in> set (map (\<lambda>(i, s). step_row h spec i s w) (List.enumerate 1 ss))"
    then obtain k where "k < length ss" "s_id u = lh_step_id h (Suc k)"
      by (auto simp: set_conv_nth nth_enumerate_eq)
    then show "\<not> s_id u = lh_step_id h 0" using fresh spec by (auto simp: fresh_run_def list_all_iff)
  qed
  moreover have "map shape (map (\<lambda>(i, s). step_row h spec i s w) (List.enumerate k ss))
      = map (\<lambda>s. (ws_id s, full_agent_id (wf_id spec) (ws_agent s), SWaiting)) ss" for k
    by (induction ss arbitrary: k) (auto simp: shape_def)
  ultimately show ?thesis
    by (simp add: new_rows_Cons [OF spec] ready_shape_def spec) (simp add: shape_def)
qed

section \<open>The run while it is prepared\<close>

lemma find_snoc_new:
  "list_all (\<lambda>r. r_id r \<noteq> i) rs \<Longrightarrow> r_id q = i \<Longrightarrow> List.find (\<lambda>r. r_id r = i) (rs @ [q]) = Some q"
  by (induction rs) auto

lemma row_id [simp]: "r_id (run_row h p m w) = lh_run_id h"
  by (simp add: run_row_def)

lemma new_run_live:
  "fresh_run h spec v \<Longrightarrow> runs w = runs v \<Longrightarrow>
   find_run (lh_run_id h) (insert_run h p m w) = Some (run_row h p m w)"
  by (simp add: find_run_def insert_run_def fresh_run_def find_snoc_new)

lemma base_tables [simp]:
  "steps (snd (snd (direct_workdir h p m w))) = steps w" "runs (snd (snd (direct_workdir h p m w))) = runs w"
  "steps (snd (capture_base h p dir m w)) = steps w" "runs (snd (capture_base h p dir m w)) = runs w"
  by (simp_all add: direct_workdir_def capture_base_def Let_def split: sum.split)

lemma status_upd_run:
  "(\<And>r. r_id (f r) = r_id r \<and> r_status (f r) = r_status r) \<Longrightarrow> run_status_of i (upd_run j f w) = run_status_of i w"
  by (cases "i = j") (simp_all add: run_status_of_def run_table.find_upd_same run_table.find_upd_other
      option.map_comp comp_def)

lemma opened_status:
  assumes "fresh_run h spec w" "open_workspace h p ws w = (w1, b, Inr x)"
  shows "run_status_of (lh_run_id h) w1 = Some RRunning \<and> b"
proof -
  have "run_status_of (lh_run_id h) (insert_run h p m v) = Some RRunning" if "runs v = runs w" for m v
    using new_run_live [OF assms(1) that] by (simp add: run_status_of_def) (simp add: run_row_def)
  moreover have "run_status_of i (patch_context i c v) = run_status_of i v" for i c v
    unfolding patch_context_def by (rule status_upd_run) (simp split: ctx_col.split)
  ultimately show ?thesis using assms(2)
    by (auto simp: open_workspace_def open_direct_def open_worktree_def Let_def split_beta
        split: if_splits option.splits sum.splits)
qed

lemma admitted_status:
  "admit_sandbox h p dir w = (w1, Inr u) \<Longrightarrow> run_status_of (lh_run_id h) w = Some RRunning \<Longrightarrow>
   run_status_of (lh_run_id h) w1 = Some RRunning"
  by (auto simp: admit_sandbox_def write_policy_def awaits_policy_def run_status_of_def find_set_run
      split: if_splits sum.splits option.splits)

lemma admitted_steps:
  "admit_sandbox h p dir w = (w1, res) \<Longrightarrow> (\<And>v. steps (lh_admitting h v) = steps v) \<Longrightarrow> steps w1 = steps w"
  by (auto simp: admit_sandbox_def dest: write_policy_steps split: if_splits sum.splits option.splits)

lemma prepared_status [simp]:
  "run_status_of i (establish_test_cmd i m w) = run_status_of i w"
  "run_status_of i (recapture_base h p ws dir w) = run_status_of i w"
  by (simp add: establish_test_cmd_def status_upd_run split: option.split)
    (simp add: run_status_of_def find_run_def)

section \<open>The first step\<close>

lemma next_of_new:
  assumes "wf_steps spec = s # ss" "run_steps i w = new_rows h spec v"
  shows "next_waiting i w = Some (step_row h spec 0 s v)" "\<not> list_ex (\<lambda>u. s_status u = SRunning) (run_steps i w)"
proof -
  have "filter (\<lambda>u. s_status u = SWaiting) (new_rows h spec v) = new_rows h spec v"
    by (auto simp: new_rows_def filter_id_conv split: prod.splits)
  then show "next_waiting i w = Some (step_row h spec 0 s v)"
    by (simp add: next_waiting_def assms(2)) (simp only: new_rows_Cons [OF assms(1)], rule first_min_increasing, auto)
  show "\<not> list_ex (\<lambda>u. s_status u = SRunning) (run_steps i w)"
    using assms(2) by (auto simp: new_rows_def list_ex_iff)
qed

lemma insert_after_emit: "insert_steps h spec (emit a b c w) = emit a b c (insert_steps h spec w)"
  by (cases w) (simp add: insert_steps_def emit_def step_row_def)

lemma started_shape:
  assumes spec: "wf_steps spec = s # ss" and fresh: "fresh_run h spec v" and same: "steps w = steps v"
    and live: "run_status_of (lh_run_id h) w = Some RRunning"
  shows "map shape (run_steps (lh_run_id h) (start_steps h p spec dir m n w)) = ready_shape spec"
proof -
  obtain e where e: "start_steps h p spec dir m n w = fst (advancePipeline (lh_run_id h) (insert_steps h spec e))"
    "steps e = steps v" "run_status_of (lh_run_id h) (insert_steps h spec e) = Some RRunning"
  proof
    show "start_steps h p spec dir m n w = fst (advancePipeline (lh_run_id h) (insert_steps h spec
        (emit ''run.started'' (lh_run_id h)
              ([(''workflowId'', VStr (lp_workflow p))] @ opt_str ''parentRunId'' (lp_parent p)
               @ [(''gitIdentity'', VList [gi_name (lh_identity h dir), gi_email (lh_identity h dir),
                    gi_source (lh_identity h dir)]),
                  (''detail'', VStr (''Run #'' @ nat_str n @ '': '' @ lp_task p))]) w)))"
      by (simp add: start_steps_def Let_def insert_after_emit)
  qed (use same live in \<open>simp_all add: run_status_of_def find_run_def insert_steps_def\<close>)
  from next_of_new [OF spec steps_of_new_run [OF fresh e(2)]]
  have "start_steps h p spec dir m n w
      = promote_step (lh_run_id h) (step_row h spec 0 s e) (insert_steps h spec e)"
    by (simp add: e advancePipeline_def)
  then show ?thesis using promoted_rows [OF spec fresh e(2)] by simp
qed

section \<open>A launch that returns\<close>

lemma prepared_shape:
  assumes spec: "wf_steps spec \<noteq> []" and fresh: "fresh_run h spec w"
    and keep: "\<And>v. steps (lh_admitting h v) = steps v"
    and fin: "prepare_run h p spec w = (w', b, Inr n)"
  shows "map shape (run_steps (lh_run_id h) w') = ready_shape spec \<and> n = next_run_number w"
proof -
  obtain s ss where s: "wf_steps spec = s # ss" using spec by (cases "wf_steps spec") auto
  let ?ws = "case wf_workspace spec of None \<Rightarrow> ''direct'' | Some m \<Rightarrow> m"
  obtain w1 b1 res where o: "open_workspace h p ?ws w = (w1, b1, res)" by (metis surj_pair)
  obtain dir m where res: "res = Inr (dir, m)"
    using fin o by (cases res) (auto simp: prepare_run_def Let_def)
  obtain w2 ad where a: "admit_sandbox h p dir w1 = (w2, ad)" by fastforce
  obtain u where ad: "ad = Inr u" using fin o a res by (cases ad) (simp_all add: prepare_run_def Let_def)
  note o = o [unfolded res] and a = a [unfolded ad]
  have w': "w' = start_steps h p spec dir m n (recapture_base h p ?ws dir (establish_test_cmd (lh_run_id h) m w2))"
    and n: "n = next_run_number w"
    using fin o a by (auto simp: prepare_run_def Let_def)
  have "steps w2 = steps w" using admitted_steps [OF a keep] open_steps [OF o] by simp
  moreover have "run_status_of (lh_run_id h) w2 = Some RRunning"
    using admitted_status [OF a] opened_status [OF fresh o] by simp
  ultimately show ?thesis unfolding w' using n by (simp add: started_shape [OF s fresh])
qed

lemma fail_launch_steps [simp]:
  "steps (failRefusedRunLaunch i wid e w) = steps w" "steps (failPersistedRunLaunch i wid e w) = steps w"
  by (auto simp: failRefusedRunLaunch_def failPersistedRunLaunch_def fail_launch_row_def split: option.split if_splits)

lemma registered_steps:
  assumes "idle_waits (lh_admit_host h)" "register_launched h p la sd = (sd', Inr l)"
  shows "steps (sd_store sd') = steps (sd_store sd)" "la_run l = la_run la" "la_number l = la_number la"
proof -
  obtain sd1 rep where r: "handleRegisterRun (lh_admit_host h) (lh_torn h) (lh_run_id h) sd = (sd1, rep)" by fastforce
  have "steps (sd_store sd1) = steps (sd_store sd)"
    using registered_rows [OF assms(1) r] by (simp add: rows_kept_def)
  then show "steps (sd_store sd') = steps (sd_store sd)" "la_run l = la_run la" "la_number l = la_number la"
    using assms(2) r
    by (auto simp: register_launched_def on_store_def split: register_reply.splits if_splits)
qed

lemma fold_max_above: "(k::nat) \<le> fold max xs k"
proof (induction xs arbitrary: k)
  case (Cons x xs)
  show ?case using Cons [of "max x k"] by simp
qed simp

lemma below_fold_max: "(x::nat) \<in> set xs \<Longrightarrow> x \<le> fold max xs k"
proof (induction xs arbitrary: k)
  case (Cons y ys)
  then show ?case using fold_max_above [of "max y k" ys] by auto
qed simp

lemma numbers_below: "list_all (\<lambda>r. r_run_number r < next_run_number w) (runs w)"
  by (auto simp: next_run_number_def list_all_iff less_Suc_eq_le intro!: below_fold_max)

text \<open>C37. A launch that returns leaves a run that is ready: it has exactly the steps of its workflow, in their order and
  for their agents, the first one pending and all others waiting, whatever the daemon answered to its
  registration; and its number is above that of every run before it.  (The keys drawn for it are new, and nobody
  writes steps while the sandbox admits it.)\<close>

theorem launched_run_ready:
  assumes spec: "lh_workflow h (lp_workflow p) = Inr spec" "wf_steps spec \<noteq> []"
    and fresh: "fresh_run h spec (sd_store sd)"
    and keep: "\<forall>v. steps (lh_admitting h v) = steps v" and q: "idle_waits (lh_admit_host h)"
    and fin: "runWorkflow h p sd = (sd', Inr la)"
  shows "map shape (run_steps (la_run la) (sd_store sd')) = ready_shape spec
    \<and> list_all (\<lambda>r. r_run_number r < la_number la) (runs (sd_store sd))"
proof -
  obtain w n where p: "prepare_or_fail h p spec (sd_store sd) = (w, Inr n)"
    using fin spec by (auto simp: runWorkflow_def Let_def split: option.splits if_splits prod.splits sum.splits)
  then obtain b where "prepare_run h p spec (sd_store sd) = (w, b, Inr n)"
    by (auto simp: prepare_or_fail_def split: prod.splits sum.splits launch_error.splits)
  from prepared_shape [OF spec(2) fresh _ this] keep
  have s: "map shape (run_steps (lh_run_id h) w) = ready_shape spec" "n = next_run_number (sd_store sd)" by auto
  have "steps (sd_store sd') = steps w \<and> la_run la = lh_run_id h \<and> la_number la = n"
    using fin spec p registered_steps [OF q]
    by (auto simp: runWorkflow_def Let_def split: option.splits if_splits)
  then show ?thesis using s numbers_below by (simp add: run_steps_def)
qed

section \<open>A launch that fails\<close>

text \<open>The row as the launch has written it, while nobody else writes it.\<close>

definition launch_keys :: "launch_params \<Rightarrow> ctx \<Rightarrow> bool" where
  "launch_keys p m \<longleftrightarrow> m ''paused_by'' = None \<and> (opted_in p \<longrightarrow> m ''pause_drain'' = Some ''true'')"

definition in_preparation :: "launch_params \<Rightarrow> string \<Rightarrow> store \<Rightarrow> bool" where
  "in_preparation p i w \<longleftrightarrow>
     (\<exists>r m. find_run i w = Some r \<and> r_context r = CtxObj m \<and> launch_keys p m \<and> r_status r = RRunning
        \<and> r_isolation_intent r = isolationIntentValue (opted_in p) \<and> r_matchlock_policy r = PolNull
        \<and> r_scheduling_status r = Some (initial_status (opted_in p)))"

lemma seed_keys: "lp_context p ''paused_by'' = None \<Longrightarrow> launch_keys p (seed_context p ws)"
  by (simp add: launch_keys_def seed_context_def Let_def split: option.split)

lemma base_keys [simp]:
  "launch_keys p (fst (snd (direct_workdir h p m w))) = launch_keys p m"
  "launch_keys p (fst (capture_base h p dir m w)) = launch_keys p m"
  by (simp_all add: launch_keys_def direct_workdir_def capture_base_def Let_def split: sum.split)

lemma patches_keys [simp]:
  "launch_keys p (m ++ gitIdentityContextPatch g) = launch_keys p m"
  "launch_keys p (m ++ worktree_patch h p mw) = launch_keys p m"
  by (simp_all add: launch_keys_def gitIdentityContextPatch_def worktree_patch_def map_add_def)

lemma origin_keys [simp]:
  "launch_keys p (m(''worktree_origin_repository'' \<mapsto> x)) = launch_keys p m"
  "launch_keys p (m(''worktree_origin_ref'' \<mapsto> x)) = launch_keys p m"
  by (simp_all add: launch_keys_def)

lemma insert_in_preparation:
  "fresh_run h spec v \<Longrightarrow> runs w = runs v \<Longrightarrow> launch_keys p m \<Longrightarrow>
   in_preparation p (lh_run_id h) (insert_run h p m w)"
  unfolding in_preparation_def by (simp add: new_run_live) (simp add: run_row_def)

lemma patch_in_preparation:
  assumes "in_preparation p i w"
  shows "in_preparation p i (patch_context i (worktree_patch h p mw) w)"
proof -
  obtain r m where r: "find_run i w = Some r" "r_context r = CtxObj m" "launch_keys p m" "r_status r = RRunning"
      "r_isolation_intent r = isolationIntentValue (opted_in p)" "r_matchlock_policy r = PolNull"
      "r_scheduling_status r = Some (initial_status (opted_in p))"
    using assms by (auto simp: in_preparation_def)
  have "find_run i (patch_context i (worktree_patch h p mw) w) = Some (r\<lparr>r_context := CtxObj (m ++ worktree_patch h p mw)\<rparr>)"
    unfolding patch_context_def using r by (subst run_table.find_upd_same) (auto split: ctx_col.split)
  then show ?thesis using r by (simp add: in_preparation_def)
qed

lemma open_in_preparation:
  assumes fresh: "fresh_run h spec w" and none: "lp_context p ''paused_by'' = None"
    and o: "open_workspace h p ws w = (w1, b, res)"
  shows "if b then in_preparation p (lh_run_id h) w1 else runs w1 = runs w \<and> (\<exists>e. res = Inl (LaunchFailed e))"
  using o seed_keys [OF none, of ws]
  by (auto simp: open_workspace_def open_direct_def open_worktree_def Let_def split_beta
      intro!: insert_in_preparation [OF fresh] patch_in_preparation
      split: if_splits option.splits sum.splits)

lemma open_failed: "open_workspace h p ws w = (w1, b, Inl e) \<Longrightarrow> \<exists>t. e = LaunchFailed t"
  by (auto simp: open_workspace_def open_direct_def open_worktree_def Let_def split_beta
      split: if_splits option.splits sum.splits)

lemma admission_in_preparation:
  assumes "admit_sandbox h p dir w = (w1, Inl e)" "in_preparation p (lh_run_id h) w" "\<And>v. lh_admitting h v = v"
  shows "w1 = w \<and> (\<exists>t. e = LaunchFailed t)"
proof -
  have "write_policy (lh_run_id h) pol w \<noteq> None" if "opted_in p" for pol
    using assms(2) that
    by (auto simp: in_preparation_def write_policy_def awaits_policy_def ctx_has_def launch_keys_def
        isolationIntentValue_def initial_status_def)
  then show ?thesis using assms(1,3)
    by (auto simp: admit_sandbox_def split: if_splits sum.splits option.splits) (metis option.distinct(1))+
qed

text \<open>What is told of a launch whose row is kept: the row has failed, with the reason.\<close>

definition failed_with :: "string \<Rightarrow> string \<Rightarrow> store \<Rightarrow> bool" where
  "failed_with i e w \<longleftrightarrow>
     (\<forall>r. find_run i w = Some r \<longrightarrow>
        r_status r = RFailed \<and> (\<exists>m. r_scheduling_error r = Some m \<and> (e = m \<or> e = register_text m)))"

lemma persisted_failure:
  "in_preparation p i w \<Longrightarrow> failed_with i e (failPersistedRunLaunch i wid e w)"
  by (auto simp: in_preparation_def failPersistedRunLaunch_def fail_launch_row_def readable_def ctx_has_def
      launch_keys_def failed_with_def find_set_run)

lemma unprepared_failed:
  assumes fresh: "fresh_run h spec w" and none: "lp_context p ''paused_by'' = None"
    and alone: "\<And>v. lh_admitting h v = v"
    and fin: "prepare_or_fail h p spec w = (w', Inl e)"
  shows "failed_with (lh_run_id h) e w'"
proof -
  let ?ws = "case wf_workspace spec of None \<Rightarrow> ''direct'' | Some m \<Rightarrow> m"
  obtain w1 b res where o: "open_workspace h p ?ws w = (w1, b, res)" by (metis surj_pair)
  note live = open_in_preparation [OF fresh none o]
  obtain w2 le where pr: "prepare_run h p spec w = (w2, b, Inl le)"
    using fin o by (auto simp: prepare_or_fail_def prepare_run_def Let_def split: sum.splits prod.splits)
  have w2: "w2 = w1 \<and> (\<exists>t. le = LaunchFailed t)"
  proof (cases res)
    case (Inr x)
    then show ?thesis
      using pr o live admission_in_preparation [OF _ _ alone, of p _ w1]
      by (cases x) (auto simp: prepare_run_def Let_def split: if_splits prod.splits sum.splits)
  next
    case (Inl y)
    then show ?thesis using pr o open_failed [of h p ?ws w w1 b y] by (auto simp: prepare_run_def Let_def)
  qed
  then have "w' = (if b then failPersistedRunLaunch (lh_run_id h) (lp_workflow p) e w1 else w1)"
    using fin pr by (auto simp: prepare_or_fail_def)
  moreover have "find_run (lh_run_id h) w = None"
    using fresh by (auto simp: fresh_run_def find_run_def find_None_iff list_all_iff)
  ultimately show ?thesis
    using live persisted_failure by (auto simp: failed_with_def find_run_def split: if_splits)
qed

lemma teardown_error:
  "find_run i (scheduleRunCronTeardown j w) = Some r \<Longrightarrow>
   \<exists>q. find_run i w = Some q \<and> r_status r = r_status q \<and> r_scheduling_error r = r_scheduling_error q"
  by (auto simp: scheduleRunCronTeardown_def Let_def find_set_run split: option.splits if_splits)

lemma unregistered_failed:
  assumes "register_launched h p la sd = (sd', Inl e)"
  shows "failed_with (lh_run_id h) e (sd_store sd')"
proof -
  obtain m w where "sd_store sd' = registration_failed h p m w" "e = register_text m"
    using assms by (auto simp: register_launched_def on_store_def Let_def split_beta
        split: if_splits register_reply.splits)
  then show ?thesis
    by (auto simp: failed_with_def registration_failed_def find_set_run dest!: teardown_error)
qed

text \<open>C38. When the context given does not claim to be paused by someone, the keys are new and nobody writes while
  the sandbox admits the run, a launch that fails leaves no run behind that would be taken for a live one: its row, if it
  was written at all, has failed and tells why, with the error the caller gets.  (With \<^verbatim>\<open>paused_by\<close> in the context
  it can be left running: lemma \<open>paused_launch_left_running\<close>.)\<close>

theorem failed_launch_recorded:
  assumes fresh: "\<And>spec. lh_workflow h (lp_workflow p) = Inr spec \<Longrightarrow> fresh_run h spec (sd_store sd)"
    and unknown: "find_run (lh_run_id h) (sd_store sd) = None"
    and none: "lp_context p ''paused_by'' = None"
    and alone: "\<And>v. lh_admitting h v = v"
    and fin: "runWorkflow h p sd = (sd', Inl e)"
  shows "failed_with (lh_run_id h) e (sd_store sd')"
proof (cases "lh_workflow h (lp_workflow p)")
  case (Inr spec)
  show ?thesis
  proof (cases "sd_store sd' = sd_store sd")
    case True
    then show ?thesis using unknown by (simp add: failed_with_def)
  next
    case False
    obtain w res where p: "prepare_or_fail h p spec (sd_store sd) = (w, res)" by fastforce
    show ?thesis
    proof (cases res)
      case (Inl t)
      then have "sd_store sd' = w \<and> t = e"
        using fin Inr p False by (auto simp: runWorkflow_def split: option.splits if_splits)
      then show ?thesis using unprepared_failed [OF fresh [OF Inr] none alone] p Inl by simp
    next
      case (Inr n)
      have "\<exists>la. register_launched h p la (sd\<lparr>sd_store := w\<rparr>) = (sd', Inl e)"
        using fin \<open>lh_workflow h (lp_workflow p) = Inr spec\<close> p Inr False
        by (auto simp: runWorkflow_def Let_def split: option.splits if_splits)
      then show ?thesis using unregistered_failed by blast
    qed
  qed
qed (use fin unknown in \<open>auto simp: runWorkflow_def failed_with_def\<close>)

section \<open>Samples\<close>

definition spec0 :: workflow_spec where
  "spec0 = \<lparr>wf_id = ''demo'', wf_workspace = None,
     wf_steps =
       [\<lparr>ws_id = ''plan'', ws_agent = ''planner'', ws_type = None, ws_condition = None, ws_loop = None,
         ws_input = ''do'', ws_expects = [], ws_max_retries = None\<rparr>,
        \<lparr>ws_id = ''code'', ws_agent = ''coder'', ws_type = None, ws_condition = None, ws_loop = None,
         ws_input = ''do'', ws_expects = [], ws_max_retries = Some 1\<rparr>]\<rparr>"

text \<open>A daemon that answers, a directory under git, a sandbox that is not asked for.\<close>

definition launch_host0 :: launch_host where
  "launch_host0 =
     \<lparr>lh_admit_host = admit_host0\<lparr>ah_load := (\<lambda>i. Inr [(''planner'', 60), (''coder'', 60)])\<rparr>, lh_torn = [], lh_run_id = ''new'', lh_step_id = (\<lambda>i. replicate (Suc i) (CHR ''+'')),
      lh_state_dir = ''/state'', lh_workflow = (\<lambda>i. if i = ''demo-merge'' then Inr spec0 else Inl ''no workflow''),
      lh_git = (\<lambda>args dir. Inr ''true''), lh_identity = (\<lambda>dir. \<lparr>gi_name = ''n'', gi_email = ''e'', gi_source = ''s''\<rparr>),
      lh_worktree = Inl ''no worktree'', lh_capability = None, lh_admission = (\<lambda>p dir. Inr sandbox0),
      lh_admitting = (\<lambda>w. w), lh_daemon = None, lh_answers = True\<rparr>"

definition params0 :: launch_params where
  "params0 = \<lparr>lp_workflow = ''demo-merge'', lp_task = ''task'', lp_notify = None, lp_context = (\<lambda>k. None),
     lp_workdir = Some ''/other'', lp_origin = None, lp_origin_ref = None, lp_no_hurry = False, lp_harness = None,
     lp_image = None, lp_policy = None, lp_no_relaunch = False, lp_collision = None, lp_parent = None\<rparr>"

definition launched0 :: "scheduler \<times> (string + launched)" where
  "launched0 = runWorkflow launch_host0 params0 registry0"

lemma returned:
  fixes x :: "'a \<times> (string + 'b)"
  shows "map_sum (\<lambda>e. e) f (snd x) = Inr y \<Longrightarrow> \<exists>z. x = (fst x, Inr z) \<and> f z = y"
    "map_sum (\<lambda>e. e) f (snd x) = Inl e \<Longrightarrow> x = (fst x, Inl e)"
proof -
  obtain a b where x: "x = (a, b)" by fastforce
  show "map_sum (\<lambda>e. e) f (snd x) = Inr y \<Longrightarrow> \<exists>z. x = (fst x, Inr z) \<and> f z = y"
    "map_sum (\<lambda>e. e) f (snd x) = Inl e \<Longrightarrow> x = (fst x, Inl e)"
    by (cases b; simp add: x)+
qed

lemma launched0_result:
  "map_sum (\<lambda>e. e) la_run (snd launched0) = Inr ''new''"
  by code_simp

lemma fresh0: "fresh_run launch_host0 spec0 (sd_store registry0)"
  by code_simp

lemma undisturbed_launch0:
  "idle_waits (lh_admit_host launch_host0)" "lh_workflow launch_host0 ''demo-merge'' = Inr spec0"
  "steps (lh_admitting launch_host0 v) = steps v" "lh_admitting launch_host0 v = v"
  by (simp_all add: launch_host0_def idle_waits_def admit_host0_def)

theorem launched_run_ready_witness:
  "\<exists>sd' la. launched0 = (sd', Inr la)
     \<and> map shape (run_steps (la_run la) (sd_store sd'))
       = [(''plan'', ''demo_planner'', SPending), (''code'', ''demo_coder'', SWaiting)]"
proof -
  obtain sd' la where l: "launched0 = (sd', Inr la)"
    using returned(1) [OF launched0_result] by blast
  have "map shape (run_steps (la_run la) (sd_store sd')) = ready_shape spec0"
    using launched_run_ready [of launch_host0 params0 spec0 registry0 sd' la] l fresh0 undisturbed_launch0
    by (simp add: launched0_def params0_def spec0_def)
  moreover have "ready_shape spec0 = [(''plan'', ''demo_planner'', SPending), (''code'', ''demo_coder'', SWaiting)]"
    by code_simp
  ultimately show ?thesis unfolding l by simp
qed

text \<open>A directory that is gone fails a direct launch before the row is written, a worktree that cannot be made after.\<close>

definition worktree_host0 :: launch_host where
  "worktree_host0 = launch_host0\<lparr>lh_workflow := (\<lambda>i. Inr (spec0\<lparr>wf_workspace := Some ''worktree''\<rparr>))\<rparr>"

definition failed_launch0 :: "scheduler \<times> (string + launched)" where
  "failed_launch0 = runWorkflow worktree_host0 (params0\<lparr>lp_workdir := None\<rparr>) registry0"

lemma failed_launch0_rows:
  "map_sum (\<lambda>e. e) la_run (snd failed_launch0) = Inl ''Failed to create managed worktree for run: no worktree''
   \<and> map (\<lambda>r. (r_id r, r_status r)) (runs (sd_store (fst failed_launch0)))
     = [(''r'', RRunning), (''q'', RRunning), (''new'', RFailed)]"
  by code_simp

theorem failed_launch_recorded_witness:
  "failed_with ''new'' ''Failed to create managed worktree for run: no worktree'' (sd_store (fst failed_launch0))"
proof -
  have "failed_launch0 = (fst failed_launch0, Inl ''Failed to create managed worktree for run: no worktree'')"
    using returned(2) failed_launch0_rows by blast
  then have "runWorkflow worktree_host0 (params0\<lparr>lp_workdir := None\<rparr>) registry0
      = (fst failed_launch0, Inl ''Failed to create managed worktree for run: no worktree'')"
    by (simp add: failed_launch0_def)
  moreover have "fresh_run worktree_host0 s (sd_store registry0)"
    if "lh_workflow worktree_host0 (lp_workflow (params0\<lparr>lp_workdir := None\<rparr>)) = Inr s" for s
    using that by (auto simp: worktree_host0_def launch_host0_def spec0_def fresh_run_def registry0_def two_runs_def
        run0_def step0_def scheduler0_def store0_def)
  moreover have "lh_run_id worktree_host0 = ''new''" "lh_admitting worktree_host0 v = v"
    "find_run ''new'' (sd_store registry0) = None" for v
    by (simp_all add: worktree_host0_def launch_host0_def registry0_def two_runs_def run0_def find_run_def scheduler0_def)
  ultimately show ?thesis
    using failed_launch_recorded [of worktree_host0 "params0\<lparr>lp_workdir := None\<rparr>" registry0 "fst failed_launch0"]
    by (simp add: params0_def)
qed

text \<open>A launch whose context carries the mark of a pause never gets its policy: the row stays as it was written,
  running and in preparation, with no steps.\<close>

definition paused_launch0 :: "scheduler \<times> (string + launched)" where
  "paused_launch0 =
     runWorkflow launch_host0 (params0\<lparr>lp_policy := Some sandbox0, lp_context := [''paused_by'' \<mapsto> ''op'']\<rparr>) registry0"

lemma paused_launch_left_running:
  "map_sum (\<lambda>e. e) la_run (snd paused_launch0) = Inl admission_conflict_text
   \<and> map (\<lambda>r. (r_id r, r_status r, r_scheduling_status r)) (drop 2 (runs (sd_store (fst paused_launch0))))
     = [(''new'', RRunning, Some ''draining_pause'')]
   \<and> run_steps ''new'' (sd_store (fst paused_launch0)) = []"
  by code_simp

text \<open>A launch whose context carries a pending drain is reported as launched, but is not scheduled: the
  registration finds the drain.  A test command in the context becomes the one the launch declares.\<close>

definition marked_launch0 :: "scheduler \<times> (string + launched)" where
  "marked_launch0 =
     runWorkflow launch_host0 (params0\<lparr>lp_context := [''pause_drain'' \<mapsto> ''true'', ''test_cmd'' \<mapsto> ''make'']\<rparr>) registry0"

lemma marked_launch:
  "map_sum (\<lambda>e. e) la_status (snd marked_launch0) = Inr ''running''
   \<and> map (\<lambda>r. (r_scheduling_status r, r_test_cmd_established r, r_test_cmd_source r))
       (drop 2 (runs (sd_store (fst marked_launch0))))
     = [(Some ''pending_register'', Some ''make'', Some ''launch'')]
   \<and> sd_jobs (fst marked_launch0) = []"
  by code_simp

end
