(* ===== verification/Rugpull_Props.thy ===== *)
theory Rugpull_Props
  imports Rugpull Launch_Props
begin

text \<open>
  A run that asked for a sandbox is never replaced by a native one: the intent is set with the row of a launch that
  inherits a policy, and no operation writes it again.  The samples at the end show what else a replacement
  inherits from the context of the run it replaces.
\<close>

section \<open>The intent of the rows\<close>

definition run_intent :: "run \<Rightarrow> string \<times> string option" where
  "run_intent r = (r_id r, r_isolation_intent r)"

definition intents :: "store \<Rightarrow> (string \<times> string option) list" where
  "intents w = map run_intent (runs w)"

interpretation intent: columns step_key run_intent story_key
  by unfold_locales (simp_all add: run_intent_def step_key_def story_key_def)

lemma intents_columns: "columns_of step_key run_intent story_key x = columns_of step_key run_intent story_key w \<Longrightarrow>
  intents x = intents w"
  by (simp add: columns_of_def intents_def)

lemma intents_upd [simp]:
  "(\<And>r. run_intent (f r) = run_intent r) \<Longrightarrow> intents (set_run i f w) = intents w"
  "(\<And>r. run_intent (f r) = run_intent r) \<Longrightarrow> intents (upd_run i f w) = intents w"
  by (rule intents_columns, simp)+

lemma intents_log [simp]: "intents (emit a b c w) = intents w" "intents (call e w) = intents w"
  by (rule intents_columns, simp)+

lemma intents_pipeline [simp]:
  "intents (fst (advancePipeline i w)) = intents w" "intents (scheduleRunCronTeardown i w) = intents w"
  "intents (snd (parseRunContext i c w)) = intents w"
  by (rule intents_columns, simp)+

lemma intents_rows_kept: "rows_kept w x \<Longrightarrow> intents x = intents w"
proof -
  have "list_all2 row_kept rs ys \<Longrightarrow> map run_intent ys = map run_intent rs" for rs ys
    by (induction rule: list_all2_induct) (simp_all add: row_kept_def run_intent_def)
  then show "rows_kept w x \<Longrightarrow> intents x = intents w" by (simp add: rows_kept_def intents_def)
qed

section \<open>The intent a launch sets\<close>

text \<open>The rows a launch adds to: none, or its own.\<close>

definition launch_adds :: "launch_host \<Rightarrow> launch_params \<Rightarrow> store \<Rightarrow> store \<Rightarrow> bool" where
  "launch_adds h p w x \<longleftrightarrow>
     intents x = intents w \<or> intents x = intents w @ [(lh_run_id h, isolationIntentValue (opted_in p))]"

lemma launch_adds_same: "launch_adds h p w x \<Longrightarrow> intents y = intents x \<Longrightarrow> launch_adds h p w y"
  by (simp add: launch_adds_def)

lemma intents_insert [simp]:
  "intents (insert_run h p m w) = intents w @ [(lh_run_id h, isolationIntentValue (opted_in p))]"
  by (simp add: intents_def insert_run_def run_intent_def) (simp add: run_row_def)

lemma intents_patch [simp]: "intents (patch_context i c w) = intents w"
  unfolding patch_context_def by (rule intents_upd) (simp add: run_intent_def split: ctx_col.split)

lemma intents_prepare [simp]:
  "intents (snd (snd (direct_workdir h p m w))) = intents w" "intents (snd (capture_base h p dir m w)) = intents w"
  "intents (recapture_base h p ws dir w) = intents w" "intents (insert_steps h spec w) = intents w"
  by (simp_all add: intents_def) (simp add: insert_steps_def)

lemma intents_test_cmd [simp]: "intents (establish_test_cmd i m w) = intents w"
  by (simp add: establish_test_cmd_def run_intent_def split: option.split)

lemma intents_start [simp]: "intents (start_steps h p spec dir m n w) = intents w"
  by (simp add: start_steps_def Let_def)

lemma open_adds: "open_workspace h p ws w = (w1, b, res) \<Longrightarrow> launch_adds h p w w1"
  by (auto simp: launch_adds_def open_workspace_def open_direct_def open_worktree_def Let_def split_beta
      split: if_splits option.splits sum.splits)

lemma admission_intents:
  "admit_sandbox h p dir w = (w1, res) \<Longrightarrow> (\<And>v. intents (lh_admitting h v) = intents v) \<Longrightarrow> intents w1 = intents w"
  by (auto simp: admit_sandbox_def write_policy_def run_intent_def split: if_splits sum.splits option.splits)

lemma prepare_adds:
  assumes "\<And>v. intents (lh_admitting h v) = intents v" "prepare_run h p spec w = (w1, b, res)"
  shows "launch_adds h p w w1"
proof -
  let ?ws = "case wf_workspace spec of None \<Rightarrow> ''direct'' | Some m \<Rightarrow> m"
  obtain w2 b2 op where o: "open_workspace h p ?ws w = (w2, b2, op)" by (metis surj_pair)
  show ?thesis
  proof (cases op)
    case (Inr x)
    obtain w3 ad where a: "admit_sandbox h p (fst x) w2 = (w3, ad)" by fastforce
    have "intents w1 = intents w3"
      using assms(2) o a Inr by (cases x; cases ad) (auto simp: prepare_run_def Let_def)
    then show ?thesis using launch_adds_same [OF open_adds [OF o]] admission_intents [OF a assms(1)] by simp
  qed (use assms(2) o open_adds [OF o] in \<open>auto simp: prepare_run_def Let_def\<close>)
qed

lemma fail_row_intents [simp]:
  "intents (failPersistedRunLaunch i wid e w) = intents w" "intents (failRefusedRunLaunch i wid e w) = intents w"
  by (auto simp: failPersistedRunLaunch_def failRefusedRunLaunch_def fail_launch_row_def run_intent_def
      split: option.split if_splits)

lemma registration_failed_intents [simp]: "intents (registration_failed h p m w) = intents w"
  by (simp add: registration_failed_def run_intent_def)

lemma register_intents:
  assumes "idle_waits (lh_admit_host h)" "register_launched h p la sd = (sd', res)"
  shows "intents (sd_store sd') = intents (sd_store sd)"
proof -
  obtain sd1 rep where r: "handleRegisterRun (lh_admit_host h) (lh_torn h) (lh_run_id h) sd = (sd1, rep)" by fastforce
  have "intents (sd_store sd1) = intents (sd_store sd)" using intents_rows_kept registered_rows [OF assms(1) r] .
  then show ?thesis using assms(2) r
    by (auto simp: register_launched_def on_store_def split: register_reply.splits if_splits)
qed

lemma launch_adds_row:
  assumes q: "idle_waits (lh_admit_host h)" and keep: "\<And>v. intents (lh_admitting h v) = intents v"
    and fin: "runWorkflow h p sd = (sd', res)"
  shows "launch_adds h p (sd_store sd) (sd_store sd')"
proof (cases "intents (sd_store sd') = intents (sd_store sd)")
  case False
  then obtain spec where spec: "lh_workflow h (lp_workflow p) = Inr spec"
    using fin by (auto simp: runWorkflow_def split: sum.splits)
  obtain w pr where pr: "prepare_or_fail h p spec (sd_store sd) = (w, pr)" by fastforce
  obtain w1 b r1 where p1: "prepare_run h p spec (sd_store sd) = (w1, b, r1)" by (metis surj_pair)
  have "intents w = intents w1"
    using pr p1 by (auto simp: prepare_or_fail_def split: sum.splits launch_error.splits if_splits)
  moreover have "intents (sd_store sd') = intents w"
    using fin spec pr False register_intents [OF q, of p _ "sd\<lparr>sd_store := w\<rparr>" sd' res]
    by (auto simp: runWorkflow_def Let_def split: option.splits if_splits sum.splits)
  ultimately show ?thesis using launch_adds_same [OF prepare_adds [OF keep p1]] by simp
qed (simp add: launch_adds_def)

section \<open>The replacement of a sandboxed run\<close>

lemma new_row_intent:
  assumes "find_run i w = None" "find_run i x = Some q" "intents x = intents w @ [(i, v)] \<or> intents x = intents w"
  shows "r_isolation_intent q = v"
proof -
  have "q \<in> set (runs x)" "r_id q = i"
    using assms(2) by (auto simp: find_run_def find_Some_iff)
  then have "(i, r_isolation_intent q) \<in> set (intents x)" by (auto simp: intents_def run_intent_def)
  moreover have "\<forall>c. (i, c) \<notin> set (intents w)"
    using assms(1) by (auto simp: find_run_def find_None_iff intents_def run_intent_def)
  ultimately show ?thesis using assms(3) by auto
qed

lemma planned_sandbox:
  "plan_replacement r m = Inr p \<Longrightarrow> readIsolationState r \<noteq> Native \<Longrightarrow> opted_in p"
  by (auto simp: plan_replacement_def inherited_policy_def replacement_params_def replacement_base_def Let_def
      opted_in_def readIsolationState_def classifyIsolationState_def
      split: policy_col.splits if_splits sum.splits)

lemma note_intents:
  "plan_replacement r m = Inl note \<Longrightarrow> intents (note w) = intents w"
  by (auto simp: plan_replacement_def relaunch_failed_def split: sum.splits if_splits)

lemma relaunch_failed_intents [simp]: "intents (relaunch_failed r e w) = intents w"
  by (simp add: relaunch_failed_def)

lemma relaunch_adds:
  assumes q: "idle_waits (lh_admit_host h)" and keep: "\<And>v. intents (lh_admitting h v) = intents v"
    and r: "find_run i (sd_store sd) = Some r" "readIsolationState r \<noteq> Native"
    and fin: "relaunchRunAfterRugpull h i sd = (sd', res)"
  shows "intents (sd_store sd') = intents (sd_store sd)
    \<or> intents (sd_store sd') = intents (sd_store sd) @ [(lh_run_id h, Some ''true'')]"
proof -
  obtain m w where c: "parseRunContext i (r_context r) (sd_store sd) = (m, w)" by fastforce
  have w: "intents w = intents (sd_store sd)" using intents_pipeline(3) [of i "r_context r" "sd_store sd"] c by simp
  show ?thesis
  proof (cases "plan_replacement r m")
    case (Inl tell)
    then show ?thesis using fin r c w note_intents [OF Inl, of w] by (auto simp: relaunchRunAfterRugpull_def)
  next
    case (Inr p)
    obtain sd1 out where l: "runWorkflow h p (sd\<lparr>sd_store := w\<rparr>) = (sd1, out)" by fastforce
    have "intents (sd_store sd') = intents (sd_store sd1)"
      using fin r c Inr l by (auto simp: relaunchRunAfterRugpull_def on_store_def split: sum.splits option.splits)
    moreover have "isolationIntentValue (opted_in p) = Some ''true''"
      using planned_sandbox [OF Inr r(2)] by (simp add: isolationIntentValue_def)
    ultimately show ?thesis
      using launch_adds_row [OF q keep l] w by (simp add: launch_adds_def)
  qed
qed

lemma detection_rows:
  "detectRugpull h i w = (w', res) \<Longrightarrow> runs w' = runs w"
proof -
  have p: "runs (snd (parseRunContext i c v)) = runs v" for c v
    by (simp add: parseRunContext_def split: ctx_col.split)
  show "detectRugpull h i w = (w', res) \<Longrightarrow> runs w' = runs w"
    by (auto simp: detectRugpull_def Let_def split_beta p split: option.splits if_splits sum.splits)
qed

text \<open>C39. A run that asked for a sandbox is never replaced by a native run: whatever became of the base branch
  and of its policy, the run that the check after a failure launches in its place, if it launches one, is in preparation,
  isolated or held as unusable.  (The key of the replacement is new, and nobody writes the intent of a run while its
  sandbox admits it or the daemon waits.)\<close>

theorem replacement_never_native:
  assumes run: "find_run runId (sd_store sd) = Some r" "readIsolationState r \<noteq> Native"
    and new: "find_run (lh_run_id h) (sd_store sd) = None"
    and keep: "\<And>v. intents (lh_admitting h v) = intents v" and q: "idle_waits (lh_admit_host h)"
    and row: "find_run (lh_run_id h) (sd_store (check_rugpull h runId workflowId sd)) = Some n"
  shows "readIsolationState n \<noteq> Native"
proof -
  obtain w moved reason where d: "detectRugpull h runId (sd_store sd) = (w, moved, reason)" by (metis surj_pair)
  note rows = detection_rows [OF d]
  define e where "e = emit ''run.rugpull_detected'' runId
    (opt_str ''workflowId'' workflowId @ [(''detail'', VStr reason)])"
  define sd1 where "sd1 = on_store e (sd\<lparr>sd_store := w\<rparr>)"
  have same: "runs (sd_store sd1) = runs (sd_store sd)" by (simp add: sd1_def e_def on_store_def rows)
  have c: "check_rugpull h runId workflowId sd
      = (if moved then fst (relaunchRunAfterRugpull h runId sd1) else sd\<lparr>sd_store := w\<rparr>)"
    by (simp add: check_rugpull_def d sd1_def e_def)
  have m: moved using row new rows c by (cases moved) (auto simp: find_run_def)
  obtain sd2 res where re: "relaunchRunAfterRugpull h runId sd1 = (sd2, res)" by fastforce
  have "find_run runId (sd_store sd1) = Some r" using run(1) same by (simp add: find_run_def)
  from relaunch_adds [OF q keep this run(2) re]
  have "intents (sd_store sd2) = intents (sd_store sd)
      \<or> intents (sd_store sd2) = intents (sd_store sd) @ [(lh_run_id h, Some ''true'')]"
    using same by (simp add: intents_def)
  then have "r_isolation_intent n = Some ''true''"
    using new_row_intent [OF new, of "sd_store sd2" n] row c m re by auto
  then show ?thesis
    by (simp add: readIsolationState_def classifyIsolationState_def readIsolationIntent_def split: policy_col.split)
qed

section \<open>Samples\<close>

text \<open>A merge run that has failed in its merge, and whose base has moved from \<open>old\<close> to the tip git reports.\<close>

definition moved_ctx :: ctx where
  "moved_ctx = [''base_branch_sha'' \<mapsto> ''old'', ''repo'' \<mapsto> ''/other'', ''working_directory_for_harness'' \<mapsto> ''/other'']"

definition moved_run :: "policy_col \<Rightarrow> (ctx \<Rightarrow> ctx) \<Rightarrow> scheduler" where
  "moved_run pol m = registry0\<lparr>sd_store := store0\<lparr>
     runs := [run0\<lparr>r_workflow_id := ''demo-merge'', r_status := RFailed, r_matchlock_policy := pol,
                   r_context := CtxObj (m moved_ctx)\<rparr>],
     steps := [step0, merge0\<lparr>s_status := SFailed\<rparr>], stories := []\<rparr>\<rparr>"

definition replaced :: "policy_col \<Rightarrow> (ctx \<Rightarrow> ctx) \<Rightarrow> store" where
  "replaced pol m = sd_store (check_rugpull launch_host0 ''r'' None (moved_run pol m))"

definition replacement_view :: "store \<Rightarrow> (string \<times> run_status \<times> string option \<times> isolation_state) list" where
  "replacement_view w = map (\<lambda>r. (r_id r, r_status r, r_scheduling_status r, readIsolationState r)) (tl (runs w))"

lemma replaced_isolated:
  "replacement_view (replaced (PolPinned sandbox0) (\<lambda>m. m)) = [(''new'', RRunning, Some ''active'', Isolated)]"
  by code_simp

lemma find_in_tail:
  assumes "i \<in> r_id ` set (tl (runs w))"
  shows "\<exists>n. find_run i w = Some n"
proof -
  have "\<exists>q \<in> set (runs w). r_id q = i" using assms by (cases "runs w") auto
  then have "find_run i w \<noteq> None" by (auto simp: find_run_def find_None_iff)
  then show ?thesis by blast
qed

theorem replacement_never_native_witness:
  "\<exists>n. find_run ''new'' (replaced (PolPinned sandbox0) (\<lambda>m. m)) = Some n \<and> readIsolationState n \<noteq> Native"
proof -
  let ?sd = "moved_run (PolPinned sandbox0) (\<lambda>m. m)"
  have "''new'' \<in> r_id ` set (tl (runs (replaced (PolPinned sandbox0) (\<lambda>m. m))))"
    using replaced_isolated by (auto simp: replacement_view_def)
  from find_in_tail [OF this] obtain n where n: "find_run ''new'' (replaced (PolPinned sandbox0) (\<lambda>m. m)) = Some n" ..
  have "find_run ''r'' (sd_store ?sd) = Some (hd (runs (sd_store ?sd)))"
    "readIsolationState (hd (runs (sd_store ?sd))) = Isolated" "find_run ''new'' (sd_store ?sd) = None"
    "lh_run_id launch_host0 = ''new''"
    by (simp_all add: moved_run_def sample_defs find_run_def readIsolationState_def classifyIsolationState_def
        launch_host0_def)
  then show ?thesis
    using replacement_never_native [of "''r''" ?sd _ launch_host0 None n] n undisturbed_launch0
    by (simp add: replaced_def)
qed

text \<open>What operations and steps wrote into the context of the failed run stays with its replacement as if it were given by
  the caller: a pending drain, the mark of an earlier pause, a test command that a step reported.  The launches
  \<open>marked_launch\<close> and \<open>paused_launch_left_running\<close> show what becomes of runs that start with these.\<close>

lemma replacement_keeps_marks:
  "plan_replacement r m = Inr p \<Longrightarrow> k \<in> {''pause_drain'', ''paused_by'', ''test_cmd''} \<Longrightarrow> lp_context p k = m k"
  by (auto simp: plan_replacement_def replacement_params_def replacement_base_def Let_def extractUserContext_def
      USER_CONTEXT_DENYLIST_def split: if_splits sum.splits)

end
