(* ===== verification/Resume_Failed.thy ===== *)
theory Resume_Failed
  imports Resume Launch
begin

text \<open>
  The resume of a failed run by the command line (\<^verbatim>\<open>resumeWorkflow\<close> in \<^verbatim>\<open>src/src/installer/run.ts\<close>): the checks, the
  transaction that puts the steps from the first failed one on back to work, the failed stories and the row, the
  registration, and what becomes of the run when it is refused.

  The way back of a sandboxed run is that of \<^theory_text>\<open>Resume\<close>: the text of the program is the same.  The columns
  of the harness probe are left out, and so is the code that accompanies the message of a refused preflight.
\<close>

record cli_host = resume_host +
  ch_daemon :: "string option"
  ch_capability :: "string option"
  ch_answers :: bool

datatype cli_reply =
  CliNotFound
| CliPreparing
| CliRefused string
| CliWorkdirRefused string
| CliResumed "string option" nat "string option"

section \<open>Checks\<close>

definition cli_isolation :: "cli_host \<Rightarrow> bool \<Rightarrow> run \<Rightarrow> string + bool" where
  "cli_isolation h override r =
     (case r_matchlock_policy r of
        PolUnusable code reason \<Rightarrow> Inl (unusable_text code reason)
      | PolNull \<Rightarrow> if override then Inl native_override_text else Inr False
      | PolPinned p \<Rightarrow> rh_preflight h p override)"

definition run_changed_text :: string where
  "run_changed_text =
     ''Cannot resume run: the run'' @ [CHR 0x27] @ ''s state changed concurrently (cancellation, pause/drain or a competing resume); retry the resume.''"

section \<open>The transaction\<close>

definition collision_context :: "collision_policy \<Rightarrow> ctx_col \<Rightarrow> ctx" where
  "collision_context c prior =
     (let m = (case prior of CtxObj m \<Rightarrow> m | CtxCorrupt text \<Rightarrow> Map.empty)
      in if c = Refuse then drop_key ''workdir_collision_policy'' m
         else m(''workdir_collision_policy'' \<mapsto> collision_text c))"

definition requeue_row :: "run \<Rightarrow> bool \<Rightarrow> collision_policy \<Rightarrow> store \<Rightarrow> store" where
  "requeue_row r grant c w =
     set_run (r_id r)
       (\<lambda>q. q\<lparr>r_matchlock_policy := (if grant then withGrantedRootUsageConsent (r_matchlock_policy r)
                                    else r_matchlock_policy q),
              r_status := RRunning, r_scheduling_status := Some ''pending_register'',
              r_scheduling_requested_at := Some (now w), r_scheduling_error := None,
              r_context := CtxObj (collision_context c (r_context r))\<rparr>) w"

text \<open>The step the run starts again from: the first that failed, or the first that is not done.\<close>

definition restart_from :: "string \<Rightarrow> store \<Rightarrow> step option" where
  "restart_from runId w =
     (case first_min s_step_index (filter (\<lambda>s. s_status s = SFailed) (run_steps runId w)) of
        Some s \<Rightarrow> Some s
      | None \<Rightarrow> first_min s_step_index (filter (\<lambda>s. s_status s \<noteq> SDone) (run_steps runId w)))"

definition reset_from :: "string \<Rightarrow> nat \<Rightarrow> store \<Rightarrow> store" where
  "reset_from runId k w =
     w\<lparr>steps := upd_where (\<lambda>s. s_run_id s = runId \<and> k \<le> s_step_index s)
         (\<lambda>s. s\<lparr>s_status := SWaiting, s_retry_count := 0, s_output := None, s_updated_at := Some (now w)\<rparr>) (steps w)\<rparr>"

definition restart_steps :: "string \<Rightarrow> store \<Rightarrow> store" where
  "restart_steps runId w =
     (case restart_from runId w of None \<Rightarrow> w | Some s \<Rightarrow> reset_from runId (s_step_index s) w)"

definition restart_rows :: "run \<Rightarrow> bool \<Rightarrow> collision_policy \<Rightarrow> store \<Rightarrow> store \<times> step option \<times> nat" where
  "restart_rows r grant c w =
     (let w1 = requeue_row r grant c w;
          (w2, n) = resetFailedStoriesForResume (r_id r) (restart_steps (r_id r) w1)
      in ((if list_ex (\<lambda>s. s_status s = SWaiting) (run_steps (r_id r) w2) then fst (advancePipeline (r_id r) w2) else w2),
          restart_from (r_id r) w1, n))"

text \<open>\<open>r\<close> is the row the checks were made on; the row of the moment must be it still.\<close>

definition commit_failed_resume ::
    "run \<Rightarrow> bool \<Rightarrow> collision_policy \<Rightarrow> store \<Rightarrow> (store \<times> step option \<times> nat) option" where
  "commit_failed_resume r grant c w =
     (case find_run (r_id r) w of
        None \<Rightarrow> None
      | Some q \<Rightarrow>
          if r_status q = RFailed \<and> r_scheduling_status q = r_scheduling_status r
             \<and> r_matchlock_policy q = r_matchlock_policy r \<and> r_context q = r_context r
          then Some (restart_rows r grant c w) else None)"

section \<open>The registration\<close>

definition row_refused :: "string \<Rightarrow> string \<Rightarrow> store \<Rightarrow> store" where
  "row_refused runId msg w =
     set_run runId (\<lambda>q. q\<lparr>r_status := RFailed, r_scheduling_status := Some ''error'',
                          r_scheduling_requested_at := None, r_scheduling_error := Some msg\<rparr>) w"

definition row_unregistered :: "string \<Rightarrow> string \<Rightarrow> store \<Rightarrow> store" where
  "row_unregistered runId msg w =
     set_run runId (\<lambda>q. q\<lparr>r_status := RFailed, r_scheduling_status := None, r_scheduling_error := Some msg\<rparr>) w"

text \<open>\<open>way\<close> is the way back of a sandboxed run.\<close>

definition resume_unregistered ::
    "run \<Rightarrow> (store \<Rightarrow> store) option \<Rightarrow> bool \<Rightarrow> string \<Rightarrow> store \<Rightarrow> store" where
  "resume_unregistered r way retriable msg w =
     (let w1 = (case way of Some f \<Rightarrow> f w | None \<Rightarrow> row_unregistered (r_id r) msg w)
      in scheduleRunCronTeardown (r_id r)
           (if retriable then w1
            else emit ''run.failed'' (r_id r)
                   [(''workflowId'', VStr (r_workflow_id r)),
                    (''detail'', VStr (''Resume registration failed: '' @ msg))] w1))"

definition register_error_text :: "string \<Rightarrow> string" where
  "register_error_text msg = ''Failed to register resumed run with daemon: '' @ msg"

definition register_restarted ::
    "cli_host \<Rightarrow> run \<Rightarrow> (store \<Rightarrow> store) option \<Rightarrow> step option \<Rightarrow> nat \<Rightarrow> scheduler \<Rightarrow> scheduler \<times> (string + cli_reply)" where
  "register_restarted h r way s n sd =
     (let (sd1, rep) = handleRegisterRun (rh_admit h) (rh_torn h) (r_id r) sd;
          resumed = (\<lambda>behind. (on_store (call NudgeDispatch) sd1, Inr (CliResumed (map_option s_step_id s) n behind)));
          unregistered = (\<lambda>retriable msg. (on_store (resume_unregistered r way retriable msg) sd1,
                                           Inl (register_error_text msg)))
      in if \<not> ch_answers h then unregistered False ''daemon registration failed''
         else (case rep of
                 WorkdirRefused msg ho dir \<Rightarrow>
                   (on_store (case way of Some f \<Rightarrow> f | None \<Rightarrow> row_refused (r_id r) msg) sd1,
                    Inr (CliWorkdirRefused msg))
               | WorkdirWaiting other dir \<Rightarrow> resumed (if other = [] then None else Some other)
               | _ \<Rightarrow> if accepted rep then resumed None
                      else unregistered (rep = TeardownInProgress) (reply_error rep)))"

section \<open>Resuming\<close>

text \<open>From the change of the rows on.  \<open>v\<close> is the store before it, with the row as it was read first.\<close>

definition restart_run ::
    "cli_host \<Rightarrow> run \<Rightarrow> bool \<Rightarrow> collision_policy \<Rightarrow> scheduler \<Rightarrow> scheduler \<times> (string + cli_reply)" where
  "restart_run h r grant c sd =
     (case commit_failed_resume r grant c (sd_store sd) of
        None \<Rightarrow> (sd, Inr (CliRefused run_changed_text))
      | Some (u, s, n) \<Rightarrow>
          (let v = upd_run (r_id r) (\<lambda>q. r) (sd_store sd);
               way = (if r_matchlock_policy r = PolNull then None
                      else Some (resolveControlResumeWrites (r_id r) (now (sd_store sd)) v u))
           in register_restarted h r way s n (sd\<lparr>sd_store := u\<rparr>)))"

definition resumeWorkflow ::
    "cli_host \<Rightarrow> string \<Rightarrow> collision_policy \<Rightarrow> bool \<Rightarrow> scheduler \<Rightarrow> scheduler \<times> (string + cli_reply)" where
  "resumeWorkflow h runId c override sd =
     (case find_run runId (sd_store sd) of
        None \<Rightarrow> (sd, Inr CliNotFound)
      | Some r \<Rightarrow>
          if r_status r \<noteq> RFailed then (sd, Inr CliNotFound)
          else if readIsolationState r = Preparing then (on_store (hold_preparing runId) sd, Inr CliPreparing)
          else (case cli_isolation h override r of
                  Inl msg \<Rightarrow> (sd, Inr (CliRefused msg))
                | Inr grant \<Rightarrow>
                    (case ch_daemon h of
                       Some e \<Rightarrow> (sd, Inl e)
                     | None \<Rightarrow>
                         (case (if readIsolationState r = Isolated then ch_capability h else None) of
                            Some e \<Rightarrow> (sd, Inr (CliRefused e))
                          | None \<Rightarrow>
                              (let (w, res) = validateRunHarnessForScheduling (rh_admit h) runId (r_context r)
                                                (r_matchlock_policy r) (sd_store sd);
                                   sd1 = ah_validating (rh_admit h) (sd\<lparr>sd_store := w\<rparr>)
                               in case res of
                                    Inl e \<Rightarrow> (sd1, Inl e)
                                  | Inr dir \<Rightarrow> restart_run h r grant c sd1)))))"

end
