(* ===== verification/Resume_Failed_Props.thy ===== *)
theory Resume_Failed_Props
  imports Resume_Failed Launch_Props Recovery_Props
begin

text \<open>
  A failed run that is resumed from the command line works again from its first failed step on, with all retries, and
  keeps what was done before it.  The samples at the end show a resume that leaves nothing to claim.
\<close>

section \<open>The transaction on the steps\<close>

lemma reset_story_frame [simp]:
  "steps (fst (reset_story i f l t wn)) = steps (fst wn)" "runs (fst (reset_story i f l t wn)) = runs (fst wn)"
  by (simp_all add: reset_story_def split_beta)

lemma reset_stories_frame [simp]:
  "steps (fst (resetFailedStoriesForResume i w)) = steps w" "runs (fst (resetFailedStoriesForResume i w)) = runs w"
proof -
  have "steps (fst (fold (reset_story i f l) ts wn)) = steps (fst wn)
      \<and> runs (fst (fold (reset_story i f l) ts wn)) = runs (fst wn)" for f l ts wn
    by (induction ts arbitrary: wn) simp_all
  then show "steps (fst (resetFailedStoriesForResume i w)) = steps w" "runs (fst (resetFailedStoriesForResume i w)) = runs w"
    by (simp_all add: resetFailedStoriesForResume_def split: option.split)
qed

lemma requeue_frame [simp]: "steps (requeue_row r g c w) = steps w" "now (requeue_row r g c w) = now w"
  by (simp_all add: requeue_row_def)

text \<open>One step put back, and the step that is promoted.\<close>

definition put_back :: "string \<Rightarrow> nat \<Rightarrow> int \<Rightarrow> step \<Rightarrow> step" where
  "put_back i k t s =
     (if s_run_id s = i \<and> k \<le> s_step_index s
      then s\<lparr>s_status := SWaiting, s_retry_count := 0, s_output := None, s_updated_at := Some t\<rparr> else s)"

lemma put_back_keys [simp]:
  "s_id (put_back i k t s) = s_id s" "s_run_id (put_back i k t s) = s_run_id s"
  "s_step_index (put_back i k t s) = s_step_index s" "s_step_id (put_back i k t s) = s_step_id s"
  by (simp_all add: put_back_def)

lemma reset_from_steps: "steps (reset_from i k w) = map (put_back i k (now w)) (steps w)"
  by (simp add: reset_from_def upd_where_def put_back_def)

lemma reset_from_runs [simp]: "runs (reset_from i k w) = runs w"
  by (simp add: reset_from_def)

definition promoted :: "string \<Rightarrow> int \<Rightarrow> step \<Rightarrow> step" where
  "promoted j t s = (if s_id s = j then s\<lparr>s_status := SPending, s_updated_at := Some t\<rparr> else s)"

lemma promote_step_now [simp]: "now (promote_step i s w) = now w"
  by (simp add: promote_step_def Let_def set_step_status_def)

lemma pending_steps: "steps (set_step_status j SPending w) = map (promoted j (now w)) (steps w)"
  by (simp add: set_step_status_def set_step_def upd_step_def upd_where_def promoted_def)

lemma find_mapped:
  assumes "distinct (map s_id ss)" "u \<in> set ss" "steps w = map g ss" "\<And>s. s_id (g s) = s_id s"
  shows "find_step (s_id u) w = Some (g u)"
proof -
  have "map s_id (steps w) = map s_id ss" using assms(3,4) by simp
  then have "distinct (map s_id (steps w))" using assms(1) by simp
  moreover have "g u \<in> set (steps w)" using assms(2,3) by auto
  ultimately show ?thesis using step_table.find_in_rows [of w "g u"] assms(4) by simp
qed

text \<open>What is assumed of the steps of the run: every index once, and nothing waiting before the step it starts
  from.  Something may be at work before it: the loop of a verifier that failed.\<close>

definition settled_before :: "string \<Rightarrow> step \<Rightarrow> store \<Rightarrow> bool" where
  "settled_before i s w \<longleftrightarrow>
     distinct (map s_step_index (run_steps i w))
     \<and> list_all (\<lambda>u. s_step_index u < s_step_index s \<longrightarrow> s_status u \<noteq> SWaiting) (run_steps i w)"

definition busy_before :: "string \<Rightarrow> step \<Rightarrow> store \<Rightarrow> bool" where
  "busy_before i s w \<longleftrightarrow>
     list_ex (\<lambda>u. s_step_index u < s_step_index s \<and> s_status u = SRunning) (run_steps i w)"

lemma restart_member: "restart_from i w = Some s \<Longrightarrow> s \<in> set (run_steps i w)"
  using first_min_Some [of s_step_index _ s] by (auto simp: restart_from_def split: option.splits dest!: first_min_Some)

lemma restart_same:
  "steps w = steps v \<Longrightarrow> restart_from i w = restart_from i v"
  "steps w = steps v \<Longrightarrow> settled_before i s w = settled_before i s v"
  "steps w = steps v \<Longrightarrow> busy_before i s w = busy_before i s v"
  by (simp_all only: restart_from_def settled_before_def busy_before_def run_steps_def)

lemma next_after_reset:
  assumes s: "s \<in> set (run_steps i v)" and ok: "settled_before i s v"
    and w: "steps w = map (put_back i (s_step_index s) t) (steps v)"
  shows "next_waiting i w = Some (put_back i (s_step_index s) t s)"
    "list_ex (\<lambda>u. s_status u = SRunning) (run_steps i w) = busy_before i s v"
proof -
  let ?g = "put_back i (s_step_index s) t"
  have rows: "run_steps i w = map ?g (run_steps i v)"
    by (simp add: run_steps_def w filter_map comp_def)
  have mine: "s_run_id u = i" if "u \<in> set (run_steps i v)" for u using that by (simp add: run_steps_def)
  have late: "s_step_index s \<le> s_step_index u" if "u \<in> set (run_steps i v)" "s_status (?g u) = SWaiting" for u
    using ok that mine [OF that(1)] by (fastforce simp: settled_before_def list_all_iff put_back_def split: if_splits)
  show "list_ex (\<lambda>u. s_status u = SRunning) (run_steps i w) = busy_before i s v"
    by (auto simp: rows list_ex_iff busy_before_def put_back_def not_le mine)
  have here: "?g s \<in> set (filter (\<lambda>u. s_status u = SWaiting) (run_steps i w))"
    using s mine [OF s] by (auto simp: rows put_back_def)
  then have "next_waiting i w \<noteq> None" by (auto simp: next_waiting_def filter_empty_conv)
  then obtain m where m: "next_waiting i w = Some m" by blast
  have "m \<in> set (filter (\<lambda>u. s_status u = SWaiting) (run_steps i w))" "s_step_index m \<le> s_step_index s"
    using first_min_Some [OF m [unfolded next_waiting_def]] here by auto
  then obtain u where u: "u \<in> set (run_steps i v)" "m = ?g u" "s_step_index u \<le> s_step_index s" "s_status (?g u) = SWaiting"
    by (auto simp: rows)
  have "s_step_index u = s_step_index s" using late [OF u(1,4)] u(3) by simp
  then have "u = s" using ok u(1) s by (auto simp: settled_before_def distinct_map dest: inj_onD)
  then show "next_waiting i w = Some (?g s)" using m u(2) by simp
qed

lemma restart_rows_steps:
  assumes s: "restart_from (r_id r) w = Some s" and ok: "settled_before (r_id r) s w"
    and live: "find_run (r_id r) w \<noteq> None"
    and fin: "restart_rows r grant c w = (u, s', n)"
  shows "s' = Some s
    \<and> steps u = map ((if busy_before (r_id r) s w then id else promoted (s_id s) (now u))
                     \<circ> put_back (r_id r) (s_step_index s) (now w)) (steps w)"
proof -
  let ?i = "r_id r"
  have same: "restart_from ?i (requeue_row r grant c w) = restart_from ?i w" by (rule restart_same) simp
  obtain x where x: "resetFailedStoriesForResume ?i (reset_from ?i (s_step_index s) (requeue_row r grant c w)) = (x, n)"
    and u: "u = (if list_ex (\<lambda>s. s_status s = SWaiting) (run_steps ?i x) then fst (advancePipeline ?i x) else x)"
    and s': "s' = Some s"
    using fin s by (auto simp: restart_rows_def Let_def restart_steps_def same split: prod.splits)
  have steps: "steps x = map (put_back ?i (s_step_index s) (now w)) (steps w)"
    using reset_stories_frame(1) [of ?i "reset_from ?i (s_step_index s) (requeue_row r grant c w)"] x
    by (simp add: reset_from_steps)
  have run: "run_status_of ?i x = Some RRunning"
  proof -
    have "runs x = runs (requeue_row r grant c w)"
      using reset_stories_frame(2) [of ?i "reset_from ?i (s_step_index s) (requeue_row r grant c w)"] x
      by simp
    moreover have "run_status_of ?i (requeue_row r grant c w) = Some RRunning"
      using live by (cases grant) (auto simp: run_status_of_def requeue_row_def find_set_run)
    ultimately show ?thesis by (simp add: run_status_of_def find_run_def)
  qed
  have mem: "s \<in> set (run_steps ?i w)" using restart_member [OF s] .
  note n = next_after_reset [OF mem ok steps]
  have "list_ex (\<lambda>s. s_status s = SWaiting) (run_steps ?i x)"
    using n(1) first_min_Some by (fastforce simp: next_waiting_def list_ex_iff)
  then have "u = (if busy_before ?i s w then x else promote_step ?i (put_back ?i (s_step_index s) (now w) s) x)"
    using u n run by (simp add: advancePipeline_def)
  then show ?thesis using s' by (simp add: pending_steps steps)
qed

lemma register_restarted_steps:
  assumes "idle_waits (rh_admit h)" "register_restarted h r way s n sd = (sd', Inr (CliResumed out m behind))"
  shows "steps (sd_store sd') = steps (sd_store sd) \<and> out = map_option s_step_id s"
proof -
  obtain sd1 rep where reg: "handleRegisterRun (rh_admit h) (rh_torn h) (r_id r) sd = (sd1, rep)" by fastforce
  have "steps (sd_store sd1) = steps (sd_store sd)"
    using registered_rows [OF assms(1) reg] by (simp add: rows_kept_def)
  then show ?thesis using assms(2) reg
    by (auto simp: register_restarted_def Let_def on_store_def split: register_reply.splits if_splits)
qed

lemma restart_run_steps:
  assumes q: "idle_waits (rh_admit h)"
    and fin: "restart_run h r grant c sd = (sd', Inr (CliResumed out m behind))"
    and s: "restart_from (r_id r) (sd_store sd) = Some s" and ok: "settled_before (r_id r) s (sd_store sd)"
  shows "out = Some (s_step_id s) \<and> (\<exists>t. steps (sd_store sd')
    = map ((if busy_before (r_id r) s (sd_store sd) then id else promoted (s_id s) t)
           \<circ> put_back (r_id r) (s_step_index s) (now (sd_store sd))) (steps (sd_store sd)))"
proof -
  obtain u s1 n where c: "commit_failed_resume r grant c (sd_store sd) = Some (u, s1, n)"
    using fin by (auto simp: restart_run_def split: option.splits prod.splits)
  then have rows: "restart_rows r grant c (sd_store sd) = (u, s1, n)" and live: "find_run (r_id r) (sd_store sd) \<noteq> None"
    by (auto simp: commit_failed_resume_def split: option.splits if_splits)
  obtain way where "register_restarted h r way s1 n (sd\<lparr>sd_store := u\<rparr>) = (sd', Inr (CliResumed out m behind))"
    using fin c by (simp add: restart_run_def Let_def)
  from register_restarted_steps [OF q this] restart_rows_steps [OF s ok live rows]
  show ?thesis by auto
qed

lemma resume_passes_checks:
  assumes "idle_waits (rh_admit h)" "resumeWorkflow h runId c override sd = (sd', Inr (CliResumed s n behind))"
  shows "\<exists>r grant w. r_id r = runId \<and> run_status_of runId (sd_store sd) = Some RFailed
    \<and> steps w = steps (sd_store sd)
    \<and> restart_run h r grant c (sd\<lparr>sd_store := w\<rparr>) = (sd', Inr (CliResumed s n behind))"
proof -
  obtain r where r: "find_run runId (sd_store sd) = Some r"
    using assms(2) by (auto simp: resumeWorkflow_def split: option.splits)
  obtain w res where v: "validateRunHarnessForScheduling (rh_admit h) runId (r_context r) (r_matchlock_policy r)
      (sd_store sd) = (w, res)" by fastforce
  have "\<exists>grant. restart_run h r grant c (sd\<lparr>sd_store := w\<rparr>) = (sd', Inr (CliResumed s n behind))"
    using assms r v by (auto simp: resumeWorkflow_def idle_waits_def Let_def split: if_splits sum.splits option.splits)
  moreover have "r_id r = runId" using r run_table.find_key by blast
  moreover have "r_status r = RFailed" using assms(2) r by (simp add: resumeWorkflow_def split: if_splits)
  ultimately show ?thesis using validation_tables [OF v] r by (auto simp: run_status_of_def)
qed

text \<open>C40. A resume that is answered as resumed found the run failed and starts it again from its first failed
  step, or from the first that is not done when none has failed.  The steps before it stay as they were; it and all
  later steps have no output and all their retries; the later ones wait, and it is pending, unless a step
  before it is still at work (the loop of a failed verifier): then it waits as well.  (No step before it is
  waiting, every index and every key stands once, and the waits for the daemon change nothing.)\<close>

theorem resumed_run_restarts:
  assumes fin: "resumeWorkflow h runId c override sd = (sd', Inr (CliResumed s n behind))"
    and s0: "restart_from runId (sd_store sd) = Some s0" "settled_before runId s0 (sd_store sd)"
    and keys: "distinct (map s_id (steps (sd_store sd)))" and q: "idle_waits (rh_admit h)"
  shows "run_status_of runId (sd_store sd) = Some RFailed \<and> s = Some (s_step_id s0)
    \<and> (\<forall>u \<in> set (run_steps runId (sd_store sd)).
          \<exists>x. find_step (s_id u) (sd_store sd') = Some x
            \<and> (if s_step_index u < s_step_index s0 then x = u
               else s_retry_count x = 0 \<and> s_output x = None
                 \<and> s_status x = (if s_id u = s_id s0 \<and> \<not> busy_before runId s0 (sd_store sd)
                                 then SPending else SWaiting)))"
proof -
  obtain r grant w where r: "r_id r = runId" "steps w = steps (sd_store sd)"
    and failed: "run_status_of runId (sd_store sd) = Some RFailed"
    and run: "restart_run h r grant c (sd\<lparr>sd_store := w\<rparr>) = (sd', Inr (CliResumed s n behind))"
    using resume_passes_checks [OF q fin] by blast
  let ?k = "s_step_index s0" and ?b = "busy_before runId s0 (sd_store sd)"
  have "restart_from (r_id r) w = Some s0" "settled_before (r_id r) s0 w" "busy_before (r_id r) s0 w = ?b"
    using s0 r restart_same [OF r(2)] by simp_all
  then obtain t where s: "s = Some (s_step_id s0)"
    and steps: "steps (sd_store sd')
      = map ((if ?b then id else promoted (s_id s0) t) \<circ> put_back runId ?k (now w)) (steps (sd_store sd))"
    using restart_run_steps [OF q run] r by auto
  have mem: "s0 \<in> set (run_steps runId (sd_store sd))" using restart_member [OF s0(1)] .
  have "find_step (s_id u) (sd_store sd')
      = Some ((if ?b then id else promoted (s_id s0) t) (put_back runId ?k (now w) u))"
    if "u \<in> set (run_steps runId (sd_store sd))" for u
    using find_mapped [OF keys _ steps, of u] that by (simp add: run_steps_def promoted_def)
  moreover have "u = s0" if "u \<in> set (run_steps runId (sd_store sd))" "s_id u = s_id s0" for u
    using keys mem that by (auto simp: run_steps_def distinct_map dest: inj_onD)
  ultimately show ?thesis using s failed
    by (cases ?b) (fastforce simp: promoted_def put_back_def run_steps_def)+
qed

section \<open>A refused resume of a sandboxed run\<close>

lemma restart_token:
  "columns_of step_key run_token story_key (fst (restart_rows r grant c w))
     = columns_of step_key run_token story_key (restart_steps (r_id r) (requeue_row r grant c w))"
  by (simp add: restart_rows_def Let_def split_beta)

lemma requeue_stories [simp]: "stories (requeue_row r g c w) = stories w"
  by (simp add: requeue_row_def)

lemma restart_same_keys: "same_keys w (fst (restart_rows r grant c w))"
proof -
  have "map step_key (steps (restart_steps i v)) = map step_key (steps v) \<and> stories (restart_steps i v) = stories v" for i v
    by (simp add: restart_steps_def reset_from_steps step_key_def comp_def split: option.split)
      (simp add: reset_from_def)
  then show ?thesis
    using restart_token [of r grant c w] by (simp add: columns_of_def same_keys_def)
qed

lemma restart_row:
  assumes "find_run (r_id r) w = Some p"
  shows "\<exists>a. find_run (r_id r) (fst (restart_rows r grant c w)) = Some a \<and> r_status a = RRunning
    \<and> r_scheduling_requested_at a = Some (now w)"
proof -
  let ?i = "r_id r" and ?w1 = "restart_steps (r_id r) (requeue_row r grant c w)"
  have same: "runs ?w1 = runs (requeue_row r grant c w)"
    by (simp add: restart_steps_def split: option.split)
  obtain q where q: "find_run ?i (requeue_row r grant c w) = Some q" "r_status q = RRunning"
      "r_scheduling_requested_at q = Some (now w)"
    using assms by (cases grant) (auto simp: requeue_row_def find_set_run)
  let ?x = "fst (resetFailedStoriesForResume ?i ?w1)"
  have x: "find_run ?i ?x = Some q" using q(1) same by (simp add: find_run_def)
  have "find_run ?i (fst (advancePipeline ?i ?x)) = Some q" if "list_ex (\<lambda>s. s_status s = SWaiting) (run_steps ?i ?x)"
  proof -
    have "next_waiting ?i ?x \<noteq> None" using that by (auto simp: next_waiting_def filter_empty_conv list_ex_iff)
    then show ?thesis
      using x by (auto simp: advancePipeline_def find_run_def split: option.split)
  qed
  then show ?thesis using x q(2,3) by (simp add: restart_rows_def Let_def split_beta)
qed

text \<open>Outcomes after which a sandboxed run is given back: its directory is taken, or its registration fails.  A
  registration that fails ends with the teardown of the run, which clears the scheduling status of a failed run.\<close>

definition resume_failed :: "run \<Rightarrow> string + cli_reply \<Rightarrow> bool" where
  "resume_failed r res \<longleftrightarrow>
     (\<exists>msg. res = Inr (CliWorkdirRefused msg)) \<or> r_scheduling_status r = None \<and> (\<exists>e. res = Inl e)"

lemma unregistered_given_back:
  assumes "given_back i v w" "find_run i v = Some r" "r_scheduling_status r = None"
  shows "given_back i v (scheduleRunCronTeardown i w)"
proof -
  obtain q where q: "find_run i w = Some q" "control_view q = control_view r"
    using assms(1,2) by (auto simp: given_back_def)
  then have "\<exists>x. find_run i (scheduleRunCronTeardown i w) = Some x \<and> control_view x = control_view r"
    using assms(3) by (auto simp: scheduleRunCronTeardown_def Let_def find_set_run control_view_def)
  moreover have "find_step j (scheduleRunCronTeardown i w) = find_step j w"
    "find_story j (scheduleRunCronTeardown i w) = find_story j w" for j
    by (simp_all add: scheduleRunCronTeardown_def Let_def split: option.split)
  ultimately show ?thesis using assms(1,2) by (auto simp: given_back_def)
qed

lemma given_back_log: "given_back i v (emit a b c w) = given_back i v w"
  by (simp add: given_back_def)

lemma register_restarted_failed:
  assumes "handleRegisterRun (rh_admit h) (rh_torn h) (r_id r) sd = (sd1, rep)"
    "register_restarted h r (Some f) s n sd = (sd', res)" "resume_failed r res"
  shows "sd_store sd' = f (sd_store sd1)
    \<or> r_scheduling_status r = None
      \<and> (\<exists>again msg. sd_store sd' = resume_unregistered r (Some f) again msg (sd_store sd1))"
proof (cases "\<exists>msg. res = Inr (CliWorkdirRefused msg)")
  case True
  then show ?thesis using assms(1,2)
    by (auto simp: register_restarted_def Let_def on_store_def split: register_reply.splits if_splits)
next
  case False
  then have none: "r_scheduling_status r = None" "\<exists>e. res = Inl e" using assms(3) by (auto simp: resume_failed_def)
  then have "\<exists>again msg. sd' = on_store (resume_unregistered r (Some f) again msg) sd1" using assms(1,2)
    by (auto simp: register_restarted_def Let_def simp del: reply_error.simps
        split: register_reply.splits if_splits)
  then obtain again msg where "sd_store sd' = resume_unregistered r (Some f) again msg (sd_store sd1)"
    by (auto simp: on_store_def)
  then show ?thesis using none(1) by blast
qed

lemma restart_refused:
  assumes q: "idle_waits (rh_admit h)" and pinned: "r_matchlock_policy r \<noteq> PolNull"
    and keys: "distinct (map s_id (steps (sd_store sd)))" "distinct (map t_id (stories (sd_store sd)))"
    and row: "find_run (r_id r) (sd_store sd) = Some r"
    and fin: "restart_run h r grant c sd = (sd', res)" and bad: "resume_failed r res"
  shows "given_back (r_id r) (sd_store sd) (sd_store sd')"
proof -
  let ?i = "r_id r" and ?w = "sd_store sd"
  let ?v = "upd_run ?i (\<lambda>q. r) ?w" and ?u = "fst (restart_rows r grant c ?w)"
  let ?f = "resolveControlResumeWrites ?i (now ?w) ?v ?u"
  obtain s n where "register_restarted h r (Some ?f) s n (sd\<lparr>sd_store := ?u\<rparr>) = (sd', res)"
    using fin bad pinned
    by (auto simp: restart_run_def commit_failed_resume_def Let_def resume_failed_def split_beta
        split: option.splits if_splits)
  moreover obtain sd1 rep where reg: "handleRegisterRun (rh_admit h) (rh_torn h) ?i (sd\<lparr>sd_store := ?u\<rparr>) = (sd1, rep)"
    by fastforce
  ultimately have ends: "sd_store sd' = ?f (sd_store sd1)
    \<or> r_scheduling_status r = None
      \<and> (\<exists>again msg. sd_store sd' = resume_unregistered r (Some ?f) again msg (sd_store sd1))"
    using register_restarted_failed [OF _ _ bad] by blast
  have x: "rows_kept ?u (sd_store sd1)" using registered_rows [OF q reg] by simp
  obtain a where a: "find_run ?i ?u = Some a" "r_status a = RRunning" "r_scheduling_requested_at a = Some (now ?w)"
    using restart_row [OF row] by blast
  obtain b where b: "find_run ?i (sd_store sd1) = Some b" "r_status b \<noteq> RCompleted" "r_status b \<noteq> RCanceled"
    using rows_kept_find [OF x a(1)] a(2) by (auto simp: row_kept_def)
  have keys_v: "distinct (map s_id (steps ?v))" "distinct (map t_id (stories ?v))" using keys by simp_all
  have u: "same_keys ?v ?u" using restart_same_keys [of ?w r grant c] by (simp add: same_keys_def)
  have row_v: "find_run ?i ?v = Some r"
  proof -
    have "List.find (\<lambda>x. r_id x = ?i) rs = Some r \<Longrightarrow>
        List.find (\<lambda>x. r_id x = ?i) (upd_where (\<lambda>x. r_id x = ?i) (\<lambda>q. r) rs) = Some r" for rs
      by (induction rs) auto
    then show ?thesis using row by (simp add: find_run_def upd_run_def)
  qed
  have undone: "given_back ?i ?v (?f (sd_store sd1))"
    by (rule way_back [OF keys_v u a(1,3) row_v x b])
  then have "given_back ?i ?v (sd_store sd')"
    using ends unregistered_given_back [OF _ row_v] by (auto simp: resume_unregistered_def Let_def given_back_log)
  then show ?thesis using row row_v by (simp add: given_back_def run_steps_def run_stories_def)
qed

text \<open>A refused resume of a failed sandboxed run is undone: when its directory is taken, or when its
  registration fails and it had no scheduling status, the control columns of the run and the status, retries and output of all its
  steps and stories are what they were before the command.\<close>

theorem refused_restart_restores:
  assumes run: "find_run runId (sd_store sd) = Some r" "readIsolationState r = Isolated"
    and q: "idle_waits (rh_admit h)"
    and keys: "distinct (map s_id (steps (sd_store sd)))" "distinct (map t_id (stories (sd_store sd)))"
    and fin: "resumeWorkflow h runId c override sd = (sd', res)" and bad: "resume_failed r res"
  shows "given_back runId (sd_store sd) (sd_store sd')"
proof -
  have i: "r_id r = runId" using run(1) run_table.find_key by blast
  have pinned: "r_matchlock_policy r \<noteq> PolNull"
    using run(2) by (auto simp: readIsolationState_def classifyIsolationState_def split: if_splits)
  obtain w out where v: "validateRunHarnessForScheduling (rh_admit h) runId (r_context r) (r_matchlock_policy r)
      (sd_store sd) = (w, out)" by fastforce
  note w = validation_tables [OF v]
  have same: "given_back runId x y" if "runs y = runs x" "steps y = steps x" "stories y = stories x"
      "x = sd_store sd" for x y
    using that keys by (auto simp: given_back_def find_run_def run_steps_def run_stories_def find_step_def
        find_story_def step_table.find_in_rows [unfolded find_step_def] story_table.find_in_rows [unfolded find_story_def])
  consider "sd_store sd' = sd_store sd" | "sd_store sd' = w"
    | grant where "restart_run h r grant c (sd\<lparr>sd_store := w\<rparr>) = (sd', res)"
    using fin run v q bad
    by (auto simp: resumeWorkflow_def idle_waits_def Let_def split: if_splits sum.splits option.splits)
  then show ?thesis
  proof cases
    case 3
    have "given_back (r_id r) (sd_store (sd\<lparr>sd_store := w\<rparr>)) (sd_store sd')"
      by (rule restart_refused [OF q pinned _ _ _ 3 bad]) (use keys run(1) w i in \<open>simp_all add: find_run_def\<close>)
    then show ?thesis using given_back_same [of w "sd_store sd" runId] w i by simp
  qed (use same w in simp_all)
qed

section \<open>Samples\<close>

text \<open>A resume that passes its checks, with the row as it was when the checks began.\<close>

lemma resume_reaches_transaction:
  assumes "find_run i (sd_store sd) = Some r" "r_status r = RFailed" "r_context r = CtxObj m"
    "readIsolationState r \<noteq> Preparing" "cli_isolation h override r = Inr grant"
    "ch_daemon h = None" "ch_capability h = None" "idle_waits (rh_admit h)"
    "snd (validateRunHarnessForScheduling (rh_admit h) i (r_context r) (r_matchlock_policy r) (sd_store sd)) = Inr dir"
  shows "resumeWorkflow h i c override sd = restart_run h r grant c sd"
    "commit_failed_resume r grant c (sd_store sd) = Some (restart_rows r grant c (sd_store sd))"
proof -
  have "r_id r = i" using assms(1) run_table.find_key by blast
  then show "commit_failed_resume r grant c (sd_store sd) = Some (restart_rows r grant c (sd_store sd))"
    using assms(1,2) by (simp add: commit_failed_resume_def)
  have "fst (validateRunHarnessForScheduling (rh_admit h) i (r_context r) (r_matchlock_policy r) (sd_store sd)) = sd_store sd"
    using assms(3) by (simp add: validateRunHarnessForScheduling_def parseRunContext_def Let_def split_beta)
  then show "resumeWorkflow h i c override sd = restart_run h r grant c sd"
    using assms by (cases "validateRunHarnessForScheduling (rh_admit h) i (r_context r) (r_matchlock_policy r) (sd_store sd)")
      (simp add: resumeWorkflow_def idle_waits_def)
qed

definition cli_host0 :: cli_host where
  "cli_host0 = \<lparr>rh_admit = admit_host0\<lparr>ah_load := (\<lambda>i. Inr [(''planner'', 60), (''merger'', 60)])\<rparr>, rh_specs = (\<lambda>w. None), rh_preflight = (\<lambda>p o1. Inr False), rh_torn = [],
                ch_daemon = None, ch_capability = None, ch_answers = True\<rparr>"

text \<open>A run that has failed in its second step, natively or in a sandbox.\<close>

definition failed_run0 :: "policy_col \<Rightarrow> run" where
  "failed_run0 pol = run0\<lparr>r_status := RFailed, r_matchlock_policy := pol,
                          r_context := CtxObj [''working_directory_for_harness'' \<mapsto> ''/repo'']\<rparr>"

definition failed0 :: "policy_col \<Rightarrow> scheduler" where
  "failed0 pol = registry0\<lparr>sd_store := store0\<lparr>
     runs := [failed_run0 pol],
     steps := [step0, merge0\<lparr>s_step_index := 1, s_status := SFailed, s_retry_count := 2, s_output := Some ''boom''\<rparr>],
     stories := []\<rparr>\<rparr>"

lemma failed0_checks:
  "find_run ''r'' (sd_store (failed0 pol)) = Some (failed_run0 pol)"
  "idle_waits (rh_admit cli_host0)" "distinct (map s_id (steps (sd_store (failed0 pol))))"
  "distinct (map t_id (stories (sd_store (failed0 pol))))" "readIsolationState (failed_run0 PolNull) = Native"
  "readIsolationState (failed_run0 (PolPinned sandbox0)) = Isolated"
  by (simp_all add: failed0_def failed_run0_def sample_defs find_run_def idle_waits_def cli_host0_def admit_host0_def
      readIsolationState_def classifyIsolationState_def readIsolationIntent_def)

lemma failed0_valid:
  "snd (validateRunHarnessForScheduling (rh_admit cli_host0) ''r'' (r_context (failed_run0 PolNull)) PolNull
     (sd_store (failed0 PolNull))) = Inr ''/repo''"
  "snd (validateRunHarnessForScheduling (rh_admit cli_host0) ''r'' (r_context (failed_run0 (PolPinned sandbox0)))
     (PolPinned sandbox0) (sd_store (failed0 (PolPinned sandbox0)))) = Inr ''/repo''"
  by code_simp+

definition restarted0 :: "scheduler \<times> (string + cli_reply)" where
  "restarted0 =
     (let r = failed_run0 PolNull; (u, s, n) = restart_rows r False Refuse (sd_store (failed0 PolNull))
      in register_restarted cli_host0 r None s n ((failed0 PolNull)\<lparr>sd_store := u\<rparr>))"

lemma restarted0_reply: "snd restarted0 = Inr (CliResumed (Some ''finalize_merge'') 0 None)"
  by code_simp

lemma restarted0_resumed: "resumeWorkflow cli_host0 ''r'' Refuse False (failed0 PolNull) = restarted0"
proof -
  have c: "cli_isolation cli_host0 False (failed_run0 PolNull) = Inr False" "r_matchlock_policy (failed_run0 PolNull) = PolNull"
      "r_status (failed_run0 PolNull) = RFailed" "ch_daemon cli_host0 = None" "ch_capability cli_host0 = None"
      "r_id (failed_run0 PolNull) = ''r''"
    by (simp_all add: cli_isolation_def failed_run0_def cli_host0_def run0_def)
  have x: "r_context (failed_run0 PolNull) = CtxObj [''working_directory_for_harness'' \<mapsto> ''/repo'']"
    by (simp add: failed_run0_def)
  note live = resume_reaches_transaction [OF failed0_checks(1) c(3) x _ c(1,4,5) failed0_checks(2),
      where c = Refuse and dir = "''/repo''"]
  have "resumeWorkflow cli_host0 ''r'' Refuse False (failed0 PolNull)
      = restart_run cli_host0 (failed_run0 PolNull) False Refuse (failed0 PolNull)"
    "commit_failed_resume (failed_run0 PolNull) False Refuse (sd_store (failed0 PolNull))
      = Some (restart_rows (failed_run0 PolNull) False Refuse (sd_store (failed0 PolNull)))"
    using live failed0_checks(5) failed0_valid(1) c(2) by simp_all
  then show ?thesis by (simp add: restarted0_def restart_run_def c(2) split: prod.split)
qed

theorem resumed_run_restarts_witness:
  "find_step ''p'' (sd_store (fst restarted0)) = Some step0
   \<and> (\<exists>x. find_step ''m'' (sd_store (fst restarted0)) = Some x \<and> s_status x = SPending \<and> s_retry_count x = 0)"
proof -
  let ?m = "merge0\<lparr>s_step_index := 1, s_status := SFailed, s_retry_count := 2, s_output := Some ''boom''\<rparr>"
  have fin: "resumeWorkflow cli_host0 ''r'' Refuse False (failed0 PolNull)
      = (fst restarted0, Inr (CliResumed (Some ''finalize_merge'') 0 None))"
    using restarted0_reply by (simp add: restarted0_resumed prod_eq_iff)
  have rows: "run_steps ''r'' (sd_store (failed0 PolNull)) = [step0, ?m]"
    by (simp add: failed0_def run_steps_def sample_defs)
  have s: "restart_from ''r'' (sd_store (failed0 PolNull)) = Some ?m"
      "settled_before ''r'' ?m (sd_store (failed0 PolNull))"
    by (simp_all add: restart_from_def settled_before_def rows) (simp_all add: sample_defs)
  have free: "\<not> busy_before ''r'' ?m (sd_store (failed0 PolNull))"
    by (simp add: busy_before_def rows) (simp add: sample_defs)
  note all = resumed_run_restarts [OF fin s failed0_checks(3,2), THEN conjunct2, THEN conjunct2, unfolded rows]
  have "\<exists>x. find_step ''p'' (sd_store (fst restarted0)) = Some x \<and> x = step0"
    using bspec [OF all, of step0] by (simp add: sample_defs)
  moreover have "\<exists>x. find_step ''m'' (sd_store (fst restarted0)) = Some x \<and> s_status x = SPending \<and> s_retry_count x = 0"
    using bspec [OF all, of ?m] free by (auto simp: sample_defs)
  ultimately show ?thesis by simp
qed

text \<open>A sandboxed run whose earlier teardown is not over yet is refused, and given back.\<close>

definition torn_host0 :: cli_host where
  "torn_host0 = cli_host0\<lparr>rh_torn := [''r'']\<rparr>"

lemma torn_registration:
  "find_run i (sd_store sd) = Some a \<Longrightarrow> \<not> terminal (r_status a) \<Longrightarrow> i \<in> set torn \<Longrightarrow>
   handleRegisterRun h torn i sd = (sd, TeardownInProgress)"
  by (simp add: handleRegisterRun_def)

theorem refused_restart_restores_witness:
  "given_back ''r'' (sd_store (failed0 (PolPinned sandbox0)))
     (sd_store (fst (resumeWorkflow torn_host0 ''r'' Refuse False (failed0 (PolPinned sandbox0)))))"
proof -
  let ?r = "failed_run0 (PolPinned sandbox0)" and ?sd = "failed0 (PolPinned sandbox0)"
  have c: "cli_isolation torn_host0 False ?r = Inr False" "r_matchlock_policy ?r = PolPinned sandbox0"
      "r_status ?r = RFailed" "ch_daemon torn_host0 = None" "ch_capability torn_host0 = None"
      "rh_admit torn_host0 = rh_admit cli_host0" "r_id ?r = ''r''" "r_scheduling_status ?r = None"
    by (simp_all add: cli_isolation_def failed_run0_def torn_host0_def cli_host0_def run0_def)
  have x: "r_context ?r = CtxObj [''working_directory_for_harness'' \<mapsto> ''/repo'']" by (simp add: failed_run0_def)
  have q: "idle_waits (rh_admit torn_host0)" using failed0_checks(2) by (simp add: torn_host0_def)
  note live = resume_reaches_transaction [OF failed0_checks(1) c(3) x _ c(1,4,5) q,
      where c = Refuse and dir = "''/repo''"]
  have live: "resumeWorkflow torn_host0 ''r'' Refuse False ?sd = restart_run torn_host0 ?r False Refuse ?sd"
    "commit_failed_resume ?r False Refuse (sd_store ?sd) = Some (restart_rows ?r False Refuse (sd_store ?sd))"
    using live failed0_checks(6) failed0_valid(2) c(2,6) by simp_all
  obtain u s n where u: "restart_rows ?r False Refuse (sd_store ?sd) = (u, s, n)" by (metis surj_pair)
  obtain a where a: "find_run ''r'' (sd_store (?sd\<lparr>sd_store := u\<rparr>)) = Some a" "r_status a = RRunning"
    using restart_row [of ?r "sd_store ?sd" ?r False Refuse] failed0_checks(1) u c(7) by auto
  then have "\<not> terminal (r_status a)" by (simp add: terminal_def)
  from torn_registration [OF a(1) this]
  have "handleRegisterRun (rh_admit torn_host0) (rh_torn torn_host0) ''r'' (?sd\<lparr>sd_store := u\<rparr>)
      = (?sd\<lparr>sd_store := u\<rparr>, TeardownInProgress)"
    by (simp add: torn_host0_def)
  then have "\<exists>sd' e. resumeWorkflow torn_host0 ''r'' Refuse False ?sd = (sd', Inl e)"
    using live u c(7) by (simp add: restart_run_def register_restarted_def accepted_def torn_host0_def cli_host0_def)
  then obtain sd' e where fin: "resumeWorkflow torn_host0 ''r'' Refuse False ?sd = (sd', Inl e)" by blast
  show ?thesis
    using refused_restart_restores [OF failed0_checks(1,6) q failed0_checks(3,4) fin] c(8) fin
    by (simp add: resume_failed_def)
qed

text \<open>When the verifier of a loop has failed, the loop is still at work when the run is resumed from the verifier on:
  nothing is promoted, and the run has no step to claim until a sweep takes the loop for abandoned.\<close>

definition verifying :: store where
  "verifying = store0\<lparr>
     steps := [step0,
       loop0\<lparr>s_status := SRunning,
             s_loop_config := LcConfig (lc0\<lparr>lc_verifyEach := Some True, lc_verifyStep := Some ''finalize_merge''\<rparr>)\<rparr>,
       merge0\<lparr>s_retry_count := 2\<rparr>]\<rparr>"

definition verifier_failed :: store where
  "verifier_failed = fst (failStep (\<lambda>w. None) id None ''m'' ''boom'' verifying)"

lemma resume_of_failed_verifier_stalls:
  "map s_status (steps verifier_failed) = [SDone, SRunning, SFailed]
   \<and> map s_status (steps (fst (restart_rows (hd (runs verifier_failed)) False Refuse verifier_failed)))
     = [SDone, SRunning, SWaiting]"
  by code_simp

end
