(* ===== verification/Reroute_Bound.thy ===== *)
theory Reroute_Bound
  imports Ledger_Ops
begin

text \<open>
  How often a consumer can be rerouted.  Three things reroute a step: its own failure and the failure
  of what it handed in (\<^verbatim>\<open>rerouteWithPolicy\<close> without an allowance, from \<^verbatim>\<open>failStep\<close>, \<^verbatim>\<open>completeStep\<close> and the
  sweeps), and a refusal of the merge gate (\<^verbatim>\<open>applyLedgerGateRefusalSync\<close>), which may grant one reroute
  that no budget counts and records the concession.
\<close>

text \<open>The four counters of a consumer's row.\<close>

definition counters :: "string \<Rightarrow> store \<Rightarrow> (nat \<times> nat \<times> nat \<times> nat) option" where
  "counters row w =
     map_option (\<lambda>c. (s_reroute_count c, s_terminal_reroute_count c,
                      s_target_moved_reroute_count c, s_ledger_concession_count c))
       (find_step row w)"

text \<open>A history of the store in which the consumer was rerouted \<open>n\<close> times under one policy, by failures
  (\<open>again\<close>) and by refusals of the merge gate (\<open>gated\<close>, at claim time or at its completion, whatever
  the decision).  Between two reroutes anything may happen that leaves the consumer's counters
  alone, refused reroutes and concessions included.\<close>

inductive rerouting ::
    "specs \<Rightarrow> on_fail \<Rightarrow> string \<Rightarrow> string \<Rightarrow> string \<Rightarrow> nat \<Rightarrow> store \<Rightarrow> store \<Rightarrow> bool"
  for specs p rid cid row where
  start: "rerouting specs p rid cid row 0 w w"
| other: "rerouting specs p rid cid row n w w1 \<Longrightarrow> wf_store w2 \<Longrightarrow>
            counters row w2 = counters row w1 \<Longrightarrow> rerouting specs p rid cid row n w w2"
| again: "rerouting specs p rid cid row n w w1 \<Longrightarrow> consumer_of row rid w1 \<Longrightarrow>
            rerouteWithPolicy p rid cid row err False w1 = (w2, Rerouted) \<Longrightarrow>
            rerouting specs p rid cid row (Suc n) w w2"
| gated: "rerouting specs p rid cid row n w w1 \<Longrightarrow> consumer_of row rid w1 \<Longrightarrow>
            s_id s = row \<Longrightarrow> s_run_id s = rid \<Longrightarrow> s_step_id s = cid \<Longrightarrow>
            getOnFailPolicySync specs rid cid w1 = Some p \<Longrightarrow>
            getLedgerGateRefusal row d w1 = Some ref \<Longrightarrow>
            applyLedgerGateRefusalSync specs s reason (is_missing ref)
              (usesLedgerConcessionAllowance row ref w1) w1 = (w2, ORerouted) \<Longrightarrow>
            rerouting specs p rid cid row (Suc n) w w2"

text \<open>The fuel of a consumer: what its two budgets and its two one-time allowances still grant.\<close>

abbreviation gate_fuel :: "on_fail \<Rightarrow> step \<Rightarrow> nat" where
  "gate_fuel p c \<equiv> reroute_fuel p c + (1 - s_ledger_concession_count c)"

text \<open>The gate grants its own allowance for missing evidence only, and only before the concession.\<close>

lemma allowance_before_concession:
  assumes "getLedgerGateRefusal row d w = Some ref" "usesLedgerConcessionAllowance row ref w"
    "find_step row w = Some c"
  shows "is_missing ref \<and> s_ledger_concession_count c = 0"
  using assms
  by (auto simp: getLedgerGateRefusal_def usesLedgerConcessionAllowance_def
      hasLedgerGateConcession_def is_missing_def split: decision.splits if_splits gate_mode.splits)

lemma apply_rerouted_by:
  assumes "applyLedgerGateRefusalSync specs s reason records allowance w = (w', ORerouted)"
    "getOnFailPolicySync specs (s_run_id s) (s_step_id s) w = Some p"
  obtains w1 where "rerouteWithPolicy p (s_run_id s) (s_step_id s) (s_id s) reason allowance w = (w1, Rerouted)"
    "w' = finalizeDrainingPause (s_run_id s)
       (call NudgeDispatch (if records then record_concession (s_id s) w1 else w1))"
proof -
  have "gate_attempt specs s reason allowance w =
      (fst (gate_attempt specs s reason allowance w), Rerouted)"
    using assms(1) by (auto simp: applyLedgerGateRefusalSync_def split_def Let_def prod_eq_iff split: if_splits)
  then show ?thesis
    using assms by (intro that [of "fst (gate_attempt specs s reason allowance w)"])
      (auto simp: applyLedgerGateRefusalSync_def gate_attempt_def Let_def split_def split: if_splits)
qed

lemma wf_record_concession: "wf_store w \<Longrightarrow> wf_store (record_concession i w)"
  using step_table.keys_upd [of "\<lambda>s. s\<lparr>s_ledger_concession_count := Suc (s_ledger_concession_count s)\<rparr>" i w]
  by (simp add: record_concession_def wf_store_def)

lemma rerouting_fuel:
  assumes "rerouting specs p rid cid row n w w'" "wf_store w" "find_step row w = Some c" "counters_ok c"
  shows "\<exists>c'. find_step row w' = Some c' \<and> counters_ok c' \<and> wf_store w'
    \<and> n + gate_fuel p c' \<le> gate_fuel p c"
  using assms
proof (induction rule: rerouting.induct)
  case (start w)
  then show ?case by simp
next
  case (other n w w1 w2)
  then obtain c1 where c1: "find_step row w1 = Some c1" "counters_ok c1"
    "n + gate_fuel p c1 \<le> gate_fuel p c" by blast
  then obtain c2 where "find_step row w2 = Some c2" "counters_ok c2"
    "gate_fuel p c2 = gate_fuel p c1"
    using other(3) by (auto simp: counters_def counters_ok_def reroute_fuel_def effective_shared_def)
  then show ?case using c1(3) other(2) by force
next
  case (again n w w1 err w2)
  then obtain c1 where c1: "find_step row w1 = Some c1" "counters_ok c1" "wf_store w1"
    "n + gate_fuel p c1 \<le> gate_fuel p c" by blast
  obtain c2 where "find_step row w2 = Some c2" "counters_ok c2"
    "reroute_fuel p c2 + 1 \<le> reroute_fuel p c1"
    "s_ledger_concession_count c2 = s_ledger_concession_count c1"
    using reroute_uses_fuel [OF again(3) c1(3,1,2)] by auto
  moreover have "wf_store w2"
    using reroute.oper_wf [OF c1(3) again(2), of p cid err False] again(3) by simp
  ultimately show ?case using c1(4) by force
next
  case (gated n w w1 s d ref reason w2)
  then obtain c1 where c1: "find_step row w1 = Some c1" "counters_ok c1" "wf_store w1"
    "n + gate_fuel p c1 \<le> gate_fuel p c" by blast
  let ?g = "usesLedgerConcessionAllowance row ref w1"
  obtain w3 where w3: "rerouteWithPolicy p rid cid row reason ?g w1 = (w3, Rerouted)"
    "w2 = finalizeDrainingPause rid
       (call NudgeDispatch (if is_missing ref then record_concession row w3 else w3))"
    using apply_rerouted_by [OF gated(8)] gated(3-6) by auto
  obtain c3 where c3: "find_step row w3 = Some c3" "counters_ok c3"
    "reroute_fuel p c3 + (if ?g then 0 else 1) \<le> reroute_fuel p c1"
    "s_ledger_concession_count c3 = s_ledger_concession_count c1"
    using reroute_uses_fuel [OF w3(1) c1(3,1,2)] by auto
  have "wf_store w3"
    using reroute.oper_wf [OF c1(3) gated(2), of p cid reason ?g] w3(1) by simp
  then have "wf_store (call NudgeDispatch (if is_missing ref then record_concession row w3 else w3))"
    using wf_record_concession by (auto simp: wf_store_def)
  then have "wf_store w2" using w3(2) drain.oper_wf by blast
  moreover obtain c2 where "find_step row w2 = Some c2" "counters_ok c2"
    "reroute_fuel p c2 = reroute_fuel p c3"
    "s_ledger_concession_count c2 = s_ledger_concession_count c3 + (if is_missing ref then 1 else 0)"
    using c3(1,2) w3(2)
    by (cases "is_missing ref")
       (auto simp: record_concession_find counters_ok_def reroute_fuel_def effective_shared_def)
  moreover have "?g \<Longrightarrow> is_missing ref \<and> s_ledger_concession_count c1 = 0"
    using allowance_before_concession [OF gated(7) _ c1(1)] by blast
  ultimately show ?case using c1(4) c3(3,4) by (cases ?g) auto
qed

section \<open>Instances\<close>

lemma gate_reroute_sample:
  "\<exists>w'. rerouting specs0 policy0 ''r'' ''finalize_merge'' ''m'' (Suc 0) (ctx0 []) w'"
proof -
  let ?ref = "RefMissing GDefault gate_key0"
  obtain w' where e: "gate_refuse host0 (Native []) specs0 merge0 ?ref (ctx0 []) = (w', ORerouted)"
    using gate_sample_missing by (metis prod.collapse)
  have r: "getLedgerGateRefusal ''m'' (Missing GDefault gate_key0) (ctx0 []) = Some ?ref"
    using gate_sample_strict
    by (simp add: getLedgerGateRefusal_def hasLedgerGateConcession_def gate_sample_rows gate_sample_fields)
  have c: "consumer_of ''m'' ''r'' (ctx0 [])"
    by (simp add: consumer_of_def gate_sample_rows gate_sample_fields)
  have p: "getOnFailPolicySync specs0 ''r'' ''finalize_merge'' (ctx0 []) = Some policy0"
    by (simp add: getOnFailPolicySync_def gate_sample_rows specs0_def)
  show ?thesis
    using rerouting.gated [OF rerouting.start c gate_sample_fields(3,2,1) p r]
      e [unfolded gate_refuse_def gate_sample_fields] by blast
qed

text \<open>C7.  A consumer is rerouted at most \<^verbatim>\<open>max_reroutes\<close> (2 when not declared) plus
  \<^verbatim>\<open>max_target_moved_reroutes\<close> (16 when not declared) plus two times in all, by its failures and by the
  refusals of the merge gate together: the shared budget, the stale-tip budget, one reroute on the
  terminal allowance and one on the gate's allowance for missing evidence.  Its counters start at zero,
  its policy stays the same, and whatever runs in between leaves its counters alone.  So no sequence of failures
  and refusals, whatever their classes, loops a run for ever between a consumer and its producer.\<close>

theorem reroutes_bounded:
  assumes "rerouting specs p rid cid row n w w'" "wf_store w" "find_step row w = Some c"
    "s_reroute_count c = 0" "s_terminal_reroute_count c = 0" "s_target_moved_reroute_count c = 0"
  shows "int n \<le> max 0 (cap_reroutes p) + max 0 (cap_target_moved p) + 2"
proof -
  have "counters_ok c" using assms(4,6) by (simp add: counters_ok_def)
  from rerouting_fuel [OF assms(1-3) this] have "n \<le> gate_fuel p c" by auto
  then show ?thesis using assms(4-6)
    by (simp add: reroute_fuel_def effective_shared_def)
qed

lemma reroutes_bounded_witness:
  "(1::int) \<le> max 0 (cap_reroutes policy0) + max 0 (cap_target_moved policy0) + 2"
proof -
  obtain w' where "rerouting specs0 policy0 ''r'' ''finalize_merge'' ''m'' (Suc 0) (ctx0 []) w'"
    using gate_reroute_sample by blast
  from reroutes_bounded [OF this gate_sample_rows(3,1)] show ?thesis
    by (simp add: merge0_def step0_def)
qed

end
