(* ===== verification/Reserved_Props.thy ===== *)
theory Reserved_Props
  imports Complete_Props
begin

text \<open>
  The keys of a run's context that no reply can set.  A reply reaches the context in two ways: it is merged when the
  step completes (\<^verbatim>\<open>completeStep\<close>), and the outputs of the steps before it are laid over the context a step is given
  (\<^verbatim>\<open>resolveStepContext\<close>).
\<close>

text \<open>The reserved keys the merge itself maintains: the accepted test command and the review of another one.\<close>

definition test_command_keys :: "string list" where
  "test_command_keys =
     [''test_cmd_raw'', ''test_cmd_review_required'', ''test_cmd_review_candidate'',
      ''test_cmd_review_established'', ''test_cmd_rewriter_step'']"

lemma reserved_no_output:
  "k \<in> set RESERVED_CONTEXT_KEYS \<Longrightarrow> output_keys out k = None"
  by (simp add: output_keys_def split: option.split)

lemma reserved_others:
  assumes "k \<in> set RESERVED_CONTEXT_KEYS"
  shows "k \<noteq> ''test_cmd''" "k \<noteq> ''cannot_reproduce''" "k \<noteq> ''repro_evidence''"
  using assms by (auto simp: RESERVED_CONTEXT_KEYS_def)

lemma merge_reply_reserved:
  assumes "k \<in> set RESERVED_CONTEXT_KEYS"
    "k \<notin> set test_command_keys \<or> parseOutputKeyValues out ''test_cmd'' = None"
  shows "fst (merge_reply r s out m w) k = m k"
proof -
  let ?m = "m ++ (output_keys (Some out))(''test_cmd'' := None)"
  have base: "?m k = m k" using reserved_no_output [OF assms(1)] by (simp add: map_add_def)
  have "fst (merge_test_cmd r s v ?m w) k = ?m k" if "k \<notin> set test_command_keys" for v
    using that reserved_others(1) [OF assms(1)]
    by (auto simp: merge_test_cmd_def withdraw_review_def with_test_cmd_def test_command_keys_def split: option.split)
  then show ?thesis using assms(2) base by (auto simp: merge_reply_def Let_def split: option.split)
qed

lemma merge_context_reserved:
  assumes "k \<in> set RESERVED_CONTEXT_KEYS"
    "k \<notin> set test_command_keys \<or> parseOutputKeyValues out ''test_cmd'' = None"
  shows "fst (merge_context q s out w) k = gate_context (r_context q) k"
  using merge_reply_reserved [OF assms] reserved_others [OF assms(1)]
  by (simp add: merge_context_def fix_keys_def default_key_def parseRunContext_def gate_context_def Let_def split_def
      split: ctx_col.split)

lemma merge_context_row:
  assumes "find_run (s_run_id s) w = Some x"
  shows "\<exists>q'. find_run (s_run_id s) (snd (merge_context q s out w)) = Some q'
    \<and> r_context q' = CtxObj (fst (merge_context q s out w))"
proof -
  have "find_run (s_run_id s) (snd (merge_reply q s out m v)) \<noteq> None" if "find_run (s_run_id s) v \<noteq> None" for m v
    using that by (auto simp: merge_reply_def merge_test_cmd_def rewrite_event_def establish_cmd_def find_set_run
        Let_def split: option.split)
  moreover have "find_run (s_run_id s) (snd (parseRunContext (s_run_id s) (r_context q) w)) \<noteq> None"
    using assms by (simp add: parseRunContext_def split: ctx_col.split)
  ultimately show ?thesis
    by (fastforce simp: merge_context_def Let_def split_def save_context_def find_set_run)
qed



end
