(* ===== verification/Spec2Isabelle.thy ===== *)
theory Spec2Isabelle
  imports Contract_Props Template Byte_Text Stories_Props Lifecycle Fail_Props Progression Suite_Claims_Props
    Work_Round_Props Admission_Props Rugpull_Props
    Resume_Failed_Props Reroute_Bound Reserved_Props
begin

text \<open>
  \<^bold>\<open>Tamandua's step operations.\<close>  Tamandua runs workflows: a run is a sequence of steps, each given to an
  agent process; the agents claim their step, work, and report completion or failure; a scheduler
  polls, recovers the work of agents that are gone and moves the run on.  All of this goes through the
  operations of \<^verbatim>\<open>src/src/installer/step-ops.ts\<close> on the rows of four database tables.  The development
  models these operations and the files they rest on, from the text of a reply to the end of a run.

  \<^bold>\<open>The state.\<close>  \<^theory_text>\<open>Store\<close> holds the tables as lists of records in insertion order: \<open>runs\<close>, \<open>steps\<close>,
  \<open>stories\<close>, \<open>abandonments\<close> (the schema of \<^verbatim>\<open>src/src/db.ts\<close>), the events emitted, the calls made to the
  outside (timers, files, terminations: the type \<open>effect\<close>) and the clock.  Every \<^verbatim>\<open>UPDATE\<close> is a \<open>set_\<close> function
  that also stamps \<^verbatim>\<open>updated_at\<close>.  Columns that no modelled code reads are left out; a JSON column is the
  value it parses to, with a constructor for text that does not parse.  An operation is a function from
  the store to the store and a result; an exception is the left value of a sum.  SQLite runs an
  operation as one transaction, and what \<^verbatim>\<open>completeStep\<close> undoes on an exception the model undoes too.

  \<^bold>\<open>Parts and theories,\<close> in the order of the imports:

  \<^item> \<^theory_text>\<open>Prelude\<close>: JavaScript strings on Latin-1 characters, objects, selections by key; shared lemmas.
  \<^item> \<^theory_text>\<open>Output_Text\<close>, \<^theory_text>\<open>Contract\<close>: the \<^verbatim>\<open>KEY: value\<close> reply and the contract a step declares for it
    (\<^verbatim>\<open>parseOutputKeyValues\<close>, \<^verbatim>\<open>validateExpects\<close>, \<^verbatim>\<open>src/src/installer/workflow-contract.ts\<close>).
  \<^item> \<^theory_text>\<open>Template\<close>: placeholders, the keys a template misses, the quoted and wrapped test command.
  \<^item> \<^theory_text>\<open>Byte_Text\<close>: texts cut to a byte budget, on UTF-16 code units and UTF-8 bytes.
  \<^item> \<^theory_text>\<open>Json\<close>, \<^theory_text>\<open>Stories_Json\<close>: \<^verbatim>\<open>JSON.parse\<close> and the story plan of a reply
    (\<^verbatim>\<open>parseAndInsertStories\<close>, \<^verbatim>\<open>detectDuplicateKeys\<close>, \<^verbatim>\<open>countUnescapedJsonKey\<close>).
  \<^item> \<^theory_text>\<open>Store\<close>, \<^theory_text>\<open>Samples\<close>: the state, its keyed tables (a locale interpreted by all three), sample rows.
  \<^item> \<^theory_text>\<open>Pipeline\<close>: \<^verbatim>\<open>advancePipeline\<close>, \<^verbatim>\<open>checkLoopContinuation\<close>, \<^verbatim>\<open>handleVerifyEachCompletion\<close>,
    \<^verbatim>\<open>finalizeDrainingPause\<close>, the end of a run.
  \<^item> \<^theory_text>\<open>Reroute\<close>: failure classes, budgets and \<^verbatim>\<open>rerouteWithPolicy\<close>.
  \<^item> \<^theory_text>\<open>Ledger_Gate\<close>, \<^theory_text>\<open>Ledger_Ops\<close>: the test evidence a merge needs (\<^verbatim>\<open>src/src/installer/ledger-gate.ts\<close>,
    \<^verbatim>\<open>src/src/suite/tree-hash.ts\<close>) and what a refusal does.
  \<^item> \<^theory_text>\<open>Instant\<close>: \<^verbatim>\<open>src/src/lib/instant.ts\<close>, dates computed on the proleptic Gregorian calendar.
  \<^item> \<^theory_text>\<open>Claim_Context\<close>, \<^theory_text>\<open>Claim\<close>: the input of a step and \<^verbatim>\<open>claimStep\<close>, \<^verbatim>\<open>peekStep\<close>, \<^verbatim>\<open>stepCurrent\<close>.
  \<^item> \<^theory_text>\<open>Recovery\<close>: abandoned and orphaned work, the sweeps for dead and silent workers.
  \<^item> \<^theory_text>\<open>Fail\<close>: \<^verbatim>\<open>failStep\<close>, \<^verbatim>\<open>releaseStep\<close>, \<^verbatim>\<open>resetFailedStoriesForResume\<close>.
  \<^item> \<^theory_text>\<open>Progress\<close>: the progress file, the story plan merged into it, its archive.
  \<^item> \<^theory_text>\<open>Complete\<close>: \<^verbatim>\<open>completeStep\<close> on every branch, with the verdicts of verifiers, reviewers and auditors.


  Around the step operations, the daemon and the command line that drive them:

  \<^item> \<^theory_text>\<open>Process_Identity\<close>: the identity of a process beyond its number
    (\<^verbatim>\<open>src/src/lib/process-start-identity.ts\<close>).
  \<^item> \<^theory_text>\<open>Suite_Claims\<close>: the single-flight claims of test suites (\<^verbatim>\<open>src/src/server/control-server.ts\<close>).
  \<^item> \<^theory_text>\<open>Run_Control\<close>: \<^verbatim>\<open>stopWorkflow\<close>, \<^verbatim>\<open>forceFailRun\<close>, \<^verbatim>\<open>deleteWorkflow\<close> (\<^verbatim>\<open>src/src/installer/status.ts\<close>), \<^verbatim>\<open>handlePauseRun\<close>
    and \<^verbatim>\<open>handleTerminateRun\<close>.
  \<^item> \<^theory_text>\<open>Scheduler\<close>: the registry of jobs, timers and rounds in flight (the type \<open>scheduler\<close>, which holds the store).
  \<^item> \<^theory_text>\<open>Rounds\<close>, \<^theory_text>\<open>Dispatch\<close>, \<^theory_text>\<open>Work_Round\<close>: failing rounds (\<^verbatim>\<open>src/src/installer/instant-fail.ts\<close>), the start and the
    end of a round (\<^verbatim>\<open>executeDispatchRound\<close> in \<^verbatim>\<open>src/src/installer/agent-scheduler.ts\<close>).
  \<^item> \<^theory_text>\<open>Run_Harness\<close>, \<^theory_text>\<open>Admission\<close>: the checks before a run is scheduled, its registration, the queue, the collision of
    directories, the reconciler (\<^verbatim>\<open>admitOrQueueRun\<close>, \<^verbatim>\<open>handleRegisterRun\<close>, \<^verbatim>\<open>reconcileOnce\<close>).
  \<^item> \<^theory_text>\<open>Resume\<close>: \<^verbatim>\<open>handleResumeRun\<close>, with the way back of a sandboxed run whose registration is refused.
  \<^item> \<^theory_text>\<open>Launch\<close>: \<^verbatim>\<open>runWorkflow\<close> and what it writes when it fails (\<^verbatim>\<open>src/src/installer/run.ts\<close>).
  \<^item> \<^theory_text>\<open>Resume_Failed\<close>: \<^verbatim>\<open>resumeWorkflow\<close>, which starts a failed run again from its first failed step.
  \<^item> \<^theory_text>\<open>Rugpull\<close>: the check whether a failed merge lost its base, and the replacement it launches
    (\<^verbatim>\<open>src/src/installer/rugpull.ts\<close>).  A failing step calls it by the effect \<open>CheckRugpull\<close>.

  A theory \<open>X_Props\<close> holds what is proved of \<open>X\<close>.  Across components: \<^theory_text>\<open>Columns\<close> is a locale over any
  reading of the rows that ignores the columns that move, proved of every operation; \<^theory_text>\<open>Lifecycle\<close>
  interprets it twice and reasons about all histories of operations (\<open>reach\<close>); \<^theory_text>\<open>Progression\<close> states the
  contract of a whole pipeline as a queue and proves that the operations refine it.  \<^theory_text>\<open>Admission_Props\<close> has
  the invariants of the registry as locales over the operations on jobs; \<^theory_text>\<open>Resume_Props\<close> a locale of
  restorations, for steps and for stories.

  \<^bold>\<open>What the theorems show.\<close>  Replies and plans are read back as they were written, a contract accepts what its
  clauses say, and the scanner of raw plans finds exactly the repeated keys of a compact text whose keys need
  no escape (\<^verbatim>\<open>Output_Text\<close>, \<^verbatim>\<open>Contract_Props\<close>, \<^verbatim>\<open>Stories_Props\<close>).  A run completes exactly when its
  steps are done; a pause settles exactly when nothing is in flight; a step is promoted in order
  (\<^verbatim>\<open>Pipeline_Props\<close>).  Ways back are bounded: reroutes, those of the merge gate included, by their budgets
  and two one-time allowances, abandoned stories by eight, rejected replies by the retries of the step,
  missing evidence by one concession (\<^verbatim>\<open>Reroute_Bound\<close>, \<^verbatim>\<open>Recovery_Props\<close>, \<^verbatim>\<open>Complete_Props\<close>,
  \<^verbatim>\<open>Ledger_Ops\<close>).  A green gate lets no merge through without green
  evidence; a claim takes the next step and hands out a complete input; a failure is charged only under
  the authority of the claim, whatever happens while it waits; a reply is taken at most once, by
  steps that are not loops; replies set no reserved key of a context (\<^verbatim>\<open>Reserved_Props\<close>); the
  established test command changes by review only; live and fresh work is left alone by the sweeps.
  In every history keys stay unique, references valid, and rows are what they were inserted as; and a
  pipeline of plain steps is completed by as many accepted replies as it has unfinished steps.

  Around them: a suite claim excludes all others until it ends, and is granted when it can be
  (\<^verbatim>\<open>Suite_Claims_Props\<close>); a run that was ended stays ended (\<^verbatim>\<open>Run_Control_Props\<close>); a job whose rounds
  keep failing at once ends, a round starts only with work and leaves no mark otherwise, a paused round that
  held a step is charged nothing (\<^verbatim>\<open>Rounds_Props\<close>, \<^verbatim>\<open>Dispatch\<close>, \<^verbatim>\<open>Work_Round_Props\<close>); runs do not share a directory, the timers
  stay within their limit and a run in preparation has no jobs, in every history of the registry whose admissions do
  not cross (\<^verbatim>\<open>Admission_Props\<close>); a refused resume is undone, and a failed run that is
  resumed starts again from its first failed step (\<^verbatim>\<open>Resume_Props\<close>, \<^verbatim>\<open>Resume_Failed_Props\<close>); a launch that returns leaves the steps of its
  workflow ready, one that fails leaves a failed row
  unless its context claims a pause (\<^verbatim>\<open>Launch_Props\<close>); and a run that asked for a sandbox is
  never replaced by a native one (\<^verbatim>\<open>Rugpull_Props\<close>).  Lemmas on samples beside them show where the code falls
  short of its comments: what a refused resume does not give back, registrations that cross, a repeated
  reply that ends a loop, the marks a replacement inherits.

  \<^bold>\<open>Parameters.\<close>  Workflow files (\<open>specs\<close>), regular expressions written in them (\<open>rx_test\<close>), the environment
  and the host of git and SHA-256 (\<open>env\<close>, \<open>host\<close>), the evidence interface of a sandbox (\<open>evidence\<close>), the
  file system (\<open>files\<close>), random keys and engine texts (\<open>js_host\<close>), the probe of a process, the children of
  the daemon, and the authority over a claim are arguments of the operations that use them.  What
  other operations do while \<^verbatim>\<open>failStep\<close> waits for a workflow file is the argument \<open>between\<close>; likewise the fields
  \<open>ah_validating\<close>, \<open>ah_loading\<close> and \<open>lh_admitting\<close> of the hosts of an admission and of a launch.  These hosts
  (\<open>admit_host\<close>, \<open>resume_host\<close>, \<open>cli_host\<close>, \<open>launch_host\<close>) also hold git, the directories, the harness binaries, the
  worktree that is made, the sandbox's admission, the workflow file and the random keys.  The timeouts of roles, the
  thresholds of failing rounds, and the text and usage that a harness adapter makes of an output are arguments.

  \<^bold>\<open>Recursion and bounds.\<close>  All functions are total: recursion is structural or decreases the remaining text,
  and only the value reader of \<^theory_text>\<open>Json\<close> runs on fuel, one unit for every character of the text, which its
  round trip shows to be enough for what is written as JSON.  Counters are natural numbers; the program
  keeps them in JavaScript numbers, far below where these lose integers.  Strings are Latin-1 except in
  \<^theory_text>\<open>Byte_Text\<close>, where the bytes matter.

  \<^bold>\<open>Not modelled.\<close>  Harness back ends and sandbox hosts, the making and removal of worktrees and the sequence of
  git commands of a merge, the suite shim that records
  executions, HTTP and process supervision of the server, dashboard, command line, diagnostics and autoresearch:
  process control, network, rendering and third-party tools around the operations above.  Warnings to
  the log, the columns of the harness probe, the accounting paths after a failing database write and the recovery of
  a claim after a file-system exception are left out.
\<close>

end
